(* ===== verification/Prelude.thy ===== *)
theory Prelude
  imports Complex_Main "HOL-Library.Monad_Syntax" "HOL-Library.Code_Target_Nat"
begin

text \<open>
  The vocabulary every component shares: the collections of the development,
  the relational reading of a database table as a list of rows (select, update
  and count with a predicate, a key column), sums over such tables, and the
  decimal and hexadecimal text the API exchanges.
\<close>

named_theorems wp_simps \<open>weakest-precondition equations of the transaction primitives\<close>
named_theorems step_simps \<open>successful-result equations of the transaction primitives\<close>
named_theorems row_simps \<open>effects of a table update on sums, keys and lookups\<close>

type_synonym uuid = string
type_synonym millis = int
type_synonym micro = int

section \<open>Tables as lists of rows\<close>

definition select_one :: "('r \<Rightarrow> bool) \<Rightarrow> 'r list \<Rightarrow> 'r option" where
  "select_one P rs = List.find P rs"

definition update_where :: "('r \<Rightarrow> bool) \<Rightarrow> ('r \<Rightarrow> 'r) \<Rightarrow> 'r list \<Rightarrow> 'r list" where
  "update_where P f rs = map (\<lambda>r. if P r then f r else r) rs"

definition count_where :: "('r \<Rightarrow> bool) \<Rightarrow> 'r list \<Rightarrow> nat" where
  "count_where P rs = length (filter P rs)"

definition sum_where :: "('r \<Rightarrow> bool) \<Rightarrow> ('r \<Rightarrow> int) \<Rightarrow> 'r list \<Rightarrow> int" where
  "sum_where P g rs = sum_list (map g (filter P rs))"

lemma select_one_Nil [simp]: "select_one P [] = None"
  by (simp add: select_one_def)

lemma select_one_Cons [simp]:
  "select_one P (r # rs) = (if P r then Some r else select_one P rs)"
  by (simp add: select_one_def)

lemma select_one_SomeD: "select_one P rs = Some r \<Longrightarrow> r \<in> set rs \<and> P r"
  by (induction rs) (auto split: if_splits)

lemma select_one_None_iff: "select_one P rs = None \<longleftrightarrow> (\<forall>r \<in> set rs. \<not> P r)"
  by (induction rs) auto

lemma select_one_append:
  "select_one P (rs @ ss) = (case select_one P rs of None \<Rightarrow> select_one P ss | Some r \<Rightarrow> Some r)"
  by (induction rs) auto

lemma update_where_Nil [simp]: "update_where P f [] = []"
  by (simp add: update_where_def)

lemma update_where_Cons [simp]:
  "update_where P f (r # rs) = (if P r then f r else r) # update_where P f rs"
  by (simp add: update_where_def)

lemma length_update_where [simp]: "length (update_where P f rs) = length rs"
  by (simp add: update_where_def)

lemma in_set_update_where:
  "x \<in> set (update_where P f rs) \<longleftrightarrow> (\<exists>r \<in> set rs. x = (if P r then f r else r))"
  by (auto simp: update_where_def)

lemma map_key_update_where:
  assumes "\<And>r. P r \<Longrightarrow> g (f r) = g r"
  shows "map g (update_where P f rs) = map g rs"
  using assms by (induction rs) auto

lemma update_where_none: "(\<forall>r \<in> set rs. \<not> P r) \<Longrightarrow> update_where P f rs = rs"
  by (induction rs) auto

lemma count_where_Nil [simp]: "count_where P [] = 0"
  by (simp add: count_where_def)

lemma count_where_Cons [simp]:
  "count_where P (r # rs) = (if P r then Suc (count_where P rs) else count_where P rs)"
  by (simp add: count_where_def)

lemma count_where_append [simp]:
  "count_where P (rs @ ss) = count_where P rs + count_where P ss"
  by (simp add: count_where_def)

lemma sum_where_Nil [simp]: "sum_where P g [] = 0"
  by (simp add: sum_where_def)

lemma sum_where_Cons [simp]:
  "sum_where P g (r # rs) = (if P r then g r else 0) + sum_where P g rs"
  by (simp add: sum_where_def)

lemma sum_where_append [simp]:
  "sum_where P g (rs @ ss) = sum_where P g rs + sum_where P g ss"
  by (simp add: sum_where_def)

lemma sum_where_nonneg:
  "(\<And>r. r \<in> set rs \<Longrightarrow> P r \<Longrightarrow> 0 \<le> g r) \<Longrightarrow> 0 \<le> sum_where P g rs"
  by (induction rs) auto

lemma sum_where_ge_member:
  assumes "r \<in> set rs" and "P r" and "\<And>s. s \<in> set rs \<Longrightarrow> P s \<Longrightarrow> 0 \<le> g s"
  shows "g r \<le> sum_where P g rs"
  using assms
proof (induction rs)
  case (Cons s rs)
  have "0 \<le> sum_where P g rs" using Cons.prems by (intro sum_where_nonneg) auto
  with Cons show ?case by (auto intro: add_increasing)
qed simp

section \<open>Tables with a key column\<close>

text \<open>
  A unique column is a list of distinct keys; an update that touches one key
  changes a sum by exactly the change of that row.
\<close>

lemma distinct_key_inj:
  "distinct (map key rs) \<Longrightarrow> r \<in> set rs \<Longrightarrow> s \<in> set rs \<Longrightarrow> key r = key s \<Longrightarrow> r = s"
  by (induction rs) (auto simp: image_iff)

lemma filter_key_single:
  assumes "distinct (map key rs)" and "r \<in> set rs" and "key r = k"
  shows "filter (\<lambda>s. key s = k) rs = [r]"
  using assms by (induction rs) (auto simp: filter_empty_conv image_iff)

lemma sum_where_unique:
  assumes "distinct (map key rs)" and "select_one (\<lambda>r. key r = k) rs = Some r"
  shows "sum_where (\<lambda>r. key r = k) f rs = f r"
  using filter_key_single [OF assms(1), of r k] select_one_SomeD [OF assms(2)] by (simp add: sum_where_def)

lemma select_one_key:
  assumes "distinct (map key rs)" and "r \<in> set rs"
  shows "select_one (\<lambda>s. key s = key r) rs = Some r"
  using assms by (induction rs) (auto simp: image_iff)

lemma sum_where_update_key:
  assumes "distinct (map key rs)" and "select_one (\<lambda>s. key s = k) rs = Some r"
  shows "sum_where P g (update_where (\<lambda>s. key s = k) f rs) =
    sum_where P g rs - (if P r then g r else 0) + (if P (f r) then g (f r) else 0)"
  using assms
proof (induction rs)
  case (Cons s rs)
  show ?case
  proof (cases "key s = k")
    case True
    then have "\<forall>x \<in> set rs. key x \<noteq> k" using Cons.prems by (auto simp: image_iff)
    then show ?thesis using True Cons.prems by (auto simp: update_where_none)
  next
    case False
    then show ?thesis using Cons by auto
  qed
qed simp

lemma sum_where_update_same:
  assumes "\<And>r. r \<in> set rs \<Longrightarrow> Q r \<Longrightarrow> (if P (f r) then g (f r) else 0) = (if P r then g r else 0)"
  shows "sum_where P g (update_where Q f rs) = sum_where P g rs"
  using assms
proof (induction rs)
  case (Cons a rs)
  have a: "Q a \<Longrightarrow> (if P (f a) then g (f a) else 0) = (if P a then g a else 0)"
    by (rule Cons.prems) simp_all
  have "sum_where P g (update_where Q f rs) = sum_where P g rs"
    by (rule Cons.IH, rule Cons.prems) simp_all
  with a show ?case by (auto split: if_splits)
qed simp

lemma select_one_update_key:
  assumes "select_one (\<lambda>s. key s = k) rs = Some r" and "\<And>s. key (f s) = key s"
  shows "select_one (\<lambda>s. key s = k) (update_where (\<lambda>s. key s = k) f rs) = Some (f r)"
  using assms by (induction rs) (auto split: if_splits)

lemma select_one_update_other:
  assumes "\<And>s. key (f s) = key s" and "k \<noteq> k'"
  shows "select_one (\<lambda>s. key s = k) (update_where (\<lambda>s. key s = k') f rs) =
    select_one (\<lambda>s. key s = k) rs"
  using assms by (induction rs) auto

section \<open>Decimal and hexadecimal text\<close>

definition is_digit :: "char \<Rightarrow> bool" where
  "is_digit c \<longleftrightarrow> 48 \<le> (of_char c :: nat) \<and> (of_char c :: nat) \<le> 57"

definition digit_val :: "char \<Rightarrow> nat" where
  "digit_val c = of_char c - 48"

definition digit_char :: "nat \<Rightarrow> char" where
  "digit_char d = char_of (48 + d)"

text \<open>The regular expression \<^verbatim>\<open>/^\d+$/\<close> and \<^verbatim>\<open>BigInt\<close> on the strings it accepts.\<close>

definition is_digits :: "string \<Rightarrow> bool" where
  "is_digits s \<longleftrightarrow> s \<noteq> [] \<and> list_all is_digit s"

definition parse_nat :: "string \<Rightarrow> nat" where
  "parse_nat s = foldl (\<lambda>acc c. 10 * acc + digit_val c) 0 s"

definition big_int :: "string \<Rightarrow> int" where
  "big_int s = int (parse_nat s)"

fun show_nat :: "nat \<Rightarrow> string" where
  "show_nat n = (if n < 10 then [digit_char n] else show_nat (n div 10) @ [digit_char (n mod 10)])"

declare show_nat.simps [simp del]

definition show_int :: "int \<Rightarrow> string" where
  "show_int i = (if i < 0 then CHR ''-'' # show_nat (nat (- i)) else show_nat (nat i))"

lemma of_char_digit_char: "d < 10 \<Longrightarrow> (of_char (digit_char d) :: nat) = 48 + d"
  by (simp add: digit_char_def)

lemma digit_val_digit_char [simp]: "d < 10 \<Longrightarrow> digit_val (digit_char d) = d"
  by (simp add: digit_val_def of_char_digit_char)

lemma is_digit_digit_char [simp]: "d < 10 \<Longrightarrow> is_digit (digit_char d)"
  by (simp add: is_digit_def of_char_digit_char)

lemma parse_nat_snoc: "parse_nat (s @ [c]) = 10 * parse_nat s + digit_val c"
  by (simp add: parse_nat_def)

lemma parse_show_nat [simp]: "parse_nat (show_nat n) = n"
proof (induction n rule: show_nat.induct)
  case (1 n)
  show ?case
  proof (cases "n < 10")
    case True
    then show ?thesis by (subst show_nat.simps) (simp add: parse_nat_def)
  next
    case False
    then show ?thesis using 1 by (subst show_nat.simps) (simp add: parse_nat_snoc)
  qed
qed

lemma is_digits_show_nat [simp]: "is_digits (show_nat n)"
proof (induction n rule: show_nat.induct)
  case (1 n)
  then show ?case by (subst show_nat.simps) (auto simp: is_digits_def)
qed

lemma show_nat_not_Nil [simp]: "show_nat n \<noteq> []"
  using is_digits_show_nat [of n] by (simp add: is_digits_def)

lemma show_nat_inj [simp]: "show_nat m = show_nat n \<longleftrightarrow> m = n"
  using parse_show_nat by metis

lemma big_int_show_int [simp]: "0 \<le> i \<Longrightarrow> big_int (show_int i) = i"
  by (simp add: big_int_def show_int_def)

lemma big_int_nonneg [simp]: "0 \<le> big_int s"
  by (simp add: big_int_def)

definition is_hex :: "char \<Rightarrow> bool" where
  "is_hex c \<longleftrightarrow> is_digit c
     \<or> (97 \<le> (of_char c :: nat) \<and> (of_char c :: nat) \<le> 102)
     \<or> (65 \<le> (of_char c :: nat) \<and> (of_char c :: nat) \<le> 70)"

text \<open>\<^verbatim>\<open>/^0x[0-9a-fA-F]{n}$/u\<close>\<close>

definition is_0x_hex :: "nat \<Rightarrow> string \<Rightarrow> bool" where
  "is_0x_hex n s \<longleftrightarrow> take 2 s = ''0x'' \<and> length s = n + 2 \<and> list_all is_hex (drop 2 s)"

definition lower_char :: "char \<Rightarrow> char" where
  "lower_char c = (if 65 \<le> (of_char c :: nat) \<and> (of_char c :: nat) \<le> 90
     then char_of ((of_char c :: nat) + 32) else c)"

definition upper_char :: "char \<Rightarrow> char" where
  "upper_char c = (if 97 \<le> (of_char c :: nat) \<and> (of_char c :: nat) \<le> 122
     then char_of ((of_char c :: nat) - 32) else c)"

text \<open>\<^verbatim>\<open>toLowerCase\<close> and \<^verbatim>\<open>toUpperCase\<close> on ASCII text, the only text the callers pass.\<close>

definition to_lower :: "string \<Rightarrow> string" where
  "to_lower = map lower_char"

definition to_upper :: "string \<Rightarrow> string" where
  "to_upper = map upper_char"

lemma lower_char_idem [simp]: "lower_char (lower_char c) = lower_char c"
  by (auto simp: lower_char_def)

lemma to_lower_idem [simp]: "to_lower (to_lower s) = to_lower s"
  by (simp add: to_lower_def)

lemma length_to_lower [simp]: "length (to_lower s) = length s"
  by (simp add: to_lower_def)

section \<open>JavaScript text and arrays\<close>

definition js_space :: "char \<Rightarrow> bool" where
  "js_space c \<longleftrightarrow> of_char c \<in> {9, 10, 11, 12, 13, 32, 160 :: nat}"

definition js_trim :: "string \<Rightarrow> string" where
  "js_trim t = rev (dropWhile js_space (rev (dropWhile js_space t)))"

text \<open>\<^verbatim>\<open>Array.from(new Set(xs))\<close>: the first occurrence of each value, in order.\<close>

definition array_from_set :: "'a list \<Rightarrow> 'a list" where
  "array_from_set xs = rev (remdups (rev xs))"

lemma set_array_from_set [simp]: "set (array_from_set xs) = set xs"
  by (simp add: array_from_set_def)

lemma distinct_array_from_set [simp]: "distinct (array_from_set xs)"
  by (simp add: array_from_set_def)

lemma length_array_from_set: "length (array_from_set xs) \<le> length xs"
  by (simp add: array_from_set_def) (metis length_remdups_leq length_rev)

text \<open>\<^verbatim>\<open>xs.join(sep)\<close>\<close>

fun join_with :: "string \<Rightarrow> string list \<Rightarrow> string" where
  "join_with sep [] = []"
| "join_with sep [x] = x"
| "join_with sep (x # y # xs) = x @ sep @ join_with sep (y # xs)"

end
