(* ===== verification/Transactions.thy ===== *)
theory Transactions
  imports Prelude
begin

text \<open>
  Failures of the API and database transactions.  A transaction maps a
  database state to a failure (nothing is written: the rollback) or to a value
  and the committed state.  The weakest-precondition equations of the
  combinators carry the invariant proofs of the handlers, the success
  equations carry the proofs about what a handler did.
\<close>

section \<open>Failures (services/api/src/lib/errors.ts, server.ts)\<close>

text \<open>
  \<open>ApiError statusCode code message\<close> is the class of lib/errors.ts; a violated
  constraint surfaces as a \<open>PgError\<close> with its SQLSTATE and constraint name, a
  rejected request body as a \<open>ZodError\<close>, any other thrown value as
  \<open>InternalError\<close>.
\<close>

datatype failure =
    ApiError (statusCode: int) (code: string) (message: string)
  | ZodError (path: string)
  | PgError (sqlstate: string) (constraint_name: string)
  | InternalError (detail: string)

definition BadRequestError :: "string \<Rightarrow> string \<Rightarrow> failure" where
  "BadRequestError msg c = ApiError 400 c msg"

definition UnauthorizedError :: "string \<Rightarrow> string \<Rightarrow> failure" where
  "UnauthorizedError msg c = ApiError 401 c msg"

definition ForbiddenError :: "string \<Rightarrow> string \<Rightarrow> failure" where
  "ForbiddenError msg c = ApiError 403 c msg"

definition NotFoundError :: "string \<Rightarrow> string \<Rightarrow> failure" where
  "NotFoundError msg c = ApiError 404 c msg"

definition ConflictError :: "string \<Rightarrow> string \<Rightarrow> failure" where
  "ConflictError msg c = ApiError 409 c msg"

definition TooManyRequestsError :: "string \<Rightarrow> string \<Rightarrow> failure" where
  "TooManyRequestsError msg c = ApiError 429 c msg"

definition ServiceUnavailableError :: "string \<Rightarrow> string \<Rightarrow> failure" where
  "ServiceUnavailableError msg c = ApiError 503 c msg"

text \<open>\<^verbatim>\<open>new BadRequestError(c, c)\<close>, the usual spelling of a refused request.\<close>

definition bad :: "string \<Rightarrow> failure" where
  "bad c = BadRequestError c c"

lemmas api_error_defs = BadRequestError_def UnauthorizedError_def ForbiddenError_def
  NotFoundError_def ConflictError_def TooManyRequestsError_def ServiceUnavailableError_def

text \<open>The status code and error code the error handler of server.ts answers with.\<close>

fun errorHandler :: "failure \<Rightarrow> int \<times> string" where
  "errorHandler (ZodError p) = (400, ''validation_error'')"
| "errorHandler (ApiError st c m) = (st, c)"
| "errorHandler (PgError st c) = (500, ''internal_error'')"
| "errorHandler (InternalError d) = (500, ''internal_error'')"

text \<open>\<^verbatim>\<open>pgCode(err) === "23505"\<close>: the helper of lib/pg-errors.ts.\<close>

fun isUniqueViolation :: "failure \<Rightarrow> bool" where
  "isUniqueViolation (PgError st c) \<longleftrightarrow> st = ''23505''"
| "isUniqueViolation _ \<longleftrightarrow> False"

definition unique_violation :: "string \<Rightarrow> failure" where
  "unique_violation c = PgError ''23505'' c"

definition check_violation :: "string \<Rightarrow> failure" where
  "check_violation c = PgError ''23514'' c"

section \<open>Transactions\<close>

type_synonym ('s, 'a) tx = "'s \<Rightarrow> failure + 'a \<times> 's"

definition returnT :: "'a \<Rightarrow> ('s, 'a) tx" where
  "returnT a s = Inr (a, s)"

definition throwT :: "failure \<Rightarrow> ('s, 'a) tx" where
  "throwT e s = Inl e"

definition bindT :: "('s, 'a) tx \<Rightarrow> ('a \<Rightarrow> ('s, 'b) tx) \<Rightarrow> ('s, 'b) tx" where
  "bindT m f s = (case m s of Inl e \<Rightarrow> Inl e | Inr (a, s') \<Rightarrow> f a s')"

definition thenT :: "('s, 'a) tx \<Rightarrow> ('s, 'b) tx \<Rightarrow> ('s, 'b) tx" where
  "thenT m k = bindT m (\<lambda>_. k)"

definition getT :: "('s \<Rightarrow> 'a) \<Rightarrow> ('s, 'a) tx" where
  "getT f s = Inr (f s, s)"

definition modifyT :: "('s \<Rightarrow> 's) \<Rightarrow> ('s, unit) tx" where
  "modifyT f s = Inr ((), f s)"

text \<open>\<open>throwIf c e\<close> is the source's \<^verbatim>\<open>if (c) throw e\<close>.\<close>

definition throwIf :: "bool \<Rightarrow> failure \<Rightarrow> ('s, unit) tx" where
  "throwIf c e = (if c then throwT e else returnT ())"

definition whenT :: "bool \<Rightarrow> ('s, unit) tx \<Rightarrow> ('s, unit) tx" where
  "whenT c m = (if c then m else returnT ())"

text \<open>\<^verbatim>\<open>const [row] = await select; if (!row) throw e\<close>\<close>

definition someOr :: "failure \<Rightarrow> 'a option \<Rightarrow> ('s, 'a) tx" where
  "someOr e r = (case r of None \<Rightarrow> throwT e | Some a \<Rightarrow> returnT a)"

text \<open>A pure fallible helper called inside a transaction.\<close>

definition liftE :: "failure + 'a \<Rightarrow> ('s, 'a) tx" where
  "liftE r = (case r of Inl e \<Rightarrow> throwT e | Inr a \<Rightarrow> returnT a)"

text \<open>\<^verbatim>\<open>try { m } catch (err) { if (isUniqueViolation(err)) throw c; throw err; }\<close>\<close>

definition catchUnique :: "('s, 'a) tx \<Rightarrow> failure \<Rightarrow> ('s, 'a) tx" where
  "catchUnique m c s = (case m s of
     Inl e \<Rightarrow> Inl (if isUniqueViolation e then c else e) | Inr r \<Rightarrow> Inr r)"

fun forT :: "'a list \<Rightarrow> ('a \<Rightarrow> ('s, 'b) tx) \<Rightarrow> ('s, 'b list) tx" where
  "forT [] f = returnT []"
| "forT (x # xs) f = bindT (f x) (\<lambda>y. bindT (forT xs f) (\<lambda>ys. returnT (y # ys)))"

section \<open>Weakest preconditions\<close>

text \<open>\<open>wp m Q s\<close>: if \<open>m\<close> commits from \<open>s\<close>, the result satisfies \<open>Q\<close>.\<close>

definition wp :: "('s, 'a) tx \<Rightarrow> ('a \<Rightarrow> 's \<Rightarrow> bool) \<Rightarrow> 's \<Rightarrow> bool" where
  "wp m Q s = (case m s of Inl e \<Rightarrow> True | Inr (a, s') \<Rightarrow> Q a s')"

lemma wp_returnT [wp_simps]: "wp (returnT a) Q s = Q a s"
  by (simp add: wp_def returnT_def)

lemma wp_throwT [wp_simps]: "wp (throwT e) Q s = True"
  by (simp add: wp_def throwT_def)

lemma wp_bindT [wp_simps]: "wp (bindT m f) Q s = wp m (\<lambda>a. wp (f a) Q) s"
  by (simp add: wp_def bindT_def split: sum.splits prod.splits)

lemma wp_thenT [wp_simps]: "wp (thenT m k) Q s = wp m (\<lambda>_. wp k Q) s"
  by (simp add: thenT_def wp_bindT)

lemma wp_getT [wp_simps]: "wp (getT f) Q s = Q (f s) s"
  by (simp add: wp_def getT_def)

lemma wp_modifyT [wp_simps]: "wp (modifyT f) Q s = Q () (f s)"
  by (simp add: wp_def modifyT_def)

lemma wp_throwIf [wp_simps]: "wp (throwIf c e) Q s = (\<not> c \<longrightarrow> Q () s)"
  by (simp add: throwIf_def wp_throwT wp_returnT)

lemma wp_whenT [wp_simps]: "wp (whenT c m) Q s = ((c \<longrightarrow> wp m Q s) \<and> (\<not> c \<longrightarrow> Q () s))"
  by (simp add: whenT_def wp_returnT)

lemma wp_someOr [wp_simps]: "wp (someOr e r) Q s = (\<forall>a. r = Some a \<longrightarrow> Q a s)"
  by (cases r) (simp_all add: someOr_def wp_throwT wp_returnT)

lemma wp_liftE [wp_simps]: "wp (liftE r) Q s = (\<forall>a. r = Inr a \<longrightarrow> Q a s)"
  by (cases r) (simp_all add: liftE_def wp_throwT wp_returnT)

lemma wp_catchUnique [wp_simps]: "wp (catchUnique m c) Q s = wp m Q s"
  by (simp add: wp_def catchUnique_def split: sum.splits)

lemma wp_mono: "wp m Q s \<Longrightarrow> (\<And>a t. Q a t \<Longrightarrow> R a t) \<Longrightarrow> wp m R s"
  by (auto simp: wp_def split: sum.splits)

lemma wp_conj: "wp m Q s \<Longrightarrow> wp m R s \<Longrightarrow> wp m (\<lambda>a t. Q a t \<and> R a t) s"
  by (auto simp: wp_def split: sum.splits)

lemma wpD: "wp m Q s \<Longrightarrow> m s = Inr (a, t) \<Longrightarrow> Q a t"
  by (simp add: wp_def)

lemma wpI: "(\<And>a t. m s = Inr (a, t) \<Longrightarrow> Q a t) \<Longrightarrow> wp m Q s"
  by (auto simp: wp_def split: sum.splits)

text \<open>A loop keeps what each of its iterations keeps.\<close>

lemma wp_forT:
  assumes "\<And>x s. x \<in> set xs \<Longrightarrow> I s \<Longrightarrow> wp (f x) (\<lambda>_. I) s" and "I s"
  shows "wp (forT xs f) (\<lambda>_. I) s"
  using assms
proof (induction xs arbitrary: s)
  case Nil
  then show ?case by (simp add: wp_returnT)
next
  case (Cons x xs)
  have "wp (f x) (\<lambda>_. I) s" by (rule Cons.prems) (simp_all add: Cons.prems)
  moreover have "wp (forT xs f) (\<lambda>_. I) t" if "I t" for t
    using Cons that by simp
  ultimately show ?case
    by (auto simp: wp_bindT wp_returnT [abs_def] elim!: wp_mono)
qed

section \<open>Successful results\<close>

lemma returnT_Inr [step_simps]: "returnT a s = Inr (b, t) \<longleftrightarrow> b = a \<and> t = s"
  by (auto simp: returnT_def)

lemma throwT_Inr [step_simps]: "throwT e s = Inr (b, t) \<longleftrightarrow> False"
  by (simp add: throwT_def)

lemma bindT_Inr [step_simps]:
  "bindT m f s = Inr (b, t) \<longleftrightarrow> (\<exists>a s'. m s = Inr (a, s') \<and> f a s' = Inr (b, t))"
  by (auto simp: bindT_def split: sum.splits)

lemma thenT_Inr [step_simps]:
  "thenT m k s = Inr (b, t) \<longleftrightarrow> (\<exists>a s'. m s = Inr (a, s') \<and> k s' = Inr (b, t))"
  by (simp add: thenT_def bindT_Inr)

lemma getT_Inr [step_simps]: "getT f s = Inr (b, t) \<longleftrightarrow> b = f s \<and> t = s"
  by (auto simp: getT_def)

lemma modifyT_Inr [step_simps]: "modifyT f s = Inr (b, t) \<longleftrightarrow> t = f s"
  by (auto simp: modifyT_def)

lemma throwIf_Inr [step_simps]: "throwIf c e s = Inr (b, t) \<longleftrightarrow> \<not> c \<and> t = s"
  by (auto simp: throwIf_def throwT_def returnT_def)

lemma whenT_Inr [step_simps]:
  "whenT c m s = Inr (b, t) \<longleftrightarrow> (if c then m s = Inr (b, t) else t = s)"
  by (auto simp: whenT_def returnT_def)

lemma someOr_Inr [step_simps]: "someOr e r s = Inr (b, t) \<longleftrightarrow> r = Some b \<and> t = s"
  by (auto simp: someOr_def throwT_def returnT_def split: option.splits)

lemma liftE_Inr [step_simps]: "liftE r s = Inr (b, t) \<longleftrightarrow> r = Inr b \<and> t = s"
  by (auto simp: liftE_def throwT_def returnT_def split: sum.splits)

lemma catchUnique_Inr [step_simps]: "catchUnique m c s = Inr r \<longleftrightarrow> m s = Inr r"
  by (simp add: catchUnique_def split: sum.splits)

lemmas run_defs = catchUnique_def bindT_def thenT_def returnT_def throwT_def getT_def modifyT_def throwIf_def
  whenT_def someOr_def liftE_def

section \<open>Calls of several transactions\<close>

text \<open>
  A call that commits before it throws (an expired quote is marked expired and
  then refused, a rejected bet is logged) keeps its writes: its outcome is the
  answer next to the state it left.
\<close>

type_synonym ('s, 'a) call = "'s \<Rightarrow> (failure + 'a) \<times> 's"

definition atomically :: "('s, 'a) tx \<Rightarrow> ('s, 'a) call" where
  "atomically m s = (case m s of Inl e \<Rightarrow> (Inl e, s) | Inr (a, t) \<Rightarrow> (Inr a, t))"

definition bindC :: "('s, 'a) call \<Rightarrow> ('a \<Rightarrow> ('s, 'b) call) \<Rightarrow> ('s, 'b) call" where
  "bindC m f s = (case m s of (Inl e, t) \<Rightarrow> (Inl e, t) | (Inr a, t) \<Rightarrow> f a t)"

definition throwC :: "failure \<Rightarrow> ('s, 'a) call" where
  "throwC e s = (Inl e, s)"

definition returnC :: "'a \<Rightarrow> ('s, 'a) call" where
  "returnC a s = (Inr a, s)"

text \<open>\<^verbatim>\<open>try { m } catch { log }\<close>: a failure of \<open>m\<close> is dropped.\<close>

definition best_effort :: "('s, 'a) call \<Rightarrow> ('s, unit) call" where
  "best_effort m s = (Inr (), snd (m s))"

lemma atomically_eq [step_simps]:
  "atomically m s = (Inr a, t) \<longleftrightarrow> m s = Inr (a, t)"
  "atomically m s = (Inl e, t) \<longleftrightarrow> m s = Inl e \<and> t = s"
  by (auto simp: atomically_def split: sum.splits)

lemma bindC_Inr [step_simps]:
  "bindC m f s = (Inr b, t) \<longleftrightarrow> (\<exists>a s'. m s = (Inr a, s') \<and> f a s' = (Inr b, t))"
  by (auto simp: bindC_def split: sum.splits prod.splits)

lemma bindC_Inl [step_simps]:
  "bindC m f s = (Inl e, t) \<longleftrightarrow> m s = (Inl e, t) \<or> (\<exists>a s'. m s = (Inr a, s') \<and> f a s' = (Inl e, t))"
  by (auto simp: bindC_def split: sum.splits prod.splits)

lemma pureC_eq [step_simps]:
  "throwC e s = (r, t) \<longleftrightarrow> r = Inl e \<and> t = s"
  "returnC a s = (q, t) \<longleftrightarrow> q = Inr a \<and> t = s"
  "best_effort m s = (x, t) \<longleftrightarrow> x = Inr () \<and> t = snd (m s)"
  by (auto simp: throwC_def returnC_def best_effort_def)

text \<open>A call whose answer does not matter.\<close>

definition unitC :: "('s, 'a) call \<Rightarrow> ('s, unit) call" where
  "unitC m s = (case m s of (a, t) \<Rightarrow> (map_sum id (\<lambda>_. ()) a, t))"

lemma snd_unitC [simp]: "snd (unitC m s) = snd (m s)"
  by (simp add: unitC_def split: prod.splits)

lemma unitC_eq: "unitC m s = (a, t) \<Longrightarrow> \<exists>b. m s = (b, t)"
  by (auto simp: unitC_def split: prod.splits)

end
