(* ===== verification/Database.thy ===== *)
theory Database
  imports Transactions
begin

text \<open>
  The schema of packages/db/src/schema: one record per table row, the database
  as the record of its tables, and the SQL statements the handlers issue with
  the constraints the schema declares.  A statement that violates a CHECK, a
  unique index or the range of a \<open>bigint\<close> column fails and the surrounding
  transaction rolls back.
\<close>

section \<open>Enumerations (packages/db/src/enums.ts)\<close>

datatype currency = USDC | OZ

datatype user_status = active | blocked | pending_kyc

datatype user_role = user_r | admin_r | support_r

datatype kyc_status = kyc_none | kyc_pending | kyc_approved | kyc_rejected

datatype wallet_tx_type = deposit | withdrawal | bet_stake | bet_payout | bet_refund
  | adjustment | cashout | slot_stake | slot_payout | slot_refund

datatype chain_network = TRC20 | ERC20

datatype deposit_intent_status = di_pending | di_confirming | di_credited | di_rejected

datatype withdrawal_status = requested | approved | submitted | confirmed | failed | cancelled

datatype outcome_result = res_won | res_lost | res_void | res_half_won | res_half_lost

datatype ticket_status = pending_delay | accepted | rejected | settled | voided | cashed_out

datatype bet_type = single | combo | system | tiple | tippot | betbuilder

datatype cashout_status = offered | co_accepted | declined | expired | errored | unavailable

datatype bank_ledger_type = seed | bl_bet_loss | bl_bet_payout | bl_bet_refund | manual_adjust
  | deposit_credit | withdrawal_debit

datatype spin_status = spin_open | spin_won | spin_lost | spin_void

datatype game_status = scheduled | live | paused | ended | game_voided

datatype json = JNull | JBool bool | JNum int | JReal rat | JStr string | JArr "json list"
  | JObj "(string \<times> json) list"

fun show_withdrawal_status :: "withdrawal_status \<Rightarrow> string" where
  "show_withdrawal_status requested = ''requested''"
| "show_withdrawal_status approved = ''approved''"
| "show_withdrawal_status submitted = ''submitted''"
| "show_withdrawal_status confirmed = ''confirmed''"
| "show_withdrawal_status failed = ''failed''"
| "show_withdrawal_status cancelled = ''cancelled''"

fun show_deposit_intent_status :: "deposit_intent_status \<Rightarrow> string" where
  "show_deposit_intent_status di_pending = ''pending''"
| "show_deposit_intent_status di_confirming = ''confirming''"
| "show_deposit_intent_status di_credited = ''credited''"
| "show_deposit_intent_status di_rejected = ''rejected''"

fun show_ticket_status :: "ticket_status \<Rightarrow> string" where
  "show_ticket_status pending_delay = ''pending_delay''"
| "show_ticket_status accepted = ''accepted''"
| "show_ticket_status rejected = ''rejected''"
| "show_ticket_status settled = ''settled''"
| "show_ticket_status voided = ''voided''"
| "show_ticket_status cashed_out = ''cashed_out''"

fun show_cashout_status :: "cashout_status \<Rightarrow> string" where
  "show_cashout_status offered = ''offered''"
| "show_cashout_status co_accepted = ''accepted''"
| "show_cashout_status declined = ''declined''"
| "show_cashout_status expired = ''expired''"
| "show_cashout_status errored = ''errored''"
| "show_cashout_status unavailable = ''unavailable''"

text \<open>packages/types/src/currencies.ts.\<close>

definition isCurrency :: "string \<Rightarrow> currency option" where
  "isCurrency v = (if v = ''USDC'' then Some USDC else if v = ''OZ'' then Some OZ else None)"

definition DEFAULT_CURRENCY :: currency where "DEFAULT_CURRENCY = USDC"

section \<open>Rows\<close>

record users_row =
  u_id :: uuid
  u_email :: string
  u_passwordHash :: string
  u_status :: user_status
  u_role :: user_role
  u_kycStatus :: kyc_status
  u_countryCode :: "string option"
  u_globalLimitMicro :: micro
  u_betDelaySeconds :: int
  u_displayName :: "string option"
  u_riskScore :: string
  u_sportOrder :: "string list option"
  u_hiddenSports :: "string list option"
  u_emailVerifiedAt :: "millis option"
  u_notes :: "string option"
  u_labels :: "string list"
  u_updatedAt :: millis
  u_lastLoginAt :: "millis option"

record sessions_row =
  se_id :: uuid
  se_userId :: uuid
  se_refreshTokenHash :: string
  se_deviceId :: "string option"
  se_userAgent :: "string option"
  se_ipInet :: "string option"
  se_expiresAt :: millis
  se_revokedAt :: "millis option"
  se_familyId :: uuid
  se_parentSessionId :: "uuid option"

text \<open>The tables of verification and of reset tokens have the same columns but for the requesting address.\<close>

record mail_token_row =
  mt_id :: uuid
  mt_userId :: uuid
  mt_tokenHash :: string
  mt_expiresAt :: millis
  mt_usedAt :: "millis option"
  mt_requestedIp :: "string option"

record email_outbox_row =
  eo_kind :: string
  eo_userId :: "uuid option"
  eo_toAddress :: string
  eo_subject :: string
  eo_payload :: json
  eo_dedupKey :: "string option"

record wallets_row =
  w_userId :: uuid
  w_currency :: currency
  w_balanceMicro :: micro
  w_lockedMicro :: micro
  w_updatedAt :: millis

record wallet_ledger_row =
  l_userId :: uuid
  l_currency :: currency
  l_deltaMicro :: micro
  l_type :: wallet_tx_type
  l_refType :: "string option"
  l_refId :: "string option"
  l_txHash :: "string option"
  l_memo :: "string option"

record withdrawals_row =
  wd_id :: uuid
  wd_userId :: uuid
  wd_network :: chain_network
  wd_toAddress :: string
  wd_amountMicro :: micro
  wd_feeMicro :: micro
  wd_status :: withdrawal_status
  wd_txHash :: "string option"
  wd_requestedAt :: millis
  wd_approvedAt :: "millis option"
  wd_submittedAt :: "millis option"
  wd_confirmedAt :: "millis option"
  wd_failureReason :: "string option"
  wd_approvedByUserId :: "uuid option"
  wd_submittedByUserId :: "uuid option"
  wd_confirmedByUserId :: "uuid option"

record deposit_intents_row =
  di_id :: uuid
  di_userId :: uuid
  di_network :: chain_network
  di_txHash :: string
  di_fromAddress :: "string option"
  di_amountMicro :: "micro option"
  di_blockNumber :: "int option"
  di_blockHash :: "string option"
  di_logIndex :: "int option"
  di_status :: deposit_intent_status
  di_failureReason :: "string option"
  di_detectedTokenContract :: "string option"
  di_detectedTokenAmountRaw :: "string option"
  di_acknowledgedAt :: "millis option"
  di_acknowledgedByUserId :: "uuid option"
  di_creditedAt :: "millis option"
  di_rejectedAt :: "millis option"

text \<open>The deposits of the earlier scheme: read only, as history of a user.\<close>

record deposits_row =
  d_id :: uuid
  d_userId :: uuid

record unattributed_deposits_row =
  ud_id :: uuid
  ud_network :: chain_network
  ud_txHash :: string
  ud_logIndex :: int
  ud_tokenContract :: string
  ud_amountRaw :: string
  ud_acknowledgedAt :: "millis option"
  ud_acknowledgedByUserId :: "uuid option"
  ud_note :: "string option"

record user_wallet_addresses_row =
  a_id :: uuid
  a_userId :: uuid
  a_network :: chain_network
  a_address :: string
  a_label :: "string option"
  a_createdAt :: millis

record bank_state_row =
  bankLimitMicro :: micro
  openLiabilityMicro :: micro
  bank_updatedBy :: "uuid option"
  bank_updatedAt :: millis

record bank_ledger_row =
  bl_deltaMicro :: micro
  bl_type :: bank_ledger_type
  bl_refType :: "string option"
  bl_refId :: "string option"
  bl_actorUserId :: "uuid option"
  bl_memo :: "string option"

record audit_row =
  au_actorUserId :: uuid
  au_action :: string
  au_targetType :: string
  au_targetId :: string
  au_beforeJson :: json
  au_afterJson :: json
  au_ipInet :: "string option"

record tickets_row =
  t_id :: uuid
  t_userId :: uuid
  t_status :: ticket_status
  t_betType :: bet_type
  t_currency :: currency
  t_stakeMicro :: micro
  t_potentialPayoutMicro :: micro
  t_actualPayoutMicro :: "micro option"
  t_idempotencyKey :: string
  t_notBeforeTs :: "millis option"
  t_rejectReason :: "string option"
  t_placedAt :: millis
  t_acceptedAt :: "millis option"
  t_settledAt :: "millis option"
  t_clientIp :: "string option"
  t_userAgent :: "string option"
  t_betMeta :: "json option"
  t_acceptOddsChanges :: bool
  t_quoteToPlaceMs :: "int option"

record cashouts_row =
  c_id :: uuid
  c_ticketId :: uuid
  c_userId :: uuid
  c_status :: cashout_status
  c_offeredMicro :: micro
  c_payoutMicro :: "micro option"
  c_ticketOddsSnapshot :: string
  c_probabilitySnapshot :: string
  c_deductionFactorSnapshot :: "string option"
  c_reason :: "string option"
  c_expiresAt :: millis
  c_acceptedAt :: "millis option"
  c_executedAt :: "millis option"

record ticket_selections_row =
  ts_ticketId :: uuid
  ts_marketId :: int
  ts_outcomeId :: string
  ts_oddsAtPlacement :: string
  ts_probabilityAtPlacement :: "string option"
  ts_boostRuleId :: "uuid option"
  ts_result :: "outcome_result option"
  ts_voidFactor :: "string option"
  ts_settledAt :: "millis option"

record event_log_row =
  ev_ticketId :: "uuid option"
  ev_userId :: uuid
  ev_decision :: string
  ev_reasonMessage :: "string option"
  ev_currency :: currency
  ev_stakeMicro :: micro
  ev_potentialPayoutMicro :: micro
  ev_matchId :: "int option"
  ev_sportId :: "int option"
  ev_tournamentId :: "int option"
  ev_riskTier :: "int option"
  ev_rsAtDecision :: string
  ev_bankAtDecisionMicro :: micro
  ev_decisionMeta :: json

record slotzilla_games_row =
  g_matchId :: int
  g_srMatchId :: int
  g_status :: game_status
  g_paytableId :: "int option"
  g_clockSeconds :: "int option"
  g_clockRunning :: bool
  g_clockPeriod :: "int option"
  g_clockReadAt :: "millis option"
  g_spinsCount :: int
  g_usdcStakeMicro :: micro
  g_usdcPayoutMicro :: micro
  g_ozStakeMicro :: micro
  g_ozPayoutMicro :: micro
  g_pausedBy :: "uuid option"
  g_pausedAt :: "millis option"
  g_note :: "string option"
  g_isDemo :: bool
  g_updatedAt :: millis

record slotzilla_spins_row =
  sp_id :: uuid
  sp_userId :: uuid
  sp_matchId :: int
  sp_currency :: currency
  sp_stakeMicro :: micro
  sp_exposureMicro :: micro
  sp_paytableId :: int
  sp_windowFrom :: int
  sp_reels :: "string list option"
  sp_reelTeams :: "string option list option"
  sp_lineKey :: "string option"
  sp_multiplierX100 :: "int option"
  sp_payoutMicro :: micro
  sp_status :: spin_status
  sp_voidReason :: "string option"
  sp_autoplay :: bool
  sp_idempotencyKey :: "string option"
  sp_placedAt :: millis
  sp_settledAt :: "millis option"

record slotzilla_paytables_row =
  pt_id :: int
  pt_name :: string
  pt_lines :: "(string \<times> json) list"
  pt_fittedRtpBp :: "int option"
  pt_corpusNote :: "string option"
  pt_active :: bool
  pt_updatedBy :: "uuid option"
  pt_updatedAt :: millis

record slotzilla_config_row =
  sc_enabled :: bool
  sc_currencies :: "string list"
  sc_rtpTargetBp :: int
  sc_leadSeconds :: int
  sc_clockPastSeconds :: int
  sc_graceSeconds :: int
  sc_feedDarkVoidSeconds :: int
  sc_minStakeMicro :: micro
  sc_maxStakeMicro :: micro
  sc_maxPayoutMicro :: micro
  sc_matchLiabilityCapMicro :: micro
  sc_returnAlarmMarginBp :: int
  sc_returnAlarmMinSpins :: int
  sc_autoplayEnabled :: bool
  sc_updatedBy :: "uuid option"
  sc_updatedAt :: millis

record bot_controls_row =
  bc_intentRequired :: bool
  bc_intentTtlSeconds :: int
  bc_minHumanMs :: int
  bc_velocityEnabled :: bool
  bc_maxBetsPerMinute :: int
  bc_maxMatchesPerMinute :: int

section \<open>The database\<close>

record db =
  users :: "users_row list"
  sessions :: "sessions_row list"
  email_verification_tokens :: "mail_token_row list"
  password_reset_tokens :: "mail_token_row list"
  email_outbox :: "email_outbox_row list"
  deposits :: "deposits_row list"
  wallets :: "wallets_row list"
  wallet_ledger :: "wallet_ledger_row list"
  withdrawals :: "withdrawals_row list"
  deposit_intents :: "deposit_intents_row list"
  unattributed_deposits :: "unattributed_deposits_row list"
  user_wallet_addresses :: "user_wallet_addresses_row list"
  bank_state :: bank_state_row
  bank_ledger :: "bank_ledger_row list"
  admin_audit_log :: "audit_row list"
  tickets :: "tickets_row list"
  ticket_selections :: "ticket_selections_row list"
  riskzilla_event_log :: "event_log_row list"
  cashouts :: "cashouts_row list"
  slotzilla_config :: slotzilla_config_row
  slotzilla_paytables :: "slotzilla_paytables_row list"
  slotzilla_games :: "slotzilla_games_row list"
  slotzilla_spins :: "slotzilla_spins_row list"
  bot_controls :: "bot_controls_row option"

type_synonym 'a dbtx = "(db, 'a) tx"

section \<open>Constraints\<close>

fun first_some :: "'a option list \<Rightarrow> 'a option" where
  "first_some [] = None"
| "first_some (None # xs) = first_some xs"
| "first_some (Some a # xs) = Some a"

lemma first_some_None [simp]: "first_some xs = None \<longleftrightarrow> (\<forall>x \<in> set xs. x = None)"
  by (induction xs rule: first_some.induct) auto

lemma first_some_SomeD: "first_some xs = Some a \<Longrightarrow> Some a \<in> set xs"
  by (induction xs rule: first_some.induct) auto

definition in_bigint :: "int \<Rightarrow> bool" where
  "in_bigint x \<longleftrightarrow> - (2 ^ 63) \<le> x \<and> x < 2 ^ 63"

definition check :: "string \<Rightarrow> bool \<Rightarrow> failure option" where
  "check name c = (if c then None else Some (check_violation name))"

definition bigint_col :: "int \<Rightarrow> failure option" where
  "bigint_col x = (if in_bigint x then None else Some (PgError ''22003'' ''bigint out of range''))"

definition uniq_on :: "string \<Rightarrow> ('r \<Rightarrow> 'k) \<Rightarrow> 'r list \<Rightarrow> failure option" where
  "uniq_on name key rs = (if distinct (map key rs) then None else Some (unique_violation name))"

text \<open>A partial unique index: only the rows with a key take part.\<close>

definition uniq_partial :: "string \<Rightarrow> ('r \<Rightarrow> 'k option) \<Rightarrow> 'r list \<Rightarrow> failure option" where
  "uniq_partial name key rs =
    (if distinct (List.map_filter key rs) then None else Some (unique_violation name))"

lemma check_None [simp]: "check name c = None \<longleftrightarrow> c"
  by (simp add: check_def)

lemma bigint_col_None [simp]: "bigint_col x = None \<longleftrightarrow> in_bigint x"
  by (simp add: bigint_col_def)

lemma uniq_on_None [simp]: "uniq_on name key rs = None \<longleftrightarrow> distinct (map key rs)"
  by (simp add: uniq_on_def)

lemma uniq_partial_None [simp]:
  "uniq_partial name key rs = None \<longleftrightarrow> distinct (List.map_filter key rs)"
  by (simp add: uniq_partial_def)

section \<open>Tables with constraints\<close>

text \<open>
  \<open>viol\<close> gives the first row constraint a row violates, \<open>uniq\<close> the first unique
  index the rows of a table violate.
\<close>

definition update_rows ::
  "('r \<Rightarrow> failure option) \<Rightarrow> ('r list \<Rightarrow> failure option) \<Rightarrow> ('r \<Rightarrow> bool) \<Rightarrow> ('r \<Rightarrow> 'r) \<Rightarrow>
   'r list \<Rightarrow> failure + 'r list" where
  "update_rows viol uniq P f rs =
    (case first_some (map (\<lambda>r. viol (f r)) (filter P rs)) of
       Some e \<Rightarrow> Inl e
     | None \<Rightarrow> (case uniq (update_where P f rs) of
         Some e \<Rightarrow> Inl e
       | None \<Rightarrow> Inr (update_where P f rs)))"

definition insert_row ::
  "('r \<Rightarrow> failure option) \<Rightarrow> ('r list \<Rightarrow> failure option) \<Rightarrow> 'r \<Rightarrow> 'r list \<Rightarrow> failure + 'r list" where
  "insert_row viol uniq r rs =
    (case viol r of
       Some e \<Rightarrow> Inl e
     | None \<Rightarrow> (case uniq (rs @ [r]) of Some e \<Rightarrow> Inl e | None \<Rightarrow> Inr (rs @ [r])))"

definition table_ok :: "('r \<Rightarrow> failure option) \<Rightarrow> ('r list \<Rightarrow> failure option) \<Rightarrow> 'r list \<Rightarrow> bool" where
  "table_ok viol uniq rs \<longleftrightarrow> list_all (\<lambda>r. viol r = None) rs \<and> uniq rs = None"

lemma update_rows_Inr:
  "update_rows viol uniq P f rs = Inr ss \<longleftrightarrow>
     ss = update_where P f rs \<and> (\<forall>r \<in> set rs. P r \<longrightarrow> viol (f r) = None) \<and> uniq ss = None"
  by (fastforce simp: update_rows_def split: option.splits dest: first_some_SomeD)

lemma insert_row_Inr:
  "insert_row viol uniq r rs = Inr ss \<longleftrightarrow> ss = rs @ [r] \<and> viol r = None \<and> uniq ss = None"
  by (auto simp: insert_row_def split: option.splits)

text \<open>
  What every constrained table promises its clients: a statement that succeeds
  leaves a table that satisfies its constraints.
\<close>

locale constrained_table =
  fixes viol :: "'r \<Rightarrow> failure option" and uniq :: "'r list \<Rightarrow> failure option"
  assumes uniq_Nil: "uniq [] = None"
begin

lemma empty_ok: "table_ok viol uniq []"
  by (simp add: table_ok_def uniq_Nil)

lemma update_ok:
  "table_ok viol uniq rs \<Longrightarrow> update_rows viol uniq P f rs = Inr ss \<Longrightarrow> table_ok viol uniq ss"
  by (auto simp: table_ok_def update_rows_Inr list_all_iff in_set_update_where)

lemma insert_ok:
  "table_ok viol uniq rs \<Longrightarrow> insert_row viol uniq r rs = Inr ss \<Longrightarrow> table_ok viol uniq ss"
  by (auto simp: table_ok_def insert_row_Inr)

end

end
