(* ===== verification/Tables.thy ===== *)
theory Tables
  imports Database
begin

text \<open>
  The constraints of every table the handlers write (packages/db/src/schema and
  migration 0026) and the SQL statements on them, with the equations that the
  invariant proofs use.  \<open>schema_ok\<close> is the conjunction of all constraints; each
  statement that succeeds keeps it.
\<close>

section \<open>Row constraints\<close>

definition no_viol :: "'r \<Rightarrow> failure option" where
  "no_viol r = None"

definition BETTOR_LABELS :: "string list" where
  "BETTOR_LABELS = [''vip'', ''sharp'', ''regular'', ''fraud'', ''shady'', ''suspicious'', ''prematch'', ''live'']"

text \<open>The range of the risk score is left out: the modelled statements write only its default.\<close>

definition users_viol :: "users_row \<Rightarrow> failure option" where
  "users_viol r = first_some
    [bigint_col (u_globalLimitMicro r),
     check ''users_bet_delay_range'' (0 \<le> u_betDelaySeconds r \<and> u_betDelaySeconds r \<le> 300),
     check ''users_email_length_chk'' (3 \<le> length (u_email r) \<and> length (u_email r) \<le> 320),
     check ''users_global_limit_nonneg'' (u_globalLimitMicro r \<ge> 0),
     check ''users_hidden_sports_len'' (case u_hiddenSports r of None \<Rightarrow> True | Some xs \<Rightarrow> length xs \<le> 100),
     check ''users_labels_allowed'' (set (u_labels r) \<subseteq> set BETTOR_LABELS \<and> length (u_labels r) \<le> 8),
     check ''users_notes_length'' (case u_notes r of None \<Rightarrow> True | Some t \<Rightarrow> length t \<le> 4000),
     check ''users_sport_order_len'' (case u_sportOrder r of None \<Rightarrow> True | Some xs \<Rightarrow> length xs \<le> 100)]"

text \<open>Email is case-insensitive text, unique among bettors and among staff.\<close>

definition bettor_email :: "users_row \<Rightarrow> string option" where
  "bettor_email r = (if u_role r = user_r then Some (to_lower (u_email r)) else None)"

definition staff_email :: "users_row \<Rightarrow> string option" where
  "staff_email r = (if u_role r = user_r then None else Some (to_lower (u_email r)))"

definition users_uniq :: "users_row list \<Rightarrow> failure option" where
  "users_uniq rs = first_some
    [uniq_on ''users_pkey'' u_id rs,
     uniq_partial ''users_email_bettor_uniq'' bettor_email rs,
     uniq_partial ''users_email_admin_uniq'' staff_email rs]"

definition sessions_uniq :: "sessions_row list \<Rightarrow> failure option" where
  "sessions_uniq rs = first_some
    [uniq_on ''sessions_pkey'' se_id rs, uniq_on ''sessions_refresh_idx'' se_refreshTokenHash rs]"

definition tokens_uniq :: "string \<Rightarrow> mail_token_row list \<Rightarrow> failure option" where
  "tokens_uniq t rs = first_some
    [uniq_on (t @ ''_pkey'') mt_id rs, uniq_on (t @ ''_hash_unique'') mt_tokenHash rs]"

text \<open>\<^verbatim>\<open>octet_length(token_hash) = 32\<close>; a hash is the list of its bytes.\<close>

definition tokens_viol :: "string \<Rightarrow> mail_token_row \<Rightarrow> failure option" where
  "tokens_viol t r = check (t @ ''_hash_len'') (length (mt_tokenHash r) = 32)"

definition outbox_uniq :: "email_outbox_row list \<Rightarrow> failure option" where
  "outbox_uniq = uniq_partial ''email_outbox_kind_dedup_unique''
     (\<lambda>r. map_option (\<lambda>k. (eo_kind r, k)) (eo_dedupKey r))"

definition wallets_viol :: "wallets_row \<Rightarrow> failure option" where
  "wallets_viol r = first_some
    [bigint_col (w_balanceMicro r), bigint_col (w_lockedMicro r),
     check ''wallets_balance_nonneg'' (w_balanceMicro r \<ge> 0),
     check ''wallets_locked_nonneg'' (w_lockedMicro r \<ge> 0),
     check ''wallets_balance_ge_locked'' (w_balanceMicro r \<ge> w_lockedMicro r)]"

definition wallet_key :: "wallets_row \<Rightarrow> uuid \<times> currency" where
  "wallet_key r = (w_userId r, w_currency r)"

definition wallets_uniq :: "wallets_row list \<Rightarrow> failure option" where
  "wallets_uniq = uniq_on ''wallets_pkey'' wallet_key"

definition ledger_viol :: "wallet_ledger_row \<Rightarrow> failure option" where
  "ledger_viol r = bigint_col (l_deltaMicro r)"

text \<open>\<^verbatim>\<open>wallet_ledger_unique_ref\<close>: (type, ref_type, ref_id) where ref_id is not null.\<close>

definition ledger_key :: "wallet_ledger_row \<Rightarrow> (wallet_tx_type \<times> string \<times> string) option" where
  "ledger_key r = (case (l_refType r, l_refId r) of
     (Some t, Some i) \<Rightarrow> Some (l_type r, t, i) | _ \<Rightarrow> None)"

definition ledger_uniq :: "wallet_ledger_row list \<Rightarrow> failure option" where
  "ledger_uniq = uniq_partial ''wallet_ledger_unique_ref'' ledger_key"

definition withdrawals_viol :: "withdrawals_row \<Rightarrow> failure option" where
  "withdrawals_viol r = first_some
    [bigint_col (wd_amountMicro r), bigint_col (wd_feeMicro r),
     check ''withdrawals_amount_pos'' (wd_amountMicro r > 0),
     check ''withdrawals_fee_nonneg'' (wd_feeMicro r \<ge> 0),
     check ''withdrawals_distinct_approver_confirmer''
       (wd_confirmedByUserId r = None \<or> wd_approvedByUserId r = None
        \<or> wd_confirmedByUserId r \<noteq> wd_approvedByUserId r)]"

definition withdrawals_uniq :: "withdrawals_row list \<Rightarrow> failure option" where
  "withdrawals_uniq rs = first_some
    [uniq_on ''withdrawals_pkey'' wd_id rs,
     uniq_partial ''withdrawals_tx_hash_unique''
       (\<lambda>r. map_option (\<lambda>h. (wd_network r, h)) (wd_txHash r)) rs]"

definition deposit_intents_viol :: "deposit_intents_row \<Rightarrow> failure option" where
  "deposit_intents_viol r = first_some
    [bigint_col (case di_amountMicro r of None \<Rightarrow> 0 | Some a \<Rightarrow> a),
     bigint_col (case di_blockNumber r of None \<Rightarrow> 0 | Some b \<Rightarrow> b),
     check ''deposit_intents_amount_pos''
       (case di_amountMicro r of None \<Rightarrow> True | Some a \<Rightarrow> a > 0)]"

definition deposit_intents_uniq :: "deposit_intents_row list \<Rightarrow> failure option" where
  "deposit_intents_uniq rs = first_some
    [uniq_on ''deposit_intents_pkey'' di_id rs,
     uniq_on ''deposit_intents_tx_log_unique'' (\<lambda>r. (di_network r, di_txHash r, di_logIndex r)) rs]"

definition unattributed_uniq :: "unattributed_deposits_row list \<Rightarrow> failure option" where
  "unattributed_uniq rs = first_some
    [uniq_on ''unattributed_deposits_pkey'' ud_id rs,
     uniq_on ''unattributed_deposits_unique'' (\<lambda>r. (ud_network r, ud_txHash r, ud_logIndex r)) rs]"

definition is_lower_hex :: "char \<Rightarrow> bool" where
  "is_lower_hex c \<longleftrightarrow> is_digit c \<or> (97 \<le> (of_char c :: nat) \<and> (of_char c :: nat) \<le> 102)"

definition addresses_viol :: "user_wallet_addresses_row \<Rightarrow> failure option" where
  "addresses_viol r = check ''user_wallet_addresses_addr_format''
    (take 2 (a_address r) = ''0x'' \<and> length (a_address r) = 42
     \<and> list_all is_lower_hex (drop 2 (a_address r)))"

definition addresses_uniq :: "user_wallet_addresses_row list \<Rightarrow> failure option" where
  "addresses_uniq rs = first_some
    [uniq_on ''user_wallet_addresses_pkey'' a_id rs,
     uniq_on ''user_wallet_addresses_addr_unique'' (\<lambda>r. (a_network r, a_address r)) rs]"

definition bank_viol :: "bank_state_row \<Rightarrow> failure option" where
  "bank_viol r = first_some
    [bigint_col (bankLimitMicro r), bigint_col (openLiabilityMicro r),
     check ''riskzilla_bank_state_limit_nonneg'' (bankLimitMicro r \<ge> 0),
     check ''riskzilla_bank_state_open_nonneg'' (openLiabilityMicro r \<ge> 0)]"

definition bank_ledger_viol :: "bank_ledger_row \<Rightarrow> failure option" where
  "bank_ledger_viol r = bigint_col (bl_deltaMicro r)"

definition bank_ledger_key :: "bank_ledger_row \<Rightarrow> (bank_ledger_type \<times> string \<times> string) option" where
  "bank_ledger_key r = (case (bl_refType r, bl_refId r) of
     (Some t, Some i) \<Rightarrow> Some (bl_type r, t, i) | _ \<Rightarrow> None)"

definition bank_ledger_uniq :: "bank_ledger_row list \<Rightarrow> failure option" where
  "bank_ledger_uniq = uniq_partial ''riskzilla_bank_ledger_ref_unique'' bank_ledger_key"

definition tickets_viol :: "tickets_row \<Rightarrow> failure option" where
  "tickets_viol r = first_some
    [bigint_col (t_stakeMicro r), bigint_col (t_potentialPayoutMicro r),
     check ''tickets_stake_pos'' (t_stakeMicro r > 0),
     check ''tickets_potential_nonneg'' (t_potentialPayoutMicro r \<ge> 0)]"

definition tickets_uniq :: "tickets_row list \<Rightarrow> failure option" where
  "tickets_uniq rs = first_some
    [uniq_on ''tickets_pkey'' t_id rs,
     uniq_on ''tickets_idempotency_key_unique'' t_idempotencyKey rs]"

definition selections_uniq :: "ticket_selections_row list \<Rightarrow> failure option" where
  "selections_uniq = uniq_on ''ticket_selections_unique''
     (\<lambda>r. (ts_ticketId r, ts_marketId r, ts_outcomeId r))"

definition cashouts_viol :: "cashouts_row \<Rightarrow> failure option" where
  "cashouts_viol r = first_some
    [bigint_col (c_offeredMicro r),
     check ''cashouts_offered_nonneg'' (c_offeredMicro r \<ge> 0),
     check ''cashouts_payout_nonneg''
       (case c_payoutMicro r of None \<Rightarrow> True | Some p \<Rightarrow> p \<ge> 0)]"

definition cashouts_uniq :: "cashouts_row list \<Rightarrow> failure option" where
  "cashouts_uniq rs = first_some
    [uniq_on ''cashouts_pkey'' c_id rs,
     uniq_partial ''cashouts_ticket_accepted_unique''
       (\<lambda>r. if c_status r = co_accepted then Some (c_ticketId r) else None) rs]"

definition games_viol :: "slotzilla_games_row \<Rightarrow> failure option" where
  "games_viol r = first_some
    [bigint_col (g_usdcStakeMicro r), bigint_col (g_ozStakeMicro r)]"

definition games_uniq :: "slotzilla_games_row list \<Rightarrow> failure option" where
  "games_uniq = uniq_on ''slotzilla_games_pkey'' g_matchId"

definition spins_viol :: "slotzilla_spins_row \<Rightarrow> failure option" where
  "spins_viol r = first_some
    [bigint_col (sp_stakeMicro r), bigint_col (sp_exposureMicro r),
     check ''slotzilla_spins_stake_positive'' (sp_stakeMicro r > 0),
     check ''slotzilla_spins_exposure_nonneg'' (sp_exposureMicro r \<ge> 0),
     check ''slotzilla_spins_payout_nonneg'' (sp_payoutMicro r \<ge> 0),
     check ''slotzilla_spins_window_grid'' (sp_windowFrom r \<ge> 0 \<and> sp_windowFrom r mod 5 = 0),
     check ''slotzilla_spins_reels_shape''
       (case sp_reels r of None \<Rightarrow> True | Some xs \<Rightarrow> length xs = 3),
     check ''slotzilla_spins_settled_shape''
       ((sp_status r = spin_open \<and> sp_settledAt r = None \<and> sp_reels r = None)
        \<or> (sp_status r \<in> {spin_won, spin_lost} \<and> sp_settledAt r \<noteq> None \<and> sp_reels r \<noteq> None)
        \<or> (sp_status r = spin_void \<and> sp_settledAt r \<noteq> None))]"

definition spins_uniq :: "slotzilla_spins_row list \<Rightarrow> failure option" where
  "spins_uniq rs = first_some
    [uniq_on ''slotzilla_spins_pkey'' sp_id rs,
     uniq_partial ''slotzilla_spins_one_open_uniq''
       (\<lambda>r. if sp_status r = spin_open then Some (sp_userId r, sp_matchId r) else None) rs,
     uniq_partial ''slotzilla_spins_idempotency_uniq''
       (\<lambda>r. map_option (\<lambda>k. (sp_userId r, k)) (sp_idempotencyKey r)) rs]"

definition config_viol :: "slotzilla_config_row \<Rightarrow> failure option" where
  "config_viol r = first_some
    [bigint_col (sc_minStakeMicro r), bigint_col (sc_maxStakeMicro r), bigint_col (sc_maxPayoutMicro r),
     bigint_col (sc_matchLiabilityCapMicro r),
     check ''slotzilla_config_caps_positive''
       (sc_maxPayoutMicro r > 0 \<and> sc_matchLiabilityCapMicro r > 0),
     check ''slotzilla_config_clock_past_range'' (0 \<le> sc_clockPastSeconds r \<and> sc_clockPastSeconds r \<le> 60),
     check ''slotzilla_config_currencies_check'' (set (sc_currencies r) \<subseteq> {''USDC'', ''OZ''}),
     check ''slotzilla_config_dark_range'' (30 \<le> sc_feedDarkVoidSeconds r \<and> sc_feedDarkVoidSeconds r \<le> 3600),
     check ''slotzilla_config_grace_range'' (0 \<le> sc_graceSeconds r \<and> sc_graceSeconds r \<le> 120),
     check ''slotzilla_config_lead_range'' (5 \<le> sc_leadSeconds r \<and> sc_leadSeconds r \<le> 60),
     check ''slotzilla_config_rtp_range'' (5000 \<le> sc_rtpTargetBp r \<and> sc_rtpTargetBp r \<le> 9900),
     check ''slotzilla_config_stake_order''
       (sc_minStakeMicro r > 0 \<and> sc_maxStakeMicro r \<ge> sc_minStakeMicro r)]"

definition paytables_viol :: "slotzilla_paytables_row \<Rightarrow> failure option" where
  "paytables_viol r = check ''slotzilla_paytables_name_check''
    (1 \<le> length (pt_name r) \<and> length (pt_name r) \<le> 80)"

definition paytables_uniq :: "slotzilla_paytables_row list \<Rightarrow> failure option" where
  "paytables_uniq rs = first_some
    [uniq_on ''slotzilla_paytables_pkey'' pt_id rs,
     uniq_partial ''slotzilla_paytables_active_uniq'' (\<lambda>r. if pt_active r then Some True else None) rs]"

interpretation users_t: constrained_table users_viol users_uniq
  by unfold_locales (simp add: users_uniq_def map_filter_simps)

interpretation sessions_t: constrained_table no_viol sessions_uniq
  by unfold_locales (simp add: sessions_uniq_def)

interpretation tokens_t: constrained_table "tokens_viol t" "tokens_uniq t" for t
  by unfold_locales (simp add: tokens_uniq_def)

interpretation outbox_t: constrained_table no_viol outbox_uniq
  by unfold_locales (simp add: outbox_uniq_def map_filter_simps)

interpretation wallets_t: constrained_table wallets_viol wallets_uniq
  by unfold_locales (simp add: wallets_uniq_def)

interpretation ledger_t: constrained_table ledger_viol ledger_uniq
  by unfold_locales (simp add: ledger_uniq_def map_filter_simps)

interpretation withdrawals_t: constrained_table withdrawals_viol withdrawals_uniq
  by unfold_locales (simp add: withdrawals_uniq_def map_filter_simps)

interpretation deposit_intents_t: constrained_table deposit_intents_viol deposit_intents_uniq
  by unfold_locales (simp add: deposit_intents_uniq_def)

interpretation unattributed_t: constrained_table no_viol unattributed_uniq
  by unfold_locales (simp add: unattributed_uniq_def)

interpretation addresses_t: constrained_table addresses_viol addresses_uniq
  by unfold_locales (simp add: addresses_uniq_def)

interpretation bank_ledger_t: constrained_table bank_ledger_viol bank_ledger_uniq
  by unfold_locales (simp add: bank_ledger_uniq_def map_filter_simps)

interpretation tickets_t: constrained_table tickets_viol tickets_uniq
  by unfold_locales (simp add: tickets_uniq_def)

interpretation selections_t: constrained_table no_viol selections_uniq
  by unfold_locales (simp add: selections_uniq_def)

interpretation cashouts_t: constrained_table cashouts_viol cashouts_uniq
  by unfold_locales (simp add: cashouts_uniq_def map_filter_simps)

interpretation games_t: constrained_table games_viol games_uniq
  by unfold_locales (simp add: games_uniq_def)

interpretation spins_t: constrained_table spins_viol spins_uniq
  by unfold_locales (simp add: spins_uniq_def map_filter_simps)

interpretation paytables_t: constrained_table paytables_viol paytables_uniq
  by unfold_locales (simp add: paytables_uniq_def map_filter_simps)

section \<open>Statements\<close>

text \<open>Storing the rows a statement produced, or failing with the violated constraint.\<close>

definition store :: "(db \<Rightarrow> failure + 'r list) \<Rightarrow> ('r list \<Rightarrow> db \<Rightarrow> db) \<Rightarrow> unit dbtx" where
  "store stmt put s = (case stmt s of Inl e \<Rightarrow> Inl e | Inr rs \<Rightarrow> Inr ((), put rs s))"

lemma wp_store [wp_simps]:
  "wp (store stmt put) Q s = (\<forall>rs. stmt s = Inr rs \<longrightarrow> Q () (put rs s))"
  by (simp add: wp_def store_def split: sum.splits)

lemma store_Inr [step_simps]:
  "store stmt put s = Inr (u, t) \<longleftrightarrow> (\<exists>rs. stmt s = Inr rs \<and> t = put rs s)"
  by (auto simp: store_def split: sum.splits)

definition update_users :: "(users_row \<Rightarrow> bool) \<Rightarrow> (users_row \<Rightarrow> users_row) \<Rightarrow> unit dbtx" where
  "update_users P f = store (\<lambda>s. update_rows users_viol users_uniq P f (users s))
     (\<lambda>rs s. s\<lparr>users := rs\<rparr>)"

definition insert_user :: "users_row \<Rightarrow> unit dbtx" where
  "insert_user r = store (\<lambda>s. insert_row users_viol users_uniq r (users s)) (\<lambda>rs s. s\<lparr>users := rs\<rparr>)"

definition update_sessions :: "(sessions_row \<Rightarrow> bool) \<Rightarrow> (sessions_row \<Rightarrow> sessions_row) \<Rightarrow> unit dbtx" where
  "update_sessions P f = store (\<lambda>s. update_rows no_viol sessions_uniq P f (sessions s))
     (\<lambda>rs s. s\<lparr>sessions := rs\<rparr>)"

definition insert_session :: "sessions_row \<Rightarrow> unit dbtx" where
  "insert_session r = store (\<lambda>s. insert_row no_viol sessions_uniq r (sessions s)) (\<lambda>rs s. s\<lparr>sessions := rs\<rparr>)"

abbreviation EVT :: string where "EVT \<equiv> ''email_verification_tokens''"
abbreviation PRT :: string where "PRT \<equiv> ''password_reset_tokens''"

definition update_verification_tokens ::
  "(mail_token_row \<Rightarrow> bool) \<Rightarrow> (mail_token_row \<Rightarrow> mail_token_row) \<Rightarrow> unit dbtx" where
  "update_verification_tokens P f =
     store (\<lambda>s. update_rows (tokens_viol EVT) (tokens_uniq EVT) P f (email_verification_tokens s))
     (\<lambda>rs s. s\<lparr>email_verification_tokens := rs\<rparr>)"

definition insert_verification_token :: "mail_token_row \<Rightarrow> unit dbtx" where
  "insert_verification_token r =
     store (\<lambda>s. insert_row (tokens_viol EVT) (tokens_uniq EVT) r (email_verification_tokens s))
     (\<lambda>rs s. s\<lparr>email_verification_tokens := rs\<rparr>)"

definition update_reset_tokens ::
  "(mail_token_row \<Rightarrow> bool) \<Rightarrow> (mail_token_row \<Rightarrow> mail_token_row) \<Rightarrow> unit dbtx" where
  "update_reset_tokens P f =
     store (\<lambda>s. update_rows (tokens_viol PRT) (tokens_uniq PRT) P f (password_reset_tokens s))
     (\<lambda>rs s. s\<lparr>password_reset_tokens := rs\<rparr>)"

definition insert_reset_token :: "mail_token_row \<Rightarrow> unit dbtx" where
  "insert_reset_token r =
     store (\<lambda>s. insert_row (tokens_viol PRT) (tokens_uniq PRT) r (password_reset_tokens s))
     (\<lambda>rs s. s\<lparr>password_reset_tokens := rs\<rparr>)"

definition insert_outbox :: "email_outbox_row \<Rightarrow> unit dbtx" where
  "insert_outbox r = store (\<lambda>s. insert_row no_viol outbox_uniq r (email_outbox s)) (\<lambda>rs s. s\<lparr>email_outbox := rs\<rparr>)"

text \<open>\<^verbatim>\<open>insert into wallets ... on conflict (user_id, currency) do nothing\<close>, row by row.\<close>

definition insert_wallet_once :: "wallets_row \<Rightarrow> unit dbtx" where
  "insert_wallet_once r s =
    (if list_ex (\<lambda>w. wallet_key w = wallet_key r) (wallets s) then Inr ((), s)
     else store (\<lambda>s. insert_row wallets_viol wallets_uniq r (wallets s)) (\<lambda>rs s. s\<lparr>wallets := rs\<rparr>) s)"

definition delete_wallets :: "(wallets_row \<Rightarrow> bool) \<Rightarrow> unit dbtx" where
  "delete_wallets P = modifyT (\<lambda>s. s\<lparr>wallets := filter (\<lambda>w. \<not> P w) (wallets s)\<rparr>)"

definition update_wallets :: "(wallets_row \<Rightarrow> bool) \<Rightarrow> (wallets_row \<Rightarrow> wallets_row) \<Rightarrow> unit dbtx" where
  "update_wallets P f = store (\<lambda>s. update_rows wallets_viol wallets_uniq P f (wallets s))
     (\<lambda>rs s. s\<lparr>wallets := rs\<rparr>)"

definition update_withdrawals ::
  "(withdrawals_row \<Rightarrow> bool) \<Rightarrow> (withdrawals_row \<Rightarrow> withdrawals_row) \<Rightarrow> unit dbtx" where
  "update_withdrawals P f =
     store (\<lambda>s. update_rows withdrawals_viol withdrawals_uniq P f (withdrawals s))
     (\<lambda>rs s. s\<lparr>withdrawals := rs\<rparr>)"

definition insert_withdrawal :: "withdrawals_row \<Rightarrow> unit dbtx" where
  "insert_withdrawal r =
     store (\<lambda>s. insert_row withdrawals_viol withdrawals_uniq r (withdrawals s))
     (\<lambda>rs s. s\<lparr>withdrawals := rs\<rparr>)"

definition update_deposit_intents ::
  "(deposit_intents_row \<Rightarrow> bool) \<Rightarrow> (deposit_intents_row \<Rightarrow> deposit_intents_row) \<Rightarrow> unit dbtx" where
  "update_deposit_intents P f =
     store (\<lambda>s. update_rows deposit_intents_viol deposit_intents_uniq P f (deposit_intents s))
     (\<lambda>rs s. s\<lparr>deposit_intents := rs\<rparr>)"

definition update_unattributed ::
  "(unattributed_deposits_row \<Rightarrow> bool) \<Rightarrow> (unattributed_deposits_row \<Rightarrow> unattributed_deposits_row)
    \<Rightarrow> unit dbtx" where
  "update_unattributed P f =
     store (\<lambda>s. update_rows no_viol unattributed_uniq P f (unattributed_deposits s))
     (\<lambda>rs s. s\<lparr>unattributed_deposits := rs\<rparr>)"

definition insert_address :: "user_wallet_addresses_row \<Rightarrow> unit dbtx" where
  "insert_address r =
     store (\<lambda>s. insert_row addresses_viol addresses_uniq r (user_wallet_addresses s))
     (\<lambda>rs s. s\<lparr>user_wallet_addresses := rs\<rparr>)"

definition update_tickets ::
  "(tickets_row \<Rightarrow> bool) \<Rightarrow> (tickets_row \<Rightarrow> tickets_row) \<Rightarrow> unit dbtx" where
  "update_tickets P f = store (\<lambda>s. update_rows tickets_viol tickets_uniq P f (tickets s))
     (\<lambda>rs s. s\<lparr>tickets := rs\<rparr>)"

definition insert_ticket :: "tickets_row \<Rightarrow> unit dbtx" where
  "insert_ticket r = store (\<lambda>s. insert_row tickets_viol tickets_uniq r (tickets s))
     (\<lambda>rs s. s\<lparr>tickets := rs\<rparr>)"

definition insert_selection :: "ticket_selections_row \<Rightarrow> unit dbtx" where
  "insert_selection r = store (\<lambda>s. insert_row no_viol selections_uniq r (ticket_selections s))
     (\<lambda>rs s. s\<lparr>ticket_selections := rs\<rparr>)"

text \<open>A multi-row insert.\<close>

fun insert_selections :: "ticket_selections_row list \<Rightarrow> unit dbtx" where
  "insert_selections [] = returnT ()"
| "insert_selections (r # rs) = thenT (insert_selection r) (insert_selections rs)"

definition update_cashouts ::
  "(cashouts_row \<Rightarrow> bool) \<Rightarrow> (cashouts_row \<Rightarrow> cashouts_row) \<Rightarrow> unit dbtx" where
  "update_cashouts P f = store (\<lambda>s. update_rows cashouts_viol cashouts_uniq P f (cashouts s))
     (\<lambda>rs s. s\<lparr>cashouts := rs\<rparr>)"

definition insert_cashout :: "cashouts_row \<Rightarrow> unit dbtx" where
  "insert_cashout r = store (\<lambda>s. insert_row cashouts_viol cashouts_uniq r (cashouts s))
     (\<lambda>rs s. s\<lparr>cashouts := rs\<rparr>)"

definition update_games ::
  "(slotzilla_games_row \<Rightarrow> bool) \<Rightarrow> (slotzilla_games_row \<Rightarrow> slotzilla_games_row) \<Rightarrow> unit dbtx" where
  "update_games P f = store (\<lambda>s. update_rows games_viol games_uniq P f (slotzilla_games s))
     (\<lambda>rs s. s\<lparr>slotzilla_games := rs\<rparr>)"

definition update_spins ::
  "(slotzilla_spins_row \<Rightarrow> bool) \<Rightarrow> (slotzilla_spins_row \<Rightarrow> slotzilla_spins_row) \<Rightarrow> unit dbtx" where
  "update_spins P f = store (\<lambda>s. update_rows spins_viol spins_uniq P f (slotzilla_spins s))
     (\<lambda>rs s. s\<lparr>slotzilla_spins := rs\<rparr>)"

definition insert_spin :: "slotzilla_spins_row \<Rightarrow> unit dbtx" where
  "insert_spin r = store (\<lambda>s. insert_row spins_viol spins_uniq r (slotzilla_spins s))
     (\<lambda>rs s. s\<lparr>slotzilla_spins := rs\<rparr>)"

definition update_paytables ::
  "(slotzilla_paytables_row \<Rightarrow> bool) \<Rightarrow> (slotzilla_paytables_row \<Rightarrow> slotzilla_paytables_row) \<Rightarrow> unit dbtx" where
  "update_paytables P f =
     store (\<lambda>s. update_rows paytables_viol paytables_uniq P f (slotzilla_paytables s))
     (\<lambda>rs s. s\<lparr>slotzilla_paytables := rs\<rparr>)"

definition insert_paytable :: "slotzilla_paytables_row \<Rightarrow> unit dbtx" where
  "insert_paytable r = store (\<lambda>s. insert_row paytables_viol paytables_uniq r (slotzilla_paytables s))
     (\<lambda>rs s. s\<lparr>slotzilla_paytables := rs\<rparr>)"

text \<open>The config is a singleton row, like the bank.\<close>

definition update_config :: "(slotzilla_config_row \<Rightarrow> slotzilla_config_row) \<Rightarrow> unit dbtx" where
  "update_config f s =
    (case config_viol (f (slotzilla_config s)) of
       Some e \<Rightarrow> Inl e
     | None \<Rightarrow> Inr ((), s\<lparr>slotzilla_config := f (slotzilla_config s)\<rparr>))"

text \<open>A plain ledger insert, and \<^verbatim>\<open>.onConflictDoNothing()\<close> on the unique index.\<close>

definition insert_ledger :: "wallet_ledger_row \<Rightarrow> unit dbtx" where
  "insert_ledger r = store (\<lambda>s. insert_row ledger_viol ledger_uniq r (wallet_ledger s))
     (\<lambda>rs s. s\<lparr>wallet_ledger := rs\<rparr>)"

definition ledger_conflict :: "wallet_ledger_row \<Rightarrow> wallet_ledger_row list \<Rightarrow> bool" where
  "ledger_conflict r rs \<longleftrightarrow> ledger_key r \<noteq> None \<and> list_ex (\<lambda>x. ledger_key x = ledger_key r) rs"

definition insert_ledger_once :: "wallet_ledger_row \<Rightarrow> unit dbtx" where
  "insert_ledger_once r s =
    (if ledger_conflict r (wallet_ledger s) then Inr ((), s) else insert_ledger r s)"

definition bank_ledger_conflict :: "bank_ledger_row \<Rightarrow> bank_ledger_row list \<Rightarrow> bool" where
  "bank_ledger_conflict r rs \<longleftrightarrow>
     bank_ledger_key r \<noteq> None \<and> list_ex (\<lambda>x. bank_ledger_key x = bank_ledger_key r) rs"

definition insert_bank_ledger_once :: "bank_ledger_row \<Rightarrow> unit dbtx" where
  "insert_bank_ledger_once r s =
    (if bank_ledger_conflict r (bank_ledger s) then Inr ((), s)
     else store (\<lambda>s. insert_row bank_ledger_viol bank_ledger_uniq r (bank_ledger s))
       (\<lambda>rs s. s\<lparr>bank_ledger := rs\<rparr>) s)"

definition insert_bank_ledger :: "bank_ledger_row \<Rightarrow> unit dbtx" where
  "insert_bank_ledger r = store (\<lambda>s. insert_row bank_ledger_viol bank_ledger_uniq r (bank_ledger s))
     (\<lambda>rs s. s\<lparr>bank_ledger := rs\<rparr>)"

definition update_bank :: "(bank_state_row \<Rightarrow> bank_state_row) \<Rightarrow> unit dbtx" where
  "update_bank f s =
    (case bank_viol (f (bank_state s)) of
       Some e \<Rightarrow> Inl e
     | None \<Rightarrow> Inr ((), s\<lparr>bank_state := f (bank_state s)\<rparr>))"

definition insert_audit :: "audit_row \<Rightarrow> unit dbtx" where
  "insert_audit r = modifyT (\<lambda>s. s\<lparr>admin_audit_log := admin_audit_log s @ [r]\<rparr>)"

definition insert_event :: "event_log_row \<Rightarrow> unit dbtx" where
  "insert_event r = modifyT (\<lambda>s. s\<lparr>riskzilla_event_log := riskzilla_event_log s @ [r]\<rparr>)"

lemmas statement_defs = update_wallets_def update_withdrawals_def insert_withdrawal_def
  update_deposit_intents_def update_unattributed_def insert_address_def update_tickets_def
  insert_ticket_def update_cashouts_def insert_cashout_def update_games_def update_spins_def
  insert_spin_def insert_ledger_def insert_audit_def insert_selection_def insert_event_def
  update_paytables_def insert_paytable_def update_users_def insert_user_def update_sessions_def insert_session_def
  update_verification_tokens_def insert_verification_token_def update_reset_tokens_def insert_reset_token_def
  insert_outbox_def insert_bank_ledger_def

lemmas row_stmt_simps = update_rows_Inr insert_row_Inr

section \<open>What a successful statement did\<close>

text \<open>
  \<open>update_checks\<close> and \<open>insert_checks\<close> collect the constraints the statement
  passed; the ledger inserts book a row once.
\<close>

definition update_checks ::
  "('r \<Rightarrow> failure option) \<Rightarrow> ('r list \<Rightarrow> failure option) \<Rightarrow> ('r \<Rightarrow> bool) \<Rightarrow> ('r \<Rightarrow> 'r) \<Rightarrow>
   'r list \<Rightarrow> bool" where
  "update_checks viol uniq P f rs \<longleftrightarrow>
     (\<forall>r \<in> set rs. P r \<longrightarrow> viol (f r) = None) \<and> uniq (update_where P f rs) = None"

definition insert_checks ::
  "('r \<Rightarrow> failure option) \<Rightarrow> ('r list \<Rightarrow> failure option) \<Rightarrow> 'r \<Rightarrow> 'r list \<Rightarrow> bool" where
  "insert_checks viol uniq r rs \<longleftrightarrow> viol r = None \<and> uniq (rs @ [r]) = None"

definition book_once :: "wallet_ledger_row \<Rightarrow> wallet_ledger_row list \<Rightarrow> wallet_ledger_row list" where
  "book_once l ls = (if ledger_conflict l ls then ls else ls @ [l])"

definition bank_book_once :: "bank_ledger_row \<Rightarrow> bank_ledger_row list \<Rightarrow> bank_ledger_row list" where
  "bank_book_once l ls = (if bank_ledger_conflict l ls then ls else ls @ [l])"

definition open_once :: "wallets_row \<Rightarrow> wallets_row list \<Rightarrow> wallets_row list" where
  "open_once r ws = (if list_ex (\<lambda>w. wallet_key w = wallet_key r) ws then ws else ws @ [r])"

definition wallet_checks :: "wallets_row \<Rightarrow> wallets_row list \<Rightarrow> bool" where
  "wallet_checks r ws \<longleftrightarrow> list_ex (\<lambda>w. wallet_key w = wallet_key r) ws \<or> insert_checks wallets_viol wallets_uniq r ws"

definition ledger_checks :: "wallet_ledger_row \<Rightarrow> wallet_ledger_row list \<Rightarrow> bool" where
  "ledger_checks l ls \<longleftrightarrow> ledger_conflict l ls \<or> insert_checks ledger_viol ledger_uniq l ls"

definition bank_ledger_checks :: "bank_ledger_row \<Rightarrow> bank_ledger_row list \<Rightarrow> bool" where
  "bank_ledger_checks l ls \<longleftrightarrow>
     bank_ledger_conflict l ls \<or> insert_checks bank_ledger_viol bank_ledger_uniq l ls"


lemma store_update_Inr:
  "store (\<lambda>s. update_rows viol uniq P f (get s)) put s = Inr (u, t) \<longleftrightarrow>
     t = put (update_where P f (get s)) s \<and> update_checks viol uniq P f (get s)"
  by (auto simp: store_Inr update_rows_Inr update_checks_def)

lemma store_insert_Inr:
  "store (\<lambda>s. insert_row viol uniq r (get s)) put s = Inr (u, t) \<longleftrightarrow>
     t = put (get s @ [r]) s \<and> insert_checks viol uniq r (get s)"
  by (auto simp: store_Inr insert_row_Inr insert_checks_def)

lemma update_wallets_Inr [step_simps]:
  "update_wallets P f s = Inr (u, t) \<longleftrightarrow> t = s\<lparr>wallets := update_where P f (wallets s)\<rparr>
     \<and> update_checks wallets_viol wallets_uniq P f (wallets s)"
  by (simp add: update_wallets_def store_update_Inr)

lemma update_withdrawals_Inr [step_simps]:
  "update_withdrawals P f s = Inr (u, t) \<longleftrightarrow> t = s\<lparr>withdrawals := update_where P f (withdrawals s)\<rparr>
     \<and> update_checks withdrawals_viol withdrawals_uniq P f (withdrawals s)"
  by (simp add: update_withdrawals_def store_update_Inr)

lemma update_deposit_intents_Inr [step_simps]:
  "update_deposit_intents P f s = Inr (u, t) \<longleftrightarrow> t = s\<lparr>deposit_intents := update_where P f (deposit_intents s)\<rparr>
     \<and> update_checks deposit_intents_viol deposit_intents_uniq P f (deposit_intents s)"
  by (simp add: update_deposit_intents_def store_update_Inr)

lemma update_unattributed_Inr [step_simps]:
  "update_unattributed P f s = Inr (u, t) \<longleftrightarrow> t = s\<lparr>unattributed_deposits := update_where P f (unattributed_deposits s)\<rparr>
     \<and> update_checks no_viol unattributed_uniq P f (unattributed_deposits s)"
  by (simp add: update_unattributed_def store_update_Inr)

lemma update_tickets_Inr [step_simps]:
  "update_tickets P f s = Inr (u, t) \<longleftrightarrow> t = s\<lparr>tickets := update_where P f (tickets s)\<rparr>
     \<and> update_checks tickets_viol tickets_uniq P f (tickets s)"
  by (simp add: update_tickets_def store_update_Inr)

lemma update_cashouts_Inr [step_simps]:
  "update_cashouts P f s = Inr (u, t) \<longleftrightarrow> t = s\<lparr>cashouts := update_where P f (cashouts s)\<rparr>
     \<and> update_checks cashouts_viol cashouts_uniq P f (cashouts s)"
  by (simp add: update_cashouts_def store_update_Inr)

lemma update_games_Inr [step_simps]:
  "update_games P f s = Inr (u, t) \<longleftrightarrow> t = s\<lparr>slotzilla_games := update_where P f (slotzilla_games s)\<rparr>
     \<and> update_checks games_viol games_uniq P f (slotzilla_games s)"
  by (simp add: update_games_def store_update_Inr)

lemma update_spins_Inr [step_simps]:
  "update_spins P f s = Inr (u, t) \<longleftrightarrow> t = s\<lparr>slotzilla_spins := update_where P f (slotzilla_spins s)\<rparr>
     \<and> update_checks spins_viol spins_uniq P f (slotzilla_spins s)"
  by (simp add: update_spins_def store_update_Inr)

lemma insert_withdrawal_Inr [step_simps]:
  "insert_withdrawal r s = Inr (u, t) \<longleftrightarrow> t = s\<lparr>withdrawals := withdrawals s @ [r]\<rparr>
     \<and> insert_checks withdrawals_viol withdrawals_uniq r (withdrawals s)"
  by (simp add: insert_withdrawal_def store_insert_Inr)

lemma insert_address_Inr [step_simps]:
  "insert_address r s = Inr (u, t) \<longleftrightarrow> t = s\<lparr>user_wallet_addresses := user_wallet_addresses s @ [r]\<rparr>
     \<and> insert_checks addresses_viol addresses_uniq r (user_wallet_addresses s)"
  by (simp add: insert_address_def store_insert_Inr)

lemma insert_ticket_Inr [step_simps]:
  "insert_ticket r s = Inr (u, t) \<longleftrightarrow> t = s\<lparr>tickets := tickets s @ [r]\<rparr>
     \<and> insert_checks tickets_viol tickets_uniq r (tickets s)"
  by (simp add: insert_ticket_def store_insert_Inr)

lemma insert_cashout_Inr [step_simps]:
  "insert_cashout r s = Inr (u, t) \<longleftrightarrow> t = s\<lparr>cashouts := cashouts s @ [r]\<rparr>
     \<and> insert_checks cashouts_viol cashouts_uniq r (cashouts s)"
  by (simp add: insert_cashout_def store_insert_Inr)

lemma insert_spin_Inr [step_simps]:
  "insert_spin r s = Inr (u, t) \<longleftrightarrow> t = s\<lparr>slotzilla_spins := slotzilla_spins s @ [r]\<rparr>
     \<and> insert_checks spins_viol spins_uniq r (slotzilla_spins s)"
  by (simp add: insert_spin_def store_insert_Inr)

lemma update_paytables_Inr [step_simps]:
  "update_paytables P f s = Inr (u, t) \<longleftrightarrow>
     t = s\<lparr>slotzilla_paytables := update_where P f (slotzilla_paytables s)\<rparr>
     \<and> update_checks paytables_viol paytables_uniq P f (slotzilla_paytables s)"
  by (simp add: update_paytables_def store_update_Inr)

lemma insert_paytable_Inr [step_simps]:
  "insert_paytable r s = Inr (u, t) \<longleftrightarrow> t = s\<lparr>slotzilla_paytables := slotzilla_paytables s @ [r]\<rparr>
     \<and> insert_checks paytables_viol paytables_uniq r (slotzilla_paytables s)"
  by (simp add: insert_paytable_def store_insert_Inr)

lemma update_config_Inr [step_simps]:
  "update_config f s = Inr (u, t) \<longleftrightarrow>
     t = s\<lparr>slotzilla_config := f (slotzilla_config s)\<rparr> \<and> config_viol (f (slotzilla_config s)) = None"
  by (auto simp: update_config_def split: option.splits)

lemma update_users_Inr [step_simps]:
  "update_users P f s = Inr (u, t) \<longleftrightarrow> t = s\<lparr>users := update_where P f (users s)\<rparr>
     \<and> update_checks users_viol users_uniq P f (users s)"
  by (simp add: update_users_def store_update_Inr)

lemma insert_user_Inr [step_simps]:
  "insert_user r s = Inr (u, t) \<longleftrightarrow> t = s\<lparr>users := users s @ [r]\<rparr>
     \<and> insert_checks users_viol users_uniq r (users s)"
  by (simp add: insert_user_def store_insert_Inr)

lemma update_sessions_Inr [step_simps]:
  "update_sessions P f s = Inr (u, t) \<longleftrightarrow> t = s\<lparr>sessions := update_where P f (sessions s)\<rparr>
     \<and> update_checks no_viol sessions_uniq P f (sessions s)"
  by (simp add: update_sessions_def store_update_Inr)

lemma insert_session_Inr [step_simps]:
  "insert_session r s = Inr (u, t) \<longleftrightarrow> t = s\<lparr>sessions := sessions s @ [r]\<rparr>
     \<and> insert_checks no_viol sessions_uniq r (sessions s)"
  by (simp add: insert_session_def store_insert_Inr)

lemma update_verification_tokens_Inr [step_simps]:
  "update_verification_tokens P f s = Inr (u, t) \<longleftrightarrow> t = s\<lparr>email_verification_tokens := update_where P f (email_verification_tokens s)\<rparr>
     \<and> update_checks (tokens_viol EVT) (tokens_uniq EVT) P f (email_verification_tokens s)"
  by (simp add: update_verification_tokens_def store_update_Inr)

lemma insert_verification_token_Inr [step_simps]:
  "insert_verification_token r s = Inr (u, t) \<longleftrightarrow> t = s\<lparr>email_verification_tokens := email_verification_tokens s @ [r]\<rparr>
     \<and> insert_checks (tokens_viol EVT) (tokens_uniq EVT) r (email_verification_tokens s)"
  by (simp add: insert_verification_token_def store_insert_Inr)

lemma update_reset_tokens_Inr [step_simps]:
  "update_reset_tokens P f s = Inr (u, t) \<longleftrightarrow> t = s\<lparr>password_reset_tokens := update_where P f (password_reset_tokens s)\<rparr>
     \<and> update_checks (tokens_viol PRT) (tokens_uniq PRT) P f (password_reset_tokens s)"
  by (simp add: update_reset_tokens_def store_update_Inr)

lemma insert_reset_token_Inr [step_simps]:
  "insert_reset_token r s = Inr (u, t) \<longleftrightarrow> t = s\<lparr>password_reset_tokens := password_reset_tokens s @ [r]\<rparr>
     \<and> insert_checks (tokens_viol PRT) (tokens_uniq PRT) r (password_reset_tokens s)"
  by (simp add: insert_reset_token_def store_insert_Inr)

lemma insert_outbox_Inr [step_simps]:
  "insert_outbox r s = Inr (u, t) \<longleftrightarrow> t = s\<lparr>email_outbox := email_outbox s @ [r]\<rparr>
     \<and> insert_checks no_viol outbox_uniq r (email_outbox s)"
  by (simp add: insert_outbox_def store_insert_Inr)

lemma insert_bank_ledger_Inr [step_simps]:
  "insert_bank_ledger r s = Inr (u, t) \<longleftrightarrow> t = s\<lparr>bank_ledger := bank_ledger s @ [r]\<rparr>
     \<and> insert_checks bank_ledger_viol bank_ledger_uniq r (bank_ledger s)"
  by (simp add: insert_bank_ledger_def store_insert_Inr)

lemma insert_wallet_once_Inr [step_simps]:
  "insert_wallet_once r s = Inr (u, t) \<longleftrightarrow>
     t = s\<lparr>wallets := open_once r (wallets s)\<rparr> \<and> wallet_checks r (wallets s)"
  by (auto simp: insert_wallet_once_def store_insert_Inr open_once_def wallet_checks_def)

lemma delete_wallets_Inr [step_simps]:
  "delete_wallets P s = Inr (u, t) \<longleftrightarrow> t = s\<lparr>wallets := filter (\<lambda>w. \<not> P w) (wallets s)\<rparr>"
  by (simp add: delete_wallets_def modifyT_Inr)

lemma insert_ledger_Inr [step_simps]:
  "insert_ledger r s = Inr (u, t) \<longleftrightarrow> t = s\<lparr>wallet_ledger := wallet_ledger s @ [r]\<rparr>
     \<and> insert_checks ledger_viol ledger_uniq r (wallet_ledger s)"
  by (simp add: insert_ledger_def store_insert_Inr)

lemma insert_ledger_once_Inr [step_simps]:
  "insert_ledger_once l s = Inr (u, t) \<longleftrightarrow>
     t = s\<lparr>wallet_ledger := book_once l (wallet_ledger s)\<rparr> \<and> ledger_checks l (wallet_ledger s)"
  by (auto simp: insert_ledger_once_def insert_ledger_Inr book_once_def ledger_checks_def)

lemma insert_bank_ledger_once_Inr [step_simps]:
  "insert_bank_ledger_once l s = Inr (u, t) \<longleftrightarrow>
     t = s\<lparr>bank_ledger := bank_book_once l (bank_ledger s)\<rparr> \<and> bank_ledger_checks l (bank_ledger s)"
  by (auto simp: insert_bank_ledger_once_def store_insert_Inr bank_book_once_def bank_ledger_checks_def)

lemma update_bank_Inr [step_simps]:
  "update_bank f s = Inr (u, t) \<longleftrightarrow>
     t = s\<lparr>bank_state := f (bank_state s)\<rparr> \<and> bank_viol (f (bank_state s)) = None"
  by (auto simp: update_bank_def split: option.splits)

lemma insert_audit_Inr [step_simps]:
  "insert_audit r s = Inr (u, t) \<longleftrightarrow> t = s\<lparr>admin_audit_log := admin_audit_log s @ [r]\<rparr>"
  by (simp add: insert_audit_def modifyT_Inr)

lemma insert_selections_Inr [step_simps]:
  "insert_selections rs s = Inr (u, t) \<longleftrightarrow> t = s\<lparr>ticket_selections := ticket_selections s @ rs\<rparr>
     \<and> (rs = [] \<or> selections_uniq (ticket_selections s @ rs) = None)"
proof (induction rs arbitrary: s u)
  case (Cons r rs)
  have prefix: "selections_uniq (xs @ [r]) = None" if "selections_uniq (xs @ r # rs) = None" for xs
    using that by (auto simp: selections_uniq_def)
  have one: "insert_selection r s = Inr (a, s') \<longleftrightarrow>
      s' = s\<lparr>ticket_selections := ticket_selections s @ [r]\<rparr> \<and> selections_uniq (ticket_selections s @ [r]) = None" for a s'
    by (simp add: insert_selection_def store_insert_Inr insert_checks_def no_viol_def)
  have "insert_selections (r # rs) s = Inr (u, t) \<longleftrightarrow>
      t = s\<lparr>ticket_selections := ticket_selections s @ r # rs\<rparr>
      \<and> selections_uniq (ticket_selections s @ [r]) = None
      \<and> (rs = [] \<or> selections_uniq (ticket_selections s @ r # rs) = None)"
    by (auto simp: thenT_Inr one Cons.IH)
  then show ?case using prefix [of "ticket_selections s"] by (cases rs) auto
qed (simp add: returnT_Inr)

lemma insert_event_Inr [step_simps]:
  "insert_event r s = Inr (u, t) \<longleftrightarrow> t = s\<lparr>riskzilla_event_log := riskzilla_event_log s @ [r]\<rparr>"
  by (simp add: insert_event_def modifyT_Inr)

end
