(* ===== verification/Accounting.thy ===== *)
theory Accounting
  imports Tables
begin

text \<open>
  What the money columns mean together.  The obligations of a (user, currency)
  pair are the amounts of its open withdrawals, the stakes of its open tickets
  and the stakes of its open spins; \<open>locks_ok\<close> says that \<open>locked_micro\<close> is exactly
  their sum, \<open>liability_ok\<close> that the bank's open-liability counter is exactly the
  exposure of the open USDC tickets and spins, \<open>refs_ok\<close> that a ledger row
  exists only for an entity that has left the state the row closes.
\<close>

section \<open>Open entities\<close>

definition wd_open :: "withdrawals_row \<Rightarrow> bool" where
  "wd_open r \<longleftrightarrow> wd_status r \<in> {requested, approved, submitted}"

definition t_open :: "tickets_row \<Rightarrow> bool" where
  "t_open r \<longleftrightarrow> t_status r \<in> {pending_delay, accepted}"

definition sp_open :: "slotzilla_spins_row \<Rightarrow> bool" where
  "sp_open r \<longleftrightarrow> sp_status r = spin_open"

section \<open>Sums\<close>

definition balance_of :: "uuid \<times> currency \<Rightarrow> wallets_row list \<Rightarrow> micro" where
  "balance_of k ws = sum_where (\<lambda>w. wallet_key w = k) w_balanceMicro ws"

definition locked_of :: "uuid \<times> currency \<Rightarrow> wallets_row list \<Rightarrow> micro" where
  "locked_of k ws = sum_where (\<lambda>w. wallet_key w = k) w_lockedMicro ws"

definition ledger_of :: "uuid \<times> currency \<Rightarrow> wallet_ledger_row list \<Rightarrow> micro" where
  "ledger_of k ls = sum_where (\<lambda>l. (l_userId l, l_currency l) = k) l_deltaMicro ls"

definition open_withdrawals :: "uuid \<times> currency \<Rightarrow> withdrawals_row list \<Rightarrow> micro" where
  "open_withdrawals k rs = sum_where (\<lambda>r. (wd_userId r, USDC) = k \<and> wd_open r) wd_amountMicro rs"

definition open_stakes :: "uuid \<times> currency \<Rightarrow> tickets_row list \<Rightarrow> micro" where
  "open_stakes k rs = sum_where (\<lambda>r. (t_userId r, t_currency r) = k \<and> t_open r) t_stakeMicro rs"

definition open_spin_stakes :: "uuid \<times> currency \<Rightarrow> slotzilla_spins_row list \<Rightarrow> micro" where
  "open_spin_stakes k rs =
     sum_where (\<lambda>r. (sp_userId r, sp_currency r) = k \<and> sp_open r) sp_stakeMicro rs"

definition obligations :: "uuid \<times> currency \<Rightarrow> db \<Rightarrow> micro" where
  "obligations k s = open_withdrawals k (withdrawals s) + open_stakes k (tickets s)
     + open_spin_stakes k (slotzilla_spins s)"

definition open_liability :: "db \<Rightarrow> micro" where
  "open_liability s =
     sum_where (\<lambda>r. t_currency r = USDC \<and> t_open r) t_potentialPayoutMicro (tickets s)
   + sum_where (\<lambda>r. sp_currency r = USDC \<and> sp_open r) sp_exposureMicro (slotzilla_spins s)"

text \<open>
  How far the ledger of a (user, currency) pair is from the wallet: the ledger
  books a stake when it is locked, the balance when it is lost or paid.
\<close>

definition ledger_drift :: "uuid \<times> currency \<Rightarrow> db \<Rightarrow> micro" where
  "ledger_drift k s = ledger_of k (wallet_ledger s)
     - (balance_of k (wallets s) - open_stakes k (tickets s)
        - open_spin_stakes k (slotzilla_spins s))"

section \<open>Invariants\<close>

definition schema_ok :: "db \<Rightarrow> bool" where
  "schema_ok s \<longleftrightarrow>
     table_ok wallets_viol wallets_uniq (wallets s)
   \<and> table_ok ledger_viol ledger_uniq (wallet_ledger s)
   \<and> table_ok withdrawals_viol withdrawals_uniq (withdrawals s)
   \<and> table_ok deposit_intents_viol deposit_intents_uniq (deposit_intents s)
   \<and> table_ok no_viol unattributed_uniq (unattributed_deposits s)
   \<and> table_ok addresses_viol addresses_uniq (user_wallet_addresses s)
   \<and> bank_viol (bank_state s) = None
   \<and> table_ok bank_ledger_viol bank_ledger_uniq (bank_ledger s)
   \<and> table_ok tickets_viol tickets_uniq (tickets s)
   \<and> table_ok no_viol selections_uniq (ticket_selections s)
   \<and> table_ok cashouts_viol cashouts_uniq (cashouts s)
   \<and> table_ok games_viol games_uniq (slotzilla_games s)
   \<and> table_ok spins_viol spins_uniq (slotzilla_spins s)
   \<and> config_viol (slotzilla_config s) = None
   \<and> table_ok paytables_viol paytables_uniq (slotzilla_paytables s)
   \<and> table_ok users_viol users_uniq (users s)
   \<and> table_ok no_viol sessions_uniq (sessions s)
   \<and> table_ok (tokens_viol EVT) (tokens_uniq EVT) (email_verification_tokens s)
   \<and> table_ok (tokens_viol PRT) (tokens_uniq PRT) (password_reset_tokens s)
   \<and> table_ok no_viol outbox_uniq (email_outbox s)"

definition locks_ok :: "db \<Rightarrow> bool" where
  "locks_ok s \<longleftrightarrow> (\<forall>k. locked_of k (wallets s) = obligations k s)"

definition liability_ok :: "db \<Rightarrow> bool" where
  "liability_ok s \<longleftrightarrow> openLiabilityMicro (bank_state s) = open_liability s"

text \<open>The entity a ledger row refers to has left the state the row closes.\<close>

definition ids_where :: "('r \<Rightarrow> uuid) \<Rightarrow> ('r \<Rightarrow> bool) \<Rightarrow> 'r list \<Rightarrow> uuid set" where
  "ids_where key P rs = set (map key (filter P rs))"

abbreviation confirmed_ids :: "db \<Rightarrow> uuid set" where
  "confirmed_ids s \<equiv> ids_where wd_id (\<lambda>r. wd_status r = confirmed) (withdrawals s)"

abbreviation credited_ids :: "db \<Rightarrow> uuid set" where
  "credited_ids s \<equiv> ids_where di_id (\<lambda>r. di_status r = di_credited) (deposit_intents s)"

abbreviation closed_tickets :: "db \<Rightarrow> uuid set" where
  "closed_tickets s \<equiv> ids_where t_id (\<lambda>r. \<not> t_open r) (tickets s)"

abbreviation closed_spins :: "db \<Rightarrow> uuid set" where
  "closed_spins s \<equiv> ids_where sp_id (\<lambda>r. \<not> sp_open r) (slotzilla_spins s)"

abbreviation ticket_ids :: "db \<Rightarrow> uuid set" where
  "ticket_ids s \<equiv> set (map t_id (tickets s))"

abbreviation spin_ids :: "db \<Rightarrow> uuid set" where
  "spin_ids s \<equiv> set (map sp_id (slotzilla_spins s))"

fun ref_ok :: "db \<Rightarrow> wallet_tx_type \<times> string \<times> string \<Rightarrow> bool" where
  "ref_ok s (ty, rt, i) \<longleftrightarrow>
     (ty = withdrawal \<and> rt = ''withdrawal'' \<longrightarrow> i \<in> confirmed_ids s)
   \<and> (ty = deposit \<and> rt = ''deposit_intent'' \<longrightarrow> i \<in> credited_ids s)
   \<and> (ty = bet_stake \<and> rt = ''ticket'' \<longrightarrow> i \<in> ticket_ids s)
   \<and> (ty \<in> {bet_refund, cashout, bet_payout} \<and> rt = ''ticket'' \<longrightarrow> i \<in> closed_tickets s)
   \<and> (ty = slot_stake \<and> rt = ''slotzilla_spin'' \<longrightarrow> i \<in> spin_ids s)
   \<and> (ty \<in> {slot_refund, slot_payout} \<and> rt = ''slotzilla_spin'' \<longrightarrow> i \<in> closed_spins s)"

declare ref_ok.simps [simp del]

definition refs_ok :: "db \<Rightarrow> bool" where
  "refs_ok s \<longleftrightarrow> (\<forall>l \<in> set (wallet_ledger s). \<forall>k. ledger_key l = Some k \<longrightarrow> ref_ok s k)"

definition books_ok :: "db \<Rightarrow> bool" where
  "books_ok s \<longleftrightarrow> schema_ok s \<and> locks_ok s \<and> liability_ok s \<and> refs_ok s"

section \<open>Statements keep the schema\<close>

definition keeps :: "('s \<Rightarrow> bool) \<Rightarrow> ('s, 'a) tx \<Rightarrow> bool" where
  "keeps I m \<longleftrightarrow> (\<forall>s. I s \<longrightarrow> wp m (\<lambda>_. I) s)"

named_theorems keeps_intros \<open>transactions that keep an invariant\<close>

lemma keepsD: "keeps I m \<Longrightarrow> I s \<Longrightarrow> m s = Inr (a, t) \<Longrightarrow> I t"
  by (auto simp: keeps_def dest: wpD)

lemma keepsI: "(\<And>s a t. I s \<Longrightarrow> m s = Inr (a, t) \<Longrightarrow> I t) \<Longrightarrow> keeps I m"
  by (auto simp: keeps_def intro: wpI)

lemma keeps_bindT [keeps_intros]: "keeps I m \<Longrightarrow> (\<And>a. keeps I (f a)) \<Longrightarrow> keeps I (bindT m f)"
  by (auto simp: keeps_def wp_bindT elim!: wp_mono)

lemma keeps_thenT [keeps_intros]: "keeps I m \<Longrightarrow> keeps I k \<Longrightarrow> keeps I (thenT m k)"
  by (simp add: thenT_def keeps_bindT)

lemma keeps_pure [keeps_intros]:
  "keeps I (returnT a)" "keeps I (throwT e)" "keeps I (getT f)" "keeps I (throwIf c e)"
  "keeps I (someOr e r)" "keeps I (liftE x)"
  by (simp_all add: keeps_def wp_simps)

lemma keeps_whenT [keeps_intros]: "keeps I m \<Longrightarrow> keeps I (whenT c m)"
  by (simp add: keeps_def wp_simps)

lemma keeps_catchUnique [keeps_intros]: "keeps I m \<Longrightarrow> keeps I (catchUnique m c)"
  by (simp add: keeps_def wp_catchUnique)

lemma keeps_if [keeps_intros]: "keeps I m \<Longrightarrow> keeps I n \<Longrightarrow> keeps I (if c then m else n)"
  by simp

lemma keeps_case_option [keeps_intros]:
  "keeps I m \<Longrightarrow> (\<And>a. keeps I (f a)) \<Longrightarrow> keeps I (case x of None \<Rightarrow> m | Some a \<Rightarrow> f a)"
  by (cases x) simp_all

lemma keeps_let [keeps_intros]: "(\<And>x. keeps I (f x)) \<Longrightarrow> keeps I (let x = e in f x)"
  by simp

lemma keeps_forT [keeps_intros]: "(\<And>x. keeps I (f x)) \<Longrightarrow> keeps I (forT xs f)"
  by (induction xs) (simp_all add: keeps_intros)

text \<open>The same for calls: whatever they answer, the state they leave.\<close>

definition keepsC :: "('s \<Rightarrow> bool) \<Rightarrow> ('s, 'a) call \<Rightarrow> bool" where
  "keepsC I m \<longleftrightarrow> (\<forall>s. I s \<longrightarrow> I (snd (m s)))"

lemma keepsCD: "keepsC I m \<Longrightarrow> I s \<Longrightarrow> m s = (r, t) \<Longrightarrow> I t"
  by (metis keepsC_def snd_conv)

lemma keepsC_atomically [keeps_intros]: "keeps I m \<Longrightarrow> keepsC I (atomically m)"
  by (auto simp: keepsC_def keeps_def wp_def atomically_def split: sum.splits)

lemma keepsC_bindC [keeps_intros]: "keepsC I m \<Longrightarrow> (\<And>a. keepsC I (f a)) \<Longrightarrow> keepsC I (bindC m f)"
  by (auto simp: keepsC_def bindC_def split: sum.splits prod.splits dest: spec)

lemma keepsC_pure [keeps_intros]:
  "keepsC I (throwC e)" "keepsC I (returnC a)"
  by (simp_all add: keepsC_def throwC_def returnC_def)

lemma keepsC_best_effort [keeps_intros]: "keepsC I m \<Longrightarrow> keepsC I (best_effort m)"
  by (simp add: keepsC_def best_effort_def)

lemma keepsC_unitC [keeps_intros]: "keepsC I m \<Longrightarrow> keepsC I (unitC m)"
  by (simp add: keepsC_def)

lemma keepsC_if [keeps_intros]: "keepsC I m \<Longrightarrow> keepsC I n \<Longrightarrow> keepsC I (if c then m else n)"
  by simp

lemma keepsC_case_sum [keeps_intros]:
  "(\<And>e. keepsC I (f e)) \<Longrightarrow> (\<And>a. keepsC I (g a)) \<Longrightarrow> keepsC I (case x of Inl e \<Rightarrow> f e | Inr a \<Rightarrow> g a)"
  by (cases x) simp_all

lemma keeps_store:
  assumes "\<And>s rs. I s \<Longrightarrow> stmt s = Inr rs \<Longrightarrow> I (put rs s)"
  shows "keeps I (store stmt put)"
  using assms by (simp add: keeps_def wp_store)

lemma schema_statements [keeps_intros]:
  "keeps schema_ok (update_wallets P f)"
  "keeps schema_ok (insert_ledger l)"
  by (auto simp: statement_defs schema_ok_def intro!: keeps_store
      dest: wallets_t.update_ok ledger_t.insert_ok)

lemma schema_statements_withdrawals [keeps_intros]:
  "keeps schema_ok (update_withdrawals P1 f1)"
  "keeps schema_ok (insert_withdrawal r1)"
  by (auto simp: statement_defs schema_ok_def intro!: keeps_store
      dest: withdrawals_t.update_ok withdrawals_t.insert_ok)

lemma schema_statements_deposits [keeps_intros]:
  "keeps schema_ok (update_deposit_intents P2 f2)"
  "keeps schema_ok (update_unattributed P3 f3)"
  "keeps schema_ok (insert_address r3)"
  by (auto simp: statement_defs schema_ok_def intro!: keeps_store
      dest: deposit_intents_t.update_ok unattributed_t.update_ok addresses_t.insert_ok)

lemma schema_statements_tickets [keeps_intros]:
  "keeps schema_ok (update_tickets P4 f4)"
  "keeps schema_ok (insert_ticket r4)"
  "keeps schema_ok (update_cashouts P5 f5)"
  "keeps schema_ok (insert_cashout r5)"
  by (auto simp: statement_defs schema_ok_def intro!: keeps_store
      dest: tickets_t.update_ok tickets_t.insert_ok cashouts_t.update_ok cashouts_t.insert_ok)

lemma schema_statements_slots [keeps_intros]:
  "keeps schema_ok (update_games P6 f6)"
  "keeps schema_ok (update_spins P7 f7)"
  "keeps schema_ok (insert_spin r7)"
  by (auto simp: statement_defs schema_ok_def intro!: keeps_store
      dest: games_t.update_ok spins_t.update_ok spins_t.insert_ok)

lemma schema_statements_settings [keeps_intros]:
  "keeps schema_ok (update_paytables P8 f8)"
  "keeps schema_ok (insert_paytable r8)"
  by (auto simp: statement_defs schema_ok_def intro!: keeps_store
      dest: paytables_t.update_ok paytables_t.insert_ok)

lemma schema_statements_accounts [keeps_intros]:
  "keeps schema_ok (update_users P10 f10)" "keeps schema_ok (insert_user r10)"
  "keeps schema_ok (update_sessions P11 f11)" "keeps schema_ok (insert_session r11)"
  by (auto simp: statement_defs schema_ok_def intro!: keeps_store
      dest: users_t.update_ok users_t.insert_ok sessions_t.update_ok sessions_t.insert_ok)

lemma schema_statements_mail [keeps_intros]:
  "keeps schema_ok (update_verification_tokens P12 f12)" "keeps schema_ok (insert_verification_token r12)"
  "keeps schema_ok (update_reset_tokens P13 f13)" "keeps schema_ok (insert_reset_token r13)"
  "keeps schema_ok (insert_outbox r14)" "keeps schema_ok (insert_bank_ledger r15)"
  by (auto simp: statement_defs schema_ok_def intro!: keeps_store
      dest: tokens_t.update_ok tokens_t.insert_ok outbox_t.insert_ok bank_ledger_t.insert_ok)

lemma schema_wallet_once [keeps_intros]: "keeps schema_ok (insert_wallet_once r)"
  by (rule keepsI)
     (auto simp: insert_wallet_once_def store_Inr schema_ok_def split: if_splits dest: wallets_t.insert_ok)

lemma schema_update_config [keeps_intros]: "keeps schema_ok (update_config f)"
  by (rule keepsI) (simp add: update_config_Inr schema_ok_def)

lemma schema_insert_selections [keeps_intros]: "keeps schema_ok (insert_selections rs)"
proof (induction rs)
  case (Cons r rs)
  have "keeps schema_ok (insert_selection r)"
    by (auto simp: statement_defs schema_ok_def intro!: keeps_store dest: selections_t.insert_ok)
  then show ?case using Cons by (simp add: keeps_thenT)
qed (simp add: keeps_intros)

lemma schema_insert_event [keeps_intros]: "keeps schema_ok (insert_event r)"
  by (auto simp: keeps_def wp_modifyT insert_event_def schema_ok_def)

lemma schema_ledger_once [keeps_intros]: "keeps schema_ok (insert_ledger_once l)"
  by (rule keepsI)
     (auto simp: insert_ledger_once_def split: if_splits
       intro: keepsD [OF schema_statements(2)])

lemma schema_bank [keeps_intros]:
  "keeps schema_ok (update_bank f)" "keeps schema_ok (insert_audit r)"
  by (auto simp: keeps_def wp_def update_bank_def insert_audit_def modifyT_def schema_ok_def
      split: option.splits)

lemma schema_bank_ledger_once [keeps_intros]: "keeps schema_ok (insert_bank_ledger_once r)"
  by (rule keepsI)
     (auto simp: insert_bank_ledger_once_def store_Inr schema_ok_def split: if_splits
       dest: bank_ledger_t.insert_ok)

section \<open>Facts of the schema\<close>

lemma schema_okD:
  assumes "schema_ok s"
  shows wallets_distinct: "distinct (map wallet_key (wallets s))"
    and withdrawals_distinct: "distinct (map wd_id (withdrawals s))"
    and deposit_intents_distinct: "distinct (map di_id (deposit_intents s))"
    and tickets_distinct: "distinct (map t_id (tickets s))"
    and ticket_keys_distinct: "distinct (map t_idempotencyKey (tickets s))"
    and spins_distinct: "distinct (map sp_id (slotzilla_spins s))"
    and cashouts_distinct: "distinct (map c_id (cashouts s))"
    and ledger_distinct: "distinct (List.map_filter ledger_key (wallet_ledger s))"
  using assms
  by (simp_all add: schema_ok_def table_ok_def wallets_uniq_def withdrawals_uniq_def
      deposit_intents_uniq_def tickets_uniq_def spins_uniq_def cashouts_uniq_def ledger_uniq_def)

lemma wallet_bounds:
  assumes "schema_ok s" and "w \<in> set (wallets s)"
  shows "0 \<le> w_lockedMicro w" and "w_lockedMicro w \<le> w_balanceMicro w"
    and "w_balanceMicro w < 2 ^ 63"
  using assms
  by (auto simp: schema_ok_def table_ok_def list_all_iff wallets_viol_def in_bigint_def)

lemma withdrawal_bounds:
  assumes "schema_ok s" and "r \<in> set (withdrawals s)"
  shows "0 < wd_amountMicro r" and "0 \<le> wd_feeMicro r"
  using assms by (auto simp: schema_ok_def table_ok_def list_all_iff withdrawals_viol_def)

lemma ticket_bounds:
  assumes "schema_ok s" and "r \<in> set (tickets s)"
  shows "0 < t_stakeMicro r" and "0 \<le> t_potentialPayoutMicro r"
  using assms by (auto simp: schema_ok_def table_ok_def list_all_iff tickets_viol_def)

lemma spin_bounds:
  assumes "schema_ok s" and "r \<in> set (slotzilla_spins s)"
  shows "0 < sp_stakeMicro r" and "0 \<le> sp_exposureMicro r"
  using assms by (auto simp: schema_ok_def table_ok_def list_all_iff spins_viol_def)

lemma open_sums_nonneg:
  assumes "schema_ok s"
  shows "0 \<le> open_withdrawals k (withdrawals s)" and "0 \<le> open_stakes k (tickets s)"
    and "0 \<le> open_spin_stakes k (slotzilla_spins s)"
  using assms
  by (auto simp: open_withdrawals_def open_stakes_def open_spin_stakes_def intro!: sum_where_nonneg
      dest: withdrawal_bounds(1) ticket_bounds(1) spin_bounds(1))

section \<open>Wallet updates\<close>

definition has_wallet :: "uuid \<times> currency \<Rightarrow> wallets_row list \<Rightarrow> bool" where
  "has_wallet k ws \<longleftrightarrow> (\<exists>w \<in> set ws. wallet_key w = k)"

lemma has_wallet_iff: "has_wallet k ws \<longleftrightarrow> select_one (\<lambda>w. wallet_key w = k) ws \<noteq> None"
  by (auto simp: has_wallet_def select_one_None_iff)

text \<open>Adding a constant to a column of the wallet with key \<open>k\<close> adds it to the sum for \<open>k\<close>.\<close>

lemma sum_wallets_add:
  assumes "distinct (map wallet_key ws)"
    and "\<And>w. wallet_key (f w) = wallet_key w" and "\<And>w. g (f w) = g w + d"
  shows "sum_where (\<lambda>w. wallet_key w = k') g (update_where (\<lambda>w. wallet_key w = k) f ws) =
    sum_where (\<lambda>w. wallet_key w = k') g ws + (if k' = k \<and> has_wallet k ws then d else 0)"
proof (cases "select_one (\<lambda>w. wallet_key w = k) ws")
  case None
  then have "\<forall>w \<in> set ws. wallet_key w \<noteq> k" by (simp add: select_one_None_iff)
  then show ?thesis by (auto simp: update_where_none has_wallet_def)
next
  case (Some w)
  then have "wallet_key w = k" "has_wallet k ws"
    by (auto simp: has_wallet_def dest: select_one_SomeD)
  then show ?thesis
    using sum_where_update_key [OF assms(1) Some, of "\<lambda>w. wallet_key w = k'" g f] assms(2,3)
    by auto
qed

lemma locked_of_update:
  assumes "distinct (map wallet_key ws)" "\<And>w. wallet_key (f w) = wallet_key w"
    "\<And>w. w_lockedMicro (f w) = w_lockedMicro w + d"
  shows "locked_of k' (update_where (\<lambda>w. wallet_key w = k) f ws) =
    locked_of k' ws + (if k' = k \<and> has_wallet k ws then d else 0)"
  unfolding locked_of_def using assms by (rule sum_wallets_add)

lemma balance_of_update:
  assumes "distinct (map wallet_key ws)" "\<And>w. wallet_key (f w) = wallet_key w"
    "\<And>w. w_balanceMicro (f w) = w_balanceMicro w + d"
  shows "balance_of k' (update_where (\<lambda>w. wallet_key w = k) f ws) =
    balance_of k' ws + (if k' = k \<and> has_wallet k ws then d else 0)"
  unfolding balance_of_def using assms by (rule sum_wallets_add)

lemma has_wallet_if_locked: "locked_of k ws \<noteq> 0 \<Longrightarrow> has_wallet k ws"
proof (rule ccontr)
  assume "locked_of k ws \<noteq> 0" and none: "\<not> has_wallet k ws"
  have "filter (\<lambda>w. wallet_key w = k) ws = []"
    using none by (auto simp: has_wallet_def filter_empty_conv)
  with \<open>locked_of k ws \<noteq> 0\<close> show False by (simp add: locked_of_def sum_where_def)
qed

lemma has_wallet_update [simp]:
  assumes "\<And>w. wallet_key (f w) = wallet_key w"
  shows "has_wallet k (update_where P f ws) = has_wallet k ws"
proof -
  have keys: "has_wallet k xs \<longleftrightarrow> k \<in> set (map wallet_key xs)" for xs
    by (auto simp: has_wallet_def)
  show ?thesis
    unfolding keys by (subst map_key_update_where) (simp_all add: assms)
qed

section \<open>Closing an entity releases exactly its lock\<close>

definition releases :: "uuid \<times> currency \<Rightarrow> micro \<Rightarrow> wallets_row list \<Rightarrow> wallets_row list \<Rightarrow> bool" where
  "releases k amount ws ws' \<longleftrightarrow> (\<exists>f. ws' = update_where (\<lambda>w. wallet_key w = k) f ws
     \<and> (\<forall>w. wallet_key (f w) = wallet_key w \<and> w_lockedMicro (f w) = w_lockedMicro w - amount))"

lemma releases_locked_of:
  assumes "distinct (map wallet_key ws)" "has_wallet k ws" "releases k amount ws ws'"
  shows "locked_of k' ws' = locked_of k' ws - (if k' = k then amount else 0)"
  using assms locked_of_update [of ws _ "- amount" k' k]
  by (auto simp: releases_def)

lemma locks_okD: "locks_ok s \<Longrightarrow> locked_of k (wallets s) = obligations k s"
  unfolding locks_ok_def by blast

lemma locks_okI: "(\<And>k. locked_of k (wallets s) = obligations k s) \<Longrightarrow> locks_ok s"
  unfolding locks_ok_def by blast

definition acquires :: "uuid \<times> currency \<Rightarrow> micro \<Rightarrow> wallets_row list \<Rightarrow> wallets_row list \<Rightarrow> bool" where
  "acquires k amount ws ws' \<longleftrightarrow> has_wallet k ws \<and> releases k (- amount) ws ws'"

text \<open>
  The interface of an entity that holds a lock on a wallet: its table, its key,
  the wallet it locks, the amount and when it is open.  Opening, closing and
  any update that changes none of these keeps the lock equation.
\<close>

locale obligation =
  fixes rows :: "db \<Rightarrow> 'r list" and rid :: "'r \<Rightarrow> uuid" and owner :: "'r \<Rightarrow> uuid \<times> currency"
    and amount :: "'r \<Rightarrow> micro" and is_open :: "'r \<Rightarrow> bool"
    and rest :: "uuid \<times> currency \<Rightarrow> db \<Rightarrow> micro"
  assumes distinct_rows: "schema_ok s \<Longrightarrow> distinct (map rid (rows s))"
    and amount_pos: "schema_ok s \<Longrightarrow> r \<in> set (rows s) \<Longrightarrow> 0 < amount r"
    and split_off: "obligations k s = sum_where (\<lambda>r. owner r = k \<and> is_open r) amount (rows s) + rest k s"
    and rest_nonneg: "schema_ok s \<Longrightarrow> 0 \<le> rest k s"
begin

lemma open_has_wallet:
  assumes ok: "schema_ok s" "locks_ok s" and row: "r \<in> set (rows s)" "is_open r"
  shows "has_wallet (owner r) (wallets s)" and "amount r \<le> locked_of (owner r) (wallets s)"
proof -
  have "amount r \<le> sum_where (\<lambda>x. owner x = owner r \<and> is_open x) amount (rows s)"
    using row amount_pos [OF ok(1)] by (intro sum_where_ge_member) (auto simp: less_imp_le)
  then have "amount r \<le> obligations (owner r) s"
    using rest_nonneg [OF ok(1), of "owner r"] by (simp add: split_off)
  then show "amount r \<le> locked_of (owner r) (wallets s)" by (simp add: locks_okD [OF ok(2)])
  with amount_pos [OF ok(1) row(1)] show "has_wallet (owner r) (wallets s)"
    by (intro has_wallet_if_locked) auto
qed

lemma release:
  assumes ok: "schema_ok s" "locks_ok s"
    and row: "select_one (\<lambda>r. rid r = i) (rows s) = Some row" "is_open row"
    and upd: "rows t = update_where (\<lambda>r. rid r = i) f (rows s)" "\<not> is_open (f row)"
    and rel: "releases (owner row) (amount row) (wallets s) (wallets t)"
    and frame: "\<And>k. rest k t = rest k s"
  shows "locks_ok t"
proof -
  have mem: "row \<in> set (rows s)" using row(1) by (auto dest: select_one_SomeD)
  note locked = releases_locked_of [OF wallets_distinct [OF ok(1)]
    open_has_wallet(1) [OF ok mem row(2)] rel]
  have "obligations k t = obligations k s - (if k = owner row then amount row else 0)" for k
    using sum_where_update_key [OF distinct_rows [OF ok(1)] row(1)] row(2) upd
    by (auto simp: split_off frame)
  then show ?thesis using locks_okD [OF ok(2)] locked by (intro locks_okI) simp
qed

lemma acquire:
  assumes ok: "schema_ok s" "locks_ok s"
    and upd: "rows t = rows s @ [r]" "is_open r"
    and acq: "acquires (owner r) (amount r) (wallets s) (wallets t)"
    and frame: "\<And>k. rest k t = rest k s"
  shows "locks_ok t"
proof -
  have locked: "locked_of k (wallets t) =
      locked_of k (wallets s) + (if k = owner r then amount r else 0)" for k
    using releases_locked_of [OF wallets_distinct [OF ok(1)], of "owner r" "- amount r"] acq
    by (auto simp: acquires_def)
  have "obligations k t = obligations k s + (if k = owner r then amount r else 0)" for k
    using upd by (auto simp: split_off frame)
  then show ?thesis using locks_okD [OF ok(2)] locked by (intro locks_okI) simp
qed

lemma unchanged:
  assumes ok: "locks_ok s"
    and upd: "rows t = update_where (\<lambda>r. rid r = i) f (rows s)"
    and same: "\<And>r. r \<in> set (rows s) \<Longrightarrow> rid r = i \<Longrightarrow>
      owner (f r) = owner r \<and> amount (f r) = amount r \<and> is_open (f r) = is_open r"
    and frame: "wallets t = wallets s" "\<And>k. rest k t = rest k s"
  shows "locks_ok t"
proof -
  have "obligations k t = obligations k s" for k
    unfolding split_off frame upd using same
    by (subst sum_where_update_same) auto
  then show ?thesis using locks_okD [OF ok] by (intro locks_okI) (simp add: frame)
qed

end

interpretation wd_obl: obligation withdrawals wd_id "\<lambda>r. (wd_userId r, USDC)" wd_amountMicro wd_open
  "\<lambda>k s. open_stakes k (tickets s) + open_spin_stakes k (slotzilla_spins s)"
proof unfold_locales
  fix k s
  assume "schema_ok s"
  from open_sums_nonneg [OF this, of k]
  show "0 \<le> open_stakes k (tickets s) + open_spin_stakes k (slotzilla_spins s)" by simp
qed (simp_all add: withdrawals_distinct withdrawal_bounds obligations_def open_withdrawals_def)

interpretation t_obl: obligation tickets t_id "\<lambda>r. (t_userId r, t_currency r)" t_stakeMicro t_open
  "\<lambda>k s. open_withdrawals k (withdrawals s) + open_spin_stakes k (slotzilla_spins s)"
proof unfold_locales
  fix k s
  assume "schema_ok s"
  from open_sums_nonneg [OF this, of k]
  show "0 \<le> open_withdrawals k (withdrawals s) + open_spin_stakes k (slotzilla_spins s)" by simp
qed (simp_all add: tickets_distinct ticket_bounds obligations_def open_stakes_def)

interpretation sp_obl: obligation slotzilla_spins sp_id "\<lambda>r. (sp_userId r, sp_currency r)"
  sp_stakeMicro sp_open "\<lambda>k s. open_withdrawals k (withdrawals s) + open_stakes k (tickets s)"
proof unfold_locales
  fix k s
  assume "schema_ok s"
  from open_sums_nonneg [OF this, of k]
  show "0 \<le> open_withdrawals k (withdrawals s) + open_stakes k (tickets s)" by simp
qed (simp_all add: spins_distinct spin_bounds obligations_def open_spin_stakes_def)

section \<open>Ledger rows\<close>

lemma book_once_set: "l \<in> set (book_once x ls) \<Longrightarrow> l \<in> set ls \<or> l = x"
  by (auto simp: book_once_def split: if_splits)

lemma ledger_of_book_once:
  "ledger_of k (book_once l ls) = ledger_of k ls +
     (if (l_userId l, l_currency l) = k \<and> \<not> ledger_conflict l ls then l_deltaMicro l else 0)"
  by (auto simp: book_once_def ledger_of_def)

lemma ledger_of_book_zero [simp]: "l_deltaMicro l = 0 \<Longrightarrow> ledger_of k (book_once l ls) = ledger_of k ls"
  by (simp add: ledger_of_book_once)

lemma refs_okD: "refs_ok s \<Longrightarrow> l \<in> set (wallet_ledger s) \<Longrightarrow> ledger_key l = Some k \<Longrightarrow> ref_ok s k"
  unfolding refs_ok_def by blast

lemma no_conflict:
  assumes "refs_ok s" and "ledger_key l = Some k" and "\<not> ref_ok s k"
  shows "\<not> ledger_conflict l (wallet_ledger s)"
  using assms by (auto simp: ledger_conflict_def list_ex_iff dest: refs_okD)

lemma refs_ok_book:
  assumes "refs_ok s" and "wallet_ledger t = book_once l (wallet_ledger s)"
    and "\<And>k. ref_ok s k \<Longrightarrow> ref_ok t k" and "pred_option (ref_ok t) (ledger_key l)"
  shows "refs_ok t"
  unfolding refs_ok_def
proof (intro ballI allI impI)
  fix x k
  assume "x \<in> set (wallet_ledger t)" and key: "ledger_key x = Some k"
  then consider "x \<in> set (wallet_ledger s)" | "x = l" using assms(2) by (auto dest: book_once_set)
  then show "ref_ok t k"
  proof cases
    case 1
    then show ?thesis using key assms(1) by (blast intro: assms(3) refs_okD)
  next
    case 2
    then show ?thesis using key assms(4) by simp
  qed
qed

text \<open>
  The state of an entity moves one way for the ledger: a closed entity stays in
  the table and stays closed.
\<close>

definition entities_le :: "db \<Rightarrow> db \<Rightarrow> bool" where
  "entities_le s t \<longleftrightarrow> confirmed_ids s \<subseteq> confirmed_ids t \<and> credited_ids s \<subseteq> credited_ids t
   \<and> ticket_ids s \<subseteq> ticket_ids t \<and> closed_tickets s \<subseteq> closed_tickets t
   \<and> spin_ids s \<subseteq> spin_ids t \<and> closed_spins s \<subseteq> closed_spins t"

lemma imp_subset: "A \<longrightarrow> x \<in> S \<Longrightarrow> S \<subseteq> T \<Longrightarrow> A \<longrightarrow> x \<in> T"
  by blast

lemma ref_ok_mono: "entities_le s t \<Longrightarrow> ref_ok s k \<Longrightarrow> ref_ok t k"
  unfolding entities_le_def
  by (cases k, simp only: ref_ok.simps, elim conjE, intro conjI; erule (1) imp_subset)

lemma refs_ok_add:
  assumes "refs_ok s" and "entities_le s t" and "set (wallet_ledger t) \<subseteq> insert l (set (wallet_ledger s))"
    and "pred_option (ref_ok t) (ledger_key l)"
  shows "refs_ok t"
  unfolding refs_ok_def
proof (intro ballI allI impI)
  fix x k
  assume "x \<in> set (wallet_ledger t)" and key: "ledger_key x = Some k"
  then have "x = l \<or> x \<in> set (wallet_ledger s)" using assms(3) by blast
  then show "ref_ok t k"
  proof
    assume "x = l"
    then show ?thesis using assms(4) key by simp
  next
    assume "x \<in> set (wallet_ledger s)"
    then have "ref_ok s k" using assms(1) key by (rule_tac refs_okD)
    then show ?thesis by (rule ref_ok_mono [OF assms(2)])
  qed
qed

lemma ids_where_update:
  assumes "\<And>r. r \<in> set rs \<Longrightarrow> Q r \<Longrightarrow> key (f r) = key r \<and> (P r \<longrightarrow> P (f r))"
  shows "ids_where key P rs \<subseteq> ids_where key P (update_where Q f rs)"
proof
  fix i
  assume "i \<in> ids_where key P rs"
  then obtain r where r: "r \<in> set rs" "P r" "i = key r" by (auto simp: ids_where_def)
  let ?r = "if Q r then f r else r"
  have "?r \<in> set (update_where Q f rs)" using r(1) by (auto simp: in_set_update_where)
  moreover have "P ?r" "key ?r = i" using r assms by auto
  ultimately show "i \<in> ids_where key P (update_where Q f rs)" by (auto simp: ids_where_def)
qed

lemma ids_where_append [simp]: "ids_where key P (rs @ ss) = ids_where key P rs \<union> ids_where key P ss"
  by (auto simp: ids_where_def)

lemma refs_ok_le:
  assumes "refs_ok s" and "entities_le s t" and "wallet_ledger t = book_once l (wallet_ledger s)"
    and "pred_option (ref_ok t) (ledger_key l)"
  shows "refs_ok t"
  using assms(1,3) ref_ok_mono [OF assms(2)] assms(4) by (rule refs_ok_book)

lemma refs_ok_frame:
  assumes "refs_ok s" and "entities_le s t" and "wallet_ledger t = wallet_ledger s"
  shows "refs_ok t"
  unfolding refs_ok_def
proof (intro ballI allI impI)
  fix l k
  assume "l \<in> set (wallet_ledger t)" and "ledger_key l = Some k"
  with assms(1,3) have "ref_ok s k" by (auto intro: refs_okD)
  with assms(2) show "ref_ok t k" by (rule ref_ok_mono)
qed

lemma update_where_cong:
  "(\<And>r. r \<in> set rs \<Longrightarrow> P r = Q r) \<Longrightarrow> update_where P f rs = update_where Q f rs"
  by (simp add: update_where_def)

lemma select_one_unique:
  assumes "distinct (map key rs)" "select_one (\<lambda>r. key r = i) rs = Some row" "r \<in> set rs" "key r = i"
  shows "r = row"
  using assms by (auto dest!: select_one_SomeD intro: distinct_key_inj)

text \<open>The wallets may change any column but the locked amounts.\<close>

lemma locks_ok_frame:
  assumes "locks_ok s" and "\<And>k. locked_of k (wallets t) = locked_of k (wallets s)"
    and "withdrawals t = withdrawals s" "tickets t = tickets s" "slotzilla_spins t = slotzilla_spins s"
  shows "locks_ok t"
  using locks_okD [OF assms(1)] assms(2-) by (intro locks_okI) (simp add: obligations_def)

lemma books_okI:
  "schema_ok s \<Longrightarrow> locks_ok s \<Longrightarrow> liability_ok s \<Longrightarrow> refs_ok s \<Longrightarrow> books_ok s"
  by (simp add: books_ok_def)

lemma books_okD:
  assumes "books_ok s"
  shows "schema_ok s" "locks_ok s" "liability_ok s" "refs_ok s"
  using assms by (simp_all add: books_ok_def)

text \<open>Releasing the exposure of an open USDC entity brings the counter down by exactly it.\<close>

lemma open_liability_ticket_close:
  assumes "schema_ok s" and "select_one (\<lambda>r. t_id r = i) (tickets s) = Some row" "t_open row"
    and "tickets t = update_where (\<lambda>r. t_id r = i) f (tickets s)" "\<not> t_open (f row)"
    and "slotzilla_spins t = slotzilla_spins s"
  shows "open_liability t = open_liability s -
    (if t_currency row = USDC then t_potentialPayoutMicro row else 0)"
  using sum_where_update_key [OF tickets_distinct [OF assms(1)] assms(2)] assms(3-)
  by (simp add: open_liability_def)

lemma open_liability_spin_close:
  assumes "schema_ok s" and "select_one (\<lambda>r. sp_id r = i) (slotzilla_spins s) = Some row" "sp_open row"
    and "slotzilla_spins t = update_where (\<lambda>r. sp_id r = i) f (slotzilla_spins s)" "\<not> sp_open (f row)"
    and "tickets t = tickets s"
  shows "open_liability t = open_liability s -
    (if sp_currency row = USDC then sp_exposureMicro row else 0)"
  using sum_where_update_key [OF spins_distinct [OF assms(1)] assms(2)] assms(3-)
  by (simp add: open_liability_def)

lemma ticket_exposure_le:
  assumes "schema_ok s" and "row \<in> set (tickets s)" "t_open row" "t_currency row = USDC"
  shows "t_potentialPayoutMicro row \<le> open_liability s"
proof -
  have "t_potentialPayoutMicro row \<le>
      sum_where (\<lambda>r. t_currency r = USDC \<and> t_open r) t_potentialPayoutMicro (tickets s)"
    using assms by (intro sum_where_ge_member) (auto dest: ticket_bounds)
  moreover have "0 \<le> sum_where (\<lambda>r. sp_currency r = USDC \<and> sp_open r) sp_exposureMicro (slotzilla_spins s)"
    using assms(1) by (intro sum_where_nonneg) (auto dest: spin_bounds)
  ultimately show ?thesis by (simp add: open_liability_def)
qed

lemma spin_exposure_le:
  assumes "schema_ok s" and "row \<in> set (slotzilla_spins s)" "sp_open row" "sp_currency row = USDC"
  shows "sp_exposureMicro row \<le> open_liability s"
proof -
  have "sp_exposureMicro row \<le>
      sum_where (\<lambda>r. sp_currency r = USDC \<and> sp_open r) sp_exposureMicro (slotzilla_spins s)"
    using assms by (intro sum_where_ge_member) (auto dest: spin_bounds)
  moreover have "0 \<le> sum_where (\<lambda>r. t_currency r = USDC \<and> t_open r) t_potentialPayoutMicro (tickets s)"
    using assms(1) by (intro sum_where_nonneg) (auto dest: ticket_bounds)
  ultimately show ?thesis by (simp add: open_liability_def)
qed

end
