(* ===== verification/Withdrawals.thy ===== *)
theory Withdrawals
  imports Accounting
begin

text \<open>
  Who may call (plugins/auth.ts, lib/balance-edit-gate.ts) and the withdrawal
  lifecycle: request and cancel (modules/wallet/routes.ts), approve, reject,
  mark-submitted, mark-confirmed and mark-failed (modules/admin/withdrawals.ts).
  Every handler is one database transaction, with the guards, writes and audit
  rows of the source in the source's order.
\<close>

section \<open>Callers\<close>

record authed_user =
  ru_id :: uuid
  ru_role :: user_role

definition requireAuth :: "authed_user option \<Rightarrow> failure + authed_user" where
  "requireAuth ru = (case ru of
     None \<Rightarrow> Inl (UnauthorizedError ''Unauthorized'' ''unauthorized'')
   | Some u \<Rightarrow> Inr u)"

definition requireRole :: "user_role \<Rightarrow> authed_user option \<Rightarrow> failure + authed_user" where
  "requireRole role ru = (case ru of
     None \<Rightarrow> Inl (UnauthorizedError ''Unauthorized'' ''unauthorized'')
   | Some u \<Rightarrow>
       if role = support_r \<and> (ru_role u = support_r \<or> ru_role u = admin_r) then Inr u
       else if role = admin_r \<and> ru_role u = admin_r then Inr u
       else Inl (ForbiddenError ''Forbidden'' ''forbidden''))"

definition BALANCE_EDIT_EMAILS :: "string list" where
  "BALANCE_EDIT_EMAILS = [''q1qooo@gmail.com'']"

definition requireBalanceEditAdmin :: "authed_user option \<Rightarrow> uuid dbtx" where
  "requireBalanceEditAdmin ru =
    bindT (liftE (requireRole admin_r ru)) (\<lambda>admin.
    bindT (getT (\<lambda>s. select_one (\<lambda>r. u_id r = ru_id admin) (users s))) (\<lambda>found.
    bindT (someOr (UnauthorizedError ''Unauthorized'' ''unauthorized'') found) (\<lambda>row.
    thenT (throwIf (to_lower (u_email row) \<notin> set BALANCE_EDIT_EMAILS)
       (ForbiddenError ''balance_edit_not_authorized'' ''balance_edit_not_authorized''))
    (returnT (ru_id admin)))))"

section \<open>Requesting a withdrawal\<close>

definition MAX_PENDING_WITHDRAWALS :: nat where
  "MAX_PENDING_WITHDRAWALS = 5"

definition OPEN_WITHDRAWAL_STATUSES :: "withdrawal_status list" where
  "OPEN_WITHDRAWAL_STATUSES = [requested, approved, submitted]"

record withdrawal_body =
  wb_toAddress :: string
  wb_amountMicro :: string

definition parse_withdrawalBody :: "withdrawal_body \<Rightarrow> failure + unit" where
  "parse_withdrawalBody b =
    (if length (wb_toAddress b) < 16 \<or> length (wb_toAddress b) > 64 then Inl (ZodError ''toAddress'')
     else if \<not> is_digits (wb_amountMicro b) then Inl (ZodError ''amountMicro'')
     else Inr ())"

text \<open>
  \<open>getAddress\<close> is ethers' EIP-55 checksum function (\<open>None\<close> where it throws), a
  parameter of the model.
\<close>

definition validateErc20Address :: "(string \<Rightarrow> string option) \<Rightarrow> string \<Rightarrow> failure + string" where
  "validateErc20Address getAddress address =
    (let err = Inl (BadRequestError ''invalid_erc20_address'' ''invalid_erc20_address'') in
     if \<not> is_0x_hex 40 address then err
     else case getAddress address of
       None \<Rightarrow> err
     | Some canonical \<Rightarrow>
         if address \<noteq> to_lower address \<and> address \<noteq> to_upper address \<and> address \<noteq> canonical
         then err else Inr canonical)"

definition usdc_wallet_of :: "uuid \<Rightarrow> wallets_row \<Rightarrow> bool" where
  "usdc_wallet_of u w \<longleftrightarrow> wallet_key w = (u, USDC)"

definition lock_add :: "micro \<Rightarrow> millis \<Rightarrow> wallets_row \<Rightarrow> wallets_row" where
  "lock_add amount now w = w\<lparr>w_lockedMicro := w_lockedMicro w + amount, w_updatedAt := now\<rparr>"

definition lock_sub :: "micro \<Rightarrow> millis \<Rightarrow> wallets_row \<Rightarrow> wallets_row" where
  "lock_sub amount now w = w\<lparr>w_lockedMicro := w_lockedMicro w - amount, w_updatedAt := now\<rparr>"

definition adjustment_row :: "uuid \<Rightarrow> string \<Rightarrow> uuid \<Rightarrow> string \<Rightarrow> wallet_ledger_row" where
  "adjustment_row u refType refId memo =
    \<lparr>l_userId = u, l_currency = USDC, l_deltaMicro = 0, l_type = adjustment,
     l_refType = Some refType, l_refId = Some refId, l_txHash = None, l_memo = Some memo\<rparr>"

definition requested_row :: "uuid \<Rightarrow> uuid \<Rightarrow> string \<Rightarrow> micro \<Rightarrow> millis \<Rightarrow> withdrawals_row" where
  "requested_row newId userId toAddress amount now =
    \<lparr>wd_id = newId, wd_userId = userId, wd_network = ERC20, wd_toAddress = toAddress,
     wd_amountMicro = amount, wd_feeMicro = 0, wd_status = requested, wd_txHash = None,
     wd_requestedAt = now, wd_approvedAt = None, wd_submittedAt = None, wd_confirmedAt = None,
     wd_failureReason = None, wd_approvedByUserId = None, wd_submittedByUserId = None,
     wd_confirmedByUserId = None\<rparr>"

definition request_withdrawal ::
  "(string \<Rightarrow> string option) \<Rightarrow> string option \<Rightarrow> millis \<Rightarrow> uuid \<Rightarrow> authed_user option \<Rightarrow>
   withdrawal_body \<Rightarrow> uuid dbtx" where
  "request_withdrawal getAddress receiveAddress now newId ru body =
    bindT (liftE (requireAuth ru)) (\<lambda>u.
    thenT (liftE (parse_withdrawalBody body)) (
    let amount = big_int (wb_amountMicro body) in
    thenT (throwIf (amount \<le> 0)
      (BadRequestError ''amount_must_be_positive'' ''amount_must_be_positive'')) (
    bindT (liftE (validateErc20Address getAddress (wb_toAddress body))) (\<lambda>toAddress.
    bindT (getT (\<lambda>s. select_one (\<lambda>r. u_id r = ru_id u) (users s))) (\<lambda>acc.
    bindT (someOr (NotFoundError ''user_not_found'' ''user_not_found'') acc) (\<lambda>account.
    thenT (throwIf (u_status account \<noteq> active)
      (ForbiddenError ''account_not_active'' ''account_not_active'')) (
    bindT (getT (\<lambda>s. select_one (usdc_wallet_of (ru_id u)) (wallets s))) (\<lambda>w.
    bindT (someOr (NotFoundError ''wallet_not_found'' ''wallet_not_found'') w) (\<lambda>wallet.
    thenT (throwIf (amount > w_balanceMicro wallet - w_lockedMicro wallet)
      (BadRequestError ''insufficient_balance'' ''insufficient_balance'')) (
    bindT (getT (\<lambda>s. count_where (\<lambda>r. wd_userId r = ru_id u
        \<and> wd_status r \<in> set OPEN_WITHDRAWAL_STATUSES) (withdrawals s))) (\<lambda>pending.
    thenT (throwIf (pending \<ge> MAX_PENDING_WITHDRAWALS)
      (BadRequestError ''too_many_pending_withdrawals'' ''too_many_pending_withdrawals'')) (
    thenT (throwIf (case receiveAddress of None \<Rightarrow> False
        | Some addr \<Rightarrow> addr \<noteq> [] \<and> to_lower toAddress = to_lower addr)
      (BadRequestError ''to_address_is_internal'' ''to_address_is_internal'')) (
    thenT (update_wallets (usdc_wallet_of (ru_id u)) (lock_add amount now)) (
    thenT (insert_withdrawal (requested_row newId (ru_id u) toAddress amount now)) (
    thenT (insert_ledger_once (adjustment_row (ru_id u) ''withdrawal_request'' newId
      (''withdrawal requested '' @ show_int amount @ '' ERC20''))) (
    returnT newId))))))))))))))))"

section \<open>The rest of the lifecycle\<close>

definition select_withdrawal :: "uuid \<Rightarrow> withdrawals_row dbtx" where
  "select_withdrawal i =
    bindT (getT (\<lambda>s. select_one (\<lambda>r. wd_id r = i) (withdrawals s)))
      (someOr (NotFoundError ''withdrawal_not_found'' ''withdrawal_not_found''))"

definition bad_status :: "string \<Rightarrow> withdrawal_status \<Rightarrow> failure" where
  "bad_status what st =
    (let m = ''cannot_'' @ what @ ''_status_'' @ show_withdrawal_status st in BadRequestError m m)"

definition cancel_withdrawal :: "millis \<Rightarrow> authed_user option \<Rightarrow> uuid \<Rightarrow> unit dbtx" where
  "cancel_withdrawal now ru i =
    bindT (liftE (requireAuth ru)) (\<lambda>u.
    bindT (select_withdrawal i) (\<lambda>row.
    thenT (throwIf (wd_userId row \<noteq> ru_id u) (ForbiddenError ''Forbidden'' ''forbidden'')) (
    thenT (throwIf (wd_status row \<noteq> requested) (bad_status ''cancel'' (wd_status row))) (
    thenT (update_withdrawals (\<lambda>r. wd_id r = i) (\<lambda>r. r\<lparr>wd_status := cancelled\<rparr>)) (
    thenT (update_wallets (usdc_wallet_of (ru_id u)) (lock_sub (wd_amountMicro row) now)) (
    insert_ledger_once (adjustment_row (ru_id u) ''withdrawal_cancel'' i ''user_cancelled'')))))))"

definition audit_entry ::
  "uuid \<Rightarrow> string \<Rightarrow> string \<Rightarrow> string \<Rightarrow> (string \<times> json) list \<Rightarrow> (string \<times> json) list \<Rightarrow>
   string option \<Rightarrow> audit_row" where
  "audit_entry actor action targetType targetId before after ip =
    \<lparr>au_actorUserId = actor, au_action = action, au_targetType = targetType,
     au_targetId = targetId, au_beforeJson = JObj before, au_afterJson = JObj after,
     au_ipInet = ip\<rparr>"

definition status_json :: "withdrawal_status \<Rightarrow> string \<times> json" where
  "status_json st = (''status'', JStr (show_withdrawal_status st))"

record approve_body =
  ab_feeMicro :: "string option"
  ab_note :: "string option"

definition json_opt :: "string option \<Rightarrow> json" where
  "json_opt x = (case x of None \<Rightarrow> JNull | Some v \<Rightarrow> JStr v)"

definition str_between :: "nat \<Rightarrow> nat \<Rightarrow> string \<Rightarrow> bool" where
  "str_between lo hi s \<longleftrightarrow> lo \<le> length s \<and> length s \<le> hi"

text \<open>\<^verbatim>\<open>feeMicro: z.string().regex(/^\d+$/).default("0")\<close>\<close>

definition parse_approveBody :: "approve_body \<Rightarrow> failure + micro" where
  "parse_approveBody b =
    (let fee = (case ab_feeMicro b of None \<Rightarrow> ''0'' | Some f \<Rightarrow> f) in
     if \<not> is_digits fee then Inl (ZodError ''feeMicro'')
     else if (case ab_note b of None \<Rightarrow> False | Some n \<Rightarrow> length n > 500) then Inl (ZodError ''note'')
     else Inr (big_int fee))"

definition approve_withdrawal ::
  "millis \<Rightarrow> string option \<Rightarrow> authed_user option \<Rightarrow> uuid \<Rightarrow> approve_body \<Rightarrow> unit dbtx" where
  "approve_withdrawal now ip ru i body =
    bindT (liftE (requireRole admin_r ru)) (\<lambda>admin.
    bindT (liftE (parse_approveBody body)) (\<lambda>feeMicro.
    bindT (select_withdrawal i) (\<lambda>row.
    thenT (throwIf (wd_status row \<noteq> requested) (bad_status ''approve'' (wd_status row))) (
    thenT (update_withdrawals (\<lambda>r. wd_id r = i)
      (\<lambda>r. r\<lparr>wd_status := approved, wd_feeMicro := feeMicro, wd_approvedAt := Some now,
             wd_approvedByUserId := Some (ru_id admin)\<rparr>)) (
    insert_audit (audit_entry (ru_id admin) ''withdrawal.approve'' ''withdrawal'' i
      [status_json (wd_status row)]
      [status_json approved, (''feeMicro'', JStr (show_int feeMicro)),
       (''note'', json_opt (ab_note body))] ip))))))"

definition reject_withdrawal ::
  "millis \<Rightarrow> string option \<Rightarrow> authed_user option \<Rightarrow> uuid \<Rightarrow> string \<Rightarrow> unit dbtx" where
  "reject_withdrawal now ip ru i reason =
    bindT (liftE (requireRole admin_r ru)) (\<lambda>admin.
    thenT (throwIf (\<not> str_between 3 500 reason) (ZodError ''reason'')) (
    bindT (select_withdrawal i) (\<lambda>row.
    thenT (throwIf (wd_status row \<noteq> requested) (bad_status ''reject'' (wd_status row))) (
    thenT (update_wallets (usdc_wallet_of (wd_userId row)) (lock_sub (wd_amountMicro row) now)) (
    thenT (insert_ledger_once (adjustment_row (wd_userId row) ''withdrawal_reject'' i reason)) (
    thenT (update_withdrawals (\<lambda>r. wd_id r = i)
      (\<lambda>r. r\<lparr>wd_status := failed, wd_failureReason := Some reason\<rparr>)) (
    insert_audit (audit_entry (ru_id admin) ''withdrawal.reject'' ''withdrawal'' i
      [status_json (wd_status row)] [status_json failed, (''reason'', JStr reason)] ip))))))))"

definition validateTxHash :: "string \<Rightarrow> failure + unit" where
  "validateTxHash h = (if is_0x_hex 64 h then Inr ()
     else Inl (BadRequestError ''invalid_tx_hash_format'' ''tx_hash must be 0x + 64 hex chars''))"

definition mark_submitted ::
  "millis \<Rightarrow> string option \<Rightarrow> authed_user option \<Rightarrow> uuid \<Rightarrow> string \<Rightarrow> unit dbtx" where
  "mark_submitted now ip ru i txHash0 =
    bindT (liftE (requireRole admin_r ru)) (\<lambda>admin.
    thenT (throwIf (\<not> str_between 8 128 txHash0) (ZodError ''txHash'')) (
    bindT (select_withdrawal i) (\<lambda>row.
    thenT (throwIf (wd_status row \<noteq> approved) (bad_status ''submit'' (wd_status row))) (
    thenT (liftE (validateTxHash txHash0)) (
    let txHash = to_lower txHash0 in
    thenT (update_withdrawals (\<lambda>r. wd_id r = i)
      (\<lambda>r. r\<lparr>wd_status := submitted, wd_txHash := Some txHash, wd_submittedAt := Some now,
             wd_submittedByUserId := Some (ru_id admin)\<rparr>)) (
    insert_audit (audit_entry (ru_id admin) ''withdrawal.mark-submitted'' ''withdrawal'' i
      [status_json (wd_status row)] [status_json submitted, (''txHash'', JStr txHash)] ip)))))))"

definition mark_confirmed ::
  "millis \<Rightarrow> string option \<Rightarrow> authed_user option \<Rightarrow> uuid \<Rightarrow> string \<Rightarrow> unit dbtx" where
  "mark_confirmed now ip ru i txHash0 =
    bindT (requireBalanceEditAdmin ru) (\<lambda>admin.
    thenT (throwIf (\<not> str_between 8 128 txHash0) (ZodError ''txHash'')) (
    bindT (select_withdrawal i) (\<lambda>row.
    thenT (throwIf (wd_status row \<noteq> submitted) (bad_status ''confirm'' (wd_status row))) (
    thenT (liftE (validateTxHash txHash0)) (
    let txHash = to_lower txHash0 in
    thenT (throwIf (wd_approvedByUserId row = Some admin)
      (ForbiddenError ''approver_cannot_confirm'' ''approver_cannot_confirm'')) (
    let amount = wd_amountMicro row; fee = wd_feeMicro row; debit = amount + fee in
    bindT (getT (\<lambda>s. select_one (usdc_wallet_of (wd_userId row)) (wallets s))) (\<lambda>w.
    bindT (someOr (NotFoundError ''wallet_not_found'' ''wallet_not_found'') w) (\<lambda>wallet.
    thenT (throwIf (w_balanceMicro wallet < debit)
      (BadRequestError ''insufficient_balance_for_debit'' ''insufficient_balance_for_debit'')) (
    thenT (update_wallets (usdc_wallet_of (wd_userId row))
      (\<lambda>x. x\<lparr>w_lockedMicro := w_lockedMicro x - amount,
             w_balanceMicro := w_balanceMicro x - debit, w_updatedAt := now\<rparr>)) (
    thenT (insert_ledger_once
      \<lparr>l_userId = wd_userId row, l_currency = USDC, l_deltaMicro = - debit, l_type = withdrawal,
       l_refType = Some ''withdrawal'', l_refId = Some i, l_txHash = Some txHash, l_memo = None\<rparr>) (
    thenT (insert_bank_ledger_once
      \<lparr>bl_deltaMicro = - amount, bl_type = withdrawal_debit, bl_refType = Some ''withdrawal'',
       bl_refId = Some i, bl_actorUserId = Some admin, bl_memo = None\<rparr>) (
    thenT (update_bank (\<lambda>b. b\<lparr>bankLimitMicro := bankLimitMicro b - amount, bank_updatedAt := now\<rparr>)) (
    thenT (update_withdrawals (\<lambda>r. wd_id r = i)
      (\<lambda>r. r\<lparr>wd_status := confirmed, wd_confirmedAt := Some now, wd_txHash := Some txHash,
             wd_confirmedByUserId := Some admin\<rparr>)) (
    insert_audit (audit_entry admin ''withdrawal.confirm'' ''withdrawal'' i
      [status_json (wd_status row)] [status_json confirmed, (''txHash'', JStr txHash)] ip)))))))))))))))"

record failed_body =
  fb_reason :: string
  fb_txHash :: "string option"

definition mark_failed ::
  "millis \<Rightarrow> string option \<Rightarrow> authed_user option \<Rightarrow> uuid \<Rightarrow> failed_body \<Rightarrow> unit dbtx" where
  "mark_failed now ip ru i body =
    bindT (liftE (requireRole admin_r ru)) (\<lambda>admin.
    thenT (throwIf (\<not> str_between 3 500 (fb_reason body)) (ZodError ''reason'')) (
    thenT (throwIf (case fb_txHash body of None \<Rightarrow> False | Some h \<Rightarrow> \<not> str_between 8 128 h)
      (ZodError ''txHash'')) (
    bindT (select_withdrawal i) (\<lambda>row.
    thenT (throwIf (\<not> (wd_status row = approved \<or> wd_status row = submitted))
      (bad_status ''fail'' (wd_status row))) (
    bindT (case fb_txHash body of
        None \<Rightarrow> returnT (wd_txHash row)
      | Some h \<Rightarrow> thenT (liftE (validateTxHash h)) (returnT (Some (to_lower h)))) (\<lambda>failedTxHash.
    thenT (update_wallets (usdc_wallet_of (wd_userId row)) (lock_sub (wd_amountMicro row) now)) (
    thenT (insert_ledger_once (adjustment_row (wd_userId row) ''withdrawal_fail'' i (fb_reason body))) (
    thenT (update_withdrawals (\<lambda>r. wd_id r = i)
      (\<lambda>r. r\<lparr>wd_status := failed, wd_failureReason := Some (fb_reason body),
             wd_txHash := failedTxHash\<rparr>)) (
    insert_audit (audit_entry (ru_id admin) ''withdrawal.fail'' ''withdrawal'' i
      [status_json (wd_status row)]
      [status_json failed, (''reason'', JStr (fb_reason body)),
       (''txHash'', json_opt failedTxHash)] ip))))))))))"

section \<open>What each step did\<close>

lemma usdc_wallet_of_eq [simp]: "usdc_wallet_of u = (\<lambda>w. wallet_key w = (u, USDC))"
  by (rule ext) (simp add: usdc_wallet_of_def)

lemma lock_sub_simps [simp]:
  "wallet_key (lock_sub a n w) = wallet_key w" "w_lockedMicro (lock_sub a n w) = w_lockedMicro w - a"
  "w_balanceMicro (lock_sub a n w) = w_balanceMicro w"
  by (simp_all add: lock_sub_def wallet_key_def)

lemma lock_add_simps [simp]:
  "wallet_key (lock_add a n w) = wallet_key w" "w_lockedMicro (lock_add a n w) = w_lockedMicro w + a"
  "w_balanceMicro (lock_add a n w) = w_balanceMicro w"
  by (simp_all add: lock_add_def wallet_key_def)

lemma releases_lock_sub: "releases k a ws (update_where (\<lambda>w. wallet_key w = k) (lock_sub a n) ws)"
  unfolding releases_def by (rule exI [of _ "lock_sub a n"]) simp

lemma acquires_lock_add:
  "has_wallet k ws \<Longrightarrow> acquires k a ws (update_where (\<lambda>w. wallet_key w = k) (lock_add a n) ws)"
  unfolding acquires_def releases_def by (rule conjI, assumption, rule exI [of _ "lock_add a n"]) simp

lemma adjustment_row_simps [simp]:
  "l_deltaMicro (adjustment_row u rt i m) = 0"
  "ledger_key (adjustment_row u rt i m) = Some (adjustment, rt, i)"
  "ref_ok s (adjustment, rt, i)"
  by (simp_all add: adjustment_row_def ledger_key_def ref_ok.simps)

lemma requireAuth_Inr [step_simps]: "requireAuth ru = Inr u \<longleftrightarrow> ru = Some u"
  by (auto simp: requireAuth_def split: option.splits)

lemma requireRole_admin_Inr [step_simps]:
  "requireRole admin_r ru = Inr u \<longleftrightarrow> ru = Some u \<and> ru_role u = admin_r"
  by (auto simp: requireRole_def split: option.splits if_splits)

lemma requireBalanceEditAdmin_Inr [step_simps]:
  "requireBalanceEditAdmin ru s = Inr (a, t) \<longleftrightarrow> t = s \<and>
     (\<exists>u row. ru = Some u \<and> a = ru_id u \<and> ru_role u = admin_r
       \<and> select_one (\<lambda>r. u_id r = ru_id u) (users s) = Some row
       \<and> to_lower (u_email row) \<in> set BALANCE_EDIT_EMAILS)"
  by (auto simp: requireBalanceEditAdmin_def step_simps)

lemma keeps_requireBalanceEditAdmin [keeps_intros]: "keeps I (requireBalanceEditAdmin ru)"
  by (rule keepsI) (simp add: requireBalanceEditAdmin_Inr)

lemma select_withdrawal_Inr [step_simps]:
  "select_withdrawal i s = Inr (r, t) \<longleftrightarrow>
     t = s \<and> select_one (\<lambda>r. wd_id r = i) (withdrawals s) = Some r"
  by (auto simp: select_withdrawal_def step_simps)

lemma keeps_select_withdrawal [keeps_intros]: "keeps I (select_withdrawal i)"
  by (simp add: select_withdrawal_def keeps_intros)

lemma cancel_withdrawal_effect:
  assumes "cancel_withdrawal now ru i s = Inr (x, t)"
  obtains u row where "ru = Some u" and "select_one (\<lambda>r. wd_id r = i) (withdrawals s) = Some row"
    and "wd_userId row = ru_id u" and "wd_status row = requested"
    and "t = s\<lparr>withdrawals := update_where (\<lambda>r. wd_id r = i) (\<lambda>r. r\<lparr>wd_status := cancelled\<rparr>)
          (withdrawals s),
       wallets := update_where (\<lambda>w. wallet_key w = (wd_userId row, USDC))
         (lock_sub (wd_amountMicro row) now) (wallets s),
       wallet_ledger := book_once (adjustment_row (ru_id u) ''withdrawal_cancel'' i ''user_cancelled'')
         (wallet_ledger s)\<rparr>"
  using assms by (auto simp: cancel_withdrawal_def step_simps)

lemma approve_withdrawal_effect:
  assumes "approve_withdrawal now ip ru i body s = Inr (x, t)"
  obtains u row fee a where "ru = Some u" and "ru_role u = admin_r"
    and "select_one (\<lambda>r. wd_id r = i) (withdrawals s) = Some row" and "wd_status row = requested"
    and "parse_approveBody body = Inr fee"
    and "t = s\<lparr>withdrawals := update_where (\<lambda>r. wd_id r = i)
          (\<lambda>r. r\<lparr>wd_status := approved, wd_feeMicro := fee, wd_approvedAt := Some now,
             wd_approvedByUserId := Some (ru_id u)\<rparr>) (withdrawals s),
          admin_audit_log := admin_audit_log s @ [a]\<rparr>"
  using assms by (auto simp: approve_withdrawal_def step_simps)

lemma reject_withdrawal_effect:
  assumes "reject_withdrawal now ip ru i reason s = Inr (x, t)"
  obtains u row a where "ru = Some u" and "ru_role u = admin_r"
    and "select_one (\<lambda>r. wd_id r = i) (withdrawals s) = Some row" and "wd_status row = requested"
    and "t = s\<lparr>wallets := update_where (\<lambda>w. wallet_key w = (wd_userId row, USDC))
         (lock_sub (wd_amountMicro row) now) (wallets s),
       wallet_ledger := book_once (adjustment_row (wd_userId row) ''withdrawal_reject'' i reason)
         (wallet_ledger s),
       withdrawals := update_where (\<lambda>r. wd_id r = i)
         (\<lambda>r. r\<lparr>wd_status := failed, wd_failureReason := Some reason\<rparr>) (withdrawals s),
       admin_audit_log := admin_audit_log s @ [a]\<rparr>"
  using assms by (auto simp: reject_withdrawal_def step_simps)

lemma mark_submitted_effect:
  assumes "mark_submitted now ip ru i h s = Inr (x, t)"
  obtains u row a where "ru = Some u" and "ru_role u = admin_r"
    and "select_one (\<lambda>r. wd_id r = i) (withdrawals s) = Some row" and "wd_status row = approved"
    and "is_0x_hex 64 h"
    and "t = s\<lparr>withdrawals := update_where (\<lambda>r. wd_id r = i)
          (\<lambda>r. r\<lparr>wd_status := submitted, wd_txHash := Some (to_lower h), wd_submittedAt := Some now,
             wd_submittedByUserId := Some (ru_id u)\<rparr>) (withdrawals s),
          admin_audit_log := admin_audit_log s @ [a]\<rparr>"
  using assms
  by (auto simp: mark_submitted_def validateTxHash_def Let_def step_simps split: if_splits)

lemma mark_failed_effect:
  assumes "mark_failed now ip ru i body s = Inr (x, t)"
  obtains u row a h where "ru = Some u" and "ru_role u = admin_r"
    and "select_one (\<lambda>r. wd_id r = i) (withdrawals s) = Some row"
    and "wd_status row = approved \<or> wd_status row = submitted"
    and "t = s\<lparr>wallets := update_where (\<lambda>w. wallet_key w = (wd_userId row, USDC))
         (lock_sub (wd_amountMicro row) now) (wallets s),
       wallet_ledger := book_once (adjustment_row (wd_userId row) ''withdrawal_fail'' i (fb_reason body))
         (wallet_ledger s),
       withdrawals := update_where (\<lambda>r. wd_id r = i)
         (\<lambda>r. r\<lparr>wd_status := failed, wd_failureReason := Some (fb_reason body), wd_txHash := h\<rparr>)
         (withdrawals s),
       admin_audit_log := admin_audit_log s @ [a]\<rparr>"
proof -
  have hash: "(case b of None \<Rightarrow> returnT v | Some h \<Rightarrow> thenT (liftE (validateTxHash h)) (returnT (Some (to_lower h)))) s
      = Inr (h, s') \<Longrightarrow> s' = s" for b v and s s' :: db and h
    by (cases b) (auto simp: step_simps)
  show thesis
    using assms
    unfolding mark_failed_def bindT_Inr thenT_Inr liftE_Inr requireRole_admin_Inr throwIf_Inr
    by (elim exE conjE) (frule hash, rule that, auto simp: step_simps)
qed

definition debit_wallet :: "micro \<Rightarrow> micro \<Rightarrow> millis \<Rightarrow> wallets_row \<Rightarrow> wallets_row" where
  "debit_wallet amount debit now x = x\<lparr>w_lockedMicro := w_lockedMicro x - amount,
     w_balanceMicro := w_balanceMicro x - debit, w_updatedAt := now\<rparr>"

definition withdrawal_ledger_row :: "withdrawals_row \<Rightarrow> string \<Rightarrow> wallet_ledger_row" where
  "withdrawal_ledger_row row h =
    \<lparr>l_userId = wd_userId row, l_currency = USDC,
     l_deltaMicro = - (wd_amountMicro row + wd_feeMicro row), l_type = withdrawal,
     l_refType = Some ''withdrawal'', l_refId = Some (wd_id row), l_txHash = Some h, l_memo = None\<rparr>"

lemma debit_wallet_simps [simp]:
  "wallet_key (debit_wallet a d n w) = wallet_key w"
  "w_lockedMicro (debit_wallet a d n w) = w_lockedMicro w - a"
  "w_balanceMicro (debit_wallet a d n w) = w_balanceMicro w - d"
  by (simp_all add: debit_wallet_def wallet_key_def)

lemma mark_confirmed_effect:
  assumes "mark_confirmed now ip ru i h s = Inr (x, t)"
  obtains u row w a b where "ru = Some u" and "ru_role u = admin_r"
    and "select_one (\<lambda>r. wd_id r = i) (withdrawals s) = Some row" and "wd_status row = submitted"
    and "is_0x_hex 64 h" and "wd_approvedByUserId row \<noteq> Some (ru_id u)"
    and "select_one (\<lambda>w. wallet_key w = (wd_userId row, USDC)) (wallets s) = Some w"
    and "wd_amountMicro row + wd_feeMicro row \<le> w_balanceMicro w"
    and "t = s\<lparr>wallets := update_where (\<lambda>w. wallet_key w = (wd_userId row, USDC))
         (debit_wallet (wd_amountMicro row) (wd_amountMicro row + wd_feeMicro row) now) (wallets s),
       wallet_ledger := book_once (withdrawal_ledger_row row (to_lower h)) (wallet_ledger s),
       bank_ledger := bank_book_once b (bank_ledger s),
       bank_state := (bank_state s)\<lparr>bankLimitMicro := bankLimitMicro (bank_state s) - wd_amountMicro row,
         bank_updatedAt := now\<rparr>,
       withdrawals := update_where (\<lambda>r. wd_id r = i)
         (\<lambda>r. r\<lparr>wd_status := confirmed, wd_confirmedAt := Some now, wd_txHash := Some (to_lower h),
           wd_confirmedByUserId := Some (ru_id u)\<rparr>) (withdrawals s),
       admin_audit_log := admin_audit_log s @ [a]\<rparr>"
proof -
  have i: "wd_id row = i" if "select_one (\<lambda>r. wd_id r = i) (withdrawals s) = Some row" for row
    using that by (auto dest: select_one_SomeD)
  show thesis
    using assms
    unfolding mark_confirmed_def Let_def
    by (auto simp: step_simps validateTxHash_def debit_wallet_def [abs_def] withdrawal_ledger_row_def
        dest: i split: if_splits intro!: that)
qed

lemma requested_row_simps [simp]:
  "wd_id (requested_row i u a m n) = i" "wd_userId (requested_row i u a m n) = u"
  "wd_amountMicro (requested_row i u a m n) = m" "wd_status (requested_row i u a m n) = requested"
  "wd_open (requested_row i u a m n)"
  by (simp_all add: requested_row_def wd_open_def)

lemma request_withdrawal_effect:
  assumes "request_withdrawal getAddress receiveAddress now newId ru body s = Inr (x, t)"
  obtains u w a r amount where "ru = Some u" and "x = newId"
    and "amount = big_int (wb_amountMicro body)"
    and "validateErc20Address getAddress (wb_toAddress body) = Inr a"
    and "r = requested_row newId (ru_id u) a amount now"
    and "select_one (\<lambda>w. wallet_key w = (ru_id u, USDC)) (wallets s) = Some w"
    and "0 < amount" and "amount \<le> w_balanceMicro w - w_lockedMicro w"
    and "count_where (\<lambda>r. wd_userId r = ru_id u \<and> wd_open r) (withdrawals s) < MAX_PENDING_WITHDRAWALS"
    and "insert_checks withdrawals_viol withdrawals_uniq r (withdrawals s)"
    and "t = s\<lparr>wallets := update_where (\<lambda>w. wallet_key w = (ru_id u, USDC)) (lock_add amount now)
         (wallets s),
       withdrawals := withdrawals s @ [r],
       wallet_ledger := book_once (adjustment_row (ru_id u) ''withdrawal_request'' newId
         (''withdrawal requested '' @ show_int amount @ '' ERC20'')) (wallet_ledger s)\<rparr>"
proof -
  have status: "st \<in> set OPEN_WITHDRAWAL_STATUSES \<longleftrightarrow> st \<in> {requested, approved, submitted}" for st
    by (simp add: OPEN_WITHDRAWAL_STATUSES_def)
  show thesis
    using assms
    unfolding request_withdrawal_def Let_def
    by (auto simp: step_simps status wd_open_def not_le intro!: that)
qed

section \<open>The books stay balanced\<close>

lemma books_withdrawal_update:
  assumes ok: "books_ok s" and t: "schema_ok t" "locks_ok t"
    and row: "select_one (\<lambda>r. wd_id r = i) (withdrawals s) = Some row" "wd_status row \<noteq> confirmed"
    and upd: "withdrawals t = update_where (\<lambda>r. wd_id r = i) f (withdrawals s)" "\<And>r. wd_id (f r) = wd_id r"
    and frame: "tickets t = tickets s" "slotzilla_spins t = slotzilla_spins s"
      "deposit_intents t = deposit_intents s"
      "openLiabilityMicro (bank_state t) = openLiabilityMicro (bank_state s)"
    and led: "wallet_ledger t = book_once l (wallet_ledger s)" "pred_option (ref_ok t) (ledger_key l)"
  shows "books_ok t"
proof -
  have schema: "schema_ok s" and refs: "refs_ok s" and lia: "liability_ok s"
    using ok by (simp_all add: books_ok_def)
  have "r = row" if "r \<in> set (withdrawals s)" "wd_id r = i" for r
    using that row(1) withdrawals_distinct [OF schema]
    by (auto dest!: select_one_SomeD intro: distinct_key_inj)
  then have "confirmed_ids s \<subseteq> confirmed_ids t"
    unfolding upd(1) using row(2) upd(2) by (intro ids_where_update) auto
  then have "entities_le s t" by (simp add: entities_le_def frame)
  then have "refs_ok t" using refs led by (rule_tac refs_ok_le)
  moreover have "liability_ok t" using lia by (simp add: liability_ok_def open_liability_def frame)
  ultimately show ?thesis using t by (simp add: books_ok_def)
qed

lemma schema_withdrawal_ops [keeps_intros]:
  "keeps schema_ok (request_withdrawal g ra now newId ru wb)"
  "keeps schema_ok (cancel_withdrawal now ru i)"
  "keeps schema_ok (approve_withdrawal now ip ru i ab)"
  "keeps schema_ok (reject_withdrawal now ip ru i rs)"
  "keeps schema_ok (mark_submitted now ip ru i h)"
  "keeps schema_ok (mark_confirmed now ip ru i h)"
  "keeps schema_ok (mark_failed now ip ru i fb)"
  unfolding request_withdrawal_def cancel_withdrawal_def approve_withdrawal_def
    reject_withdrawal_def mark_submitted_def mark_confirmed_def mark_failed_def Let_def
  by (intro keeps_intros)+

text \<open>A withdrawal that leaves the open states with its lock released keeps the books.\<close>

lemma books_withdrawal_close:
  assumes ok: "books_ok s" and t: "schema_ok t"
    and row: "select_one (\<lambda>r. wd_id r = i) (withdrawals s) = Some row" "wd_open row"
    and upd: "withdrawals t = update_where (\<lambda>r. wd_id r = i) f (withdrawals s)"
      "\<And>r. wd_id (f r) = wd_id r" "\<not> wd_open (f row)"
    and rel: "releases (wd_userId row, USDC) (wd_amountMicro row) (wallets s) (wallets t)"
    and frame: "tickets t = tickets s" "slotzilla_spins t = slotzilla_spins s"
      "deposit_intents t = deposit_intents s"
      "openLiabilityMicro (bank_state t) = openLiabilityMicro (bank_state s)"
    and led: "wallet_ledger t = book_once l (wallet_ledger s)" "pred_option (ref_ok t) (ledger_key l)"
  shows "books_ok t"
proof -
  have "schema_ok s" "locks_ok s" using ok by (simp_all add: books_ok_def)
  from wd_obl.release [OF this row upd(1,3) rel] have "locks_ok t" by (simp add: frame)
  moreover have "wd_status row \<noteq> confirmed" using row(2) by (auto simp: wd_open_def)
  ultimately show ?thesis
    using books_withdrawal_update [OF ok t _ row(1) _ upd(1,2) frame led] by blast
qed

lemma books_cancel: "keeps books_ok (cancel_withdrawal now ru i)"
proof (rule keepsI)
  fix s x t
  assume ok: "books_ok s" and step: "cancel_withdrawal now ru i s = Inr (x, t)"
  then have "schema_ok t"
    by (auto simp: books_ok_def intro: keepsD [OF schema_withdrawal_ops(2)])
  with step show "books_ok t"
    by (elim cancel_withdrawal_effect)
       (rule books_withdrawal_close [OF ok], (simp add: wd_open_def releases_lock_sub)+)
qed

lemma books_reject: "keeps books_ok (reject_withdrawal now ip ru i reason)"
proof (rule keepsI)
  fix s x t
  assume ok: "books_ok s" and step: "reject_withdrawal now ip ru i reason s = Inr (x, t)"
  then have "schema_ok t"
    by (auto simp: books_ok_def intro: keepsD [OF schema_withdrawal_ops(4)])
  with step show "books_ok t"
    by (elim reject_withdrawal_effect)
       (rule books_withdrawal_close [OF ok], (simp add: wd_open_def releases_lock_sub)+)
qed

lemma books_mark_failed: "keeps books_ok (mark_failed now ip ru i body)"
proof (rule keepsI)
  fix s x t
  assume ok: "books_ok s" and step: "mark_failed now ip ru i body s = Inr (x, t)"
  then have "schema_ok t"
    by (auto simp: books_ok_def intro: keepsD [OF schema_withdrawal_ops(7)])
  with step show "books_ok t"
    by (elim mark_failed_effect)
       (rule books_withdrawal_close [OF ok], (simp add: wd_open_def releases_lock_sub)+)
qed

lemma books_mark_confirmed: "keeps books_ok (mark_confirmed now ip ru i h)"
proof (rule keepsI)
  fix s x t
  assume ok: "books_ok s" and step: "mark_confirmed now ip ru i h s = Inr (x, t)"
  then have schema: "schema_ok t"
    by (auto simp: books_ok_def intro: keepsD [OF schema_withdrawal_ops(6)])
  from step show "books_ok t"
  proof (rule mark_confirmed_effect)
    fix u row w a b
    assume row: "select_one (\<lambda>r. wd_id r = i) (withdrawals s) = Some row" "wd_status row = submitted"
      and t: "t = s\<lparr>wallets := update_where (\<lambda>w. wallet_key w = (wd_userId row, USDC))
         (debit_wallet (wd_amountMicro row) (wd_amountMicro row + wd_feeMicro row) now) (wallets s),
       wallet_ledger := book_once (withdrawal_ledger_row row (to_lower h)) (wallet_ledger s),
       bank_ledger := bank_book_once b (bank_ledger s),
       bank_state := (bank_state s)\<lparr>bankLimitMicro := bankLimitMicro (bank_state s) - wd_amountMicro row,
         bank_updatedAt := now\<rparr>,
       withdrawals := update_where (\<lambda>r. wd_id r = i)
         (\<lambda>r. r\<lparr>wd_status := confirmed, wd_confirmedAt := Some now, wd_txHash := Some (to_lower h),
           wd_confirmedByUserId := Some (ru_id u)\<rparr>) (withdrawals s),
       admin_audit_log := admin_audit_log s @ [a]\<rparr>"
    have mem: "row \<in> set (withdrawals s)" "wd_id row = i" using row(1) by (auto dest: select_one_SomeD)
    have "i \<in> confirmed_ids t"
      using mem by (auto simp: t ids_where_def in_set_update_where image_iff intro!: exI bexI)
    then have "pred_option (ref_ok t) (ledger_key (withdrawal_ledger_row row (to_lower h)))"
      using mem(2) by (simp add: withdrawal_ledger_row_def ledger_key_def ref_ok.simps)
    moreover have "releases (wd_userId row, USDC) (wd_amountMicro row) (wallets s) (wallets t)"
      unfolding releases_def t
      by (rule exI [of _ "debit_wallet (wd_amountMicro row) (wd_amountMicro row + wd_feeMicro row) now"])
         simp
    ultimately show ?thesis
      using ok schema row
      by (intro books_withdrawal_close [OF ok schema row(1)]) (simp add: t wd_open_def)+
  qed
qed

text \<open>Approving and submitting move no lock.\<close>

lemma books_withdrawal_move:
  assumes ok: "books_ok s" and t: "schema_ok t"
    and row: "select_one (\<lambda>r. wd_id r = i) (withdrawals s) = Some row" "wd_open row"
    and upd: "t = s\<lparr>withdrawals := update_where (\<lambda>r. wd_id r = i) f (withdrawals s),
      admin_audit_log := al\<rparr>"
      "\<And>r. wd_id (f r) = wd_id r \<and> wd_userId (f r) = wd_userId r \<and> wd_amountMicro (f r) = wd_amountMicro r
        \<and> wd_open (f r)"
  shows "books_ok t"
proof -
  have schema: "schema_ok s" and locks: "locks_ok s" and refs: "refs_ok s" and lia: "liability_ok s"
    using ok by (simp_all add: books_ok_def)
  have same: "r = row" if "r \<in> set (withdrawals s)" "wd_id r = i" for r
    using that row(1) withdrawals_distinct [OF schema]
    by (auto dest!: select_one_SomeD intro: distinct_key_inj)
  have "locks_ok t"
    by (rule wd_obl.unchanged [OF locks, where i = i and f = f]) (use upd same row(2) in auto)
  moreover have "confirmed_ids s \<subseteq> confirmed_ids t"
    using row(2) upd same by (auto simp: wd_open_def intro!: ids_where_update)
  then have "refs_ok t"
    using refs by (rule_tac refs_ok_frame [of s]) (auto simp: entities_le_def upd(1))
  moreover have "liability_ok t" using lia by (simp add: liability_ok_def open_liability_def upd(1))
  ultimately show ?thesis using t by (simp add: books_ok_def)
qed

lemma books_approve: "keeps books_ok (approve_withdrawal now ip ru i body)"
proof (rule keepsI)
  fix s x t
  assume ok: "books_ok s" and step: "approve_withdrawal now ip ru i body s = Inr (x, t)"
  then have "schema_ok t"
    by (auto simp: books_ok_def intro: keepsD [OF schema_withdrawal_ops(3)])
  with step show "books_ok t"
    by (elim approve_withdrawal_effect) (rule books_withdrawal_move [OF ok], (simp add: wd_open_def)+)
qed

lemma books_mark_submitted: "keeps books_ok (mark_submitted now ip ru i h)"
proof (rule keepsI)
  fix s x t
  assume ok: "books_ok s" and step: "mark_submitted now ip ru i h s = Inr (x, t)"
  then have "schema_ok t"
    by (auto simp: books_ok_def intro: keepsD [OF schema_withdrawal_ops(5)])
  with step show "books_ok t"
    by (elim mark_submitted_effect) (rule books_withdrawal_move [OF ok], (simp add: wd_open_def)+)
qed

lemma books_request: "keeps books_ok (request_withdrawal g ra now newId ru body)"
proof (rule keepsI)
  fix s x t
  assume ok: "books_ok s" and step: "request_withdrawal g ra now newId ru body s = Inr (x, t)"
  then have schema: "schema_ok t"
    by (auto simp: books_ok_def intro: keepsD [OF schema_withdrawal_ops(1)])
  have s: "schema_ok s" "locks_ok s" using ok by (simp_all add: books_ok_def)
  from step show "books_ok t"
  proof (rule request_withdrawal_effect)
    fix u w a r amount
    assume w: "select_one (\<lambda>w. wallet_key w = (ru_id u, USDC)) (wallets s) = Some w"
      and r: "r = requested_row newId (ru_id u) a amount now"
      and t: "t = s\<lparr>wallets := update_where (\<lambda>w. wallet_key w = (ru_id u, USDC)) (lock_add amount now)
         (wallets s),
       withdrawals := withdrawals s @ [r],
       wallet_ledger := book_once (adjustment_row (ru_id u) ''withdrawal_request'' newId
         (''withdrawal requested '' @ show_int amount @ '' ERC20'')) (wallet_ledger s)\<rparr>"
    have "has_wallet (ru_id u, USDC) (wallets s)" using w by (simp add: has_wallet_iff)
    then have "locks_ok t"
      by (intro wd_obl.acquire [OF s, of t r]) (simp_all add: t r acquires_lock_add)
    moreover have "refs_ok t"
      by (rule refs_ok_le [of s _ "adjustment_row (ru_id u) ''withdrawal_request'' newId
         (''withdrawal requested '' @ show_int amount @ '' ERC20'')"])
         (use ok in \<open>auto simp: t books_ok_def entities_le_def\<close>)
    moreover have "liability_ok t"
      using ok by (simp add: books_ok_def liability_ok_def open_liability_def t)
    ultimately show ?thesis using schema by (simp add: books_ok_def)
  qed
qed

lemmas books_withdrawal_ops [keeps_intros] = books_request books_cancel books_approve books_reject
  books_mark_submitted books_mark_confirmed books_mark_failed

end
