(* ===== verification/Deposits.thy ===== *)
theory Deposits
  imports Withdrawals
begin

text \<open>
  Deposit attribution and credit: linked sending addresses
  (modules/wallet/routes.ts), the operator's acknowledge, credit-manual and
  reject (modules/admin/deposits.ts), the network to currency map
  (packages/types/src/networks.ts), the open-liability release
  (lib/riskzilla/open-liability.ts) and the manual void of a ticket
  (modules/admin/tickets.ts).
\<close>

section \<open>Linked sending addresses\<close>

record linked_wallet_body =
  lb_address :: string
  lb_label :: "string option"
  lb_signature :: string
  lb_issuedAt :: int

definition parse_linkedWalletBody :: "linked_wallet_body \<Rightarrow> failure + unit" where
  "parse_linkedWalletBody b =
    (if \<not> is_0x_hex 40 (lb_address b) then Inl (ZodError ''address'')
     else if (case lb_label b of None \<Rightarrow> False | Some l \<Rightarrow> length l > 60) then Inl (ZodError ''label'')
     else if \<not> is_0x_hex 130 (lb_signature b) then Inl (ZodError ''signature'')
     else if lb_issuedAt b \<le> 0 then Inl (ZodError ''issuedAt'')
     else Inr ())"

definition CHALLENGE_TTL_SECONDS :: int where "CHALLENGE_TTL_SECONDS = 600"

definition CHALLENGE_SKEW_SECONDS :: int where "CHALLENGE_SKEW_SECONDS = 60"

definition CEX_HOTWALLET_BLOCKLIST :: "string list" where
  "CEX_HOTWALLET_BLOCKLIST =
    [''0x28c6c06298d514db089934071355e5743bf21d60'', ''0x21a31ee1afc51d94c2efccaa2092ad1028285549'',
     ''0xdfd5293d8e347dfe59e90efd55b2956a1343963d'', ''0x56eddb7aa87536c09ccc2793473599fd21a8b17f'',
     ''0x9696f59e4d72e237be84ffd425dcad154bf96976'', ''0x71660c4005ba85c37ccec55d0c4493e66fe775d3'',
     ''0x503828976d22510aad0201ac7ec88293211d23da'', ''0xddfabcdc4d8ffc6d5beaf154f18b778f892a0740'',
     ''0x3cd751e6b0078be393132286c442345e5dc49699'']"

definition newline :: string where "newline = [CHR 0x0A]"

definition depositVerificationMessage :: "uuid \<Rightarrow> string \<Rightarrow> int \<Rightarrow> string" where
  "depositVerificationMessage userId checksummedAddress issuedAt =
     ''Oddzilla deposit address verification.'' @ newline
   @ ''Signing proves you control this wallet and authorizes Oddzilla to'' @ newline
   @ ''credit deposits sent FROM it to your account.'' @ newline
   @ ''User: '' @ userId @ newline
   @ ''Address: '' @ checksummedAddress @ newline
   @ ''Issued: '' @ show_int issuedAt"

text \<open>
  \<open>verifyMessage\<close> is ethers' EIP-191 recovery (\<open>None\<close> where it throws), a
  parameter like \<open>getAddress\<close>.  A violated unique index of the insert is
  reported as the conflict.
\<close>

definition link_address ::
  "(string \<Rightarrow> string option) \<Rightarrow> (string \<Rightarrow> string \<Rightarrow> string option) \<Rightarrow> string option \<Rightarrow> millis \<Rightarrow>
   uuid \<Rightarrow> authed_user option \<Rightarrow> linked_wallet_body \<Rightarrow> user_wallet_addresses_row dbtx" where
  "link_address getAddress verifyMessage receiveAddress now newId ru body =
    bindT (liftE (requireAuth ru)) (\<lambda>u.
    thenT (liftE (parse_linkedWalletBody body)) (
    bindT (someOr (BadRequestError ''invalid_address'' ''invalid_address'')
      (getAddress (lb_address body))) (\<lambda>checksummed.
    let lower = to_lower checksummed; nowSec = now div 1000 in
    thenT (throwIf (case receiveAddress of None \<Rightarrow> False
        | Some addr \<Rightarrow> addr \<noteq> [] \<and> lower = to_lower addr)
      (BadRequestError ''address_is_internal'' ''address_is_internal'')) (
    thenT (throwIf (lower \<in> set CEX_HOTWALLET_BLOCKLIST)
      (BadRequestError ''address_not_allowed'' ''address_not_allowed'')) (
    thenT (throwIf (lb_issuedAt body > nowSec + CHALLENGE_SKEW_SECONDS
        \<or> lb_issuedAt body < nowSec - CHALLENGE_TTL_SECONDS)
      (BadRequestError ''challenge_expired'' ''challenge_expired'')) (
    bindT (someOr (BadRequestError ''invalid_signature'' ''invalid_signature'')
      (verifyMessage (depositVerificationMessage (ru_id u) checksummed (lb_issuedAt body))
        (lb_signature body))) (\<lambda>recovered.
    thenT (throwIf (to_lower recovered \<noteq> lower)
      (BadRequestError ''signature_address_mismatch'' ''signature_address_mismatch'')) (
    let row = \<lparr>a_id = newId, a_userId = ru_id u, a_network = ERC20, a_address = lower,
               a_label = lb_label body, a_createdAt = now\<rparr> in
    catchUnique (thenT (insert_address row) (returnT row))
      (ConflictError ''address_already_linked'' ''address_already_linked'')))))))))"

definition unlink_address :: "authed_user option \<Rightarrow> uuid \<Rightarrow> unit dbtx" where
  "unlink_address ru i =
    bindT (liftE (requireAuth ru)) (\<lambda>u.
    bindT (getT (\<lambda>s. filter (\<lambda>r. a_id r = i \<and> a_userId r = ru_id u) (user_wallet_addresses s)))
      (\<lambda>result.
    thenT (throwIf (result = []) (NotFoundError ''address_not_found'' ''address_not_found'')) (
    modifyT (\<lambda>s. s\<lparr>user_wallet_addresses :=
      filter (\<lambda>r. \<not> (a_id r = i \<and> a_userId r = ru_id u)) (user_wallet_addresses s)\<rparr>))))"

section \<open>Operator handling of deposits\<close>

fun networkToCurrency :: "chain_network \<Rightarrow> currency option" where
  "networkToCurrency ERC20 = Some USDC"
| "networkToCurrency TRC20 = None"

fun show_network :: "chain_network \<Rightarrow> string" where
  "show_network ERC20 = ''ERC20''"
| "show_network TRC20 = ''TRC20''"

record acknowledge_body =
  kb_note :: "string option"
  kb_undo :: "bool option"

definition parse_acknowledgeBody :: "acknowledge_body \<Rightarrow> failure + unit" where
  "parse_acknowledgeBody b =
    (if (case kb_note b of None \<Rightarrow> False | Some n \<Rightarrow> length n > 500) then Inl (ZodError ''note'')
     else Inr ())"

definition json_millis :: "millis option \<Rightarrow> json" where
  "json_millis x = (case x of None \<Rightarrow> JNull | Some t \<Rightarrow> JNum t)"

definition acknowledge_deposit ::
  "millis \<Rightarrow> string option \<Rightarrow> authed_user option \<Rightarrow> uuid \<Rightarrow> acknowledge_body \<Rightarrow> unit dbtx" where
  "acknowledge_deposit now ip ru i body =
    bindT (liftE (requireRole admin_r ru)) (\<lambda>admin.
    thenT (liftE (parse_acknowledgeBody body)) (
    bindT (getT (\<lambda>s. select_one (\<lambda>r. di_id r = i) (deposit_intents s))) (\<lambda>found.
    bindT (someOr (NotFoundError ''deposit_intent_not_found'' ''deposit_intent_not_found'') found)
      (\<lambda>row.
    thenT (throwIf (di_failureReason row \<noteq> Some ''wrong_token'')
      (BadRequestError ''not_a_wrong_token_alert'' ''not_a_wrong_token_alert'')) (
    let isUndo = (kb_undo body = Some True) in
    thenT (throwIf (\<not> isUndo \<and> di_acknowledgedAt row \<noteq> None)
      (BadRequestError ''already_acknowledged'' ''already_acknowledged'')) (
    thenT (throwIf (isUndo \<and> di_acknowledgedAt row = None)
      (BadRequestError ''not_acknowledged'' ''not_acknowledged'')) (
    thenT (update_deposit_intents (\<lambda>r. di_id r = i)
      (\<lambda>r. r\<lparr>di_acknowledgedAt := (if isUndo then None else Some now),
             di_acknowledgedByUserId := (if isUndo then None else Some (ru_id admin))\<rparr>)) (
    insert_audit (audit_entry (ru_id admin)
      (if isUndo then ''deposit.wrong_token.unacknowledge'' else ''deposit.wrong_token.acknowledge'')
      ''deposit_intent'' (di_id row)
      [(''acknowledgedAt'', json_millis (di_acknowledgedAt row))]
      [(''acknowledgedAt'', json_millis (if isUndo then None else Some now)),
       (''note'', json_opt (kb_note body)),
       (''detectedTokenContract'', json_opt (di_detectedTokenContract row)),
       (''detectedTokenAmountRaw'', json_opt (di_detectedTokenAmountRaw row)),
       (''txHash'', JStr (di_txHash row))] ip)))))))))"

definition acknowledge_unattributed ::
  "millis \<Rightarrow> string option \<Rightarrow> authed_user option \<Rightarrow> uuid \<Rightarrow> acknowledge_body \<Rightarrow> unit dbtx" where
  "acknowledge_unattributed now ip ru i body =
    bindT (liftE (requireRole admin_r ru)) (\<lambda>admin.
    thenT (liftE (parse_acknowledgeBody body)) (
    bindT (getT (\<lambda>s. select_one (\<lambda>r. ud_id r = i) (unattributed_deposits s))) (\<lambda>found.
    bindT (someOr (NotFoundError ''unattributed_deposit_not_found'' ''unattributed_deposit_not_found'')
      found) (\<lambda>row.
    let isUndo = (kb_undo body = Some True) in
    thenT (throwIf (\<not> isUndo \<and> ud_acknowledgedAt row \<noteq> None)
      (BadRequestError ''already_acknowledged'' ''already_acknowledged'')) (
    thenT (throwIf (isUndo \<and> ud_acknowledgedAt row = None)
      (BadRequestError ''not_acknowledged'' ''not_acknowledged'')) (
    let nextNote = (case kb_note body of
        None \<Rightarrow> ud_note row
      | Some n \<Rightarrow> if isUndo \<or> n = [] then ud_note row
          else case ud_note row of
            None \<Rightarrow> Some n
          | Some old \<Rightarrow> if old = [] then Some n else Some (old @ '' | '' @ n)) in
    thenT (update_unattributed (\<lambda>r. ud_id r = i)
      (\<lambda>r. r\<lparr>ud_acknowledgedAt := (if isUndo then None else Some now),
             ud_acknowledgedByUserId := (if isUndo then None else Some (ru_id admin)),
             ud_note := nextNote\<rparr>)) (
    insert_audit (audit_entry (ru_id admin)
      (if isUndo then ''deposit.unattributed.unacknowledge'' else ''deposit.unattributed.acknowledge'')
      ''unattributed_deposit'' (ud_id row)
      [(''acknowledgedAt'', json_millis (ud_acknowledgedAt row)), (''note'', json_opt (ud_note row))]
      [(''acknowledgedAt'', json_millis (if isUndo then None else Some now)),
       (''note'', json_opt nextNote),
       (''tokenContract'', JStr (ud_tokenContract row)),
       (''amountRaw'', JStr (ud_amountRaw row)),
       (''txHash'', JStr (ud_txHash row))] ip))))))))"

record credit_body =
  cb_amountMicro :: string
  cb_fromAddress :: "string option"
  cb_blockNumber :: "string option"
  cb_blockHash :: "string option"
  cb_note :: "string option"

definition opt_all :: "('a \<Rightarrow> bool) \<Rightarrow> 'a option \<Rightarrow> bool" where
  "opt_all P x = (case x of None \<Rightarrow> True | Some a \<Rightarrow> P a)"

definition parse_creditBody :: "credit_body \<Rightarrow> failure + unit" where
  "parse_creditBody b =
    (if \<not> is_digits (cb_amountMicro b) then Inl (ZodError ''amountMicro'')
     else if \<not> opt_all (str_between 8 128) (cb_fromAddress b) then Inl (ZodError ''fromAddress'')
     else if \<not> opt_all is_digits (cb_blockNumber b) then Inl (ZodError ''blockNumber'')
     else if \<not> opt_all (str_between 8 128) (cb_blockHash b) then Inl (ZodError ''blockHash'')
     else if \<not> opt_all (str_between 0 500) (cb_note b) then Inl (ZodError ''note'')
     else Inr ())"

text \<open>\<^verbatim>\<open>a ?? b\<close>\<close>

definition or_else :: "'a option \<Rightarrow> 'a option \<Rightarrow> 'a option" where
  "or_else a b = (case a of None \<Rightarrow> b | Some x \<Rightarrow> Some x)"

definition credit_wallet :: "micro \<Rightarrow> millis \<Rightarrow> wallets_row \<Rightarrow> wallets_row" where
  "credit_wallet amount now w = w\<lparr>w_balanceMicro := w_balanceMicro w + amount, w_updatedAt := now\<rparr>"

definition deposit_ledger_row ::
  "deposit_intents_row \<Rightarrow> currency \<Rightarrow> micro \<Rightarrow> string \<Rightarrow> wallet_ledger_row" where
  "deposit_ledger_row row cur amount memo =
    \<lparr>l_userId = di_userId row, l_currency = cur, l_deltaMicro = amount, l_type = deposit,
     l_refType = Some ''deposit_intent'', l_refId = Some (di_id row),
     l_txHash = Some (di_txHash row), l_memo = Some memo\<rparr>"

definition credit_manual ::
  "millis \<Rightarrow> string option \<Rightarrow> authed_user option \<Rightarrow> uuid \<Rightarrow> credit_body \<Rightarrow> unit dbtx" where
  "credit_manual now ip ru i body =
    bindT (requireBalanceEditAdmin ru) (\<lambda>admin.
    thenT (liftE (parse_creditBody body)) (
    let amount = big_int (cb_amountMicro body) in
    thenT (throwIf (amount \<le> 0)
      (BadRequestError ''amount_must_be_positive'' ''amount_must_be_positive'')) (
    bindT (getT (\<lambda>s. select_one (\<lambda>r. di_id r = i) (deposit_intents s))) (\<lambda>found.
    bindT (someOr (NotFoundError ''deposit_intent_not_found'' ''deposit_intent_not_found'') found)
      (\<lambda>row.
    thenT (throwIf (di_status row = di_credited)
      (BadRequestError ''already_credited'' ''already_credited'')) (
    bindT (someOr (BadRequestError ''unsupported_deposit_network''
        (''unsupported_deposit_network:'' @ show_network (di_network row)))
      (networkToCurrency (di_network row))) (\<lambda>currency.
    let blockNumber = (case cb_blockNumber body of
          None \<Rightarrow> di_blockNumber row | Some b \<Rightarrow> Some (big_int b));
        memo = (case cb_note body of None \<Rightarrow> ''manual_credit'' | Some n \<Rightarrow> n) in
    thenT (update_deposit_intents (\<lambda>r. di_id r = i)
      (\<lambda>r. r\<lparr>di_status := di_credited, di_amountMicro := Some amount,
             di_fromAddress := or_else (cb_fromAddress body) (di_fromAddress row),
             di_blockNumber := blockNumber,
             di_blockHash := or_else (cb_blockHash body) (di_blockHash row),
             di_creditedAt := Some now\<rparr>)) (
    thenT (update_wallets (\<lambda>w. wallet_key w = (di_userId row, currency)) (credit_wallet amount now)) (
    thenT (insert_ledger_once (deposit_ledger_row row currency amount memo)) (
    thenT (whenT (currency = USDC)
      (thenT (insert_bank_ledger_once
        \<lparr>bl_deltaMicro = amount, bl_type = deposit_credit, bl_refType = Some ''deposit_intent'',
         bl_refId = Some (di_id row), bl_actorUserId = Some admin, bl_memo = Some memo\<rparr>)
       (update_bank (\<lambda>b. b\<lparr>bankLimitMicro := bankLimitMicro b + amount, bank_updatedAt := now\<rparr>)))) (
    insert_audit (audit_entry admin ''deposit.credit-manual'' ''deposit_intent'' (di_id row)
      [(''status'', JStr (show_deposit_intent_status (di_status row))),
       (''amountMicro'', json_opt (map_option show_int (di_amountMicro row)))]
      [(''status'', JStr ''credited''), (''amountMicro'', JStr (show_int amount)),
       (''note'', json_opt (cb_note body)), (''txHash'', JStr (di_txHash row))] ip))))))))))))"

definition reject_deposit ::
  "millis \<Rightarrow> string option \<Rightarrow> authed_user option \<Rightarrow> uuid \<Rightarrow> string \<Rightarrow> unit dbtx" where
  "reject_deposit now ip ru i reason =
    bindT (liftE (requireRole admin_r ru)) (\<lambda>admin.
    thenT (throwIf (\<not> str_between 3 500 reason) (ZodError ''reason'')) (
    bindT (getT (\<lambda>s. select_one (\<lambda>r. di_id r = i) (deposit_intents s))) (\<lambda>found.
    bindT (someOr (NotFoundError ''deposit_intent_not_found'' ''deposit_intent_not_found'') found)
      (\<lambda>row.
    thenT (throwIf (di_status row = di_credited)
      (BadRequestError ''already_credited'' ''already_credited'')) (
    thenT (throwIf (di_status row = di_rejected)
      (BadRequestError ''already_rejected'' ''already_rejected'')) (
    thenT (update_deposit_intents (\<lambda>r. di_id r = i)
      (\<lambda>r. r\<lparr>di_status := di_rejected, di_failureReason := Some reason,
             di_rejectedAt := Some now\<rparr>)) (
    insert_audit (audit_entry (ru_id admin) ''deposit.reject'' ''deposit_intent'' (di_id row)
      [(''status'', JStr (show_deposit_intent_status (di_status row)))]
      [(''status'', JStr ''rejected''), (''reason'', JStr reason)] ip))))))))"

section \<open>Open liability and the manual void of a ticket\<close>

definition releaseOpenLiability :: "millis \<Rightarrow> currency \<Rightarrow> micro \<Rightarrow> unit dbtx" where
  "releaseOpenLiability now cur potentialPayoutMicro =
    (if cur \<noteq> USDC then returnT ()
     else if potentialPayoutMicro \<le> 0 then returnT ()
     else update_bank (\<lambda>b. b\<lparr>openLiabilityMicro := max 0 (openLiabilityMicro b - potentialPayoutMicro),
                             bank_updatedAt := now\<rparr>))"

definition ticket_refund_row :: "tickets_row \<Rightarrow> string \<Rightarrow> wallet_ledger_row" where
  "ticket_refund_row ticket reason =
    \<lparr>l_userId = t_userId ticket, l_currency = t_currency ticket, l_deltaMicro = t_stakeMicro ticket,
     l_type = bet_refund, l_refType = Some ''ticket'', l_refId = Some (t_id ticket), l_txHash = None,
     l_memo = Some (''admin_void:'' @ reason)\<rparr>"

definition void_ticket ::
  "millis \<Rightarrow> string option \<Rightarrow> authed_user option \<Rightarrow> uuid \<Rightarrow> string \<Rightarrow> uuid dbtx" where
  "void_ticket now ip ru i reason =
    bindT (requireBalanceEditAdmin ru) (\<lambda>admin.
    thenT (throwIf (\<not> str_between 3 500 reason) (ZodError ''reason'')) (
    bindT (getT (\<lambda>s. select_one (\<lambda>r. t_id r = i) (tickets s))) (\<lambda>found.
    bindT (someOr (NotFoundError ''ticket_not_found'' ''ticket_not_found'') found) (\<lambda>existing.
    thenT (throwIf (t_status existing \<noteq> accepted)
      (let m = ''cannot_void_status_'' @ show_ticket_status (t_status existing) in
       BadRequestError m m)) (
    let stakeMicro = t_stakeMicro existing; ticketCurrency = t_currency existing in
    bindT (getT (\<lambda>s. count_where (\<lambda>r. t_id r = i \<and> t_status r = accepted) (tickets s))) (\<lambda>updated.
    thenT (update_tickets (\<lambda>r. t_id r = i \<and> t_status r = accepted)
      (\<lambda>r. r\<lparr>t_status := voided, t_actualPayoutMicro := Some stakeMicro,
             t_settledAt := Some now, t_rejectReason := Some reason\<rparr>)) (
    thenT (throwIf (updated \<noteq> 1)
      (ConflictError ''ticket_status_changed'' ''ticket_status_changed'')) (
    thenT (update_wallets (\<lambda>w. wallet_key w = (t_userId existing, ticketCurrency))
      (lock_sub stakeMicro now)) (
    thenT (insert_ledger_once (ticket_refund_row existing reason)) (
    thenT (releaseOpenLiability now ticketCurrency (t_potentialPayoutMicro existing)) (
    thenT (insert_audit (audit_entry admin ''ticket.void'' ''ticket'' i
      [(''status'', JStr (show_ticket_status (t_status existing))),
       (''stakeMicro'', JStr (show_int (t_stakeMicro existing)))]
      [(''status'', JStr ''voided''), (''reason'', JStr reason),
       (''refundMicro'', JStr (show_int stakeMicro))] ip)) (
    returnT (t_userId existing)))))))))))))"

section \<open>What each step did\<close>

lemma credit_wallet_simps [simp]:
  "wallet_key (credit_wallet a n w) = wallet_key w"
  "w_lockedMicro (credit_wallet a n w) = w_lockedMicro w"
  "w_balanceMicro (credit_wallet a n w) = w_balanceMicro w + a"
  by (simp_all add: credit_wallet_def wallet_key_def)

lemma networkToCurrency_Some [simp]: "networkToCurrency n = Some c \<longleftrightarrow> n = ERC20 \<and> c = USDC"
  by (cases n) auto

lemma credit_manual_effect:
  assumes "credit_manual now ip ru i body s = Inr (x, t)"
  obtains u row amount memo b a f where "ru = Some u" and "ru_role u = admin_r"
    and "select_one (\<lambda>r. di_id r = i) (deposit_intents s) = Some row" and "di_status row \<noteq> di_credited"
    and "di_network row = ERC20"
    and "amount = big_int (cb_amountMicro body)" and "0 < amount"
    and "\<And>r. di_id (f r) = di_id r \<and> di_userId (f r) = di_userId r \<and> di_status (f r) = di_credited
      \<and> di_amountMicro (f r) = Some amount"
    and "t = s\<lparr>deposit_intents := update_where (\<lambda>r. di_id r = i) f (deposit_intents s),
       wallets := update_where (\<lambda>w. wallet_key w = (di_userId row, USDC)) (credit_wallet amount now)
         (wallets s),
       wallet_ledger := book_once (deposit_ledger_row row USDC amount memo) (wallet_ledger s),
       bank_ledger := bank_book_once b (bank_ledger s),
       bank_state := (bank_state s)\<lparr>bankLimitMicro := bankLimitMicro (bank_state s) + amount,
         bank_updatedAt := now\<rparr>,
       admin_audit_log := admin_audit_log s @ [a]\<rparr>"
proof -
  from assms show thesis
    unfolding credit_manual_def Let_def
    by (clarsimp simp: step_simps) (rule that [rotated 8], (rule refl | assumption | simp)+)
qed

lemma reject_deposit_effect:
  assumes "reject_deposit now ip ru i reason s = Inr (x, t)"
  obtains u row a where "ru = Some u" and "ru_role u = admin_r"
    and "select_one (\<lambda>r. di_id r = i) (deposit_intents s) = Some row"
    and "di_status row \<noteq> di_credited" and "di_status row \<noteq> di_rejected"
    and "t = s\<lparr>deposit_intents := update_where (\<lambda>r. di_id r = i)
          (\<lambda>r. r\<lparr>di_status := di_rejected, di_failureReason := Some reason,
                 di_rejectedAt := Some now\<rparr>) (deposit_intents s),
       admin_audit_log := admin_audit_log s @ [a]\<rparr>"
  using assms unfolding reject_deposit_def by (auto simp: step_simps)

text \<open>The counter after a release, for any currency and amount.\<close>

definition released :: "millis \<Rightarrow> currency \<Rightarrow> micro \<Rightarrow> bank_state_row \<Rightarrow> bank_state_row" where
  "released now cur p b = (if cur \<noteq> USDC \<or> p \<le> 0 then b
     else b\<lparr>openLiabilityMicro := max 0 (openLiabilityMicro b - p), bank_updatedAt := now\<rparr>)"

definition release_checks :: "millis \<Rightarrow> currency \<Rightarrow> micro \<Rightarrow> bank_state_row \<Rightarrow> bool" where
  "release_checks now cur p b \<longleftrightarrow> cur \<noteq> USDC \<or> p \<le> 0 \<or> bank_viol (released now cur p b) = None"

lemma releaseOpenLiability_Inr [step_simps]:
  "releaseOpenLiability now cur p s = Inr (x, t) \<longleftrightarrow>
     t = s\<lparr>bank_state := released now cur p (bank_state s)\<rparr> \<and> release_checks now cur p (bank_state s)"
  by (auto simp: releaseOpenLiability_def released_def release_checks_def step_simps)

lemma keeps_releaseOpenLiability [keeps_intros]: "keeps schema_ok (releaseOpenLiability now cur p)"
  by (simp add: releaseOpenLiability_def keeps_intros)

lemma void_ticket_effect:
  assumes "void_ticket now ip ru i reason s = Inr (x, t)"
  obtains u row a where "ru = Some u" and "ru_role u = admin_r"
    and "select_one (\<lambda>r. t_id r = i) (tickets s) = Some row" and "t_status row = accepted"
    and "x = t_userId row"
    and "t = s\<lparr>tickets := update_where (\<lambda>r. t_id r = i \<and> t_status r = accepted)
         (\<lambda>r. r\<lparr>t_status := voided, t_actualPayoutMicro := Some (t_stakeMicro row),
                t_settledAt := Some now, t_rejectReason := Some reason\<rparr>) (tickets s),
       wallets := update_where (\<lambda>w. wallet_key w = (t_userId row, t_currency row))
         (lock_sub (t_stakeMicro row) now) (wallets s),
       wallet_ledger := book_once (ticket_refund_row row reason) (wallet_ledger s),
       bank_state := released now (t_currency row) (t_potentialPayoutMicro row) (bank_state s),
       admin_audit_log := admin_audit_log s @ [a]\<rparr>"
  using assms unfolding void_ticket_def Let_def
  by (auto simp: step_simps intro!: that)

section \<open>The books stay balanced\<close>

lemma schema_deposit_ops [keeps_intros]:
  "keeps schema_ok (acknowledge_deposit now ip ru i kb)"
  "keeps schema_ok (acknowledge_unattributed now ip ru i kb)"
  "keeps schema_ok (credit_manual now ip ru i cb)"
  "keeps schema_ok (reject_deposit now ip ru i rs)"
  "keeps schema_ok (void_ticket now ip ru i rs)"
  unfolding acknowledge_deposit_def acknowledge_unattributed_def credit_manual_def
    reject_deposit_def void_ticket_def Let_def
  by (intro keeps_intros)+

lemma distinct_map_filter_key: "distinct (map key rs) \<Longrightarrow> distinct (map key (filter P rs))"
  by (induction rs) auto

lemma schema_unlink [keeps_intros]: "keeps schema_ok (unlink_address ru i)"
  unfolding unlink_address_def
  by (intro keeps_intros)
     (auto simp: keeps_def wp_modifyT schema_ok_def table_ok_def addresses_uniq_def list_all_iff
       intro: distinct_map_filter_key)

lemma schema_link [keeps_intros]: "keeps schema_ok (link_address g v ra now newId ru body)"
  unfolding link_address_def Let_def by (intro keeps_intros)

text \<open>Steps on deposit intents, addresses and alerts that touch no wallet.\<close>

lemma books_frame:
  assumes ok: "books_ok s" and "schema_ok t"
    and "wallets t = wallets s" "wallet_ledger t = wallet_ledger s" "withdrawals t = withdrawals s"
    "tickets t = tickets s" "slotzilla_spins t = slotzilla_spins s" "bank_state t = bank_state s"
    and "credited_ids s \<subseteq> credited_ids t"
  shows "books_ok t"
proof (rule books_okI)
  show "locks_ok t" by (rule locks_ok_frame [OF books_okD(2) [OF ok]]) (simp_all add: assms)
  show "liability_ok t"
    using books_okD(3) [OF ok] by (simp add: liability_ok_def open_liability_def assms)
  show "refs_ok t"
    by (rule refs_ok_frame [OF books_okD(4) [OF ok]]) (simp_all add: assms entities_le_def)
qed fact

lemma books_reject_deposit: "keeps books_ok (reject_deposit now ip ru i reason)"
proof (rule keepsI)
  fix s x t
  assume ok: "books_ok s" and step: "reject_deposit now ip ru i reason s = Inr (x, t)"
  from ok step have schema: "schema_ok t"
    by (auto intro: keepsD [OF schema_deposit_ops(4)] dest: books_okD)
  from step show "books_ok t"
  proof (rule reject_deposit_effect)
    fix u row a
    assume row: "select_one (\<lambda>r. di_id r = i) (deposit_intents s) = Some row" "di_status row \<noteq> di_credited"
      and t: "t = s\<lparr>deposit_intents := update_where (\<lambda>r. di_id r = i)
          (\<lambda>r. r\<lparr>di_status := di_rejected, di_failureReason := Some reason,
                 di_rejectedAt := Some now\<rparr>) (deposit_intents s),
       admin_audit_log := admin_audit_log s @ [a]\<rparr>"
    note uniq = select_one_unique [OF deposit_intents_distinct [OF books_okD(1) [OF ok]] row(1)]
    have "credited_ids s \<subseteq> credited_ids t"
      unfolding t using row(2) by (auto dest: uniq intro!: ids_where_update [THEN subsetD])
    then show ?thesis by (intro books_frame [OF ok schema]) (simp_all add: t)
  qed
qed

lemma ids_where_same_update:
  assumes "\<And>r. key (f r) = key r" "\<And>r. P (f r) = P r"
  shows "ids_where key P rs \<subseteq> ids_where key P (update_where Q f rs)"
  using assms by (intro ids_where_update) simp

lemma books_acknowledge: "keeps books_ok (acknowledge_deposit now ip ru i body)"
proof (rule keepsI)
  fix s x t
  assume ok: "books_ok s" and step: "acknowledge_deposit now ip ru i body s = Inr (x, t)"
  from ok step have "schema_ok t"
    by (auto intro: keepsD [OF schema_deposit_ops(1)] dest: books_okD)
  with step show "books_ok t"
    unfolding acknowledge_deposit_def Let_def
    by (auto simp: step_simps intro!: books_frame [OF ok] ids_where_same_update [THEN subsetD])
qed

lemma books_acknowledge_unattributed: "keeps books_ok (acknowledge_unattributed now ip ru i body)"
proof (rule keepsI)
  fix s x t
  assume ok: "books_ok s" and step: "acknowledge_unattributed now ip ru i body s = Inr (x, t)"
  from ok step have "schema_ok t"
    by (auto intro: keepsD [OF schema_deposit_ops(2)] dest: books_okD)
  with step show "books_ok t"
    unfolding acknowledge_unattributed_def Let_def
    by (auto simp: step_simps intro!: books_frame [OF ok])
qed

lemma books_unlink: "keeps books_ok (unlink_address ru i)"
proof (rule keepsI)
  fix s x t
  assume ok: "books_ok s" and step: "unlink_address ru i s = Inr (x, t)"
  from ok step have "schema_ok t" by (auto intro: keepsD [OF schema_unlink] dest: books_okD)
  with step show "books_ok t"
    unfolding unlink_address_def by (auto simp: step_simps intro!: books_frame [OF ok])
qed

lemma books_link: "keeps books_ok (link_address g v ra now newId ru body)"
proof (rule keepsI)
  fix s x t
  assume ok: "books_ok s" and step: "link_address g v ra now newId ru body s = Inr (x, t)"
  from ok step have "schema_ok t" by (auto intro: keepsD [OF schema_link] dest: books_okD)
  with step show "books_ok t"
    unfolding link_address_def Let_def
    by (auto simp: step_simps intro!: books_frame [OF ok])
qed

lemma ids_whereI: "r \<in> set rs \<Longrightarrow> P r \<Longrightarrow> key r = i \<Longrightarrow> i \<in> ids_where key P rs"
  by (auto simp: ids_where_def)

lemma credit_ref_ok:
  assumes "select_one (\<lambda>r. di_id r = i) (deposit_intents s) = Some row"
    and "deposit_intents t = update_where (\<lambda>r. di_id r = i) f (deposit_intents s)"
    and "\<And>r. di_id (f r) = di_id r \<and> di_status (f r) = di_credited"
  shows "di_id row \<in> credited_ids t"
proof -
  have "row \<in> set (deposit_intents s)" "di_id row = i" using assms(1) by (auto dest: select_one_SomeD)
  then have "f row \<in> set (deposit_intents t)" by (auto simp: assms(2) in_set_update_where)
  with assms(3) show ?thesis by (intro ids_whereI [of "f row"]) simp_all
qed

lemma books_credit_manual: "keeps books_ok (credit_manual now ip ru i body)"
proof (rule keepsI)
  fix s x t
  assume ok: "books_ok s" and step: "credit_manual now ip ru i body s = Inr (x, t)"
  from ok step have schema: "schema_ok t"
    by (auto intro: keepsD [OF schema_deposit_ops(3)] dest: books_okD)
  from step show "books_ok t"
  proof (rule credit_manual_effect)
    fix u row amount memo b a f
    assume row: "select_one (\<lambda>r. di_id r = i) (deposit_intents s) = Some row"
      and f: "\<And>r. di_id (f r) = di_id r \<and> di_userId (f r) = di_userId r \<and> di_status (f r) = di_credited
        \<and> di_amountMicro (f r) = Some amount"
      and t: "t = s\<lparr>deposit_intents := update_where (\<lambda>r. di_id r = i) f (deposit_intents s),
       wallets := update_where (\<lambda>w. wallet_key w = (di_userId row, USDC)) (credit_wallet amount now)
         (wallets s),
       wallet_ledger := book_once (deposit_ledger_row row USDC amount memo) (wallet_ledger s),
       bank_ledger := bank_book_once b (bank_ledger s),
       bank_state := (bank_state s)\<lparr>bankLimitMicro := bankLimitMicro (bank_state s) + amount,
         bank_updatedAt := now\<rparr>,
       admin_audit_log := admin_audit_log s @ [a]\<rparr>"
    have upd: "deposit_intents t = update_where (\<lambda>r. di_id r = i) f (deposit_intents s)"
      by (simp add: t)
    have "credited_ids s \<subseteq> credited_ids t" unfolding upd using f by (intro ids_where_update) simp
    then have "entities_le s t" by (simp add: entities_le_def t)
    moreover have "pred_option (ref_ok t) (ledger_key (deposit_ledger_row row USDC amount memo))"
      using credit_ref_ok [OF row upd] f by (simp add: deposit_ledger_row_def ledger_key_def ref_ok.simps)
    ultimately have "refs_ok t"
      using books_okD(4) [OF ok] by (rule_tac refs_ok_le) (simp_all add: t)
    moreover have "locks_ok t"
      by (rule locks_ok_frame [OF books_okD(2) [OF ok]])
         (simp_all add: t locked_of_update [where d = 0] wallets_distinct [OF books_okD(1) [OF ok]])
    moreover have "liability_ok t"
      using books_okD(3) [OF ok] by (simp add: liability_ok_def open_liability_def t)
    ultimately show ?thesis using schema by (intro books_okI)
  qed
qed

text \<open>Closing a ticket whose lock and exposure are released.\<close>

lemma books_ticket_close:
  assumes ok: "books_ok s" and t: "schema_ok t"
    and row: "select_one (\<lambda>r. t_id r = i) (tickets s) = Some row" "t_open row"
    and upd: "tickets t = update_where (\<lambda>r. t_id r = i) f (tickets s)"
      "\<And>r. t_id (f r) = t_id r \<and> \<not> t_open (f r)"
    and rel: "releases (t_userId row, t_currency row) (t_stakeMicro row) (wallets s) (wallets t)"
    and frame: "withdrawals t = withdrawals s" "slotzilla_spins t = slotzilla_spins s"
      "deposit_intents t = deposit_intents s"
      "bank_state t = released now (t_currency row) (t_potentialPayoutMicro row) (bank_state s)"
    and led: "wallet_ledger t = book_once l (wallet_ledger s)" "pred_option (ref_ok t) (ledger_key l)"
  shows "books_ok t"
proof (rule books_okI [OF t])
  note s = books_okD [OF ok]
  have mem: "row \<in> set (tickets s)" using row(1) by (auto dest: select_one_SomeD)
  have closed: "\<not> t_open (f row)" using upd(2) by simp
  show "locks_ok t" by (rule t_obl.release [OF s(1,2) row upd(1) closed rel]) (simp add: frame)
  show "liability_ok t"
    using open_liability_ticket_close [OF s(1) row upd(1) closed frame(2)] s(3)
      ticket_exposure_le [OF s(1) mem row(2)] ticket_bounds(2) [OF s(1) mem]
    by (auto simp: liability_ok_def frame(4) released_def)
  have "closed_tickets s \<subseteq> closed_tickets t" unfolding upd(1) using upd(2) by (intro ids_where_update) simp
  moreover have "ticket_ids t = ticket_ids s"
    unfolding upd(1) by (subst map_key_update_where) (simp_all add: upd(2))
  ultimately have "entities_le s t" by (simp add: entities_le_def frame)
  then show "refs_ok t" using s(4) led by (rule_tac refs_ok_le)
qed

lemma closed_ref_ok:
  assumes "select_one (\<lambda>r. t_id r = i) (tickets s) = Some row"
    and "tickets t = update_where (\<lambda>r. t_id r = i) f (tickets s)"
    and "\<And>r. t_id (f r) = t_id r \<and> \<not> t_open (f r)"
  shows "i \<in> closed_tickets t"
proof -
  have "row \<in> set (tickets s)" "t_id row = i" using assms(1) by (auto dest: select_one_SomeD)
  then have "f row \<in> set (tickets t)" by (auto simp: assms(2) in_set_update_where)
  with assms(3) show ?thesis using \<open>t_id row = i\<close> by (intro ids_whereI [of "f row"]) simp_all
qed

lemma books_void_ticket: "keeps books_ok (void_ticket now ip ru i reason)"
proof (rule keepsI)
  fix s x t
  assume ok: "books_ok s" and step: "void_ticket now ip ru i reason s = Inr (x, t)"
  from ok step have schema: "schema_ok t"
    by (auto intro: keepsD [OF schema_deposit_ops(5)] dest: books_okD)
  from step show "books_ok t"
  proof (rule void_ticket_effect)
    fix u row a
    assume row: "select_one (\<lambda>r. t_id r = i) (tickets s) = Some row" "t_status row = accepted"
      and t: "t = s\<lparr>tickets := update_where (\<lambda>r. t_id r = i \<and> t_status r = accepted)
         (\<lambda>r. r\<lparr>t_status := voided, t_actualPayoutMicro := Some (t_stakeMicro row),
                t_settledAt := Some now, t_rejectReason := Some reason\<rparr>) (tickets s),
       wallets := update_where (\<lambda>w. wallet_key w = (t_userId row, t_currency row))
         (lock_sub (t_stakeMicro row) now) (wallets s),
       wallet_ledger := book_once (ticket_refund_row row reason) (wallet_ledger s),
       bank_state := released now (t_currency row) (t_potentialPayoutMicro row) (bank_state s),
       admin_audit_log := admin_audit_log s @ [a]\<rparr>"
    let ?f = "\<lambda>r. r\<lparr>t_status := voided, t_actualPayoutMicro := Some (t_stakeMicro row),
                t_settledAt := Some now, t_rejectReason := Some reason\<rparr>"
    note uniq = select_one_unique [OF tickets_distinct [OF books_okD(1) [OF ok]] row(1)]
    have upd: "tickets t = update_where (\<lambda>r. t_id r = i) ?f (tickets s)"
      unfolding t using row(2) by (auto dest: uniq intro!: update_where_cong)
    have f: "t_id (?f r) = t_id r \<and> \<not> t_open (?f r)" for r by (simp add: t_open_def)
    have "t_id row = i" using row(1) by (auto dest: select_one_SomeD)
    then have led: "pred_option (ref_ok t) (ledger_key (ticket_refund_row row reason))"
      using closed_ref_ok [OF row(1) upd f]
      by (simp add: ticket_refund_row_def ledger_key_def ref_ok.simps)
    show ?thesis
      by (rule books_ticket_close [OF ok schema row(1) _ upd f _ _ _ _ _ _ led])
         (simp_all add: t t_open_def row(2) releases_lock_sub)
  qed
qed

lemmas books_deposit_ops [keeps_intros] = books_reject_deposit books_acknowledge
  books_acknowledge_unattributed books_unlink books_link books_credit_manual books_void_ticket

end
