(* ===== verification/Payments.thy ===== *)
theory Payments
  imports Deposits
begin

text \<open>
  The payment calls as one step function, the withdrawal lifecycle as an
  abstract state machine the handlers refine, and what each call does to the
  ledger of a bettor; the properties are in Payment_Properties.
\<close>

section \<open>Payment calls\<close>

datatype payment_call =
    RequestWithdrawal uuid withdrawal_body
  | CancelWithdrawal uuid
  | ApproveWithdrawal uuid approve_body
  | RejectWithdrawal uuid string
  | MarkSubmitted uuid string
  | MarkConfirmed uuid string
  | MarkFailed uuid failed_body
  | LinkAddress uuid linked_wallet_body
  | UnlinkAddress uuid
  | AcknowledgeDeposit uuid acknowledge_body
  | AcknowledgeUnattributed uuid acknowledge_body
  | CreditManual uuid credit_body
  | RejectDeposit uuid string
  | VoidTicket uuid string

text \<open>The environment of a request: ethers' two functions, the receive address, the caller's IP.\<close>

record pay_env =
  pe_getAddress :: "string \<Rightarrow> string option"
  pe_verifyMessage :: "string \<Rightarrow> string \<Rightarrow> string option"
  pe_receiveAddress :: "string option"
  pe_ip :: "string option"

definition doneT :: "('s, 'a) tx \<Rightarrow> ('s, unit) tx" where
  "doneT m = thenT m (returnT ())"

fun run_payment :: "pay_env \<Rightarrow> millis \<Rightarrow> authed_user option \<Rightarrow> payment_call \<Rightarrow> unit dbtx" where
  "run_payment env now ru (RequestWithdrawal newId b) =
     doneT (request_withdrawal (pe_getAddress env) (pe_receiveAddress env) now newId ru b)"
| "run_payment env now ru (CancelWithdrawal i) = cancel_withdrawal now ru i"
| "run_payment env now ru (ApproveWithdrawal i b) = approve_withdrawal now (pe_ip env) ru i b"
| "run_payment env now ru (RejectWithdrawal i r) = reject_withdrawal now (pe_ip env) ru i r"
| "run_payment env now ru (MarkSubmitted i h) = mark_submitted now (pe_ip env) ru i h"
| "run_payment env now ru (MarkConfirmed i h) = mark_confirmed now (pe_ip env) ru i h"
| "run_payment env now ru (MarkFailed i b) = mark_failed now (pe_ip env) ru i b"
| "run_payment env now ru (LinkAddress newId b) =
     doneT (link_address (pe_getAddress env) (pe_verifyMessage env) (pe_receiveAddress env) now newId ru b)"
| "run_payment env now ru (UnlinkAddress i) = unlink_address ru i"
| "run_payment env now ru (AcknowledgeDeposit i b) = acknowledge_deposit now (pe_ip env) ru i b"
| "run_payment env now ru (AcknowledgeUnattributed i b) =
     acknowledge_unattributed now (pe_ip env) ru i b"
| "run_payment env now ru (CreditManual i b) = credit_manual now (pe_ip env) ru i b"
| "run_payment env now ru (RejectDeposit i r) = reject_deposit now (pe_ip env) ru i r"
| "run_payment env now ru (VoidTicket i r) = doneT (void_ticket now (pe_ip env) ru i r)"

lemma doneT_Inr [step_simps]: "doneT m s = Inr (u, t) \<longleftrightarrow> (\<exists>x. m s = Inr (x, t))"
  by (auto simp: doneT_def step_simps)

lemma keeps_doneT [keeps_intros]: "keeps I m \<Longrightarrow> keeps I (doneT m)"
  by (simp add: doneT_def keeps_intros)

lemma books_payment [keeps_intros]: "keeps books_ok (run_payment env now ru call)"
  by (cases call) (simp_all add: keeps_intros)

lemma schema_payment [keeps_intros]: "keeps schema_ok (run_payment env now ru call)"
  by (cases call) (simp_all add: keeps_intros)

section \<open>The withdrawal lifecycle\<close>

text \<open>The transitions the header of modules/admin/withdrawals.ts lists, with \<open>failed\<close> for a rejection.\<close>

inductive wd_step :: "withdrawal_status \<Rightarrow> withdrawal_status \<Rightarrow> bool" where
  approve: "wd_step requested approved"
| cancel: "wd_step requested cancelled"
| reject: "wd_step requested failed"
| submit: "wd_step approved submitted"
| fail_approved: "wd_step approved failed"
| confirm: "wd_step submitted confirmed"
| fail_submitted: "wd_step submitted failed"

inductive_simps wd_step_from [simp]:
  "wd_step requested x" "wd_step approved x" "wd_step submitted x"
  "wd_step confirmed x" "wd_step failed x" "wd_step cancelled x"

definition wd_moves :: "withdrawals_row \<Rightarrow> withdrawals_row \<Rightarrow> bool" where
  "wd_moves r r' \<longleftrightarrow> wd_id r' = wd_id r \<and> wd_userId r' = wd_userId r
     \<and> wd_amountMicro r' = wd_amountMicro r \<and> wd_step (wd_status r) (wd_status r')"

text \<open>A call changes at most one withdrawal, along the lifecycle, or appends one request.\<close>

lemma withdrawals_of_payment:
  assumes "run_payment env now ru call s = Inr (x, t)"
  obtains "withdrawals t = withdrawals s"
  | r where "withdrawals t = withdrawals s @ [r]" "wd_status r = requested"
      "count_where (\<lambda>q. wd_userId q = wd_userId r \<and> wd_open q) (withdrawals s) < MAX_PENDING_WITHDRAWALS"
  | i row f where "select_one (\<lambda>r. wd_id r = i) (withdrawals s) = Some row"
      "withdrawals t = update_where (\<lambda>r. wd_id r = i) f (withdrawals s)" "wd_moves row (f row)"
proof (cases call)
  case (RequestWithdrawal newId b)
  with assms show ?thesis
    by (auto simp: step_simps elim!: request_withdrawal_effect intro!: that(2))
next
  case (CancelWithdrawal i)
  with assms show ?thesis
    by (auto elim!: cancel_withdrawal_effect intro!: that(3) simp: wd_moves_def)
next
  case (ApproveWithdrawal i b)
  with assms show ?thesis
    by (auto elim!: approve_withdrawal_effect intro!: that(3) simp: wd_moves_def)
next
  case (RejectWithdrawal i r)
  with assms show ?thesis
    by (auto elim!: reject_withdrawal_effect intro!: that(3) simp: wd_moves_def)
next
  case (MarkSubmitted i h)
  with assms show ?thesis
    by (auto elim!: mark_submitted_effect intro!: that(3) simp: wd_moves_def)
next
  case (MarkConfirmed i h)
  with assms show ?thesis
    by (auto elim!: mark_confirmed_effect intro!: that(3) simp: wd_moves_def)
next
  case (MarkFailed i b)
  with assms show ?thesis
    by (auto elim!: mark_failed_effect intro!: that(3) simp: wd_moves_def)
next
  case (CreditManual i b)
  with assms show ?thesis by (auto elim!: credit_manual_effect intro!: that(1))
next
  case (RejectDeposit i b)
  with assms show ?thesis by (auto elim!: reject_deposit_effect intro!: that(1))
next
  case (VoidTicket i b)
  with assms show ?thesis by (auto simp: step_simps elim!: void_ticket_effect intro!: that(1))
next
  case (LinkAddress i b)
  with assms show ?thesis
    by (auto simp: step_simps link_address_def Let_def intro!: that(1))
qed (use assms in \<open>auto simp: step_simps unlink_address_def acknowledge_deposit_def
  acknowledge_unattributed_def Let_def intro!: that(1)\<close>)

section \<open>Helpers for the properties\<close>

lemma in_update_where:
  "r \<in> set rs \<Longrightarrow> (if P r then f r else r) \<in> set (update_where P f rs)"
  by (auto simp: in_set_update_where)

lemma count_where_update_le:
  assumes "\<And>r. r \<in> set rs \<Longrightarrow> Q r \<Longrightarrow> P (f r) \<Longrightarrow> P r"
  shows "count_where P (update_where Q f rs) \<le> count_where P rs"
  using assms by (induction rs) (auto simp: le_Suc_eq)

lemma ledger_uniq_snoc:
  "ledger_uniq ls = None \<Longrightarrow> \<not> ledger_conflict l ls \<Longrightarrow> ledger_uniq (ls @ [l]) = None"
  by (cases "ledger_key l")
     (auto simp: ledger_uniq_def ledger_conflict_def map_filter_def list_ex_iff)

lemma ledger_checksI:
  "schema_ok s \<Longrightarrow> in_bigint (l_deltaMicro l) \<Longrightarrow> ledger_checks l (wallet_ledger s)"
  by (cases "ledger_conflict l (wallet_ledger s)")
     (simp_all add: ledger_checks_def insert_checks_def ledger_viol_def schema_ok_def table_ok_def
       ledger_uniq_snoc)

lemma map_filter_update_where:
  "(\<And>r. g (f r) = g r) \<Longrightarrow> List.map_filter g (update_where P f rs) = List.map_filter g rs"
  by (induction rs) (auto simp: map_filter_def)

lemma locked_of_wallet:
  assumes "distinct (map wallet_key ws)" and "w \<in> set ws"
  shows "locked_of (wallet_key w) ws = w_lockedMicro w"
  using assms
proof (induction ws)
  case (Cons v ws)
  have none: "locked_of k ws = 0" if "k \<notin> wallet_key ` set ws" for k
    using that by (induction ws) (auto simp: locked_of_def)
  from Cons show ?case by (auto simp: locked_of_def none [unfolded locked_of_def])
qed simp

lemma release_update_checks:
  assumes "schema_ok s" and "locks_ok s" and "0 \<le> a" and "a \<le> obligations k s"
  shows "update_checks wallets_viol wallets_uniq (\<lambda>w. wallet_key w = k) (lock_sub a now) (wallets s)"
proof -
  have "wallets_viol (lock_sub a now w) = None" if "w \<in> set (wallets s)" "wallet_key w = k" for w
  proof -
    have "w_lockedMicro w = obligations k s"
      using locked_of_wallet [OF wallets_distinct [OF assms(1)] that(1)] that(2) locks_okD [OF assms(2), of k]
      by simp
    then show ?thesis
      using wallet_bounds [OF assms(1) that(1)] assms(3,4)
      by (simp add: wallets_viol_def in_bigint_def)
  qed
  then show ?thesis
    using wallets_distinct [OF assms(1)]
    by (simp add: update_checks_def wallets_uniq_def map_key_update_where)
qed

lemma wd_status_update_checks:
  assumes "schema_ok s"
  shows "update_checks withdrawals_viol withdrawals_uniq (\<lambda>r. wd_id r = i)
    (\<lambda>r. r\<lparr>wd_status := st\<rparr>) (withdrawals s)"
  using assms
  by (auto simp: update_checks_def schema_ok_def table_ok_def list_all_iff withdrawals_viol_def
      withdrawals_uniq_def map_key_update_where map_filter_update_where)

lemma open_withdrawal_le:
  assumes "schema_ok s" and "r \<in> set (withdrawals s)" and "wd_open r"
  shows "wd_amountMicro r \<le> obligations (wd_userId r, USDC) s"
proof -
  have "wd_amountMicro r \<le> open_withdrawals (wd_userId r, USDC) (withdrawals s)"
    unfolding open_withdrawals_def using assms withdrawal_bounds(1) [OF assms(1)]
    by (intro sum_where_ge_member) (auto simp: less_imp_le)
  then show ?thesis using open_sums_nonneg [OF assms(1)] by (simp add: obligations_def add_increasing2)
qed

section \<open>Ledger drift of each call\<close>

lemma balance_lock_sub [simp]:
  "schema_ok s \<Longrightarrow> balance_of k' (update_where (\<lambda>w. wallet_key w = k) (lock_sub a n) (wallets s)) =
     balance_of k' (wallets s)"
  by (simp add: balance_of_update [where d = 0] wallets_distinct)

lemma balance_lock_add [simp]:
  "schema_ok s \<Longrightarrow> balance_of k' (update_where (\<lambda>w. wallet_key w = k) (lock_add a n) (wallets s)) =
     balance_of k' (wallets s)"
  by (simp add: balance_of_update [where d = 0] wallets_distinct)

lemma balance_debit:
  assumes "schema_ok s" and "has_wallet k (wallets s)"
  shows "balance_of k' (update_where (\<lambda>w. wallet_key w = k) (debit_wallet a d n) (wallets s)) =
     balance_of k' (wallets s) - (if k' = k then d else 0)"
  using assms by (simp add: balance_of_update [where d = "- d"] wallets_distinct)

lemma balance_credit:
  assumes "schema_ok s" and "has_wallet k (wallets s)"
  shows "balance_of k' (update_where (\<lambda>w. wallet_key w = k) (credit_wallet a n) (wallets s)) =
     balance_of k' (wallets s) + (if k' = k then a else 0)"
  using assms by (simp add: balance_of_update [where d = a] wallets_distinct)

lemma not_in_ids_where:
  assumes "distinct (map key rs)" and "select_one (\<lambda>r. key r = i) rs = Some row" and "\<not> P row"
  shows "i \<notin> ids_where key P rs"
  using assms by (auto simp: ids_where_def dest: select_one_unique)

lemma confirm_books_once:
  assumes "books_ok s" and "select_one (\<lambda>r. wd_id r = i) (withdrawals s) = Some row"
    and "wd_status row = submitted"
  shows "\<not> ledger_conflict (withdrawal_ledger_row row h) (wallet_ledger s)"
proof (rule no_conflict [OF books_okD(4) [OF assms(1)]])
  show "ledger_key (withdrawal_ledger_row row h) = Some (withdrawal, ''withdrawal'', wd_id row)"
    by (simp add: withdrawal_ledger_row_def ledger_key_def)
  have "wd_id row = i" using assms(2) by (auto dest: select_one_SomeD)
  moreover have "i \<notin> confirmed_ids s"
    using assms by (intro not_in_ids_where [OF withdrawals_distinct [OF books_okD(1) [OF assms(1)]]]) auto
  ultimately show "\<not> ref_ok s (withdrawal, ''withdrawal'', wd_id row)" by (simp add: ref_ok.simps)
qed

lemma credit_books_once:
  assumes "books_ok s" and "select_one (\<lambda>r. di_id r = i) (deposit_intents s) = Some row"
    and "di_status row \<noteq> di_credited"
  shows "\<not> ledger_conflict (deposit_ledger_row row USDC a m) (wallet_ledger s)"
proof (rule no_conflict [OF books_okD(4) [OF assms(1)]])
  show "ledger_key (deposit_ledger_row row USDC a m) = Some (deposit, ''deposit_intent'', di_id row)"
    by (simp add: deposit_ledger_row_def ledger_key_def)
  have "di_id row = i" using assms(2) by (auto dest: select_one_SomeD)
  moreover have "i \<notin> credited_ids s"
    using assms by (intro not_in_ids_where [OF deposit_intents_distinct [OF books_okD(1) [OF assms(1)]]]) auto
  ultimately show "\<not> ref_ok s (deposit, ''deposit_intent'', di_id row)" by (simp add: ref_ok.simps)
qed

lemma void_books_once:
  assumes "books_ok s" and "select_one (\<lambda>r. t_id r = i) (tickets s) = Some row"
    and "t_status row = accepted"
  shows "\<not> ledger_conflict (ticket_refund_row row reason) (wallet_ledger s)"
proof (rule no_conflict [OF books_okD(4) [OF assms(1)]])
  show "ledger_key (ticket_refund_row row reason) = Some (bet_refund, ''ticket'', t_id row)"
    by (simp add: ticket_refund_row_def ledger_key_def)
  have "t_id row = i" using assms(2) by (auto dest: select_one_SomeD)
  moreover have "i \<notin> closed_tickets s"
    using assms by (intro not_in_ids_where [OF tickets_distinct [OF books_okD(1) [OF assms(1)]]])
      (auto simp: t_open_def)
  ultimately show "\<not> ref_ok s (bet_refund, ''ticket'', t_id row)" by (simp add: ref_ok.simps)
qed

lemma drift_confirm:
  assumes ok: "books_ok s" and "mark_confirmed now ip ru i h s = Inr (x, t)"
  shows "ledger_drift k t = ledger_drift k s"
  using assms(2)
proof (rule mark_confirmed_effect)
  fix u row w a b
  assume row: "select_one (\<lambda>r. wd_id r = i) (withdrawals s) = Some row" "wd_status row = submitted"
    and w: "select_one (\<lambda>w. wallet_key w = (wd_userId row, USDC)) (wallets s) = Some w"
    and t: "t = s\<lparr>wallets := update_where (\<lambda>w. wallet_key w = (wd_userId row, USDC))
         (debit_wallet (wd_amountMicro row) (wd_amountMicro row + wd_feeMicro row) now) (wallets s),
       wallet_ledger := book_once (withdrawal_ledger_row row (to_lower h)) (wallet_ledger s),
       bank_ledger := bank_book_once b (bank_ledger s),
       bank_state := (bank_state s)\<lparr>bankLimitMicro := bankLimitMicro (bank_state s) - wd_amountMicro row,
         bank_updatedAt := now\<rparr>,
       withdrawals := update_where (\<lambda>r. wd_id r = i)
         (\<lambda>r. r\<lparr>wd_status := confirmed, wd_confirmedAt := Some now, wd_txHash := Some (to_lower h),
           wd_confirmedByUserId := Some (ru_id u)\<rparr>) (withdrawals s),
       admin_audit_log := admin_audit_log s @ [a]\<rparr>"
  have "has_wallet (wd_userId row, USDC) (wallets s)" using w by (simp add: has_wallet_iff)
  then show ?thesis
    using balance_debit [OF books_okD(1) [OF ok]] confirm_books_once [OF ok row]
    by (simp add: t ledger_drift_def ledger_of_book_once withdrawal_ledger_row_def)
qed

lemma drift_void:
  assumes ok: "books_ok s" and "void_ticket now ip ru i reason s = Inr (x, t)"
  shows "ledger_drift k t = ledger_drift k s"
  using assms(2)
proof (rule void_ticket_effect)
  fix u row a
  assume row: "select_one (\<lambda>r. t_id r = i) (tickets s) = Some row" "t_status row = accepted"
    and t: "t = s\<lparr>tickets := update_where (\<lambda>r. t_id r = i \<and> t_status r = accepted)
         (\<lambda>r. r\<lparr>t_status := voided, t_actualPayoutMicro := Some (t_stakeMicro row),
                t_settledAt := Some now, t_rejectReason := Some reason\<rparr>) (tickets s),
       wallets := update_where (\<lambda>w. wallet_key w = (t_userId row, t_currency row))
         (lock_sub (t_stakeMicro row) now) (wallets s),
       wallet_ledger := book_once (ticket_refund_row row reason) (wallet_ledger s),
       bank_state := released now (t_currency row) (t_potentialPayoutMicro row) (bank_state s),
       admin_audit_log := admin_audit_log s @ [a]\<rparr>"
  note s = books_okD [OF ok]
  let ?f = "\<lambda>r. r\<lparr>t_status := voided, t_actualPayoutMicro := Some (t_stakeMicro row),
                t_settledAt := Some now, t_rejectReason := Some reason\<rparr>"
  have upd: "tickets t = update_where (\<lambda>r. t_id r = i) ?f (tickets s)"
    unfolding t using row(2)
    by (auto dest: select_one_unique [OF tickets_distinct [OF s(1)] row(1)] intro!: update_where_cong)
  have "open_stakes k (tickets t) = open_stakes k (tickets s)
      - (if k = (t_userId row, t_currency row) then t_stakeMicro row else 0)"
    unfolding upd open_stakes_def sum_where_update_key [OF tickets_distinct [OF s(1)] row(1)]
    using row(2) by (auto simp: t_open_def)
  then show ?thesis
    using void_books_once [OF ok row] s(1)
    by (simp add: t ledger_drift_def ledger_of_book_once ticket_refund_row_def)
qed

lemma drift_credit:
  assumes ok: "books_ok s" and "credit_manual now ip ru i body s = Inr (x, t)"
    and row: "select_one (\<lambda>r. di_id r = i) (deposit_intents s) = Some row"
  shows "ledger_drift k t = ledger_drift k s +
    (if k = (di_userId row, USDC) \<and> \<not> has_wallet k (wallets s) then big_int (cb_amountMicro body) else 0)"
  using assms(2)
proof (rule credit_manual_effect)
  fix u row' amount memo b a f
  assume row': "select_one (\<lambda>r. di_id r = i) (deposit_intents s) = Some row'" "di_status row' \<noteq> di_credited"
    and amount: "amount = big_int (cb_amountMicro body)"
    and t: "t = s\<lparr>deposit_intents := update_where (\<lambda>r. di_id r = i) f (deposit_intents s),
       wallets := update_where (\<lambda>w. wallet_key w = (di_userId row', USDC)) (credit_wallet amount now)
         (wallets s),
       wallet_ledger := book_once (deposit_ledger_row row' USDC amount memo) (wallet_ledger s),
       bank_ledger := bank_book_once b (bank_ledger s),
       bank_state := (bank_state s)\<lparr>bankLimitMicro := bankLimitMicro (bank_state s) + amount,
         bank_updatedAt := now\<rparr>,
       admin_audit_log := admin_audit_log s @ [a]\<rparr>"
  have "balance_of k (wallets t) = balance_of k (wallets s) +
      (if k = (di_userId row', USDC) \<and> has_wallet (di_userId row', USDC) (wallets s) then amount else 0)"
    unfolding t
    by (simp add: balance_of_update [where d = amount] wallets_distinct [OF books_okD(1) [OF ok]])
  then show ?thesis
    using credit_books_once [OF ok row'] row row'(1) amount
    by (simp add: t ledger_drift_def ledger_of_book_once deposit_ledger_row_def)
qed

end
