(* ===== verification/Sample.thy ===== *)
theory Sample
  imports Withdrawals
begin

text \<open>
  A small database whose books balance: a bettor with a USDC and an OZ wallet,
  two operators, a requested and a submitted withdrawal, an open ticket, an
  open spin, and one credited and one pending deposit.  It shows that the
  hypotheses of the properties can hold.
\<close>

definition sample_wallet :: wallets_row where
  "sample_wallet = \<lparr>w_userId = ''ann'', w_currency = USDC, w_balanceMicro = 1000,
     w_lockedMicro = 375, w_updatedAt = 0\<rparr>"

definition sample_oz_wallet :: wallets_row where
  "sample_oz_wallet = \<lparr>w_userId = ''ann'', w_currency = OZ, w_balanceMicro = 5000000,
     w_lockedMicro = 0, w_updatedAt = 0\<rparr>"

definition sample_w1 :: withdrawals_row where
  "sample_w1 = \<lparr>wd_id = ''w1'', wd_userId = ''ann'', wd_network = ERC20, wd_toAddress = ''0xa'',
     wd_amountMicro = 100, wd_feeMicro = 0, wd_status = requested, wd_txHash = None,
     wd_requestedAt = 0, wd_approvedAt = None, wd_submittedAt = None, wd_confirmedAt = None,
     wd_failureReason = None, wd_approvedByUserId = None, wd_submittedByUserId = None,
     wd_confirmedByUserId = None\<rparr>"

definition sample_w2 :: withdrawals_row where
  "sample_w2 = \<lparr>wd_id = ''w2'', wd_userId = ''ann'', wd_network = ERC20, wd_toAddress = ''0xa'',
     wd_amountMicro = 200, wd_feeMicro = 10, wd_status = submitted, wd_txHash = Some ''0xb'',
     wd_requestedAt = 0, wd_approvedAt = Some 1, wd_submittedAt = Some 2, wd_confirmedAt = None,
     wd_failureReason = None, wd_approvedByUserId = Some ''sup'', wd_submittedByUserId = Some ''sup'',
     wd_confirmedByUserId = None\<rparr>"

definition sample_ticket :: tickets_row where
  "sample_ticket = \<lparr>t_id = ''t1'', t_userId = ''ann'', t_status = accepted, t_betType = single,
     t_currency = USDC, t_stakeMicro = 50, t_potentialPayoutMicro = 120, t_actualPayoutMicro = None,
     t_idempotencyKey = ''k1'', t_notBeforeTs = None, t_rejectReason = None, t_placedAt = 0,
     t_acceptedAt = Some 0, t_settledAt = None, t_clientIp = None, t_userAgent = None,
     t_betMeta = None, t_acceptOddsChanges = False, t_quoteToPlaceMs = None\<rparr>"

definition sample_spin :: slotzilla_spins_row where
  "sample_spin = \<lparr>sp_id = ''s1'', sp_userId = ''ann'', sp_matchId = 7, sp_currency = USDC,
     sp_stakeMicro = 25, sp_exposureMicro = 80, sp_paytableId = 1, sp_windowFrom = 20,
     sp_reels = None, sp_reelTeams = None, sp_lineKey = None, sp_multiplierX100 = None,
     sp_payoutMicro = 0, sp_status = spin_open, sp_voidReason = None, sp_autoplay = False,
     sp_idempotencyKey = Some ''i1'', sp_placedAt = 0, sp_settledAt = None\<rparr>"

definition sample_intent :: "uuid \<Rightarrow> string \<Rightarrow> deposit_intent_status \<Rightarrow> deposit_intents_row" where
  "sample_intent i h st = \<lparr>di_id = i, di_userId = ''ann'', di_network = ERC20, di_txHash = h,
     di_fromAddress = None, di_amountMicro = (if st = di_credited then Some 1000 else None),
     di_blockNumber = None, di_blockHash = None, di_logIndex = Some 0, di_status = st,
     di_failureReason = None, di_detectedTokenContract = None, di_detectedTokenAmountRaw = None,
     di_acknowledgedAt = None, di_acknowledgedByUserId = None, di_creditedAt = None,
     di_rejectedAt = None\<rparr>"

definition sample_user :: "uuid \<Rightarrow> string \<Rightarrow> user_role \<Rightarrow> users_row" where
  "sample_user i e r = \<lparr>u_id = i, u_email = e, u_passwordHash = ''hash-of-'' @ i, u_status = active, u_role = r,
     u_kycStatus = kyc_none, u_countryCode = None, u_globalLimitMicro = 0, u_betDelaySeconds = 0,
     u_displayName = None, u_riskScore = ''1.000'', u_sportOrder = None, u_hiddenSports = None,
     u_emailVerifiedAt = None, u_notes = None, u_labels = [], u_updatedAt = 0, u_lastLoginAt = None\<rparr>"

definition sample_session :: sessions_row where
  "sample_session = \<lparr>se_id = ''ses1'', se_userId = ''ann'', se_refreshTokenHash = ''r1'', se_deviceId = None,
     se_userAgent = None, se_ipInet = None, se_expiresAt = 1000000, se_revokedAt = None,
     se_familyId = ''fam1'', se_parentSessionId = None\<rparr>"

definition sample_ledger :: "wallet_tx_type \<Rightarrow> string \<Rightarrow> uuid \<Rightarrow> micro \<Rightarrow> wallet_ledger_row" where
  "sample_ledger ty rt i d = \<lparr>l_userId = ''ann'', l_currency = USDC, l_deltaMicro = d, l_type = ty,
     l_refType = Some rt, l_refId = Some i, l_txHash = None, l_memo = None\<rparr>"

definition sample_bank_row :: "bank_ledger_type \<Rightarrow> (string \<times> uuid) option \<Rightarrow> micro \<Rightarrow> bank_ledger_row" where
  "sample_bank_row ty ref d = \<lparr>bl_deltaMicro = d, bl_type = ty, bl_refType = map_option fst ref,
     bl_refId = map_option snd ref, bl_actorUserId = None, bl_memo = None\<rparr>"

definition sample_game :: slotzilla_games_row where
  "sample_game = \<lparr>g_matchId = 7, g_srMatchId = 70, g_status = live, g_paytableId = Some 1,
     g_clockSeconds = Some 100, g_clockRunning = True, g_clockPeriod = Some 1,
     g_clockReadAt = Some 10000, g_spinsCount = 1, g_usdcStakeMicro = 25, g_usdcPayoutMicro = 0,
     g_ozStakeMicro = 0, g_ozPayoutMicro = 0, g_pausedBy = None, g_pausedAt = None, g_note = None,
     g_isDemo = False, g_updatedAt = 0\<rparr>"

definition sample_demo_game :: slotzilla_games_row where
  "sample_demo_game = \<lparr>g_matchId = 8, g_srMatchId = 80, g_status = live, g_paytableId = None,
     g_clockSeconds = Some 101, g_clockRunning = False, g_clockPeriod = Some 1,
     g_clockReadAt = Some 10000, g_spinsCount = 0, g_usdcStakeMicro = 0, g_usdcPayoutMicro = 0,
     g_ozStakeMicro = 0, g_ozPayoutMicro = 0, g_pausedBy = None, g_pausedAt = None, g_note = None,
     g_isDemo = True, g_updatedAt = 0\<rparr>"

definition sample_db :: db where
  "sample_db = \<lparr>
     users = [sample_user ''ann'' ''ann@x'' user_r, sample_user ''op'' ''q1qooo@gmail.com'' admin_r,
       sample_user ''sup'' ''sup@x'' admin_r, sample_user ''bob'' ''bob@x'' user_r],
     sessions = [sample_session],
     email_verification_tokens = [],
     password_reset_tokens = [],
     email_outbox = [],
     deposits = [],
     wallets = [sample_wallet, sample_oz_wallet],
     wallet_ledger = [sample_ledger deposit ''deposit_intent'' ''d1'' 1000,
       sample_ledger bet_stake ''ticket'' ''t1'' (- 50),
       sample_ledger slot_stake ''slotzilla_spin'' ''s1'' (- 25)],
     withdrawals = [sample_w1, sample_w2],
     deposit_intents = [sample_intent ''d1'' ''0x1'' di_credited, sample_intent ''d2'' ''0x2'' di_pending],
     unattributed_deposits = [],
     user_wallet_addresses = [],
     bank_state = \<lparr>bankLimitMicro = 100000, openLiabilityMicro = 200, bank_updatedBy = None, bank_updatedAt = 0\<rparr>,
     bank_ledger = [sample_bank_row seed None 99000, sample_bank_row deposit_credit (Some (''deposit_intent'', ''d1'')) 1000],
     admin_audit_log = [],
     tickets = [sample_ticket],
     ticket_selections = [\<lparr>ts_ticketId = ''t1'', ts_marketId = 11, ts_outcomeId = ''1'',
       ts_oddsAtPlacement = ''2.4'', ts_probabilityAtPlacement = None, ts_boostRuleId = None,
       ts_result = None, ts_voidFactor = None, ts_settledAt = None\<rparr>],
     riskzilla_event_log = [],
     cashouts = [],
     slotzilla_config = \<lparr>sc_enabled = True, sc_currencies = [''OZ''],
       sc_rtpTargetBp = 9700, sc_leadSeconds = 10,
       sc_clockPastSeconds = 5, sc_graceSeconds = 10, sc_feedDarkVoidSeconds = 180, sc_minStakeMicro = 10,
       sc_maxStakeMicro = 50000000, sc_maxPayoutMicro = 500000000,
       sc_matchLiabilityCapMicro = 5000000000, sc_returnAlarmMarginBp = 1000,
       sc_returnAlarmMinSpins = 200, sc_autoplayEnabled = True, sc_updatedBy = None, sc_updatedAt = 0\<rparr>,
     slotzilla_paytables = [\<lparr>pt_id = 1, pt_name = ''base'',
       pt_lines = [(''any2:P2'', JNum 150), (''all3:P2'', JNum 700)],
       pt_fittedRtpBp = Some 9650, pt_corpusNote = None, pt_active = True, pt_updatedBy = None,
       pt_updatedAt = 0\<rparr>,
       \<lparr>pt_id = 2, pt_name = ''draft'', pt_lines = [(''any2:P2'', JNum 200)], pt_fittedRtpBp = None,
       pt_corpusNote = None, pt_active = False, pt_updatedBy = None, pt_updatedAt = 0\<rparr>],
     slotzilla_games = [sample_game, sample_demo_game],
     slotzilla_spins = [sample_spin],
     bot_controls = Some \<lparr>bc_intentRequired = True, bc_intentTtlSeconds = 120, bc_minHumanMs = 600,
       bc_velocityEnabled = False, bc_maxBetsPerMinute = 12, bc_maxMatchesPerMinute = 10\<rparr>\<rparr>"

lemmas sample_defs = sample_db_def sample_wallet_def sample_oz_wallet_def sample_w1_def sample_w2_def
  sample_ticket_def sample_spin_def sample_intent_def sample_user_def sample_ledger_def sample_game_def sample_demo_game_def
  sample_session_def sample_bank_row_def

lemma sample_schema_ok: "schema_ok sample_db"
  by code_simp

lemma sample_locks_ok: "locks_ok sample_db"
proof (rule locks_okI)
  fix k :: "uuid \<times> currency"
  show "locked_of k (wallets sample_db) = obligations k sample_db"
    by (cases k; cases "snd k")
       (auto simp: sample_defs locked_of_def obligations_def open_withdrawals_def open_stakes_def
         open_spin_stakes_def wallet_key_def wd_open_def t_open_def sp_open_def)
qed

lemma sample_liability_ok: "liability_ok sample_db"
  by code_simp

lemma sample_refs_ok: "refs_ok sample_db"
  by (auto simp: refs_ok_def sample_defs ledger_key_def ref_ok.simps ids_where_def t_open_def sp_open_def)

lemma sample_books_ok: "books_ok sample_db"
  by (intro books_okI sample_schema_ok sample_locks_ok sample_liability_ok sample_refs_ok)

section \<open>Callers\<close>

definition sample_ann :: authed_user where
  "sample_ann = \<lparr>ru_id = ''ann'', ru_role = user_r\<rparr>"

definition sample_op :: authed_user where
  "sample_op = \<lparr>ru_id = ''op'', ru_role = admin_r\<rparr>"

lemma sample_callers [simp]:
  "ru_id sample_ann = ''ann''" "ru_id sample_op = ''op''" "ru_role sample_op = admin_r"
  by (simp_all add: sample_ann_def sample_op_def)

end
