(* ===== verification/Payment_Properties.thy ===== *)
theory Payment_Properties
  imports Payments Sample
begin

text \<open>
  The properties of withdrawals, deposits, linked addresses and manual voids,
  each with its instance on the sample database.
\<close>

section \<open>Sample callers\<close>

definition sample_env :: pay_env where
  "sample_env = \<lparr>pe_getAddress = Some, pe_verifyMessage = (\<lambda>m g. Some (take 42 g)),
     pe_receiveAddress = None, pe_ip = None\<rparr>"

definition sample_hash :: string where
  "sample_hash = ''0x'' @ replicate 64 (CHR ''a'')"

lemma sample_select [simp]:
  "select_one (\<lambda>r. wd_id r = ''w1'') (withdrawals sample_db) = Some sample_w1"
  "select_one (\<lambda>r. wd_id r = ''w2'') (withdrawals sample_db) = Some sample_w2"
  "select_one (\<lambda>r. di_id r = ''d2'') (deposit_intents sample_db) =
     Some (sample_intent ''d2'' ''0x2'' di_pending)"
  "select_one (\<lambda>r. t_id r = ''t1'') (tickets sample_db) = Some sample_ticket"
  "select_one (\<lambda>r. u_id r = ''op'') (users sample_db) =
     Some (sample_user ''op'' ''q1qooo@gmail.com'' admin_r)"
  "select_one (\<lambda>r. u_id r = ''ann'') (users sample_db) = Some (sample_user ''ann'' ''ann@x'' user_r)"
  "select_one (\<lambda>w. wallet_key w = (''ann'', USDC)) (wallets sample_db) = Some sample_wallet"
  by code_simp+

lemma sample_fields [simp]:
  "wd_userId sample_w1 = ''ann''" "wd_userId sample_w2 = ''ann''"
  "wd_status sample_w1 = requested" "wd_status sample_w2 = submitted"
  by (simp_all add: sample_w1_def sample_w2_def)

lemma sample_cancel_runs:
  "\<exists>t. run_payment sample_env 5 (Some sample_ann) (CancelWithdrawal ''w1'') sample_db = Inr ((), t)"
  by (simp add: cancel_withdrawal_def step_simps) code_simp

lemma sample_confirm_runs:
  "\<exists>t. mark_confirmed 5 None (Some sample_op) ''w2'' sample_hash sample_db = Inr ((), t)"
  by (simp add: mark_confirmed_def Let_def step_simps) code_simp

definition sample_credit :: credit_body where
  "sample_credit = \<lparr>cb_amountMicro = ''500'', cb_fromAddress = None, cb_blockNumber = None,
     cb_blockHash = None, cb_note = None\<rparr>"


section \<open>Properties\<close>

text \<open>C22: every successful payment call moves each stored withdrawal along the lifecycle
  requested, approved, submitted, confirmed, with cancellation and failure as the only other exits,
  or leaves the row exactly as it was; owner and amount never change and no row is removed.\<close>

theorem withdrawal_lifecycle:
  assumes "schema_ok s" and "run_payment env now ru call s = Inr (x, t)" and "r \<in> set (withdrawals s)"
  shows "\<exists>r' \<in> set (withdrawals t). r' = r \<or> wd_moves r r'"
  using assms(2)
proof (cases rule: withdrawals_of_payment)
  case (3 i row f)
  have "wd_id r = i \<Longrightarrow> r = row"
    by (rule select_one_unique [OF withdrawals_distinct [OF assms(1)] 3(1) assms(3)])
  then show ?thesis
    using 3 in_update_where [OF assms(3), of "\<lambda>r. wd_id r = i" f] by (auto split: if_splits)
qed (use assms(3) in auto)

theorem withdrawal_lifecycle_witness:
  "\<exists>t. run_payment sample_env 5 (Some sample_ann) (CancelWithdrawal ''w1'') sample_db = Inr ((), t)
     \<and> (\<exists>r' \<in> set (withdrawals t). r' = sample_w1 \<or> wd_moves sample_w1 r')"
proof -
  obtain t where t: "run_payment sample_env 5 (Some sample_ann) (CancelWithdrawal ''w1'') sample_db
      = Inr ((), t)"
    using sample_cancel_runs by blast
  moreover have "sample_w1 \<in> set (withdrawals sample_db)" by (simp add: sample_db_def)
  ultimately show ?thesis using withdrawal_lifecycle [OF sample_schema_ok t] by blast
qed

text \<open>No payment call lifts a bettor above the cap of open withdrawals: if every bettor has
  at most five open requests before a call, every bettor has at most five after it.\<close>

theorem pending_withdrawals_capped:
  assumes "schema_ok s" and "run_payment env now ru call s = Inr (x, t)"
    and "\<And>u. count_where (\<lambda>r. wd_userId r = u \<and> wd_open r) (withdrawals s) \<le> MAX_PENDING_WITHDRAWALS"
  shows "count_where (\<lambda>r. wd_userId r = u \<and> wd_open r) (withdrawals t) \<le> MAX_PENDING_WITHDRAWALS"
  using assms(2)
proof (cases rule: withdrawals_of_payment)
  case 1
  then show ?thesis using assms(3) by simp
next
  case (2 r)
  then show ?thesis using assms(3) [of u] by (auto simp: Suc_le_eq)
next
  case (3 i row f)
  have "wd_open r" "wd_userId (f r) = wd_userId r" if "r \<in> set (withdrawals s)" "wd_id r = i" for r
  proof -
    have "r = row"
      using that by (intro select_one_unique [OF withdrawals_distinct [OF assms(1)] 3(1)])
    then show "wd_open r" "wd_userId (f r) = wd_userId r"
      using 3(3) by (auto simp: wd_moves_def wd_open_def elim: wd_step.cases)
  qed
  then have "count_where (\<lambda>r. wd_userId r = u \<and> wd_open r) (withdrawals t) \<le>
      count_where (\<lambda>r. wd_userId r = u \<and> wd_open r) (withdrawals s)"
    unfolding 3(2) by (intro count_where_update_le) auto
  then show ?thesis using assms(3) [of u] by simp
qed

theorem pending_withdrawals_capped_witness:
  "\<exists>t. run_payment sample_env 5 (Some sample_ann) (CancelWithdrawal ''w1'') sample_db = Inr ((), t)
     \<and> count_where (\<lambda>r. wd_userId r = ''ann'' \<and> wd_open r) (withdrawals t) \<le> MAX_PENDING_WITHDRAWALS"
proof -
  obtain t where t: "run_payment sample_env 5 (Some sample_ann) (CancelWithdrawal ''w1'') sample_db
      = Inr ((), t)"
    using sample_cancel_runs by blast
  have "count_where (\<lambda>r. wd_userId r = u \<and> wd_open r) (withdrawals sample_db) \<le> MAX_PENDING_WITHDRAWALS"
    for u by (simp add: sample_db_def MAX_PENDING_WITHDRAWALS_def)
  with t show ?thesis using pending_withdrawals_capped [OF sample_schema_ok t] by blast
qed

text \<open>C36: a bettor can always cancel an own request that is still waiting: in a state whose books
  balance the handler commits (no constraint of the schema can fail), the request is cancelled and
  the wallet's lock falls by exactly its amount.\<close>

theorem cancel_always_commits:
  assumes "books_ok s" and "select_one (\<lambda>r. wd_id r = i) (withdrawals s) = Some row"
    and "wd_status row = requested" and "wd_userId row = ru_id u"
  shows "\<exists>t. cancel_withdrawal now (Some u) i s = Inr ((), t)
    \<and> select_one (\<lambda>r. wd_id r = i) (withdrawals t) = Some (row\<lparr>wd_status := cancelled\<rparr>)
    \<and> locked_of (ru_id u, USDC) (wallets t) = locked_of (ru_id u, USDC) (wallets s) - wd_amountMicro row"
proof -
  note s = books_okD [OF assms(1)]
  have mem: "row \<in> set (withdrawals s)" "wd_open row"
    using assms(2,3) by (auto simp: wd_open_def dest: select_one_SomeD)
  have wallet: "update_checks wallets_viol wallets_uniq (\<lambda>w. wallet_key w = (ru_id u, USDC))
      (lock_sub (wd_amountMicro row) now) (wallets s)"
    using open_withdrawal_le [OF s(1) mem] withdrawal_bounds(1) [OF s(1) mem(1)] assms(4)
    by (intro release_update_checks s) simp_all
  have led: "ledger_checks (adjustment_row (ru_id u) ''withdrawal_cancel'' i ''user_cancelled'') (wallet_ledger s)"
    by (rule ledger_checksI [OF s(1)]) (simp add: in_bigint_def)
  have has: "has_wallet (ru_id u, USDC) (wallets s)"
    using wd_obl.open_has_wallet(1) [OF s(1,2) mem] assms(4) by simp
  define t where "t = s\<lparr>withdrawals := update_where (\<lambda>r. wd_id r = i) (\<lambda>r. r\<lparr>wd_status := cancelled\<rparr>)
          (withdrawals s),
       wallets := update_where (\<lambda>w. wallet_key w = (ru_id u, USDC))
         (lock_sub (wd_amountMicro row) now) (wallets s),
       wallet_ledger := book_once (adjustment_row (ru_id u) ''withdrawal_cancel'' i ''user_cancelled'')
         (wallet_ledger s)\<rparr>"
  have "cancel_withdrawal now (Some u) i s = Inr ((), t)"
    using assms(2-4) wallet led wd_status_update_checks [OF s(1)]
    by (simp add: cancel_withdrawal_def step_simps t_def)
  moreover have "select_one (\<lambda>r. wd_id r = i) (withdrawals t) = Some (row\<lparr>wd_status := cancelled\<rparr>)"
    by (simp add: t_def select_one_update_key [OF assms(2)])
  moreover have "locked_of (ru_id u, USDC) (wallets t) =
      locked_of (ru_id u, USDC) (wallets s) - wd_amountMicro row"
    using releases_locked_of [OF wallets_distinct [OF s(1)] has releases_lock_sub]
    by (simp add: t_def)
  ultimately show ?thesis by blast
qed

theorem cancel_always_commits_witness:
  "\<exists>t. cancel_withdrawal 5 (Some sample_ann) ''w1'' sample_db = Inr ((), t)
    \<and> select_one (\<lambda>r. wd_id r = ''w1'') (withdrawals t) = Some (sample_w1\<lparr>wd_status := cancelled\<rparr>)
    \<and> locked_of (''ann'', USDC) (wallets t) = 275"
proof -
  have "locked_of (''ann'', USDC) (wallets sample_db) = 375" and "wd_amountMicro sample_w1 = 100"
    by code_simp+
  then show ?thesis
    using cancel_always_commits [OF sample_books_ok sample_select(1), of sample_ann 5] by simp
qed

text \<open>C16: confirming a withdrawal takes two operators and moves exactly the stated amounts: the
  confirmer is on the balance-edit list and did not approve it, the row was submitted, and the commit
  debits amount plus fee from the balance, releases the lock of the amount, books one ledger row of
  minus amount plus fee and lowers the bank by the amount alone.\<close>

theorem mark_confirmed_debits:
  assumes ok: "books_ok s" and step: "mark_confirmed now ip (Some u) i h s = Inr (x, t)"
  shows "\<exists>row. select_one (\<lambda>r. wd_id r = i) (withdrawals s) = Some row \<and> wd_status row = submitted
    \<and> ru_role u = admin_r \<and> wd_approvedByUserId row \<noteq> Some (ru_id u)
    \<and> (let k = (wd_userId row, USDC); debit = wd_amountMicro row + wd_feeMicro row in
        balance_of k (wallets t) = balance_of k (wallets s) - debit
      \<and> locked_of k (wallets t) = locked_of k (wallets s) - wd_amountMicro row
      \<and> ledger_of k (wallet_ledger t) = ledger_of k (wallet_ledger s) - debit
      \<and> bankLimitMicro (bank_state t) = bankLimitMicro (bank_state s) - wd_amountMicro row)
    \<and> (\<exists>row'. select_one (\<lambda>r. wd_id r = i) (withdrawals t) = Some row'
        \<and> wd_status row' = confirmed \<and> wd_confirmedByUserId row' = Some (ru_id u))"
  using step
proof (rule mark_confirmed_effect)
  fix u' row w a b
  assume u: "Some u = Some u'" "ru_role u' = admin_r" "wd_approvedByUserId row \<noteq> Some (ru_id u')"
    and row: "select_one (\<lambda>r. wd_id r = i) (withdrawals s) = Some row" "wd_status row = submitted"
    and w: "select_one (\<lambda>w. wallet_key w = (wd_userId row, USDC)) (wallets s) = Some w"
    and t: "t = s\<lparr>wallets := update_where (\<lambda>w. wallet_key w = (wd_userId row, USDC))
         (debit_wallet (wd_amountMicro row) (wd_amountMicro row + wd_feeMicro row) now) (wallets s),
       wallet_ledger := book_once (withdrawal_ledger_row row (to_lower h)) (wallet_ledger s),
       bank_ledger := bank_book_once b (bank_ledger s),
       bank_state := (bank_state s)\<lparr>bankLimitMicro := bankLimitMicro (bank_state s) - wd_amountMicro row,
         bank_updatedAt := now\<rparr>,
       withdrawals := update_where (\<lambda>r. wd_id r = i)
         (\<lambda>r. r\<lparr>wd_status := confirmed, wd_confirmedAt := Some now, wd_txHash := Some (to_lower h),
           wd_confirmedByUserId := Some (ru_id u')\<rparr>) (withdrawals s),
       admin_audit_log := admin_audit_log s @ [a]\<rparr>"
  have has: "has_wallet (wd_userId row, USDC) (wallets s)" using w by (simp add: has_wallet_iff)
  have "locked_of (wd_userId row, USDC) (wallets t) =
      locked_of (wd_userId row, USDC) (wallets s) - wd_amountMicro row"
    using has by (simp add: t locked_of_update [where d = "- wd_amountMicro row"]
        wallets_distinct [OF books_okD(1) [OF ok]])
  moreover have "select_one (\<lambda>r. wd_id r = i) (withdrawals t) = Some (row\<lparr>wd_status := confirmed,
      wd_confirmedAt := Some now, wd_txHash := Some (to_lower h), wd_confirmedByUserId := Some (ru_id u')\<rparr>)"
    by (simp add: t select_one_update_key [OF row(1)])
  ultimately show ?thesis
    using u row balance_debit [OF books_okD(1) [OF ok] has] confirm_books_once [OF ok row]
    by (simp add: Let_def t ledger_of_book_once withdrawal_ledger_row_def)
qed

theorem mark_confirmed_debits_witness:
  "\<exists>t. mark_confirmed 5 None (Some sample_op) ''w2'' sample_hash sample_db = Inr ((), t)
    \<and> balance_of (''ann'', USDC) (wallets t) = 790 \<and> locked_of (''ann'', USDC) (wallets t) = 175
    \<and> bankLimitMicro (bank_state t) = 99800"
proof -
  obtain t where t: "mark_confirmed 5 None (Some sample_op) ''w2'' sample_hash sample_db = Inr ((), t)"
    using sample_confirm_runs by blast
  have "balance_of (''ann'', USDC) (wallets sample_db) = 1000"
    "locked_of (''ann'', USDC) (wallets sample_db) = 375" "wd_amountMicro sample_w2 = 200"
    "wd_feeMicro sample_w2 = 10" "bankLimitMicro (bank_state sample_db) = 100000"
    by code_simp+
  with t show ?thesis using mark_confirmed_debits [OF sample_books_ok t] by (auto simp: Let_def)
qed

text \<open>An approved fee above the bettor's free balance makes the confirmation impossible: the
  guard of the handler compares the debit with the whole balance, the schema with the locked part,
  so the wallet update violates the check that the balance covers the lock and the request ends in
  an internal error instead of the intended insufficient-balance answer.\<close>

theorem confirm_fee_violates_check:
  assumes ok: "books_ok s" and admin: "requireBalanceEditAdmin (Some u) s = Inr (a, s)"
    and row: "select_one (\<lambda>r. wd_id r = i) (withdrawals s) = Some row" "wd_status row = submitted"
      "wd_approvedByUserId row \<noteq> Some a"
    and hash: "is_0x_hex 64 h"
    and w: "select_one (\<lambda>w. wallet_key w = (wd_userId row, USDC)) (wallets s) = Some w"
    and guard: "wd_amountMicro row + wd_feeMicro row \<le> w_balanceMicro w"
    and fee: "w_balanceMicro w - w_lockedMicro w < wd_feeMicro row"
  shows "mark_confirmed now ip (Some u) i h s = Inl (check_violation ''wallets_balance_ge_locked'')"
proof -
  note s = books_okD [OF ok]
  let ?f = "debit_wallet (wd_amountMicro row) (wd_amountMicro row + wd_feeMicro row) now"
  let ?P = "\<lambda>w. wallet_key w = (wd_userId row, USDC)"
  have mem: "row \<in> set (withdrawals s)" "w \<in> set (wallets s)" "wallet_key w = (wd_userId row, USDC)"
    using row(1) w by (auto dest: select_one_SomeD)
  have "wd_amountMicro row \<le> w_lockedMicro w"
    using wd_obl.open_has_wallet(2) [OF s(1,2) mem(1)] row(2)
      locked_of_wallet [OF wallets_distinct [OF s(1)] mem(2)] mem(3) by (simp add: wd_open_def)
  then have viol: "wallets_viol (?f w) = Some (check_violation ''wallets_balance_ge_locked'')"
    using wallet_bounds [OF s(1) mem(2)] guard fee withdrawal_bounds [OF s(1) mem(1)]
    by (simp add: wallets_viol_def in_bigint_def check_def bigint_col_def debit_wallet_def)
  have "filter ?P (wallets s) = [w]"
    by (rule filter_key_single [OF wallets_distinct [OF s(1)] mem(2,3)])
  then have upd: "update_wallets ?P ?f s = Inl (check_violation ''wallets_balance_ge_locked'')"
    by (simp add: update_wallets_def store_def update_rows_def viol)
  have passes: "(w_balanceMicro w < wd_amountMicro row + wd_feeMicro row) = False" using guard by simp
  show ?thesis
    using hash unfolding mark_confirmed_def Let_def
    by (simp add: run_defs admin row w select_withdrawal_def validateTxHash_def str_between_def
        is_0x_hex_def passes upd [unfolded debit_wallet_def])
qed

definition sample_fee_db :: db where
  "sample_fee_db = sample_db\<lparr>withdrawals := [sample_w1, sample_w2\<lparr>wd_feeMicro := 700\<rparr>]\<rparr>"

lemma sample_fee_books_ok: "books_ok sample_fee_db"
proof (rule books_okI)
  show "schema_ok sample_fee_db" "liability_ok sample_fee_db" by code_simp+
  show "locks_ok sample_fee_db"
  proof (rule locks_okI)
    fix k
    show "locked_of k (wallets sample_fee_db) = obligations k sample_fee_db"
      using locks_okD [OF sample_locks_ok, of k]
      by (simp add: sample_fee_db_def obligations_def sample_db_def open_withdrawals_def wd_open_def)
  qed
  show "refs_ok sample_fee_db"
    by (rule refs_ok_frame [OF sample_refs_ok])
       (auto simp: sample_fee_db_def entities_le_def sample_db_def ids_where_def sample_w1_def sample_w2_def)
qed

theorem confirm_fee_violates_check_witness:
  "mark_confirmed 5 None (Some sample_op) ''w2'' sample_hash sample_fee_db =
     Inl (check_violation ''wallets_balance_ge_locked'')"
proof (rule confirm_fee_violates_check [OF sample_fee_books_ok,
      where row = "sample_w2\<lparr>wd_feeMicro := 700\<rparr>" and w = sample_wallet and a = "''op''"])
  show "requireBalanceEditAdmin (Some sample_op) sample_fee_db = Inr (''op'', sample_fee_db)"
    by (simp add: requireBalanceEditAdmin_Inr sample_fee_db_def) code_simp
qed code_simp+



text \<open>C31: the ledger follows the wallets: no payment call changes the difference between a bettor's
  ledger sum and the balance net of open stakes, provided the wallet a manual credit names exists.\<close>

theorem payments_keep_ledger_in_step:
  assumes ok: "books_ok s" and step: "run_payment env now ru call s = Inr (x, t)"
    and wallet: "\<And>i b row. call = CreditManual i b \<Longrightarrow>
      select_one (\<lambda>r. di_id r = i) (deposit_intents s) = Some row \<Longrightarrow> has_wallet (di_userId row, USDC) (wallets s)"
  shows "ledger_drift k t = ledger_drift k s"
proof (cases call)
  case (CreditManual i b)
  from step CreditManual obtain row where row: "select_one (\<lambda>r. di_id r = i) (deposit_intents s) = Some row"
    by (auto elim: credit_manual_effect)
  with CreditManual step wallet [OF CreditManual row] show ?thesis
    using drift_credit [OF ok _ row] by auto
next
  case (MarkConfirmed i h)
  with step show ?thesis by (auto intro: drift_confirm [OF ok])
next
  case (VoidTicket i r)
  with step show ?thesis by (auto simp: doneT_Inr intro: drift_void [OF ok])
next
  case (RequestWithdrawal i b)
  with step books_okD(1) [OF ok] show ?thesis
    by (auto simp: doneT_Inr ledger_drift_def elim!: request_withdrawal_effect)
next
  case (CancelWithdrawal i)
  with step books_okD(1) [OF ok] show ?thesis
    by (auto simp: ledger_drift_def elim!: cancel_withdrawal_effect)
next
  case (ApproveWithdrawal i b)
  with step show ?thesis by (auto simp: ledger_drift_def elim!: approve_withdrawal_effect)
next
  case (RejectWithdrawal i r)
  with step books_okD(1) [OF ok] show ?thesis
    by (auto simp: ledger_drift_def elim!: reject_withdrawal_effect)
next
  case (MarkSubmitted i h)
  with step show ?thesis by (auto simp: ledger_drift_def elim!: mark_submitted_effect)
next
  case (MarkFailed i b)
  with step books_okD(1) [OF ok] show ?thesis
    by (auto simp: ledger_drift_def elim!: mark_failed_effect)
next
  case (RejectDeposit i r)
  with step show ?thesis by (auto simp: ledger_drift_def elim!: reject_deposit_effect)
qed (use step in \<open>auto simp: step_simps ledger_drift_def unlink_address_def acknowledge_deposit_def
  acknowledge_unattributed_def link_address_def Let_def\<close>)

theorem payments_keep_ledger_in_step_witness:
  "\<exists>t. run_payment sample_env 5 (Some sample_ann) (CancelWithdrawal ''w1'') sample_db = Inr ((), t)
     \<and> ledger_drift (''ann'', USDC) t = 0"
proof -
  obtain t where t: "run_payment sample_env 5 (Some sample_ann) (CancelWithdrawal ''w1'') sample_db
      = Inr ((), t)"
    using sample_cancel_runs by blast
  have "ledger_drift (''ann'', USDC) sample_db = 0" by code_simp
  with t show ?thesis using payments_keep_ledger_in_step [OF sample_books_ok t, of "(''ann'', USDC)"] by simp
qed

text \<open>A manual credit for a bettor who has no USDC wallet row commits all the same: the intent
  becomes credited and the ledger and the bank grow, but no balance does, so the ledger drifts from
  the wallet by the whole amount.\<close>

theorem credit_without_wallet_drifts:
  assumes ok: "books_ok s" and step: "credit_manual now ip ru i body s = Inr (x, t)"
    and row: "select_one (\<lambda>r. di_id r = i) (deposit_intents s) = Some row"
    and none: "\<not> has_wallet (di_userId row, USDC) (wallets s)"
  shows "wallets t = wallets s \<and> ledger_drift (di_userId row, USDC) t =
      ledger_drift (di_userId row, USDC) s + big_int (cb_amountMicro body)"
proof -
  have "wallets t = update_where (\<lambda>w. wallet_key w = (di_userId row, USDC))
      (credit_wallet (big_int (cb_amountMicro body)) now) (wallets s)"
    using step row by (auto elim!: credit_manual_effect)
  then have "wallets t = wallets s" using none by (simp add: update_where_none has_wallet_def)
  then show ?thesis using drift_credit [OF ok step row] none by simp
qed

definition sample_no_wallet_db :: db where
  "sample_no_wallet_db = sample_db\<lparr>deposit_intents := [sample_intent ''d1'' ''0x1'' di_credited,
     (sample_intent ''d2'' ''0x2'' di_pending)\<lparr>di_userId := ''bob''\<rparr>]\<rparr>"

lemma sample_no_wallet_books_ok: "books_ok sample_no_wallet_db"
proof (rule books_okI)
  show "schema_ok sample_no_wallet_db" "liability_ok sample_no_wallet_db" by code_simp+
  show "locks_ok sample_no_wallet_db"
    by (rule locks_ok_frame [OF sample_locks_ok]) (simp_all add: sample_no_wallet_db_def)
  show "refs_ok sample_no_wallet_db"
    by (rule refs_ok_frame [OF sample_refs_ok])
       (auto simp: sample_no_wallet_db_def entities_le_def sample_db_def ids_where_def sample_intent_def)
qed

theorem credit_without_wallet_drifts_witness:
  "\<exists>t. credit_manual 5 None (Some sample_op) ''d2'' sample_credit sample_no_wallet_db = Inr ((), t)
    \<and> wallets t = wallets sample_no_wallet_db \<and> ledger_drift (''bob'', USDC) t = 500"
proof -
  let ?row = "(sample_intent ''d2'' ''0x2'' di_pending)\<lparr>di_userId := ''bob''\<rparr>"
  have row: "select_one (\<lambda>r. di_id r = ''d2'') (deposit_intents sample_no_wallet_db) = Some ?row"
    and op: "select_one (\<lambda>r. u_id r = ''op'') (users sample_no_wallet_db) =
      Some (sample_user ''op'' ''q1qooo@gmail.com'' admin_r)"
    and vals: "\<not> has_wallet (di_userId ?row, USDC) (wallets sample_no_wallet_db)"
      "ledger_drift (''bob'', USDC) sample_no_wallet_db = 0" "big_int (cb_amountMicro sample_credit) = 500"
    by code_simp+
  have "\<exists>t. credit_manual 5 None (Some sample_op) ''d2'' sample_credit sample_no_wallet_db = Inr ((), t)"
    using row op by (simp add: credit_manual_def Let_def step_simps sample_intent_def) code_simp
  then obtain t where t: "credit_manual 5 None (Some sample_op) ''d2'' sample_credit sample_no_wallet_db
      = Inr ((), t)" by blast
  have "wallets t = wallets sample_no_wallet_db \<and>
      ledger_drift (di_userId ?row, USDC) t = ledger_drift (di_userId ?row, USDC) sample_no_wallet_db + 500"
    using credit_without_wallet_drifts [OF sample_no_wallet_books_ok t row vals(1)] vals(3) by simp
  with t vals(2) show ?thesis by simp
qed

text \<open>A sending address is linked only with a proof of control: the stored address belongs to
  the authenticated bettor, is the one the recovered signer of the challenge for exactly this bettor,
  address and time has, the challenge is at most ten minutes old (and at most a minute ahead), the
  address is neither the operator's own nor a listed exchange wallet, and no other account holds it.\<close>

theorem linked_address_is_proved:
  assumes "link_address getAddress verifyMessage receiveAddress now newId ru body s = Inr (row, t)"
    and "schema_ok s"
  shows "\<exists>u checksummed recovered. ru = Some u \<and> a_userId row = ru_id u
    \<and> getAddress (lb_address body) = Some checksummed \<and> a_address row = to_lower checksummed
    \<and> verifyMessage (depositVerificationMessage (ru_id u) checksummed (lb_issuedAt body))
        (lb_signature body) = Some recovered
    \<and> to_lower recovered = a_address row
    \<and> now div 1000 - 600 \<le> lb_issuedAt body \<and> lb_issuedAt body \<le> now div 1000 + 60
    \<and> a_address row \<notin> set CEX_HOTWALLET_BLOCKLIST
    \<and> (\<forall>own. receiveAddress = Some own \<and> own \<noteq> [] \<longrightarrow> a_address row \<noteq> to_lower own)
    \<and> user_wallet_addresses t = user_wallet_addresses s @ [row]
    \<and> (\<forall>other \<in> set (user_wallet_addresses s). a_network other = ERC20 \<longrightarrow> a_address other \<noteq> a_address row)"
  using assms
  by (auto simp: link_address_def Let_def step_simps CHALLENGE_SKEW_SECONDS_def CHALLENGE_TTL_SECONDS_def
      insert_checks_def addresses_uniq_def image_iff) metis

definition sample_link :: linked_wallet_body where
  "sample_link = \<lparr>lb_address = ''0x'' @ replicate 40 (CHR ''a''), lb_label = None,
     lb_signature = ''0x'' @ replicate 130 (CHR ''a''), lb_issuedAt = 100\<rparr>"

theorem linked_address_is_proved_witness:
  "\<exists>row t. link_address Some (\<lambda>m g. Some (take 42 g)) None 100000 ''a1'' (Some sample_ann) sample_link
      sample_db = Inr (row, t) \<and> user_wallet_addresses t = [row] \<and> a_userId row = ''ann''"
proof -
  have "\<exists>row t. link_address Some (\<lambda>m g. Some (take 42 g)) None 100000 ''a1'' (Some sample_ann) sample_link
      sample_db = Inr (row, t)"
    by (simp add: link_address_def Let_def step_simps) code_simp
  then obtain row t where t: "link_address Some (\<lambda>m g. Some (take 42 g)) None 100000 ''a1''
      (Some sample_ann) sample_link sample_db = Inr (row, t)" by blast
  have "user_wallet_addresses sample_db = []" by (simp add: sample_db_def)
  with t show ?thesis using linked_address_is_proved [OF t sample_schema_ok] by auto
qed

end
