(* ===== verification/Js_Number.thy ===== *)
theory Js_Number
  imports Prelude "HOL-Library.Log_Nat" Complex_Main
begin

text \<open>
  JavaScript numbers.  A finite number is the rational it denotes (the two
  zeros are identified), next to the infinities and NaN.  An arithmetic
  operation is the exact one followed by \<open>rnd64\<close>, round-to-nearest-even to
  IEEE-754 binary64.  What the development uses of the rounding is the
  interface \<open>fp_rounding\<close>; \<open>rnd64\<close> is proved to implement it.
\<close>

section \<open>Rounding to binary64\<close>

definition pow2 :: "int \<Rightarrow> rat" where
  "pow2 e = (if 0 \<le> e then 2 ^ nat e else 1 / 2 ^ nat (- e))"

text \<open>The largest \<open>e\<close> with \<open>2\<^sup>e \<le> p / q\<close>, for positive \<open>p\<close> and \<open>q\<close>.\<close>

definition exponent :: "rat \<Rightarrow> int" where
  "exponent x = (let (p, q) = quotient_of x; e = bitlen p - bitlen q in
     if pow2 e \<le> x then e else e - 1)"

definition round_half_even :: "rat \<Rightarrow> int" where
  "round_half_even x = (let f = \<lfloor>x\<rfloor>; r = x - of_int f in
     if r < 1 / 2 then f else if r > 1 / 2 then f + 1 else if even f then f else f + 1)"

text \<open>The spacing of binary64 numbers around \<open>x > 0\<close>: 53 significant bits, down to \<open>2\<^sup>-\<^sup>1\<^sup>0\<^sup>7\<^sup>4\<close>.\<close>

definition ulp :: "rat \<Rightarrow> rat" where
  "ulp x = pow2 (max (exponent x) (- 1022) - 52)"

definition rnd_pos :: "rat \<Rightarrow> rat" where
  "rnd_pos x = of_int (round_half_even (x / ulp x)) * ulp x"

definition rnd64 :: "rat \<Rightarrow> rat" where
  "rnd64 x = (if x = 0 then 0 else if 0 < x then rnd_pos x else - rnd_pos (- x))"

section \<open>Powers of two and exponents\<close>

text \<open>
  For evaluation: the spacings of ordinary prices from a table, any other power as one integer power instead of
  repeated rational products, and the spacing computed once.
\<close>

lemma pow2_code [code]:
  "pow2 e =
    (if e = - 52 then 1 / 4503599627370496 else if e = - 51 then 1 / 2251799813685248 else if e = - 50 then 1 / 1125899906842624 else
     if e = - 49 then 1 / 562949953421312 else if e = - 48 then 1 / 281474976710656 else if e = - 47 then 1 / 140737488355328 else
     if e = - 46 then 1 / 70368744177664 else if e = - 53 then 1 / 9007199254740992 else if e = - 54 then 1 / 18014398509481984 else
     if e = - 55 then 1 / 36028797018963968 else if e = - 56 then 1 / 72057594037927936 else if e = - 57 then 1 / 144115188075855872 else
     if e = - 58 then 1 / 288230376151711744 else if e = - 45 then 1 / 35184372088832 else if e = - 44 then 1 / 17592186044416 else
     if 0 \<le> e then of_int (2 ^ nat e) else Fract 1 (2 ^ nat (- e)))"
  by (simp add: pow2_def Fract_of_int_quotient)

lemma rnd_pos_code [code]: "rnd_pos x = (let u = ulp x in of_int (round_half_even (x / u)) * u)"
  by (simp add: rnd_pos_def Let_def)

lemma pow2_pos [simp]: "0 < pow2 e"
  by (simp add: pow2_def)

lemma pow2_nonzero [simp]: "pow2 e \<noteq> 0"
  using pow2_pos [of e] by linarith

lemma pow2_powi: "pow2 e = 2 powi e"
  by (simp add: pow2_def power_int_def field_simps)

lemma pow2_add: "pow2 (a + b) = pow2 a * pow2 b"
  by (simp add: pow2_powi power_int_add)

lemma pow2_0 [simp]: "pow2 0 = 1"
  by (simp add: pow2_def)

lemma pow2_nat: "pow2 (int n) = 2 ^ n"
  by (simp add: pow2_def)

lemma pow2_mono: "a \<le> b \<Longrightarrow> pow2 a \<le> pow2 b"
  unfolding pow2_powi by (rule power_int_increasing) auto

lemma pow2_Suc: "pow2 (e + 1) = 2 * pow2 e"
  by (simp add: pow2_add pow2_def [of 1])

lemma pow2_less_iff: "pow2 a < pow2 b \<longleftrightarrow> a < b"
proof (cases "a < b")
  case True
  then have "2 * pow2 a \<le> pow2 b" using pow2_mono [of "a + 1" b] by (simp add: pow2_Suc)
  moreover have "0 < pow2 a" by simp
  ultimately have "pow2 a < pow2 b" by linarith
  with True show ?thesis by simp
next
  case False
  then show ?thesis using pow2_mono [of b a] by (simp add: not_less)
qed

lemma bitlen_pow2:
  assumes "0 < p"
  shows "pow2 (bitlen p - 1) \<le> of_int p" and "of_int p < pow2 (bitlen p)"
proof -
  have pos: "0 < bitlen p" using assms by (simp add: bitlen_eq_zero_iff bitlen_nonneg order.strict_iff_order)
  have b: "2 ^ nat (bitlen p - 1) \<le> p" "p < 2 ^ nat (bitlen p)"
    using bitlen_bounds [OF assms] by auto
  have "pow2 (bitlen p - 1) = of_int (2 ^ nat (bitlen p - 1))" using pos by (simp add: pow2_def)
  also have "\<dots> \<le> of_int p" using b(1) by (simp only: of_int_le_iff)
  finally show "pow2 (bitlen p - 1) \<le> of_int p" .
  have "of_int p < (of_int (2 ^ nat (bitlen p)) :: rat)" using b(2) by (simp only: of_int_less_iff)
  also have "\<dots> = pow2 (bitlen p)" using pos by (simp add: pow2_def)
  finally show "of_int p < pow2 (bitlen p)" .
qed

lemma exponent_bounds:
  assumes "0 < x"
  shows "pow2 (exponent x) \<le> x" and "x < pow2 (exponent x + 1)"
proof -
  obtain p q where pq: "quotient_of x = (p, q)" by (cases "quotient_of x")
  have q: "0 < q" using quotient_of_denom_pos [OF pq] .
  have x: "x = of_int p / of_int q" by (rule quotient_of_div [OF pq])
  have p: "0 < p" using assms q by (simp add: x zero_less_divide_iff)
  let ?e = "bitlen p - bitlen q"
  have "x < pow2 (bitlen p) / pow2 (bitlen q - 1)"
    unfolding x using bitlen_pow2 [OF p] bitlen_pow2 [OF q] q p
    by (intro frac_less) auto
  also have "\<dots> = pow2 (?e + 1)"
  proof -
    have "pow2 (?e + 1) * pow2 (bitlen q - 1) = pow2 (bitlen p)" by (simp flip: pow2_add)
    then show ?thesis by (simp add: field_simps)
  qed
  finally have up: "x < pow2 (?e + 1)" .
  have "pow2 (bitlen p - 1) / pow2 (bitlen q) < x"
    unfolding x using bitlen_pow2 [OF p] bitlen_pow2 [OF q] q p
    by (intro frac_less2) auto
  moreover have "pow2 (bitlen p - 1) / pow2 (bitlen q) = pow2 (?e - 1)"
  proof -
    have "pow2 (?e - 1) * pow2 (bitlen q) = pow2 (bitlen p - 1)" by (simp flip: pow2_add)
    then show ?thesis by (simp add: field_simps)
  qed
  ultimately have lo: "pow2 (?e - 1) < x" by simp
  show "pow2 (exponent x) \<le> x" "x < pow2 (exponent x + 1)"
    using up lo by (auto simp: exponent_def pq Let_def)
qed

lemma exponent_unique:
  assumes "pow2 e \<le> x" and "x < pow2 (e + 1)"
  shows "exponent x = e"
proof -
  have "0 < x" using assms(1) pow2_pos [of e] by linarith
  from exponent_bounds [OF this] assms
  have "pow2 e < pow2 (exponent x + 1)" "pow2 (exponent x) < pow2 (e + 1)" by linarith+
  then show ?thesis by (simp add: pow2_less_iff)
qed

lemma exponent_mono: "0 < x \<Longrightarrow> x \<le> y \<Longrightarrow> exponent x \<le> exponent y"
proof -
  assume "0 < x" "x \<le> y"
  with exponent_bounds [of x] exponent_bounds [of y]
  have "pow2 (exponent x) < pow2 (exponent y + 1)" by linarith
  then show ?thesis by (simp add: pow2_less_iff)
qed

section \<open>Rounding to an integer\<close>

lemma round_half_even_of_int [simp]: "round_half_even (of_int n) = n"
  by (simp add: round_half_even_def)

lemma round_half_even_near: "\<bar>of_int (round_half_even x) - x\<bar> \<le> 1 / 2"
proof -
  have "of_int \<lfloor>x\<rfloor> \<le> x" "x < of_int \<lfloor>x\<rfloor> + 1" by linarith+
  then show ?thesis by (auto simp: round_half_even_def Let_def)
qed

lemma round_half_even_mono:
  assumes "x \<le> y"
  shows "round_half_even x \<le> round_half_even y"
proof (cases "\<lfloor>x\<rfloor> = \<lfloor>y\<rfloor>")
  case True
  then show ?thesis using assms by (auto simp: round_half_even_def Let_def)
next
  case False
  then have "\<lfloor>x\<rfloor> + 1 \<le> \<lfloor>y\<rfloor>" using floor_mono [OF assms] by simp
  moreover have "round_half_even x \<le> \<lfloor>x\<rfloor> + 1" "\<lfloor>y\<rfloor> \<le> round_half_even y"
    by (auto simp: round_half_even_def Let_def)
  ultimately show ?thesis by simp
qed

section \<open>The rounding interface\<close>

text \<open>
  What arithmetic on doubles promises: rounding is monotone and odd, exact on
  the integers up to \<open>2\<^sup>5\<^sup>3\<close>, keeps a value within one part in \<open>2\<^sup>5\<^sup>3\<close> when it is
  not tiny, and rounding twice is rounding once.
\<close>

locale fp_rounding =
  fixes rnd :: "rat \<Rightarrow> rat"
  assumes rnd_mono: "x \<le> y \<Longrightarrow> rnd x \<le> rnd y"
    and rnd_minus: "rnd (- x) = - rnd x"
    and rnd_int: "\<bar>n\<bar> \<le> 2 ^ 53 \<Longrightarrow> rnd (of_int n) = of_int n"
    and rnd_error: "pow2 (- 1022) \<le> \<bar>x\<bar> \<Longrightarrow> \<bar>rnd x - x\<bar> \<le> \<bar>x\<bar> / 2 ^ 53"
    and rnd_idem: "rnd (rnd x) = rnd x"
begin

lemma rnd_0: "rnd 0 = 0"
  using rnd_int [of 0] by simp

lemma rnd_nonneg: "0 \<le> x \<Longrightarrow> 0 \<le> rnd x"
  using rnd_mono [of 0 x] by (simp add: rnd_0)

lemma rnd_le_int: "x \<le> of_int n \<Longrightarrow> \<bar>n\<bar> \<le> 2 ^ 53 \<Longrightarrow> rnd x \<le> of_int n"
  using rnd_mono [of x "of_int n"] rnd_int [of n] by simp

lemma rnd_ge_int: "of_int n \<le> x \<Longrightarrow> \<bar>n\<bar> \<le> 2 ^ 53 \<Longrightarrow> of_int n \<le> rnd x"
  using rnd_mono [of "of_int n" x] rnd_int [of n] by simp

text \<open>Scaling a rounded quotient back: \<open>rnd (rnd (a / b) * b)\<close> is within a fraction of \<open>a\<close>.\<close>

lemma rnd_scale_back:
  assumes a: "0 < a" "a \<le> 2 ^ 50" and b: "1 \<le> b" and q: "pow2 (- 1000) \<le> q" "q * b = a"
  shows "\<bar>rnd (rnd q * b) - a\<bar> < 1 / 2"
proof -
  have tiny: "pow2 (- 1022) \<le> pow2 (- 1000)" by (rule pow2_mono) simp
  have qpos: "0 < q" using q(1) pow2_pos [of "- 1000"] by linarith
  have "\<bar>rnd q - q\<bar> \<le> q / 2 ^ 53" using rnd_error [of q] qpos q(1) tiny by simp
  then have r: "q - q / 2 ^ 53 \<le> rnd q" "rnd q \<le> q + q / 2 ^ 53" by linarith+
  define m where "m = rnd q * b"
  have scale: "(q - q / 2 ^ 53) * b = a - a / 2 ^ 53" "(q + q / 2 ^ 53) * b = a + a / 2 ^ 53"
    using q(2) by (simp_all add: algebra_simps)
  have m: "a - a / 2 ^ 53 \<le> m" "m \<le> a + a / 2 ^ 53"
    using mult_right_mono [OF r(1), of b] mult_right_mono [OF r(2), of b] b
    by (simp_all only: scale m_def)
  have "q * 1 \<le> q * b" using qpos b by (intro mult_left_mono) auto
  then have "pow2 (- 1000) \<le> a" using q by simp
  moreover have "2 * pow2 (- 1022) \<le> pow2 (- 1000)"
    using pow2_mono [of "- 1021" "- 1000"] pow2_Suc [of "- 1022"] by simp
  moreover have small: "a / 2 ^ 53 \<le> a / 2" "a / 2 ^ 53 \<le> 1 / 8" using a by simp_all
  ultimately have "pow2 (- 1022) \<le> m" using m(1) by linarith
  then have "\<bar>rnd m - m\<bar> \<le> m / 2 ^ 53"
    using rnd_error [of m] pow2_pos [of "- 1022"] by simp
  moreover have "m / 2 ^ 53 \<le> (2 * a) / 2 ^ 53"
  proof (rule divide_right_mono)
    show "m \<le> 2 * a" using m(2) small(1) a(1) by linarith
  qed simp
  then have "m / 2 ^ 53 \<le> 2 * (a / 2 ^ 53)" by simp
  ultimately show ?thesis using m small(2) unfolding m_def [symmetric] by linarith
qed

end

section \<open>\<open>rnd64\<close> implements the interface\<close>

lemma ulp_pos [simp]: "0 < ulp x"
  by (simp add: ulp_def)

lemma rnd_pos_nonneg: "0 < x \<Longrightarrow> 0 \<le> rnd_pos x"
  using round_half_even_mono [of 0 "x / ulp x"] round_half_even_of_int [of 0]
  by (simp add: rnd_pos_def less_imp_le)

text \<open>In a normal binade the rounded value stays between the powers of two around it.\<close>

lemma rnd_pos_binade:
  assumes "0 < x"
  shows "rnd_pos x \<le> pow2 (max (exponent x) (- 1022) + 1)"
    and "- 1022 \<le> exponent x \<Longrightarrow> pow2 (exponent x) \<le> rnd_pos x"
proof -
  let ?e = "max (exponent x) (- 1022)"
  have u: "ulp x = pow2 (?e - 52)" by (simp add: ulp_def)
  have top: "pow2 (?e + 1) = of_int (2 ^ 53) * ulp x"
    using pow2_add [of 53 "?e - 52"] pow2_nat [of 53] by (simp add: u add.commute)
  have "x < pow2 (exponent x + 1)" by (rule exponent_bounds [OF assms])
  also have "\<dots> \<le> pow2 (?e + 1)" by (rule pow2_mono) simp
  finally have "x / ulp x \<le> of_int (2 ^ 53)" unfolding top by (simp add: divide_le_eq less_imp_le)
  then have "round_half_even (x / ulp x) \<le> 2 ^ 53"
    using round_half_even_mono [of "x / ulp x" "of_int (2 ^ 53)"] by (simp only: round_half_even_of_int)
  then have "of_int (round_half_even (x / ulp x)) \<le> (of_int (2 ^ 53) :: rat)" by (simp only: of_int_le_iff)
  then show "rnd_pos x \<le> pow2 (?e + 1)"
    unfolding rnd_pos_def top by (rule mult_right_mono) (simp add: less_imp_le)
  assume normal: "- 1022 \<le> exponent x"
  have bot: "pow2 (exponent x) = of_int (2 ^ 52) * ulp x"
    using pow2_add [of 52 "exponent x - 52"] pow2_nat [of 52] normal by (simp add: u max_def)
  have "of_int (2 ^ 52) \<le> x / ulp x"
    using exponent_bounds(1) [OF assms] unfolding bot by (simp add: le_divide_eq)
  then have "2 ^ 52 \<le> round_half_even (x / ulp x)"
    using round_half_even_mono [of "of_int (2 ^ 52)" "x / ulp x"] by (simp only: round_half_even_of_int)
  then have "(of_int (2 ^ 52) :: rat) \<le> of_int (round_half_even (x / ulp x))" by (simp only: of_int_le_iff)
  then show "pow2 (exponent x) \<le> rnd_pos x"
    unfolding rnd_pos_def bot by (rule mult_right_mono) (simp add: less_imp_le)
qed

lemma rnd_pos_mono:
  assumes "0 < x" and "x \<le> y"
  shows "rnd_pos x \<le> rnd_pos y"
proof (cases "max (exponent x) (- 1022) = max (exponent y) (- 1022)")
  case True
  then have u: "ulp x = ulp y" by (simp add: ulp_def)
  have "x / ulp y \<le> y / ulp y" using assms(2) by (simp add: divide_right_mono less_imp_le)
  then have "round_half_even (x / ulp y) \<le> round_half_even (y / ulp y)" by (rule round_half_even_mono)
  then show ?thesis unfolding rnd_pos_def u by (intro mult_right_mono) (simp_all add: less_imp_le)
next
  case False
  then have e: "max (exponent x) (- 1022) + 1 \<le> exponent y" "- 1022 \<le> exponent y"
    using exponent_mono [OF assms] by auto
  have "rnd_pos x \<le> pow2 (max (exponent x) (- 1022) + 1)" by (rule rnd_pos_binade [OF assms(1)])
  also have "\<dots> \<le> pow2 (exponent y)" by (rule pow2_mono [OF e(1)])
  also have "\<dots> \<le> rnd_pos y" using assms e(2) by (intro rnd_pos_binade(2)) linarith+
  finally show ?thesis .
qed

lemma rnd_pos_error:
  assumes "0 < x"
  shows "\<bar>rnd_pos x - x\<bar> \<le> ulp x / 2"
proof -
  have "\<bar>of_int (round_half_even (x / ulp x)) - x / ulp x\<bar> * ulp x \<le> 1 / 2 * ulp x"
    by (intro mult_right_mono round_half_even_near) (simp add: less_imp_le)
  moreover have "\<bar>of_int (round_half_even (x / ulp x)) - x / ulp x\<bar> * ulp x = \<bar>rnd_pos x - x\<bar>"
  proof -
    have "\<bar>of_int (round_half_even (x / ulp x)) - x / ulp x\<bar> * \<bar>ulp x\<bar> =
        \<bar>(of_int (round_half_even (x / ulp x)) - x / ulp x) * ulp x\<bar>"
      by (simp add: abs_mult)
    then show ?thesis using ulp_pos [of x] by (simp add: rnd_pos_def left_diff_distrib less_imp_neq)
  qed
  ultimately show ?thesis by simp
qed

lemma rnd_pos_exact: "0 < x \<Longrightarrow> x = of_int n * ulp x \<Longrightarrow> rnd_pos x = x"
proof -
  assume x: "0 < x" and "x = of_int n * ulp x"
  then have "x / ulp x = of_int n" using ulp_pos [of x] by (metis nonzero_mult_div_cancel_right less_irrefl)
  then show ?thesis using \<open>x = of_int n * ulp x\<close> by (simp add: rnd_pos_def)
qed

lemma rnd_pos_rel_error:
  assumes "pow2 (- 1022) \<le> x"
  shows "\<bar>rnd_pos x - x\<bar> \<le> x / 2 ^ 53"
proof -
  have x: "0 < x" using assms pow2_pos [of "- 1022"] by linarith
  have "pow2 (- 1022) < pow2 (exponent x + 1)" using assms exponent_bounds(2) [OF x] by linarith
  then have "- 1022 \<le> exponent x" by (simp add: pow2_less_iff)
  then have "ulp x * 2 ^ 52 = pow2 (exponent x)"
    using pow2_add [of "exponent x - 52" 52] pow2_nat [of 52] by (simp add: ulp_def max_def)
  then have "ulp x / 2 * 2 ^ 53 \<le> x" using exponent_bounds(1) [OF x] by simp
  then have "ulp x / 2 \<le> x / 2 ^ 53" by (simp add: le_divide_eq)
  with rnd_pos_error [OF x] show ?thesis by linarith
qed

lemma rnd_pos_pow2:
  assumes "- 1022 \<le> e"
  shows "rnd_pos (pow2 e) = pow2 e"
proof (rule rnd_pos_exact)
  have "exponent (pow2 e) = e" by (rule exponent_unique) (simp_all add: pow2_Suc)
  then show "pow2 e = of_int (2 ^ 52) * ulp (pow2 e)"
    using pow2_add [of 52 "e - 52"] pow2_nat [of 52] assms by (simp add: ulp_def max_def)
qed simp

lemma rnd_pos_int:
  assumes "0 < n" and "n \<le> 2 ^ 53"
  shows "rnd_pos (of_int n) = of_int n"
proof (cases "n = 2 ^ 53")
  case True
  then show ?thesis using rnd_pos_pow2 [of 53] pow2_nat [of 53] by simp
next
  case False
  have n: "0 < (of_int n :: rat)" "1 \<le> (of_int n :: rat)" using assms by simp_all
  let ?e = "exponent (of_int n)"
  have "(of_int n :: rat) < of_int (2 ^ 53)" using assms False by (simp only: of_int_less_iff)
  then have "pow2 ?e < pow2 53" using exponent_bounds(1) [OF n(1)] pow2_nat [of 53] by simp
  moreover have "pow2 0 < pow2 (?e + 1)" using exponent_bounds(2) [OF n(1)] n(2) by simp
  ultimately have e: "?e \<le> 52" "0 \<le> ?e" unfolding pow2_less_iff by simp_all
  have "of_int n = of_int (n * 2 ^ nat (52 - ?e)) * ulp (of_int n)"
  proof -
    have "pow2 (52 - ?e) * pow2 (?e - 52) = 1" by (simp flip: pow2_add)
    moreover have "pow2 (52 - ?e) = 2 ^ nat (52 - ?e)" using e by (simp add: pow2_def)
    ultimately show ?thesis using e by (simp add: ulp_def max_def)
  qed
  then show ?thesis by (rule rnd_pos_exact [OF n(1)])
qed

lemma rnd_pos_idem:
  assumes "0 < x" and "0 < rnd_pos x"
  shows "rnd_pos (rnd_pos x) = rnd_pos x"
proof -
  let ?y = "rnd_pos x" and ?e = "max (exponent x) (- 1022)"
  have le: "?y \<le> pow2 (?e + 1)" by (rule rnd_pos_binade [OF assms(1)])
  show ?thesis
  proof (cases "?y = pow2 (?e + 1)")
    case True
    then show ?thesis using rnd_pos_pow2 [of "?e + 1"] by simp
  next
    case False
    with le have lt: "?y < pow2 (?e + 1)" by simp
    have "pow2 (exponent ?y) < pow2 (?e + 1)" using exponent_bounds(1) [OF assms(2)] lt by linarith
    then have up: "exponent ?y \<le> ?e" by (simp add: pow2_less_iff)
    have "max (exponent ?y) (- 1022) = ?e"
    proof (cases "- 1022 \<le> exponent x")
      case True
      with rnd_pos_binade(2) [OF assms(1)] have "pow2 (exponent x) < pow2 (exponent ?y + 1)"
        using exponent_bounds(2) [OF assms(2)] by (simp add: le_less_trans)
      then show ?thesis using up True by (simp add: pow2_less_iff)
    next
      case False
      then show ?thesis using up by simp
    qed
    then have "ulp ?y = ulp x" by (simp add: ulp_def)
    then have "?y = of_int (round_half_even (x / ulp x)) * ulp ?y" by (simp add: rnd_pos_def)
    then show ?thesis by (rule rnd_pos_exact [OF assms(2)])
  qed
qed

interpretation dbl: fp_rounding rnd64
proof unfold_locales
  show "rnd64 (- x) = - rnd64 x" for x by (simp add: rnd64_def)
  show "\<bar>n\<bar> \<le> 2 ^ 53 \<Longrightarrow> rnd64 (of_int n) = of_int n" for n
    using rnd_pos_int [of n] rnd_pos_int [of "- n"] by (auto simp: rnd64_def)
  show "pow2 (- 1022) \<le> \<bar>x\<bar> \<Longrightarrow> \<bar>rnd64 x - x\<bar> \<le> \<bar>x\<bar> / 2 ^ 53" for x
  proof (cases "0 < x")
    case True
    then show "pow2 (- 1022) \<le> \<bar>x\<bar> \<Longrightarrow> ?thesis" using rnd_pos_rel_error [of x] by (simp add: rnd64_def)
  next
    case False
    have "\<bar>- rnd_pos (- x) - x\<bar> = \<bar>rnd_pos (- x) - (- x)\<bar>" by simp
    with False show "pow2 (- 1022) \<le> \<bar>x\<bar> \<Longrightarrow> ?thesis"
      using rnd_pos_rel_error [of "- x"] by (simp add: rnd64_def)
  qed
  show "rnd64 (rnd64 x) = rnd64 x" for x
    using rnd_pos_idem [of x] rnd_pos_idem [of "- x"] rnd_pos_nonneg [of x] rnd_pos_nonneg [of "- x"]
    by (auto simp: rnd64_def)
  show "x \<le> y \<Longrightarrow> rnd64 x \<le> rnd64 y" for x y
  proof -
    assume le: "x \<le> y"
    consider "0 < x" | "x \<le> 0" "0 \<le> y" | "y < 0" by linarith
    then show "rnd64 x \<le> rnd64 y"
    proof cases
      case 1
      then show ?thesis using le rnd_pos_mono [of x y] by (simp add: rnd64_def)
    next
      case 2
      have "rnd64 x \<le> 0" "0 \<le> rnd64 y"
        using 2 rnd_pos_nonneg [of "- x"] rnd_pos_nonneg [of y] by (auto simp: rnd64_def)
      then show ?thesis by simp
    next
      case 3
      then show ?thesis using le rnd_pos_mono [of "- y" "- x"] by (simp add: rnd64_def)
    qed
  qed
qed

end
