(* ===== verification/Js_Value.thy ===== *)
theory Js_Value
  imports Js_Number
begin

text \<open>
  JavaScript number values and the operations the sources use of them:
  arithmetic, comparison, \<open>Math.floor/ceil/round/max/min\<close>, \<open>Number\<close> and
  \<open>parseFloat\<close> on decimal text, \<open>BigInt\<close> of a number and \<open>toFixed\<close>.
\<close>

datatype jsnum = Fin rat | PosInf | NegInf | NaN

text \<open>The first magnitude that rounds to infinity.\<close>

definition js_overflow :: rat where
  "js_overflow = 2 ^ 1024"

lemma js_overflow_code [code]: "js_overflow = of_int 179769313486231590772930519078902473361797697894230657273430081157732675805500963132708477322407536021120113879871393357658789768814416622492847430639474124377767893424865485276302219601246094119453082952085005768838150682342462881473913110540827237163350510684586298239947245938479716304835356329624224137216"
  by (simp add: js_overflow_def)

definition js_fin :: "rat \<Rightarrow> jsnum" where
  "js_fin x = (let r = rnd64 x in
     if js_overflow \<le> r then PosInf else if r \<le> - js_overflow then NegInf else Fin r)"

fun js_neg :: "jsnum \<Rightarrow> jsnum" where
  "js_neg (Fin x) = Fin (- x)"
| "js_neg PosInf = NegInf"
| "js_neg NegInf = PosInf"
| "js_neg NaN = NaN"

fun js_add :: "jsnum \<Rightarrow> jsnum \<Rightarrow> jsnum" where
  "js_add (Fin x) (Fin y) = js_fin (x + y)"
| "js_add NaN _ = NaN"
| "js_add _ NaN = NaN"
| "js_add PosInf NegInf = NaN"
| "js_add NegInf PosInf = NaN"
| "js_add PosInf _ = PosInf"
| "js_add NegInf _ = NegInf"
| "js_add (Fin x) y = y"

definition js_sub :: "jsnum \<Rightarrow> jsnum \<Rightarrow> jsnum" where
  "js_sub a b = js_add a (js_neg b)"

definition js_inf :: "bool \<Rightarrow> jsnum" where
  "js_inf neg = (if neg then NegInf else PosInf)"

fun js_sgn_neg :: "jsnum \<Rightarrow> bool" where
  "js_sgn_neg (Fin x) \<longleftrightarrow> x < 0"
| "js_sgn_neg PosInf \<longleftrightarrow> False"
| "js_sgn_neg NegInf \<longleftrightarrow> True"
| "js_sgn_neg NaN \<longleftrightarrow> False"

fun js_mul :: "jsnum \<Rightarrow> jsnum \<Rightarrow> jsnum" where
  "js_mul (Fin x) (Fin y) = js_fin (x * y)"
| "js_mul NaN _ = NaN"
| "js_mul _ NaN = NaN"
| "js_mul a b = (if a = Fin 0 \<or> b = Fin 0 then NaN else js_inf (js_sgn_neg a \<noteq> js_sgn_neg b))"

fun js_div :: "jsnum \<Rightarrow> jsnum \<Rightarrow> jsnum" where
  "js_div (Fin x) (Fin y) = (if y = 0 then (if x = 0 then NaN else js_inf (x < 0)) else js_fin (x / y))"
| "js_div NaN _ = NaN"
| "js_div _ NaN = NaN"
| "js_div (Fin x) _ = Fin 0"
| "js_div a (Fin y) = js_inf (js_sgn_neg a \<noteq> (y < 0))"
| "js_div _ _ = NaN"

fun js_lt :: "jsnum \<Rightarrow> jsnum \<Rightarrow> bool" where
  "js_lt (Fin x) (Fin y) \<longleftrightarrow> x < y"
| "js_lt NaN _ \<longleftrightarrow> False"
| "js_lt _ NaN \<longleftrightarrow> False"
| "js_lt NegInf b \<longleftrightarrow> b \<noteq> NegInf"
| "js_lt a PosInf \<longleftrightarrow> a \<noteq> PosInf"
| "js_lt _ _ \<longleftrightarrow> False"

definition js_le :: "jsnum \<Rightarrow> jsnum \<Rightarrow> bool" where
  "js_le a b \<longleftrightarrow> a \<noteq> NaN \<and> b \<noteq> NaN \<and> (js_lt a b \<or> a = b)"

fun js_isFinite :: "jsnum \<Rightarrow> bool" where
  "js_isFinite (Fin x) \<longleftrightarrow> True"
| "js_isFinite _ \<longleftrightarrow> False"

fun js_floor :: "jsnum \<Rightarrow> jsnum" where
  "js_floor (Fin x) = Fin (of_int \<lfloor>x\<rfloor>)"
| "js_floor a = a"

fun js_ceil :: "jsnum \<Rightarrow> jsnum" where
  "js_ceil (Fin x) = Fin (of_int \<lceil>x\<rceil>)"
| "js_ceil a = a"

text \<open>\<open>Math.round\<close>: the nearest integer, ties upwards; exact on doubles.\<close>

fun js_round :: "jsnum \<Rightarrow> jsnum" where
  "js_round (Fin x) = Fin (of_int \<lfloor>x + 1 / 2\<rfloor>)"
| "js_round a = a"

fun js_abs :: "jsnum \<Rightarrow> jsnum" where
  "js_abs (Fin x) = Fin \<bar>x\<bar>"
| "js_abs NaN = NaN"
| "js_abs _ = PosInf"

definition js_max :: "jsnum \<Rightarrow> jsnum \<Rightarrow> jsnum" where
  "js_max a b = (if a = NaN \<or> b = NaN then NaN else if js_lt a b then b else a)"

definition js_min :: "jsnum \<Rightarrow> jsnum \<Rightarrow> jsnum" where
  "js_min a b = (if a = NaN \<or> b = NaN then NaN else if js_lt b a then b else a)"

definition js_int :: "int \<Rightarrow> jsnum" where
  "js_int n = js_fin (of_int n)"

text \<open>\<open>BigInt(x)\<close>: a RangeError unless \<open>x\<close> is an integer.\<close>

fun js_BigInt :: "jsnum \<Rightarrow> int option" where
  "js_BigInt (Fin x) = (if x = of_int \<lfloor>x\<rfloor> then Some \<lfloor>x\<rfloor> else None)"
| "js_BigInt _ = None"

section \<open>Decimal text\<close>

text \<open>
  The decimal numerals of the database's NUMERIC columns and of request fields:
  an optional sign, digits, an optional fraction.  Other spellings of a number
  (exponents, hexadecimal, surrounding blanks) do not occur in them and read as
  NaN here.
\<close>

definition dec_value :: "string \<Rightarrow> string \<Rightarrow> rat" where
  "dec_value whole frc = of_nat (parse_nat (whole @ frc)) / 10 ^ length frc"

definition split_sign :: "string \<Rightarrow> bool \<times> string" where
  "split_sign s = (case s of [] \<Rightarrow> (False, [])
     | c # t \<Rightarrow> if c = CHR ''-'' then (True, t) else if c = CHR ''+'' then (False, t) else (False, s))"

definition parse_decimal :: "string \<Rightarrow> rat option" where
  "parse_decimal s = (let (neg, u) = split_sign s;
       whole = takeWhile is_digit u; r = dropWhile is_digit u;
       sg = (\<lambda>x. if neg then - x else x) in
     case r of
       [] \<Rightarrow> if whole = [] then None else Some (sg (dec_value whole []))
     | c # frc \<Rightarrow>
         if c = CHR ''.'' \<and> list_all is_digit frc \<and> (whole \<noteq> [] \<or> frc \<noteq> [])
         then Some (sg (dec_value whole frc)) else None)"

definition js_Number :: "string \<Rightarrow> jsnum" where
  "js_Number s = (if s = [] then Fin 0 else
     case parse_decimal s of None \<Rightarrow> NaN | Some x \<Rightarrow> js_fin x)"

text \<open>\<open>parseFloat\<close> reads the longest numeral at the start.\<close>

definition js_parseFloat :: "string \<Rightarrow> jsnum" where
  "js_parseFloat s = (let (neg, u) = split_sign s;
       whole = takeWhile is_digit u; r = dropWhile is_digit u;
       frc = (case r of [] \<Rightarrow> [] | c # t \<Rightarrow> if c = CHR ''.'' then takeWhile is_digit t else []);
       sg = (\<lambda>x. if neg then - x else x) in
     if whole = [] \<and> frc = [] then NaN else js_fin (sg (dec_value whole frc)))"

definition pad_left :: "nat \<Rightarrow> string \<Rightarrow> string" where
  "pad_left n s = replicate (n - length s) (CHR ''0'') @ s"

text \<open>\<^verbatim>\<open>.replace(/0+$/, "")\<close>\<close>

definition strip_zeros :: "string \<Rightarrow> string" where
  "strip_zeros s = rev (dropWhile (\<lambda>c. c = CHR ''0'') (rev s))"

text \<open>\<open>k / 10\<^sup>d\<close> with exactly \<open>d\<close> decimals.\<close>

definition show_scaled :: "nat \<Rightarrow> nat \<Rightarrow> string" where
  "show_scaled d k = show_nat (k div 10 ^ d)
     @ (if d = 0 then [] else CHR ''.'' # pad_left d (show_nat (k mod 10 ^ d)))"

definition js_toFixed :: "nat \<Rightarrow> jsnum \<Rightarrow> string" where
  "js_toFixed d a = (case a of
     Fin x \<Rightarrow> (if x < 0 then CHR ''-'' # show_scaled d (nat \<lfloor>- x * 10 ^ d + 1 / 2\<rfloor>)
              else show_scaled d (nat \<lfloor>x * 10 ^ d + 1 / 2\<rfloor>))
   | PosInf \<Rightarrow> ''Infinity'' | NegInf \<Rightarrow> ''-Infinity'' | NaN \<Rightarrow> ''NaN'')"

section \<open>Facts\<close>

lemma js_overflow_large: "2 ^ 60 < js_overflow"
  unfolding js_overflow_def by (rule power_strict_increasing) auto

lemma js_fin_small:
  assumes "\<bar>rnd64 x\<bar> \<le> 2 ^ 60"
  shows "js_fin x = Fin (rnd64 x)"
  using assms js_overflow_large by (auto simp: js_fin_def Let_def)

lemma rnd64_bounded:
  assumes "\<bar>x\<bar> \<le> 2 ^ 53"
  shows "\<bar>rnd64 x\<bar> \<le> 2 ^ 53"
proof -
  have "x \<le> of_int (2 ^ 53)" "of_int (- (2 ^ 53)) \<le> x" using assms by (auto simp: abs_le_iff)
  from dbl.rnd_le_int [OF this(1)] dbl.rnd_ge_int [OF this(2)] show ?thesis
    by (simp add: abs_le_iff)
qed

lemma js_fin_53: "\<bar>x\<bar> \<le> 2 ^ 53 \<Longrightarrow> js_fin x = Fin (rnd64 x)"
  using rnd64_bounded [of x] by (intro js_fin_small) simp

lemma js_fin_int [simp]:
  assumes "\<bar>n\<bar> \<le> 2 ^ 53"
  shows "js_fin (of_int n) = Fin (of_int n)"
proof -
  have "\<bar>of_int n :: rat\<bar> \<le> of_int (2 ^ 53)"
    using assms by (simp only: of_int_abs [symmetric] of_int_le_iff)
  then show ?thesis by (subst js_fin_53) (simp_all add: dbl.rnd_int assms)
qed

lemma js_int [simp]: "\<bar>n\<bar> \<le> 2 ^ 53 \<Longrightarrow> js_int n = Fin (of_int n)"
  by (simp add: js_int_def)

text \<open>Reading a decimal with \<open>d\<close> places and scaling it by \<open>10\<^sup>d\<close> rounds back to its digits.\<close>

lemma js_round_scaled:
  assumes "0 < k" "k \<le> 2 ^ 50" and "d \<le> 15"
  shows "js_round (js_mul (js_fin (of_nat k / 10 ^ d)) (Fin (10 ^ d))) = Fin (of_nat k)"
proof -
  let ?q = "of_nat k / 10 ^ d :: rat"
  have k: "0 < (of_nat k :: rat)" "(of_nat k :: rat) \<le> 2 ^ 50"
    using assms(1,2) of_nat_le_iff [where ?'a = rat, of k "2 ^ 50"] by simp_all
  have ten: "(1 :: rat) \<le> 10 ^ d" by simp
  have "?q \<le> of_nat k" using k(1) ten by (simp add: divide_le_eq)
  then have q: "\<bar>?q\<bar> \<le> 2 ^ 53" using k by simp
  have "(10 ^ d :: rat) \<le> 10 ^ 15" using assms(3) by (rule_tac power_increasing) auto
  moreover have "pow2 (- 1000) * 10 ^ 15 \<le> (1 :: rat)" by (simp add: pow2_def)
  ultimately have "pow2 (- 1000) * 10 ^ d \<le> 1"
    using mult_left_mono [of "10 ^ d" "10 ^ 15" "pow2 (- 1000)"] pow2_pos [of "- 1000"] by linarith
  also have "1 \<le> (of_nat k :: rat)" using assms(1) by simp
  finally have low: "pow2 (- 1000) \<le> ?q" by (simp add: le_divide_eq)
  have near: "\<bar>rnd64 (rnd64 ?q * 10 ^ d) - of_nat k\<bar> < 1 / 2"
    by (rule dbl.rnd_scale_back [OF k ten low]) simp
  then have small: "\<bar>rnd64 (rnd64 ?q * 10 ^ d)\<bar> \<le> 2 ^ 60"
  proof -
    have "(2 :: rat) ^ 50 + 1 \<le> 2 ^ 60" by simp
    with near k show ?thesis by linarith
  qed
  have "\<lfloor>rnd64 (rnd64 ?q * 10 ^ d) + 1 / 2\<rfloor> = int k"
  proof (rule floor_unique)
    show "of_int (int k) \<le> rnd64 (rnd64 ?q * 10 ^ d) + 1 / 2"
      using near unfolding of_int_of_nat_eq by linarith
    show "rnd64 (rnd64 ?q * 10 ^ d) + 1 / 2 < of_int (int k) + 1"
      using near unfolding of_int_of_nat_eq by linarith
  qed
  then show ?thesis by (simp add: js_fin_53 [OF q] js_fin_small [OF small])
qed

end
