(* ===== verification/Odds.thy ===== *)
theory Odds
  imports Js_Value
begin

text \<open>
  packages/types/src/odds.ts: the quote ladder prices are snapped down to and
  their display, in binary64 arithmetic.  \<open>ladder_units\<close> is the same ladder on
  the four-decimal integer grid of the \<open>NUMERIC(10,4)\<close> price columns; the two
  agree on every price such a column can hold.
\<close>

definition ODDS_SCALE :: jsnum where
  "ODDS_SCALE = Fin 10000"

text \<open>The em dash, in UTF-8.\<close>

definition ODDS_PLACEHOLDER :: string where
  "ODDS_PLACEHOLDER = [char_of (226 :: nat), char_of (128 :: nat), char_of (148 :: nat)]"

definition isBettableOdds :: "jsnum option \<Rightarrow> bool" where
  "isBettableOdds n = (case n of None \<Rightarrow> False | Some x \<Rightarrow> js_isFinite x \<and> js_lt (Fin 1) x)"

definition LADDER_FLOOR :: jsnum where
  "LADDER_FLOOR = js_fin (101 / 100)"

definition LADDER_BANDS :: "(jsnum \<times> jsnum) list" where
  "LADDER_BANDS = [(Fin 10, js_fin (1 / 100)), (Fin 20, js_fin (1 / 10)), (Fin 50, js_fin (1 / 2)),
     (Fin 100, Fin 1), (PosInf, Fin 5)]"

definition ladderStep :: "jsnum \<Rightarrow> jsnum" where
  "ladderStep odds = (case List.find (\<lambda>(below, step). js_lt odds below) LADDER_BANDS of
     Some (below, step) \<Rightarrow> step | None \<Rightarrow> Fin 5)"

definition floorToOddsDp :: "jsnum \<Rightarrow> jsnum" where
  "floorToOddsDp v = js_div (js_floor (js_add (js_mul v ODDS_SCALE) (js_fin (1 / 10 ^ 6)))) ODDS_SCALE"

definition quoteOnLadder :: "jsnum \<Rightarrow> jsnum" where
  "quoteOnLadder n =
    (if \<not> js_isFinite n \<or> js_le n (Fin 0) then Fin 0
     else if js_lt n LADDER_FLOOR then floorToOddsDp n
     else let step = ladderStep n;
              rungs = js_floor (js_add (js_div n step) (js_fin (1 / 10 ^ 9))) in
          floorToOddsDp (js_mul rungs step))"

text \<open>The remainder of two non-negative integers held as numbers, and their decimal text.\<close>

fun js_mod :: "jsnum \<Rightarrow> jsnum \<Rightarrow> jsnum" where
  "js_mod (Fin x) (Fin y) = (if y = 0 then NaN else Fin (x - y * of_int \<lfloor>x / y\<rfloor>))"
| "js_mod _ _ = NaN"

fun js_int_text :: "jsnum \<Rightarrow> string" where
  "js_int_text (Fin x) = show_int \<lfloor>x\<rfloor>"
| "js_int_text PosInf = ''Infinity''"
| "js_int_text NegInf = ''-Infinity''"
| "js_int_text NaN = ''NaN''"

definition formatOddsDisplay :: "jsnum \<Rightarrow> string" where
  "formatOddsDisplay n =
    (if \<not> js_isFinite n \<or> js_lt n (Fin 0) then ODDS_PLACEHOLDER
     else let units = js_floor (js_add (js_mul (quoteOnLadder n) ODDS_SCALE) (js_fin (1 / 10 ^ 6))) in
       if js_lt units (Fin 0) then ODDS_PLACEHOLDER
       else let intPart = js_floor (js_div units ODDS_SCALE);
                fracText = pad_left 4 (js_int_text (js_mod units ODDS_SCALE)) in
         js_int_text intPart @ ''.'' @ take 2 fracText @ strip_zeros (drop 2 fracText))"

section \<open>The ladder on the integer grid\<close>

definition ladder_unit :: "nat \<Rightarrow> nat" where
  "ladder_unit k = (if k < 10100 then 1 else if k < 100000 then 100 else if k < 200000 then 1000
     else if k < 500000 then 5000 else if k < 1000000 then 10000 else 50000)"

definition ladder_units :: "nat \<Rightarrow> nat" where
  "ladder_units k = ladder_unit k * (k div ladder_unit k)"

section \<open>Rounding errors of the ladder\<close>

lemma rnd64_abs_error:
  assumes "1 / 10000000000 \<le> x" and "x \<le> B"
  shows "\<bar>rnd64 x - x\<bar> \<le> B / 9007199254740992"
proof -
  have "pow2 (- 1022) \<le> 1 / (10000000000 :: rat)" by (simp add: pow2_def)
  then have "pow2 (- 1022) \<le> x" using assms(1) by linarith
  then have "\<bar>rnd64 x - x\<bar> \<le> x / 9007199254740992" using dbl.rnd_error [of x] assms(1) by simp
  also have "\<dots> \<le> B / 9007199254740992" using assms(2) by (rule divide_right_mono) simp
  finally show ?thesis .
qed

text \<open>A value within a hair of a four-decimal price floors to that price.\<close>

lemma floorToOddsDp_near:
  assumes Y: "\<bar>y * 10000 - of_nat m\<bar> \<le> 1 / 100000000" and m: "m \<le> 1000000" and pos: "1 / 10000000000 \<le> y"
  shows "floorToOddsDp (Fin y) = js_fin (of_nat m / 10000)"
proof -
  define p where "p = rnd64 (y * 10000)"
  define e where "e = rnd64 (1 / 10 ^ 6)"
  have mr: "(of_nat m :: rat) \<le> 1000000" using m by (metis of_nat_le_iff of_nat_numeral)
  have b: "y * 10000 \<le> 1000001" using Y mr by linarith
  have "\<bar>p - y * 10000\<bar> \<le> 1000001 / 9007199254740992"
    unfolding p_def by (rule rnd64_abs_error [OF _ b]) (use pos in linarith)
  then have p: "\<bar>p - of_nat m\<bar> \<le> 1 / 10000000" using Y by linarith
  have "\<bar>e - 1 / 10 ^ 6\<bar> \<le> (1 / 10 ^ 6) / 9007199254740992"
    unfolding e_def by (rule rnd64_abs_error) simp_all
  then have e: "\<bar>e - 1 / 1000000\<bar> \<le> 1 / 10000000000" by simp
  have z: "of_nat m + 1 / 10000000 \<le> p + e" "p + e \<le> of_nat m + 1 / 100000"
    using p e by linarith+
  have "\<bar>rnd64 (p + e) - (p + e)\<bar> \<le> 1000001 / 9007199254740992"
    by (rule rnd64_abs_error) (use z mr in linarith)+
  then have f: "of_nat m \<le> rnd64 (p + e)" "rnd64 (p + e) < of_nat m + 1" using z by linarith+
  have fl: "\<lfloor>rnd64 (p + e)\<rfloor> = int m" using f by (intro floor_unique) simp_all
  have a: "js_fin (y * 10000) = Fin p" unfolding p_def by (rule js_fin_53) (use b pos in simp)
  have c: "js_fin (1 / 10 ^ 6) = Fin e" unfolding e_def by (rule js_fin_53) simp
  have d: "js_fin (p + e) = Fin (rnd64 (p + e))"
  proof (rule js_fin_53)
    have "(9007199254740992 :: rat) = 2 ^ 53" by simp
    then show "\<bar>p + e\<bar> \<le> 2 ^ 53" using z mr by linarith
  qed
  show ?thesis
    unfolding floorToOddsDp_def ODDS_SCALE_def by (simp only: js_mul.simps a c js_add.simps d js_floor.simps fl)
      simp
qed

text \<open>An exact multiple of the grid floors to itself, over the whole range of the column.\<close>

lemma floorToOddsDp_exact:
  assumes Y: "y * 10000 = of_nat m" and m: "0 < m" "m \<le> 10000000000"
  shows "floorToOddsDp (Fin y) = js_fin (of_nat m / 10000)"
proof -
  define e where "e = rnd64 (1 / 10 ^ 6)"
  have mr: "(of_nat m :: rat) \<le> 10000000000" "1 \<le> (of_nat m :: rat)"
    using m of_nat_mono [of m 10000000000, where ?'a = rat] by simp_all
  have two: "(9007199254740992 :: rat) = 2 ^ 53" by simp
  have "\<bar>int m\<bar> \<le> 2 ^ 53" using m by simp
  then have int: "rnd64 (of_nat m) = of_nat m" using dbl.rnd_int [of "int m"] by simp
  have "\<bar>e - 1 / 10 ^ 6\<bar> \<le> (1 / 10 ^ 6) / 9007199254740992"
    unfolding e_def by (rule rnd64_abs_error) simp_all
  then have e: "\<bar>e - 1 / 1000000\<bar> \<le> 1 / 10000000000" by simp
  have "\<bar>rnd64 (of_nat m + e) - (of_nat m + e)\<bar> \<le> 20000000000 / 9007199254740992"
    by (rule rnd64_abs_error) (use e mr in linarith)+
  then have up: "rnd64 (of_nat m + e) < of_nat m + 1" using e by linarith
  have low: "of_nat m \<le> rnd64 (of_nat m + e)"
    using dbl.rnd_mono [of "of_nat m" "of_nat m + e"] int e by linarith
  have fl: "\<lfloor>rnd64 (of_nat m + e)\<rfloor> = int m" using up low by (intro floor_unique) simp_all
  have a: "js_fin (y * 10000) = Fin (of_nat m)"
  proof -
    have "\<bar>of_nat m :: rat\<bar> \<le> 2 ^ 53" using mr two by linarith
    then show ?thesis unfolding Y using js_fin_53 int by metis
  qed
  have c: "js_fin (1 / 10 ^ 6) = Fin e" unfolding e_def by (rule js_fin_53) simp
  have d: "js_fin (of_nat m + e) = Fin (rnd64 (of_nat m + e))"
    by (rule js_fin_53) (use e mr two in linarith)
  show ?thesis
    unfolding floorToOddsDp_def ODDS_SCALE_def by (simp only: js_mul.simps a c js_add.simps d js_floor.simps fl)
      simp
qed

text \<open>The number of rungs below a price: the division by a rounded step and the nudge of
  \<open>10\<^sup>-\<^sup>9\<close> count exactly the whole steps.\<close>

lemma quotient_error:
  assumes X: "\<bar>X - x\<bar> \<le> x / 9007199254740992" and S: "\<bar>S - s\<bar> \<le> s / 9007199254740992"
    and pos: "0 < x" "0 < s" and q: "x / s \<le> (200000 :: rat)"
  shows "\<bar>X / S - x / s\<bar> \<le> 1 / 10000000000" and "0 < S"
proof -
  have Spos: "0 < S" using S pos by linarith
  have s2: "s / 2 \<le> S" using S pos by linarith
  have "X / S - x / s = (X * s - x * S) / (S * s)" using Spos pos by (simp add: field_simps)
  also have "X * s - x * S = (X - x) * s - x * (S - s)" by (simp add: algebra_simps)
  finally have eq: "\<bar>X / S - x / s\<bar> = \<bar>(X - x) * s - x * (S - s)\<bar> / (S * s)"
    using Spos pos by (simp add: abs_mult)
  have "\<bar>(X - x) * s - x * (S - s)\<bar> \<le> \<bar>X - x\<bar> * s + x * \<bar>S - s\<bar>"
    using pos abs_triangle_ineq4 [of "(X - x) * s" "x * (S - s)"] by (simp add: abs_mult)
  also have "\<dots> \<le> (x / 9007199254740992) * s + x * (s / 9007199254740992)"
    using X S pos by (intro add_mono mult_right_mono mult_left_mono) simp_all
  also have "\<dots> = 2 * (x * s) / 9007199254740992" by simp
  finally have "\<bar>X / S - x / s\<bar> \<le> (2 * (x * s) / 9007199254740992) / (S * s)"
    unfolding eq using Spos pos by (intro divide_right_mono) simp_all
  also have "\<dots> = (2 * x / 9007199254740992) / S" using pos by simp
  also have "\<dots> \<le> (2 * x / 9007199254740992) / (s / 2)"
    using s2 pos Spos by (intro divide_left_mono) simp_all
  also have "\<dots> = 4 / 9007199254740992 * (x / s)" by simp
  also have "\<dots> \<le> 1 / 10000000000" using q by simp
  finally show "\<bar>X / S - x / s\<bar> \<le> 1 / 10000000000" "0 < S" using Spos by simp_all
qed

lemma rungs_exact:
  assumes k: "10100 \<le> k" "k \<le> 10000000000" and u: "0 < u" "u \<le> 50000" "k \<le> 200000 * u"
  shows "js_floor (js_add (js_div (Fin (rnd64 (of_nat k / 10000))) (Fin (rnd64 (of_nat u / 10000))))
      (js_fin (1 / 10 ^ 9))) = Fin (of_nat (k div u))"
proof -
  define x s :: rat where "x = of_nat k / 10000" and "s = of_nat u / 10000"
  define X S where "X = rnd64 x" and "S = rnd64 s"
  define d where "d = rnd64 (1 / 10 ^ 9)"
  define Q where "Q = rnd64 (X / S)"
  define w where "w = (of_nat k / of_nat u :: rat)"
  have kr: "10100 \<le> (of_nat k :: rat)" "(of_nat k :: rat) \<le> 10000000000"
    and ur: "1 \<le> (of_nat u :: rat)" "(of_nat u :: rat) \<le> 50000" "(of_nat k :: rat) \<le> 200000 * of_nat u"
    using k u of_nat_mono [of 10100 k, where ?'a = rat] of_nat_mono [of k 10000000000, where ?'a = rat]
      of_nat_mono [of k "200000 * u", where ?'a = rat] by simp_all
  have xs: "x / s = w" using ur by (simp add: x_def s_def w_def)
  have w: "w \<le> 200000" "1 / 5 \<le> w" using kr ur by (simp_all add: w_def divide_le_eq le_divide_eq)
  have "\<bar>X - x\<bar> \<le> x / 9007199254740992" "\<bar>S - s\<bar> \<le> s / 9007199254740992"
    unfolding X_def S_def by (rule rnd64_abs_error; use kr ur in \<open>simp add: x_def s_def\<close>)+
  from quotient_error [OF this] kr ur w xs
  have q: "\<bar>X / S - w\<bar> \<le> 1 / 10000000000" "0 < S" by (simp_all add: x_def s_def)
  have "\<bar>Q - X / S\<bar> \<le> 200001 / 9007199254740992"
    unfolding Q_def by (rule rnd64_abs_error) (use q(1) w in linarith)+
  then have Q: "\<bar>Q - w\<bar> \<le> 2 / 10000000000" using q(1) by linarith
  have "\<bar>d - 1 / 10 ^ 9\<bar> \<le> (1 / 10 ^ 9) / 9007199254740992"
    unfolding d_def by (rule rnd64_abs_error) simp_all
  then have d: "\<bar>d - 1 / 1000000000\<bar> \<le> 1 / 10000000000" by simp
  have "\<bar>rnd64 (Q + d) - (Q + d)\<bar> \<le> 200001 / 9007199254740992"
    by (rule rnd64_abs_error) (use Q d w in linarith)+
  then have near: "w \<le> rnd64 (Q + d)" "rnd64 (Q + d) \<le> w + 1 / 100000000" using Q d by linarith+
  have "k < u * (k div u + 1)" using u(1) by (simp add: dividend_less_times_div)
  then have "k + 1 \<le> u * (k div u + 1)" by simp
  then have "(of_nat k + 1 :: rat) \<le> of_nat u * (of_nat (k div u) + 1)"
    by (metis of_nat_1 of_nat_add of_nat_le_iff of_nat_mult)
  then have "w + 1 / of_nat u \<le> of_nat (k div u) + 1"
    using ur by (simp add: w_def add_divide_distrib [symmetric] divide_le_eq mult.commute)
  moreover have "1 / 50000 \<le> (1 / of_nat u :: rat)" using ur by (simp add: divide_le_eq le_divide_eq)
  ultimately have hi: "rnd64 (Q + d) < of_nat (k div u) + 1" using near by linarith
  have "(of_nat (k div u) * of_nat u :: rat) \<le> of_nat k"
    by (metis div_times_less_eq_dividend of_nat_le_iff of_nat_mult)
  then have "of_nat (k div u) \<le> w" using ur by (simp add: w_def le_divide_eq)
  then have fl: "\<lfloor>rnd64 (Q + d)\<rfloor> = int (k div u)" using near hi by (intro floor_unique) simp_all
  have two: "(9007199254740992 :: rat) = 2 ^ 53" by simp
  have a: "js_fin (X / S) = Fin Q" unfolding Q_def by (rule js_fin_53) (use q(1) w two in linarith)
  have c: "js_fin (1 / 10 ^ 9) = Fin d" unfolding d_def by (rule js_fin_53) simp
  have e: "js_fin (Q + d) = Fin (rnd64 (Q + d))" by (rule js_fin_53) (use Q d w two in linarith)
  show ?thesis using q(2)
    by (simp only: x_def [symmetric] s_def [symmetric] X_def [symmetric] S_def [symmetric] js_div.simps
        a c js_add.simps e js_floor.simps fl) (simp add: a e fl)
qed

text \<open>One band of the ladder with a fractional step, and one with a whole step.\<close>

lemma band_fraction:
  assumes k: "10100 \<le> k" "k < 500000" and u: "0 < u" "u \<le> 5000"
  shows "floorToOddsDp (js_mul (Fin (of_nat (k div u))) (Fin (rnd64 (of_nat u / 10000))))
    = js_fin (of_nat (u * (k div u)) / 10000)"
proof -
  define r s S :: rat where "r = of_nat (k div u)" and "s = of_nat u / 10000" and "S = rnd64 s"
  have ur: "1 \<le> (of_nat u :: rat)" "(of_nat u :: rat) \<le> 5000"
    using u of_nat_mono [of u 5000, where ?'a = rat] by simp_all
  have "u * (k div u) < 500000" using k by (meson le_less_trans times_div_less_eq_dividend)
  then have rs: "r * s \<le> 50" 
    using of_nat_mono [of "u * (k div u)" 500000, where ?'a = rat] by (simp add: r_def s_def mult.commute)
  have "1 \<le> k div u" using k u by (simp add: Suc_le_eq div_greater_zero_iff)
  then have r: "1 \<le> r" using of_nat_mono [of 1 "k div u", where ?'a = rat] by (simp add: r_def)
  have s: "1 / 10000 \<le> s" using ur by (simp add: s_def)
  have "\<bar>S - s\<bar> \<le> s / 9007199254740992"
    unfolding S_def by (rule rnd64_abs_error) (use s in simp_all)
  then have "r * \<bar>S - s\<bar> \<le> r * (s / 9007199254740992)" using r by (intro mult_left_mono) simp_all
  moreover have "r * \<bar>S - s\<bar> = \<bar>r * S - r * s\<bar>" using r by (simp add: abs_mult right_diff_distrib [symmetric])
  ultimately have e1: "\<bar>r * S - r * s\<bar> \<le> 50 / 9007199254740992" using rs by simp
  have low: "1 / 10000 \<le> r * s" using mult_mono [of 1 r "1 / 10000" s] r s by simp
  have e2: "\<bar>rnd64 (r * S) - r * S\<bar> \<le> 51 / 9007199254740992"
    by (rule rnd64_abs_error) (use e1 rs low in linarith)+
  have two: "(9007199254740992 :: rat) = 2 ^ 53" by simp
  have "js_mul (Fin r) (Fin S) = Fin (rnd64 (r * S))"
    unfolding js_mul.simps by (rule js_fin_53) (use e1 rs low two in linarith)
  moreover have "floorToOddsDp (Fin (rnd64 (r * S))) = js_fin (of_nat (u * (k div u)) / 10000)"
  proof (rule floorToOddsDp_near)
    have "r * s * 10000 = of_nat (u * (k div u))" by (simp add: r_def s_def)
    then show "\<bar>rnd64 (r * S) * 10000 - of_nat (u * (k div u))\<bar> \<le> 1 / 100000000"
      using e1 e2 by linarith
    show "u * (k div u) \<le> 1000000" using \<open>u * (k div u) < 500000\<close> by simp
    show "1 / 10000000000 \<le> rnd64 (r * S)" using e1 e2 low by linarith
  qed
  ultimately show ?thesis by (simp add: r_def s_def S_def)
qed

lemma band_whole:
  assumes k: "1000000 \<le> 20 * k" "k \<le> 10000000000" and c: "0 < c" "10000 * c \<le> k"
  shows "floorToOddsDp (js_mul (Fin (of_nat (k div (10000 * c)))) (Fin (of_nat c)))
    = js_fin (of_nat (10000 * c * (k div (10000 * c))) / 10000)"
proof -
  let ?r = "k div (10000 * c)"
  have le: "10000 * c * ?r \<le> k" by (rule times_div_less_eq_dividend)
  have pos: "0 < ?r" using c by (simp add: div_greater_zero_iff)
  have "c * ?r \<le> 10000 * c * ?r" "(10000000000 :: nat) \<le> 2 ^ 53" by simp_all
  then have "c * ?r \<le> 2 ^ 53" using le k(2) by linarith
  then have "js_fin (of_int (int (c * ?r))) = Fin (of_int (int (c * ?r)))"
    by (intro js_fin_int) (metis abs_of_nat of_nat_le_iff of_nat_numeral of_nat_power)
  then have "js_mul (Fin (of_nat ?r)) (Fin (of_nat c)) = Fin (of_nat (c * ?r))"
    by (simp add: mult.commute)
  moreover have "floorToOddsDp (Fin (of_nat (c * ?r))) = js_fin (of_nat (10000 * c * ?r) / 10000)"
  proof (rule floorToOddsDp_exact)
    show "10000 * c * ?r \<le> 10000000000" using le k(2) by linarith
    show "0 < 10000 * c * ?r" using c pos by (intro mult_pos_pos) simp_all
  qed simp
  ultimately show ?thesis by simp
qed

text \<open>Comparing a four-decimal price with a whole bound.\<close>

lemma price_lt:
  assumes "k \<le> 10000000000" and "0 < c" "c \<le> 100"
  shows "rnd64 (of_nat k / 10000) < of_nat c \<longleftrightarrow> k < 10000 * c"
proof (cases "k < 10000 * c")
  case True
  then have "k + 1 \<le> 10000 * c" by simp
  then have kc: "(of_nat k + 1 :: rat) \<le> 10000 * of_nat c"
    using of_nat_mono [of "k + 1" "10000 * c", where ?'a = rat] by simp
  have c: "(of_nat c :: rat) \<le> 100" using assms(3) of_nat_mono [of c 100, where ?'a = rat] by simp
  have "rnd64 (of_nat k / 10000) < of_nat c"
  proof (cases "k = 0")
    case True
    then show ?thesis using assms(2) by (simp add: dbl.rnd_0)
  next
    case False
    then have "1 \<le> k" by simp
    then have "1 \<le> (of_nat k :: rat)" using of_nat_mono [of 1 k, where ?'a = rat] by simp
    then have "\<bar>rnd64 (of_nat k / 10000) - of_nat k / 10000\<bar> \<le> 100 / 9007199254740992"
      using kc c by (intro rnd64_abs_error) linarith+
    then show ?thesis using kc by linarith
  qed
  then show ?thesis using True by simp
next
  case False
  then have "10000 * of_nat c \<le> (of_nat k :: rat)"
    using of_nat_mono [of "10000 * c" k, where ?'a = rat] by simp
  then have "of_int (int c) \<le> (of_nat k / 10000 :: rat)" by simp
  from dbl.rnd_ge_int [OF this] show ?thesis using False assms by simp
qed

lemma price_lt_floor:
  assumes "k \<le> 10000000000"
  shows "rnd64 (of_nat k / 10000) < rnd64 (101 / 100) \<longleftrightarrow> k < 10100"
proof (cases "k < 10100")
  case True
  then have k: "(of_nat k :: rat) \<le> 10099" using of_nat_mono [of k 10099, where ?'a = rat] by simp
  have "rnd64 (of_nat k / 10000) \<le> rnd64 (10099 / 10000)" by (rule dbl.rnd_mono) (use k in simp)
  moreover have "\<bar>rnd64 (10099 / 10000) - 10099 / 10000\<bar> \<le> 2 / 9007199254740992"
    "\<bar>rnd64 (101 / 100) - 101 / 100\<bar> \<le> 2 / 9007199254740992"
    by (rule rnd64_abs_error; simp)+
  ultimately show ?thesis using True by linarith
next
  case False
  then have "(10100 :: rat) \<le> of_nat k" using of_nat_mono [of 10100 k, where ?'a = rat] by simp
  then have "rnd64 (101 / 100) \<le> rnd64 (of_nat k / 10000)" by (intro dbl.rnd_mono) simp
  then show ?thesis using False by simp
qed

lemma ladderStep_unit:
  assumes "10100 \<le> k" and "k \<le> 10000000000"
  shows "ladderStep (Fin (rnd64 (of_nat k / 10000))) = Fin (rnd64 (of_nat (ladder_unit k) / 10000))"
proof -
  have c: "rnd64 (1 :: rat) = 1" "rnd64 (5 :: rat) = 5" "rnd64 (1 / 2 :: rat) = 1 / 2"
    using dbl.rnd_int [of 1] dbl.rnd_int [of 5] rnd_pos_pow2 [of "- 1"]
    by (simp_all add: rnd64_def pow2_def)
  have f: "js_fin (1 / 100) = Fin (rnd64 (1 / 100))" "js_fin (1 / 10) = Fin (rnd64 (1 / 10))"
    "js_fin (1 / 2) = Fin (1 / 2)"
    using js_fin_53 [of "1 / 100"] js_fin_53 [of "1 / 10"] js_fin_53 [of "1 / 2"] c by simp_all
  show ?thesis
    using price_lt [OF assms(2), of 10] price_lt [OF assms(2), of 20] price_lt [OF assms(2), of 50]
      price_lt [OF assms(2), of 100] assms(1)
    by (auto simp: ladderStep_def LADDER_BANDS_def ladder_unit_def f c)
qed

lemma ladder_unit_bounds:
  assumes "10100 \<le> k" and "k \<le> 10000000000"
  shows "0 < ladder_unit k" "ladder_unit k \<le> 50000" "k \<le> 200000 * ladder_unit k"
    "k < 500000 \<Longrightarrow> ladder_unit k \<le> 5000" "500000 \<le> k \<Longrightarrow> ladder_unit k \<in> {10000, 50000}"
  using assms by (auto simp: ladder_unit_def)

lemma quote_grid:
  assumes "k \<le> 10000000000"
  shows "quoteOnLadder (js_fin (of_nat k / 10000)) = js_fin (of_nat (ladder_units k) / 10000)"
proof -
  let ?x = "of_nat k / 10000 :: rat"
  have kr: "(of_nat k :: rat) \<le> 10000000000" using assms of_nat_mono [of k 10000000000, where ?'a = rat] by simp
  then have X: "js_fin ?x = Fin (rnd64 ?x)" by (intro js_fin_53) simp
  have fl: "LADDER_FLOOR = Fin (rnd64 (101 / 100))" unfolding LADDER_FLOOR_def by (rule js_fin_53) simp
  consider (zero) "k = 0" | (low) "0 < k" "k < 10100" | (high) "10100 \<le> k" by linarith
  then show ?thesis
  proof cases
    case zero
    moreover have "js_fin 0 = Fin 0" using js_fin_int [of 0] by simp
    ultimately show ?thesis by (simp add: quoteOnLadder_def ladder_units_def js_le_def)
  next
    case low
    then have k1: "1 \<le> (of_nat k :: rat)" "(of_nat k :: rat) \<le> 10100"
      using of_nat_mono [of k 10100, where ?'a = rat] by (simp_all add: Suc_le_eq)
    have e: "\<bar>rnd64 ?x - ?x\<bar> \<le> 2 / 9007199254740992" by (rule rnd64_abs_error) (use k1 in simp_all)
    have "1 / 10000 \<le> ?x" using k1 by simp
    then have pos: "1 / 100000 \<le> rnd64 ?x" using e by linarith
    have "floorToOddsDp (Fin (rnd64 ?x)) = js_fin ?x"
      by (rule floorToOddsDp_near) (use e pos low in linarith)+
    then show ?thesis using low pos price_lt_floor [OF assms]
      by (simp add: quoteOnLadder_def X fl js_le_def ladder_units_def ladder_unit_def)
  next
    case high
    note b = ladder_unit_bounds [OF high assms]
    have nine: "(10 :: rat) ^ 9 = 1000000000" by simp
    have pos: "0 < rnd64 ?x" using price_lt [OF assms, of 1] high by simp
    have "floorToOddsDp (js_mul (Fin (of_nat (k div ladder_unit k))) (Fin (rnd64 (of_nat (ladder_unit k) / 10000))))
        = js_fin (of_nat (ladder_units k) / 10000)"
    proof (cases "k < 500000")
      case True
      then show ?thesis unfolding ladder_units_def using band_fraction [OF high True b(1) b(4)] by simp
    next
      case False
      have "\<exists>c. 0 < c \<and> ladder_unit k = 10000 * c \<and> 10000 * c \<le> k \<and> c \<le> 5"
        using b(5) False by (auto simp: ladder_unit_def)
      then obtain c where c: "0 < c" "ladder_unit k = 10000 * c" "10000 * c \<le> k" "c \<le> 5" by blast
      have "rnd64 (of_nat (ladder_unit k) / 10000) = of_nat c"
        using dbl.rnd_int [of "int c"] c by simp
      then show ?thesis using band_whole [of k c] False assms c by (simp add: ladder_units_def)
    qed
    then show ?thesis using pos high price_lt_floor [OF assms]
      by (simp add: quoteOnLadder_def X fl js_le_def Let_def ladderStep_unit [OF high assms]
          rungs_exact [OF high assms b(1-3), unfolded nine] del: js_div.simps js_mul.simps js_add.simps js_floor.simps)
  qed
qed

lemma ladder_units_le: "ladder_units k \<le> k"
  by (simp add: ladder_units_def)

lemma ladder_unit_stable: "ladder_unit (ladder_units k) = ladder_unit k"
proof -
  have b: "c \<le> ladder_units k" if le: "c \<le> k" and dv: "ladder_unit k dvd c" for c
  proof -
    obtain d where d: "c = ladder_unit k * d" using dv by blast
    have "0 < ladder_unit k" by (simp add: ladder_unit_def)
    then have "d \<le> k div ladder_unit k" using le d
      by (simp add: less_eq_div_iff_mult_less_eq mult.commute)
    then show ?thesis by (simp add: d ladder_units_def)
  qed
  note le = ladder_units_le [of k]
  consider "k < 10100" | "10100 \<le> k" "k < 100000" | "100000 \<le> k" "k < 200000"
    | "200000 \<le> k" "k < 500000" | "500000 \<le> k" "k < 1000000" | "1000000 \<le> k" by linarith
  then show ?thesis
  proof cases
    case 1
    with le show ?thesis by (simp add: ladder_unit_def)
  next
    case 2
    with le b [of 10100] show ?thesis by (simp add: ladder_unit_def)
  next
    case 3
    with le b [of 100000] show ?thesis by (simp add: ladder_unit_def)
  next
    case 4
    with le b [of 200000] show ?thesis by (simp add: ladder_unit_def)
  next
    case 5
    with le b [of 500000] show ?thesis by (simp add: ladder_unit_def)
  next
    case 6
    with le b [of 1000000] show ?thesis by (simp add: ladder_unit_def)
  qed
qed

lemma ladder_units_idem: "ladder_units (ladder_units k) = ladder_units k"
proof -
  have "ladder_units k div ladder_unit k = k div ladder_unit k"
    by (simp add: ladder_units_def ladder_unit_def)
  then show ?thesis by (simp add: ladder_units_def [of "ladder_units k"] ladder_unit_stable) (simp add: ladder_units_def)
qed

text \<open>C34: for every price the \<^verbatim>\<open>NUMERIC(10,4)\<close> column can hold, \<open>quoteOnLadder\<close> in binary64
  arithmetic is the integer ladder (the price rounded down to a multiple of 0.0001, 0.01, 0.1,
  0.5, 1 or 5 according to its band), it never lengthens the price, and quoting a quoted price
  changes nothing.\<close>

theorem quoteOnLadder_units:
  assumes "k \<le> 10000000000"
  shows "quoteOnLadder (js_fin (of_nat k / 10000)) = js_fin (of_nat (ladder_units k) / 10000)
    \<and> ladder_units k \<le> k
    \<and> quoteOnLadder (quoteOnLadder (js_fin (of_nat k / 10000))) = quoteOnLadder (js_fin (of_nat k / 10000))"
  using quote_grid [OF assms] quote_grid [of "ladder_units k"] ladder_units_le [of k] assms
  by (simp add: ladder_units_idem)

theorem quoteOnLadder_units_witness:
  "quoteOnLadder (js_fin (of_nat 237000 / 10000)) = js_fin (of_nat 235000 / 10000)"
  using quoteOnLadder_units [of 237000] by (simp add: ladder_units_def ladder_unit_def)

end
