(* ===== verification/Products.thy ===== *)
theory Products
  imports Js_Value Transactions
begin

text \<open>
  packages/types/src/products.ts and combi-boost.ts: the prices of the Tiple
  and Tippot products in binary64 arithmetic, operation by operation in the
  order of the code, and the combi-boost tier a set of leg odds reaches.
\<close>

section \<open>Shared helpers\<close>

definition js_one :: jsnum where "js_one = Fin 1"

definition floorToDecimalsString :: "jsnum \<Rightarrow> nat \<Rightarrow> string" where
  "floorToDecimalsString x decimals =
    (if \<not> js_isFinite x \<or> js_lt x (Fin 0) then js_toFixed decimals (Fin 0)
     else let scale = Fin (10 ^ decimals); scaled = js_floor (js_mul x scale) in
       js_toFixed decimals (js_div scaled scale))"

definition parseProbability :: "string \<Rightarrow> failure + jsnum" where
  "parseProbability s =
    (if s = [] then Inl (InternalError ''probability is empty'')
     else let f = js_Number s in
       if \<not> js_isFinite f \<or> js_lt f (Fin 0) \<or> js_lt (Fin 1) f
       then Inl (InternalError (''probability out of range: '' @ s)) else Inr f)"

text \<open>\<open>p > 0 \<and> p < 1\<close>\<close>

definition in_unit :: "jsnum \<Rightarrow> bool" where
  "in_unit p \<longleftrightarrow> js_lt (Fin 0) p \<and> js_lt p (Fin 1)"

definition margin_divisor :: "int \<Rightarrow> jsnum" where
  "margin_divisor marginBp = js_add js_one (js_div (js_int marginBp) (Fin 10000))"

section \<open>Tiple\<close>

record tiple_quote =
  offeredOdds :: string
  fairProbability :: jsnum
  tiple_marginBp :: int
  tiple_n :: nat

definition prod_lose :: "jsnum list \<Rightarrow> jsnum" where
  "prod_lose ps = foldl (\<lambda>acc p. js_mul acc (js_sub js_one p)) js_one ps"

definition priceTiple :: "jsnum list \<Rightarrow> int \<Rightarrow> failure + tiple_quote" where
  "priceTiple probabilities marginBp =
    (let n = length probabilities in
     if n < 2 then Inl (InternalError ''tiple needs 2 legs'')
     else if marginBp < 0 \<or> marginBp > 200000 then Inl (InternalError ''margin_bp out of range'')
     else if \<not> list_all in_unit probabilities then Inl (InternalError ''tiple needs each prob in (0,1)'')
     else let fairProb = js_sub js_one (prod_lose probabilities) in
       if js_le fairProb (Fin 0) then Inl (InternalError ''tiple fair probability is 0'')
       else let fairOdds = js_div js_one fairProb;
                offered = js_div fairOdds (margin_divisor marginBp) in
         Inr \<lparr>offeredOdds = floorToDecimalsString offered 2, fairProbability = fairProb,
              tiple_marginBp = marginBp, tiple_n = n\<rparr>)"

section \<open>Tippot\<close>

record tippot_tier =
  tier_k :: nat
  pAtLeastK :: string
  tier_multiplier :: string

record tippot_quote =
  tippot_marginBp :: int
  tippot_n :: nat
  tiers :: "tippot_tier list"

text \<open>One step of the Poisson-binomial recurrence: leg \<open>i\<close> with probability \<open>p\<close>.\<close>

definition pmf_step :: "nat \<Rightarrow> nat \<Rightarrow> jsnum \<Rightarrow> jsnum list \<Rightarrow> jsnum list" where
  "pmf_step n i p pmf =
    map (\<lambda>k. if k \<le> i + 1 then
        js_add (if k \<le> i then js_mul (pmf ! k) (js_sub js_one p) else Fin 0)
               (if k > 0 then js_mul (pmf ! (k - 1)) p else Fin 0)
      else Fin 0) [0..<n + 1]"

definition poisson_binomial :: "jsnum list \<Rightarrow> jsnum list" where
  "poisson_binomial ps = (let n = length ps in
     foldl (\<lambda>pmf (i, p). pmf_step n i p pmf) (Fin 1 # replicate n (Fin 0)) (enumerate 0 ps))"

text \<open>\<open>pAtLeast[1..n]\<close>: suffix sums, accumulated from the top.\<close>

fun suffix_sums :: "jsnum list \<Rightarrow> jsnum list" where
  "suffix_sums [] = []"
| "suffix_sums (x # xs) =
     (let r = suffix_sums xs in js_add (case r of [] \<Rightarrow> Fin 0 | y # _ \<Rightarrow> y) x # r)"

text \<open>The tier loop: \<open>k\<close>, the running multiplier, the remaining \<open>P(\<ge>k)\<close>.\<close>

fun tier_loop :: "nat \<Rightarrow> jsnum \<Rightarrow> nat \<Rightarrow> jsnum \<Rightarrow> jsnum list \<Rightarrow> failure + tippot_tier list" where
  "tier_loop n divisor k cumulative [] = Inr []"
| "tier_loop n divisor k cumulative (pk # pks) =
    (if js_le pk (Fin 0) then Inl (InternalError ''tippot tier is unreachable'')
     else let tierOffered = js_div (js_div (js_div js_one (js_int (int n))) pk) divisor;
              cumulative' = js_add cumulative tierOffered;
              tier = \<lparr>tier_k = k, pAtLeastK = js_toFixed 6 pk,
                      tier_multiplier = floorToDecimalsString cumulative' 4\<rparr> in
       case tier_loop n divisor (k + 1) cumulative' pks of
         Inl e \<Rightarrow> Inl e | Inr ts \<Rightarrow> Inr (tier # ts))"

definition priceTippot :: "jsnum list \<Rightarrow> int \<Rightarrow> failure + tippot_quote" where
  "priceTippot probabilities marginBp =
    (let n = length probabilities in
     if n < 2 then Inl (InternalError ''tippot needs 2 legs'')
     else if marginBp < 0 \<or> marginBp > 200000 then Inl (InternalError ''margin_bp out of range'')
     else if \<not> list_all in_unit probabilities then Inl (InternalError ''tippot needs each prob in (0,1)'')
     else case tier_loop n (margin_divisor marginBp) 1 (Fin 0)
                 (suffix_sums (tl (poisson_binomial probabilities))) of
       Inl e \<Rightarrow> Inl e
     | Inr ts \<Rightarrow> Inr \<lparr>tippot_marginBp = marginBp, tippot_n = n, tiers = ts\<rparr>)"

section \<open>Combi boost\<close>

record boost_tier =
  minLegs :: int
  boost_multiplier :: jsnum
  boost_label :: string

record boost_config =
  boost_enabled :: bool
  minOdds :: jsnum
  boost_tiers :: "boost_tier list"

definition COMBI_BOOST_MIN_ODDS :: jsnum where
  "COMBI_BOOST_MIN_ODDS = js_fin (3 / 2)"

definition COMBI_BOOST_TIERS :: "boost_tier list" where
  "COMBI_BOOST_TIERS =
    [\<lparr>minLegs = 2, boost_multiplier = js_fin (103 / 100), boost_label = ''x1.03''\<rparr>,
     \<lparr>minLegs = 4, boost_multiplier = js_fin (105 / 100), boost_label = ''x1.05''\<rparr>,
     \<lparr>minLegs = 6, boost_multiplier = js_fin (108 / 100), boost_label = ''x1.08''\<rparr>,
     \<lparr>minLegs = 8, boost_multiplier = js_fin (112 / 100), boost_label = ''x1.12''\<rparr>]"

definition COMBI_BOOST_DEFAULT_CONFIG :: boost_config where
  "COMBI_BOOST_DEFAULT_CONFIG =
    \<lparr>boost_enabled = True, minOdds = COMBI_BOOST_MIN_ODDS, boost_tiers = COMBI_BOOST_TIERS\<rparr>"

definition formatBoostLabel :: "jsnum \<Rightarrow> string" where
  "formatBoostLabel multiplier = ''x'' @ js_toFixed 2 multiplier"

record boost_state =
  eligibleLegCount :: int
  multiplier :: jsnum
  currentTier :: "boost_tier option"
  nextTier :: "boost_tier option"
  legsToNextTier :: int

definition parseLegOdds :: "string list \<Rightarrow> jsnum list" where
  "parseLegOdds raw = filter js_isFinite (map js_parseFloat raw)"

definition boost_tier_step :: "int \<Rightarrow> boost_tier option \<times> boost_tier option \<Rightarrow> boost_tier \<Rightarrow>
    boost_tier option \<times> boost_tier option" where
  "boost_tier_step eligible cn tier = (case cn of (currentT, nextT) \<Rightarrow>
     if minLegs tier \<le> eligible then (Some tier, nextT)
     else if nextT = None then (currentT, Some tier) else (currentT, nextT))"

definition computeCombiBoost :: "string list \<Rightarrow> boost_config \<Rightarrow> boost_state" where
  "computeCombiBoost legOdds config =
    (if \<not> boost_enabled config then
       \<lparr>eligibleLegCount = 0, multiplier = Fin 1, currentTier = None, nextTier = None, legsToNextTier = 0\<rparr>
     else let odds = parseLegOdds legOdds;
              eligible = int (length (filter (\<lambda>o'. js_le (minOdds config) o') odds));
              (currentT, nextT) = foldl (boost_tier_step eligible) (None, None) (boost_tiers config) in
       \<lparr>eligibleLegCount = eligible,
        multiplier = (case currentT of None \<Rightarrow> Fin 1 | Some t \<Rightarrow> boost_multiplier t),
        currentTier = currentT, nextTier = nextT,
        legsToNextTier = (case nextT of None \<Rightarrow> 0 | Some t \<Rightarrow> max 0 (minLegs t - eligible))\<rparr>)"

section \<open>The tier a count reaches\<close>

text \<open>On a table with increasing thresholds the loop splits it at the number of eligible legs.\<close>

lemma boost_tier_step_eq:
  "boost_tier_step e (c, n) t = (if minLegs t \<le> e then (Some t, n)
     else if n = None then (c, Some t) else (c, n))"
  by (simp add: boost_tier_step_def)

lemma boost_loop_split:
  assumes "sorted_wrt (\<lambda>s t. minLegs s < minLegs t) ts"
  shows "foldl (boost_tier_step e) (c, n) ts =
    ((case filter (\<lambda>t. minLegs t \<le> e) ts of [] \<Rightarrow> c | r \<Rightarrow> Some (last r)),
     (case n of Some t \<Rightarrow> Some t | None \<Rightarrow> select_one (\<lambda>t. e < minLegs t) ts))"
  using assms
proof (induction ts arbitrary: c n)
  case (Cons t ts)
  have IH: "foldl (boost_tier_step e) (c', n') ts =
    ((case filter (\<lambda>t. minLegs t \<le> e) ts of [] \<Rightarrow> c' | r \<Rightarrow> Some (last r)),
     (case n' of Some t \<Rightarrow> Some t | None \<Rightarrow> select_one (\<lambda>t. e < minLegs t) ts))" for c' n'
    by (rule Cons.IH) (use Cons.prems in simp)
  show ?case
    by (cases "minLegs t \<le> e"; cases n) (simp_all add: boost_tier_step_eq IH split: list.splits)
qed (simp split: option.splits)

text \<open>With an increasing tier table the boost is exactly the last tier whose threshold the
  eligible legs reach (none: multiplier 1), the next tier is the first one out of reach, and the
  legs still missing are positive and just enough for it.\<close>

theorem combi_boost_tier:
  assumes "boost_enabled cfg" and "sorted_wrt (\<lambda>s t. minLegs s < minLegs t) (boost_tiers cfg)"
  shows "let s = computeCombiBoost legs cfg; reached = filter (\<lambda>t. minLegs t \<le> eligibleLegCount s) (boost_tiers cfg);
      missed = filter (\<lambda>t. eligibleLegCount s < minLegs t) (boost_tiers cfg) in
    currentTier s = (if reached = [] then None else Some (last reached)) \<and>
    multiplier s = (if reached = [] then Fin 1 else boost_multiplier (last reached)) \<and>
    nextTier s = (if missed = [] then None else Some (hd missed)) \<and>
    legsToNextTier s = (if missed = [] then 0 else minLegs (hd missed) - eligibleLegCount s) \<and>
    (missed \<noteq> [] \<longrightarrow> 0 < legsToNextTier s)"
proof -
  define e where "e = int (length (filter (\<lambda>o'. js_le (minOdds cfg) o') (parseLegOdds legs)))"
  have sel: "select_one P ts = (if filter P ts = [] then None else Some (hd (filter P ts)))" for P :: "boost_tier \<Rightarrow> bool" and ts
    by (induction ts) auto
  have hd: "e < minLegs (hd (filter (\<lambda>t. e < minLegs t) (boost_tiers cfg)))"
    if "filter (\<lambda>t. e < minLegs t) (boost_tiers cfg) \<noteq> []"
    using hd_in_set [OF that] by simp
  show ?thesis
    using hd assms(1)
    by (simp add: computeCombiBoost_def Let_def e_def [symmetric] boost_loop_split [OF assms(2)] sel
        split: list.splits)
qed

theorem combi_boost_tier_witness:
  "currentTier (computeCombiBoost [''2'', ''3'', ''1'']
     \<lparr>boost_enabled = True, minOdds = Fin 2, boost_tiers = COMBI_BOOST_TIERS\<rparr>) = Some (hd COMBI_BOOST_TIERS)"
proof -
  let ?cfg = "\<lparr>boost_enabled = True, minOdds = Fin 2, boost_tiers = COMBI_BOOST_TIERS\<rparr>"
  have n: "parseLegOdds [''2'', ''3'', ''1''] = [Fin 2, Fin 3, Fin 1]"
    using js_fin_int [of 1] js_fin_int [of 2] js_fin_int [of 3]
    by (simp add: parseLegOdds_def js_parseFloat_def split_sign_def dec_value_def is_digit_def
        parse_nat_def digit_val_def)
  have "foldl (boost_tier_step e) (None, None) ts = (fst (foldl (boost_tier_step e) (None, None) ts),
      snd (foldl (boost_tier_step e) (None, None) ts))" for e ts by simp
  then have "eligibleLegCount (computeCombiBoost [''2'', ''3'', ''1''] ?cfg) = 2"
    by (simp add: computeCombiBoost_def n js_le_def Let_def split: prod.splits)
  then show ?thesis
    using combi_boost_tier [of ?cfg "[''2'', ''3'', ''1'']"]
    by (simp add: COMBI_BOOST_TIERS_def Let_def)
qed

end
