(* ===== verification/Money.thy ===== *)
theory Money
  imports Js_Value Transactions
begin

text \<open>
  packages/types/src/money.ts: decimal text to micro units and back, the
  display roundings, and the multiplication of an amount by decimal odds.  A
  thrown \<open>Error\<close> is an \<open>InternalError\<close>.
\<close>

definition MICRO_PER_UNIT :: int where
  "MICRO_PER_UNIT = 1000000"

text \<open>\<^verbatim>\<open>/^-?\d+(\.\d+)?$/\<close> on text without its sign.\<close>

definition is_unsigned_decimal :: "string \<Rightarrow> bool" where
  "is_unsigned_decimal u \<longleftrightarrow> (let r = dropWhile is_digit u in
     takeWhile is_digit u \<noteq> [] \<and>
     (case r of [] \<Rightarrow> True | c # t \<Rightarrow> c = CHR ''.'' \<and> is_digits t))"

text \<open>\<open>toMicro\<close> on a decimal string: the fraction is cut (not rounded) after six digits.\<close>

definition toMicro :: "string \<Rightarrow> failure + micro" where
  "toMicro asString =
    (let negative = (case asString of [] \<Rightarrow> False | c # _ \<Rightarrow> c = CHR ''-'');
         unsigned = (if negative then tl asString else asString) in
     if \<not> is_unsigned_decimal unsigned then Inl (InternalError (''invalid decimal: '' @ asString))
     else
       let whole = takeWhile is_digit unsigned;
           frc = drop 1 (dropWhile is_digit unsigned);
           paddedFrac = take 6 (frc @ ''000000'');
           combined = big_int whole * MICRO_PER_UNIT + big_int paddedFrac in
       Inr (if negative then - combined else combined))"

definition fromMicro :: "micro \<Rightarrow> string" where
  "fromMicro value =
    (let negative = value < 0; a = (if negative then - value else value);
         whole = a div MICRO_PER_UNIT; frc = a mod MICRO_PER_UNIT;
         fracStr = strip_zeros (pad_left 6 (show_int frc));
         body = (if length fracStr > 0 then show_int whole @ ''.'' @ fracStr else show_int whole) in
     if negative then ''-'' @ body else body)"

definition formatMicro :: "bool \<Rightarrow> micro \<Rightarrow> string" where
  "formatMicro sign m = (let str = fromMicro m in
     if sign \<and> \<not> (case str of [] \<Rightarrow> False | c # _ \<Rightarrow> c = CHR ''-'') then ''+'' @ str else str)"

text \<open>The rounded quantity behind the money display: half away from zero at \<open>decimals\<close> places.\<close>

definition money_rounded :: "nat \<Rightarrow> int \<Rightarrow> int" where
  "money_rounded decimals a = (let dropPow = 6 - decimals; divisor = 10 ^ dropPow; half = divisor div 2 in
     if dropPow = 0 then a else (a + half) div divisor)"

definition fromMicroMoney :: "bool \<Rightarrow> int option \<Rightarrow> micro \<Rightarrow> string" where
  "fromMicroMoney sign decimals0 value =
    (let decimals = nat (max 0 (min 6 (case decimals0 of None \<Rightarrow> 2 | Some d \<Rightarrow> d)));
         negative = value < 0; a = (if negative then - value else value);
         rounded = money_rounded decimals a; scale = 10 ^ decimals;
         whole = rounded div scale; frc = rounded mod scale;
         body = (if decimals = 0 then show_int whole
                 else show_int whole @ ''.'' @ pad_left decimals (show_int frc)) in
     if negative then ''-'' @ body else if sign then ''+'' @ body else body)"

text \<open>\<open>multiplyMicroByOdds\<close>: BigInt division truncates toward zero.\<close>

definition big_div :: "int \<Rightarrow> int \<Rightarrow> int" where
  "big_div a b = (if (a < 0) = (b < 0) then \<bar>a\<bar> div \<bar>b\<bar> else - (\<bar>a\<bar> div \<bar>b\<bar>))"

definition multiplyMicroByOdds :: "micro \<Rightarrow> jsnum \<Rightarrow> failure + micro" where
  "multiplyMicroByOdds amountMicro oddsNum =
    (if \<not> js_isFinite oddsNum \<or> js_lt oddsNum (Fin 0) then Inl (InternalError ''invalid odds'')
     else case js_BigInt (js_round (js_mul oddsNum (Fin 10000))) of
       None \<Rightarrow> Inl (InternalError ''RangeError'')
     | Some scaled \<Rightarrow> Inr (big_div (amountMicro * scaled) 10000))"

definition multiplyMicroByOddsText :: "micro \<Rightarrow> string \<Rightarrow> failure + micro" where
  "multiplyMicroByOddsText amountMicro odds = multiplyMicroByOdds amountMicro (js_Number odds)"

section \<open>Text lemmas\<close>

lemma is_digit_pad [simp]: "list_all is_digit (pad_left n s) \<longleftrightarrow> list_all is_digit s"
  by (auto simp: pad_left_def is_digit_def list_all_iff)

lemma parse_nat_zeros [simp]: "parse_nat (replicate n (CHR ''0'') @ s) = parse_nat s"
  by (induction n) (simp_all add: parse_nat_def digit_val_def)

lemma parse_nat_pad [simp]: "parse_nat (pad_left n s) = parse_nat s"
  by (simp add: pad_left_def)

lemma parse_nat_append: "parse_nat (s @ t) = parse_nat s * 10 ^ length t + parse_nat t"
proof (induction t rule: rev_induct)
  case (snoc c t)
  have "parse_nat (s @ t @ [c]) = 10 * parse_nat (s @ t) + digit_val c"
    using parse_nat_snoc [of "s @ t" c] by simp
  with snoc show ?case by (simp add: parse_nat_snoc algebra_simps)
qed (simp add: parse_nat_def)

lemma length_show_nat_le: "n < 10 ^ d \<Longrightarrow> 0 < d \<Longrightarrow> length (show_nat n) \<le> d"
proof (induction n arbitrary: d rule: show_nat.induct)
  case (1 n)
  show ?case
  proof (cases "n < 10")
    case True
    then show ?thesis using "1.prems" by (subst show_nat.simps) simp
  next
    case False
    then have "d \<noteq> 1" using "1.prems" by auto
    then obtain d' where d: "d = Suc d'" "0 < d'" using "1.prems" by (cases d) auto
    have "n div 10 < 10 ^ d'" using "1.prems"(1) d(1) by (simp add: less_mult_imp_div_less mult.commute)
    then have "length (show_nat (n div 10)) \<le> d'" using "1.IH" False d(2) by blast
    then show ?thesis using False d(1) by (subst show_nat.simps) simp
  qed
qed

lemma length_pad_left: "length s \<le> n \<Longrightarrow> length (pad_left n s) = n"
  by (simp add: pad_left_def)

lemma strip_zeros_split: "\<exists>n. s = strip_zeros s @ replicate n (CHR ''0'')"
proof -
  let ?t = "rev s"
  have "?t = takeWhile (\<lambda>c. c = CHR ''0'') ?t @ dropWhile (\<lambda>c. c = CHR ''0'') ?t" by simp
  moreover have "takeWhile (\<lambda>c. c = CHR ''0'') ?t =
      replicate (length (takeWhile (\<lambda>c. c = CHR ''0'') ?t)) (CHR ''0'')"
    by (intro replicate_eqI) (auto dest: set_takeWhileD)
  ultimately have "s = strip_zeros s @ rev (replicate (length (takeWhile (\<lambda>c. c = CHR ''0'') ?t)) (CHR ''0''))"
    by (metis rev_append rev_rev_ident strip_zeros_def)
  then show ?thesis by auto
qed

lemma strip_zeros_digits: "list_all is_digit s \<Longrightarrow> list_all is_digit (strip_zeros s)"
  using strip_zeros_split [of s] by (metis list_all_append)

text \<open>Padding the stripped fraction back to its width restores it.\<close>

lemma strip_zeros_pad:
  assumes "length s = 6"
  shows "take 6 (strip_zeros s @ ''000000'') = s"
proof -
  obtain n where s: "s = strip_zeros s @ replicate n (CHR ''0'')" using strip_zeros_split by blast
  then have n: "length (strip_zeros s) + n = 6"
    by (metis assms length_append length_replicate)
  have six: "''000000'' = replicate 6 (CHR ''0'')" by (simp add: numeral_eq_Suc)
  have "take 6 (strip_zeros s @ ''000000'') = strip_zeros s @ replicate n (CHR ''0'')"
    unfolding six using n by (simp add: take_replicate min_def)
  with s show ?thesis by simp
qed

lemma is_digit_show_nat: "list_all is_digit (show_nat n)"
  using is_digits_show_nat [of n] by (simp add: is_digits_def)

lemma not_is_digit_dot [simp]: "\<not> is_digit (CHR ''.'')" "\<not> is_digit (CHR ''-'')"
  by (simp_all add: is_digit_def)

lemma digit_span:
  assumes "list_all is_digit w"
  shows "takeWhile is_digit (w @ CHR ''.'' # t) = w" "dropWhile is_digit (w @ CHR ''.'' # t) = CHR ''.'' # t"
    "takeWhile is_digit w = w" "dropWhile is_digit w = []"
  using assms by (induction w) auto

lemma digits_head_not_minus:
  assumes "is_digits w"
  shows "(case w @ t of [] \<Rightarrow> False | c # _ \<Rightarrow> c = CHR ''-'') = False"
  using assms by (cases w) (auto simp: is_digits_def)

text \<open>What \<open>fromMicro\<close> prints for an amount without its sign.\<close>

definition micro_body :: "nat \<Rightarrow> string" where
  "micro_body a = (let fracStr = strip_zeros (pad_left 6 (show_nat (a mod 1000000))) in
     if length fracStr > 0 then show_nat (a div 1000000) @ ''.'' @ fracStr else show_nat (a div 1000000))"

lemma micro_parts:
  "int a div 1000000 = int (a div 1000000)" "int a mod 1000000 = int (a mod 1000000)"
  by (simp_all add: zdiv_int zmod_int)

lemma fromMicro_body:
  "fromMicro (int a) = micro_body a"
  "0 < a \<Longrightarrow> fromMicro (- int a) = CHR ''-'' # micro_body a"
  by (simp_all add: fromMicro_def micro_body_def Let_def MICRO_PER_UNIT_def micro_parts show_int_def)

lemma pad_show_frac:
  "length (pad_left 6 (show_nat (a mod 1000000))) = 6"
  "list_all is_digit (pad_left 6 (show_nat (a mod 1000000)))"
  by (rule length_pad_left, rule length_show_nat_le) (simp_all add: is_digit_show_nat)

lemma toMicro_body:
  "is_unsigned_decimal (micro_body a)"
  "big_int (takeWhile is_digit (micro_body a)) * MICRO_PER_UNIT
     + big_int (take 6 (drop 1 (dropWhile is_digit (micro_body a)) @ ''000000'')) = int a"
proof -
  let ?p = "pad_left 6 (show_nat (a mod 1000000))"
  have d: "list_all is_digit (strip_zeros ?p)" by (rule strip_zeros_digits, rule pad_show_frac)
  note w = is_digit_show_nat [of "a div 1000000"]
  have f: "take 6 (strip_zeros ?p @ ''000000'') = ?p" by (rule strip_zeros_pad, rule pad_show_frac)
  have val: "big_int ?p = int (a mod 1000000)" "big_int (show_nat (a div 1000000)) = int (a div 1000000)"
    by (simp_all add: big_int_def)
  have sum: "int (a div 1000000) * 1000000 + int (a mod 1000000) = int a"
    by (metis div_mult_mod_eq of_nat_add of_nat_mult of_nat_numeral)
  show "is_unsigned_decimal (micro_body a)"
    using d by (auto simp: is_unsigned_decimal_def micro_body_def Let_def digit_span [OF w] is_digits_def)
  show "big_int (takeWhile is_digit (micro_body a)) * MICRO_PER_UNIT
     + big_int (take 6 (drop 1 (dropWhile is_digit (micro_body a)) @ ''000000'')) = int a"
  proof (cases "strip_zeros ?p = []")
    case True
    then have "''000000'' = ?p" using f by simp
    then have "big_int ''000000'' = int (a mod 1000000)" using val(1) by simp
    then show ?thesis using True val(2) sum
      by (simp add: micro_body_def digit_span [OF w] MICRO_PER_UNIT_def)
  next
    case False
    then show ?thesis using f val sum
      by (simp add: micro_body_def Let_def digit_span [OF w] MICRO_PER_UNIT_def)
  qed
qed

lemma micro_body_head: "(case micro_body a of [] \<Rightarrow> False | c # _ \<Rightarrow> c = CHR ''-'') = False"
  using digits_head_not_minus [OF is_digits_show_nat, of "a div 1000000"]
    digits_head_not_minus [OF is_digits_show_nat, of "a div 1000000" "[]"]
  by (simp add: micro_body_def Let_def)

text \<open>C37: printing an amount of micro units and reading the text back gives the amount,
  for every amount, negative ones included.\<close>

theorem toMicro_fromMicro: "toMicro (fromMicro m) = Inr m"
proof (cases m rule: int_cases3)
  case zero
  then show ?thesis using toMicro_body [of 0] fromMicro_body(1) [of 0]
    by (simp add: toMicro_def Let_def micro_body_head)
next
  case (pos n)
  then show ?thesis using toMicro_body [of n]
    by (simp add: fromMicro_body toMicro_def Let_def micro_body_head)
next
  case (neg n)
  then show ?thesis using toMicro_body [of n]
    by (simp add: fromMicro_body toMicro_def Let_def)
qed

lemma big_div_nonneg: "0 \<le> a \<Longrightarrow> 0 < b \<Longrightarrow> big_div a b = a div b"
  by (auto simp: big_div_def)

lemma js_BigInt_nat [simp]: "js_BigInt (Fin (of_nat k)) = Some (int k)"
  by simp

text \<open>C35: an amount multiplied by odds published with four decimals \<open>k / 10000\<close> (read from
  their text as a double) is the exact product rounded down: the two floating-point roundings
  never show, so a payout is neither over- nor under-credited.\<close>

theorem multiplyMicroByOdds_exact:
  assumes "0 < k" and "k \<le> 2 ^ 50" and "0 \<le> amount"
  shows "multiplyMicroByOdds amount (js_fin (of_nat k / 10000)) = Inr (amount * int k div 10000)"
proof -
  let ?o = "js_fin (of_nat k / 10000)"
  have r: "js_round (js_mul ?o (Fin 10000)) = Fin (of_nat k)"
    using js_round_scaled [of k 4] assms by simp
  have q: "\<bar>of_nat k / 10000 :: rat\<bar> \<le> 2 ^ 53"
  proof -
    have "(of_nat k :: rat) \<le> of_nat (2 ^ 50)" using assms(2) by (simp only: of_nat_le_iff)
    then show ?thesis by simp
  qed
  have fin: "?o = Fin (rnd64 (of_nat k / 10000))" by (rule js_fin_53 [OF q])
  have "0 \<le> rnd64 (of_nat k / 10000 :: rat)" by (rule dbl.rnd_nonneg) simp
  then show ?thesis using r assms(3)
    by (simp add: multiplyMicroByOdds_def fin big_div_nonneg)
qed

theorem multiplyMicroByOdds_exact_witness:
  "multiplyMicroByOdds 10000000 (js_fin (of_nat 18733 / 10000)) = Inr 18733000"
  using multiplyMicroByOdds_exact [of 18733 10000000] by simp

end
