(* ===== verification/Slot_Rules.thy ===== *)
theory Slot_Rules
  imports Money Database
begin

text \<open>
  packages/types/src/slotzilla.ts: the pure rules of the SlotZilla game.  Which
  symbol an event contributes, which window a clock reading falls in, which
  reel a window shows, which line three reels form, what it pays, and the
  calibrator that fits a paytable to a return target.  Clock readings, windows
  and multipliers are integers (integer columns); a quotient of such numbers
  rounded down or up is exact.  Frequencies are binary64 numbers.
\<close>

section \<open>Symbols\<close>

datatype slot_symbol = P3 | P2 | FT | MISS | FOUL | NONE

definition SLOT_SYMBOLS :: "slot_symbol list" where
  "SLOT_SYMBOLS = [P3, P2, FT, MISS, FOUL, NONE]"

fun SYMBOL_RANK :: "slot_symbol \<Rightarrow> nat" where
  "SYMBOL_RANK P3 = 6"
| "SYMBOL_RANK P2 = 5"
| "SYMBOL_RANK FT = 4"
| "SYMBOL_RANK MISS = 3"
| "SYMBOL_RANK FOUL = 2"
| "SYMBOL_RANK NONE = 1"

fun symbol_text :: "slot_symbol \<Rightarrow> string" where
  "symbol_text P3 = ''P3''"
| "symbol_text P2 = ''P2''"
| "symbol_text FT = ''FT''"
| "symbol_text MISS = ''MISS''"
| "symbol_text FOUL = ''FOUL''"
| "symbol_text NONE = ''NONE''"

text \<open>\<open>isSlotSymbol\<close> narrows text to a symbol.\<close>

definition isSlotSymbol :: "string \<Rightarrow> slot_symbol option" where
  "isSlotSymbol v = select_one (\<lambda>s. symbol_text s = v) SLOT_SYMBOLS"

definition symbolForEvent :: "string \<Rightarrow> int option \<Rightarrow> slot_symbol option" where
  "symbolForEvent ty points =
    (if ty = ''goal'' then
       (if points = Some 3 then Some P3 else if points = Some 2 then Some P2
        else if points = Some 1 then Some FT else None)
     else if ty = ''attempt_missed'' then Some MISS
     else if ty = ''foul'' then Some FOUL
     else None)"

section \<open>Windows and rounds\<close>

definition WINDOW_SECONDS :: int where "WINDOW_SECONDS = 5"
definition ROUND_WINDOWS :: int where "ROUND_WINDOWS = 3"
definition ROUND_SECONDS :: int where "ROUND_SECONDS = WINDOW_SECONDS * ROUND_WINDOWS"

definition windowStartOf :: "int \<Rightarrow> int" where
  "windowStartOf clockSeconds = clockSeconds div WINDOW_SECONDS * WINDOW_SECONDS"

definition firstWindowFor :: "int \<Rightarrow> int \<Rightarrow> int" where
  "firstWindowFor clockSeconds leadSeconds =
    (let earliest = clockSeconds + leadSeconds in - (- earliest div WINDOW_SECONDS) * WINDOW_SECONDS)"

definition roundWindows :: "int \<Rightarrow> int list" where
  "roundWindows windowFrom = [windowFrom, windowFrom + WINDOW_SECONDS, windowFrom + 2 * WINDOW_SECONDS]"

definition roundEnd :: "int \<Rightarrow> int" where
  "roundEnd windowFrom = windowFrom + ROUND_SECONDS"

definition formatMatchClock :: "int \<Rightarrow> string" where
  "formatMatchClock seconds = (let s = max 0 seconds; m = s div 60; r = s mod 60 in
     show_int m @ '':'' @ (if r < 10 then ''0'' else []) @ show_int r)"

section \<open>Period clock\<close>

definition PERIOD_SECONDS :: int where "PERIOD_SECONDS = 600"
definition OVERTIME_SECONDS :: int where "OVERTIME_SECONDS = 300"
definition REGULATION_PERIODS :: int where "REGULATION_PERIODS = 4"

record period_format =
  periodSeconds :: "int option"
  overtimeSeconds :: "int option"
  regulationPeriods :: "int option"

record period_clock =
  period :: int
  remaining :: int
  overtime :: bool

text \<open>A stated length counts when it is positive, FIBA's otherwise.\<close>

definition stated :: "int option \<Rightarrow> int \<Rightarrow> int" where
  "stated v d = (case v of Some x \<Rightarrow> if x > 0 then x else d | None \<Rightarrow> d)"

definition periodClock :: "int \<Rightarrow> int option \<Rightarrow> period_format option \<Rightarrow> period_clock" where
  "periodClock cumulativeSeconds feedPeriod fmt =
    (let s = max 0 cumulativeSeconds;
         periodLen = stated (Option.bind fmt periodSeconds) PERIOD_SECONDS;
         otLen = stated (Option.bind fmt overtimeSeconds) OVERTIME_SECONDS;
         periods = stated (Option.bind fmt regulationPeriods) REGULATION_PERIODS;
         regulation = periods * periodLen in
     if s \<ge> regulation then
       let intoOt = s - regulation; otIndex = intoOt div otLen; elapsed = intoOt - otIndex * otLen in
       \<lparr>period = (case feedPeriod of Some p \<Rightarrow> if p > periods then p else periods + 1 + otIndex
                  | None \<Rightarrow> periods + 1 + otIndex),
        remaining = max 0 (otLen - elapsed), overtime = True\<rparr>
     else
       let derived = s div periodLen + 1;
           per = (case feedPeriod of Some p \<Rightarrow> if p \<ge> 1 \<and> p \<le> periods then p else derived
                  | None \<Rightarrow> derived);
           elapsed = s - (per - 1) * periodLen in
       \<lparr>period = per, remaining = min periodLen (max 0 (periodLen - elapsed)), overtime = False\<rparr>)"

definition formatCountdown :: "int \<Rightarrow> int option \<Rightarrow> period_format option \<Rightarrow> string" where
  "formatCountdown cumulativeSeconds feedPeriod fmt =
     formatMatchClock (remaining (periodClock cumulativeSeconds feedPeriod fmt))"

section \<open>Reels\<close>

datatype slot_team = home | away

record reel_event =
  re_symbol :: "slot_symbol option"
  re_seconds :: int
  re_disabled :: bool
  re_team :: "slot_team option"
  re_eventId :: "string option"

record reel =
  r_symbol :: slot_symbol
  r_team :: "slot_team option"
  r_eventId :: "string option"

fun text_less :: "string \<Rightarrow> string \<Rightarrow> bool" where
  "text_less [] ys \<longleftrightarrow> ys \<noteq> []"
| "text_less (x # xs) [] \<longleftrightarrow> False"
| "text_less (x # xs) (y # ys) \<longleftrightarrow> (of_char x :: nat) < of_char y \<or> (x = y \<and> text_less xs ys)"

text \<open>An absent id and an empty one are both falsy.\<close>

definition no_id :: "string option \<Rightarrow> bool" where
  "no_id a \<longleftrightarrow> a = None \<or> a = Some []"

definition compareIds :: "string option \<Rightarrow> string option \<Rightarrow> int" where
  "compareIds a b =
    (if no_id a \<and> no_id b then 0
     else if no_id a then 1
     else if no_id b then - 1
     else if length (the a) \<noteq> length (the b) then int (length (the a)) - int (length (the b))
     else if text_less (the a) (the b) then - 1
     else if text_less (the b) (the a) then 1 else 0)"

definition in_window :: "int \<Rightarrow> reel_event \<Rightarrow> bool" where
  "in_window windowFrom e \<longleftrightarrow> re_symbol e \<noteq> None \<and> \<not> re_disabled e
     \<and> windowFrom \<le> re_seconds e \<and> re_seconds e < windowFrom + WINDOW_SECONDS"

definition event_rank :: "reel_event \<Rightarrow> nat" where
  "event_rank e = (case re_symbol e of None \<Rightarrow> 0 | Some s \<Rightarrow> SYMBOL_RANK s)"

text \<open>The three nested comparisons of the loop body: does \<open>e\<close> replace \<open>best\<close>?\<close>

definition beats :: "reel_event \<Rightarrow> reel_event \<Rightarrow> bool" where
  "beats e best \<longleftrightarrow>
     (if event_rank e > event_rank best then True
      else if event_rank e = event_rank best then
        (if re_seconds e < re_seconds best then True
         else re_seconds e = re_seconds best \<and> compareIds (re_eventId e) (re_eventId best) < 0)
      else False)"

definition reel_step :: "int \<Rightarrow> reel_event option \<Rightarrow> reel_event \<Rightarrow> reel_event option" where
  "reel_step windowFrom best e =
    (if \<not> in_window windowFrom e then best
     else case best of None \<Rightarrow> Some e | Some b \<Rightarrow> if beats e b then Some e else Some b)"

definition reelForWindow :: "reel_event list \<Rightarrow> int \<Rightarrow> reel" where
  "reelForWindow events windowFrom =
    (case foldl (reel_step windowFrom) None events of
       None \<Rightarrow> \<lparr>r_symbol = NONE, r_team = None, r_eventId = None\<rparr>
     | Some b \<Rightarrow> \<lparr>r_symbol = the (re_symbol b), r_team = re_team b, r_eventId = re_eventId b\<rparr>)"

definition reelsForRound :: "reel_event list \<Rightarrow> int \<Rightarrow> reel list" where
  "reelsForRound events windowFrom = map (reelForWindow events) (roundWindows windowFrom)"

section \<open>Lines, paytable and money\<close>

datatype line_key = any2 slot_symbol | all3 slot_symbol

fun line_text :: "line_key \<Rightarrow> string" where
  "line_text (any2 s) = ''any2:'' @ symbol_text s"
| "line_text (all3 s) = ''all3:'' @ symbol_text s"

definition LINE_KEYS :: "line_key list" where
  "LINE_KEYS = concat (map (\<lambda>s. [all3 s, any2 s]) SLOT_SYMBOLS)"

definition isLineKey :: "string \<Rightarrow> line_key option" where
  "isLineKey v = select_one (\<lambda>k. line_text k = v) LINE_KEYS"

definition evaluateLine :: "slot_symbol \<Rightarrow> slot_symbol \<Rightarrow> slot_symbol \<Rightarrow> line_key option" where
  "evaluateLine a b c =
    (if a = b \<and> b = c then Some (all3 a)
     else if a = b then Some (any2 a)
     else if b = c then Some (any2 b)
     else if a = c then Some (any2 a)
     else None)"

type_synonym paytable_lines = "(line_key \<times> int) list"
type_synonym number_lines = "(line_key \<times> jsnum) list"

definition payoutMicro :: "micro \<Rightarrow> int \<Rightarrow> failure + micro" where
  "payoutMicro stakeMicro multiplierX100 =
    (if multiplierX100 < 0 then Inl (InternalError ''RangeError: multiplierX100'')
     else Inr (big_div (stakeMicro * multiplierX100) 100))"

definition maxMultiplierX100 :: "paytable_lines \<Rightarrow> int" where
  "maxMultiplierX100 lines = foldl (\<lambda>m v. if v > m then v else m) 0 (map snd lines)"

definition exposureMicro :: "micro \<Rightarrow> paytable_lines \<Rightarrow> micro \<Rightarrow> failure + micro" where
  "exposureMicro stakeMicro lines maxPayoutMicro =
    (case payoutMicro stakeMicro (maxMultiplierX100 lines) of
       Inl e \<Rightarrow> Inl e | Inr raw \<Rightarrow> Inr (if raw < maxPayoutMicro then raw else maxPayoutMicro))"

definition formatMultiplier :: "int \<Rightarrow> string" where
  "formatMultiplier x100 = (let whole = x100 div 100; frc = x100 mod 100 in
     if frc = 0 then show_int whole
     else let f = (if frc < 10 then ''0'' @ show_int frc else show_int frc) in
       show_int whole @ ''.'' @ (if last f = CHR ''0'' then butlast f else f))"

definition DEFAULT_PAYTABLE_LINES :: paytable_lines where
  "DEFAULT_PAYTABLE_LINES =
    [(any2 P3, 3500), (all3 P3, 50000), (any2 P2, 1800), (all3 P2, 20000), (any2 FT, 2200),
     (all3 FT, 25000), (any2 MISS, 900), (all3 MISS, 5500), (any2 FOUL, 500), (all3 FOUL, 1800),
     (any2 NONE, 50), (all3 NONE, 100)]"

definition FIXED_LINES :: "line_key list" where
  "FIXED_LINES = [any2 NONE, all3 NONE]"

section \<open>Calibrator\<close>

type_synonym round_reels = "slot_symbol \<times> slot_symbol \<times> slot_symbol"

definition line_count :: "round_reels list \<Rightarrow> line_key \<Rightarrow> nat" where
  "line_count rounds k = count_where (\<lambda>(a, b, c). evaluateLine a b c = Some k) rounds"

definition lineFrequencies :: "round_reels list \<Rightarrow> line_key \<Rightarrow> jsnum" where
  "lineFrequencies rounds k =
    (if rounds = [] then Fin 0
     else js_div (js_int (int (line_count rounds k))) (js_int (int (length rounds))))"

fun slidingRounds :: "slot_symbol list \<Rightarrow> round_reels list" where
  "slidingRounds (a # b # c # rest) = (a, b, c) # slidingRounds (b # c # rest)"
| "slidingRounds _ = []"

definition line_return :: "number_lines \<Rightarrow> (line_key \<Rightarrow> jsnum) \<Rightarrow> line_key \<Rightarrow> jsnum option" where
  "line_return lines freq k = map_option (\<lambda>m. js_mul (freq k) (js_div m (Fin 100))) (map_of lines k)"

definition add_return :: "jsnum \<Rightarrow> jsnum option \<Rightarrow> jsnum" where
  "add_return acc r = (case r of None \<Rightarrow> acc | Some x \<Rightarrow> js_add acc x)"

definition expectedReturnBp :: "number_lines \<Rightarrow> (line_key \<Rightarrow> jsnum) \<Rightarrow> jsnum" where
  "expectedReturnBp lines freq =
     js_round (js_mul (foldl add_return (Fin 0) (map (line_return lines freq) LINE_KEYS)) (Fin 10000))"

record fit_result =
  fit_lines :: number_lines
  fit_factor :: jsnum
  fittedBp :: jsnum

definition fitLinesToTarget ::
  "number_lines \<Rightarrow> (line_key \<Rightarrow> jsnum) \<Rightarrow> jsnum \<Rightarrow> line_key list \<Rightarrow> fit_result" where
  "fitLinesToTarget base freq targetBp fixed =
    (let returns = (\<lambda>P. foldl add_return (Fin 0) (map (line_return base freq) (filter P LINE_KEYS)));
         fixedReturn = returns (\<lambda>k. k \<in> set fixed);
         scalableReturn = returns (\<lambda>k. k \<notin> set fixed);
         target = js_div targetBp (Fin 10000);
         factor = (if js_lt (Fin 0) scalableReturn
                   then js_max (Fin 0) (js_div (js_sub target fixedReturn) scalableReturn) else Fin 0);
         fit = (\<lambda>k. map_option (\<lambda>m. (k, if k \<in> set fixed then m
                                          else js_round (js_mul m factor))) (map_of base k));
         lines = List.map_filter fit LINE_KEYS in
     \<lparr>fit_lines = lines, fit_factor = factor, fittedBp = expectedReturnBp lines freq\<rparr>)"

section \<open>Freshness of the clock\<close>

definition clockIsFresh :: "millis option \<Rightarrow> millis \<Rightarrow> int \<Rightarrow> bool" where
  "clockIsFresh clockReadAtMs nowMs feedDarkVoidSeconds =
    (case clockReadAtMs of None \<Rightarrow> False
     | Some readAt \<Rightarrow> nowMs - readAt < feedDarkVoidSeconds * 1000)"

end
