(* ===== verification/Slot_Properties.thy ===== *)
theory Slot_Properties
  imports Slot_Rules
begin

text \<open>
  What the rules of the game promise: a reel does not depend on the order in
  which the events arrive, windows lie on the grid and after the lead, a line
  is what its name says, no payout exceeds the exposure booked for the spin,
  the countdown stays inside its period, and the calibrator keeps the fixed
  lines.
\<close>

section \<open>Choosing the best of a sequence\<close>

text \<open>
  A fold that keeps the better of two candidates, for any comparison that is a
  strict weak order: the winner is unbeaten, and an unbeaten candidate that
  beats every other one wins from any order of the sequence.
\<close>

locale strict_weak =
  fixes better :: "'e \<Rightarrow> 'e \<Rightarrow> bool"
  assumes asym: "better a b \<Longrightarrow> \<not> better b a"
    and neg_trans: "\<not> better a b \<Longrightarrow> \<not> better b c \<Longrightarrow> \<not> better a c"
begin

definition pick :: "'e option \<Rightarrow> 'e \<Rightarrow> 'e option" where
  "pick best e = (case best of None \<Rightarrow> Some e | Some b \<Rightarrow> if better e b then Some e else Some b)"

lemma pick_Some: "\<exists>b. pick c e = Some b"
  by (simp add: pick_def split: option.splits)

lemma fold_pick_ne: "foldl pick c es = None \<longleftrightarrow> c = None \<and> es = []"
proof (induction es arbitrary: c)
  case (Cons e es)
  then show ?case using pick_Some [of c e] by auto
qed simp

lemma fold_pick_unbeaten:
  assumes "foldl pick c es = Some b"
  shows "(b \<in> set es \<or> c = Some b) \<and> (\<forall>e \<in> set es. \<not> better e b) \<and> (\<forall>a. c = Some a \<longrightarrow> \<not> better a b)"
  using assms
proof (induction es arbitrary: c)
  case Nil
  then show ?case using asym by auto
next
  case (Cons e es)
  have IH: "(b \<in> set es \<or> pick c e = Some b) \<and> (\<forall>x \<in> set es. \<not> better x b)
      \<and> (\<forall>a. pick c e = Some a \<longrightarrow> \<not> better a b)"
    by (rule Cons.IH) (use Cons.prems in simp)
  show ?case
  proof (cases c)
    case None
    then show ?thesis using IH by (auto simp: pick_def)
  next
    case (Some a)
    show ?thesis
    proof (cases "better e a")
      case True
      then have "\<not> better e b" using IH Some by (simp add: pick_def)
      moreover have "\<not> better a b" using neg_trans [OF asym [OF True] \<open>\<not> better e b\<close>] .
      ultimately show ?thesis using IH Some True by (auto simp: pick_def)
    next
      case False
      then have "\<not> better a b" using IH Some by (simp add: pick_def)
      moreover have "\<not> better e b" using neg_trans [OF False \<open>\<not> better a b\<close>] .
      ultimately show ?thesis using IH Some False by (auto simp: pick_def)
    qed
  qed
qed

text \<open>On sequences with the same elements, pairwise comparable, the winner is the same.\<close>

lemma fold_pick_order:
  assumes same: "set es = set fs"
    and total: "\<And>a b. a \<in> set es \<Longrightarrow> b \<in> set es \<Longrightarrow> a \<noteq> b \<Longrightarrow> better a b \<or> better b a"
  shows "foldl pick None es = foldl pick None fs"
proof (cases "foldl pick None es")
  case None
  then have "fs = []" using same by (simp add: fold_pick_ne)
  then show ?thesis using None by simp
next
  case (Some b)
  then have "es \<noteq> []" by auto
  then obtain b' where b': "foldl pick None fs = Some b'"
    using same fold_pick_ne [of None fs] by (cases "foldl pick None fs") auto
  have "b \<in> set es" "b' \<in> set es" "\<not> better b b'" "\<not> better b' b"
    using fold_pick_unbeaten [OF Some] fold_pick_unbeaten [OF b'] same by auto
  then have "b = b'" using total by blast
  then show ?thesis using Some b' by simp
qed

end

lemma text_less_irrefl [simp]: "\<not> text_less x x"
  by (induction x) auto

lemma text_less_Nil [simp]: "\<not> text_less x []"
  by (cases x) auto

lemma text_less_asym: "text_less x y \<Longrightarrow> \<not> text_less y x"
  by (induction x y rule: text_less.induct) auto

lemma text_less_total: "text_less x y \<or> x = y \<or> text_less y x"
proof (induction x y rule: text_less.induct)
  case (3 x xs y ys)
  have "(of_char x :: nat) = of_char y \<Longrightarrow> x = y" by simp
  then show ?case using 3 by auto
qed auto

lemma text_less_neg_trans: "\<not> text_less x y \<Longrightarrow> \<not> text_less y z \<Longrightarrow> \<not> text_less x z"
proof (induction x z arbitrary: y rule: text_less.induct)
  case (1 ys)
  then show ?case by (cases y) auto
next
  case (3 a as c cs)
  show ?case
  proof (cases y)
    case (Cons b bs)
    show ?thesis
    proof (cases "b = c")
      case True
      then show ?thesis using 3 Cons by auto
    next
      case False
      then have "(of_char c :: nat) \<noteq> of_char b" by simp
      moreover have "\<not> (of_char b :: nat) < of_char c" using 3 Cons by simp
      ultimately have "(of_char c :: nat) < of_char b" by linarith
      moreover have "(of_char b :: nat) \<le> of_char a" using 3 Cons by auto
      ultimately show ?thesis by auto
    qed
  qed (use 3 in auto)
qed simp

lemma compareIds_asym: "compareIds a b < 0 \<Longrightarrow> \<not> compareIds b a < 0"
  by (auto simp: compareIds_def dest: text_less_asym split: if_splits)

lemma compareIds_neg_trans:
  assumes "\<not> compareIds a b < 0" and "\<not> compareIds b c < 0"
  shows "\<not> compareIds a c < 0"
  using assms text_less_neg_trans [of "the a" "the b" "the c"]
  by (auto simp: compareIds_def split: if_splits)

lemma compareIds_total:
  assumes "\<not> no_id a" "\<not> no_id b" "a \<noteq> b"
  shows "compareIds a b < 0 \<or> compareIds b a < 0"
  using assms text_less_total [of "the a" "the b"]
  by (auto simp: compareIds_def no_id_def)

text \<open>The comparison of \<open>reelForWindow\<close>: rank, then clock, then id.\<close>

interpretation reel_order: strict_weak beats
proof unfold_locales
  show "beats a b \<Longrightarrow> \<not> beats b a" for a b
    using compareIds_asym [of "re_eventId a" "re_eventId b"] by (auto simp: beats_def split: if_splits)
  show "\<not> beats a b \<Longrightarrow> \<not> beats b c \<Longrightarrow> \<not> beats a c" for a b c
    using compareIds_neg_trans [of "re_eventId a" "re_eventId b" "re_eventId c"]
    by (auto simp: beats_def split: if_splits)
qed

lemma reel_fold: "foldl (reel_step w) c es = foldl reel_order.pick c (filter (in_window w) es)"
  by (induction es arbitrary: c) (simp_all add: reel_step_def reel_order.pick_def)

lemma beats_total:
  assumes "\<not> no_id (re_eventId a)" "\<not> no_id (re_eventId b)" "re_eventId a \<noteq> re_eventId b"
  shows "beats a b \<or> beats b a"
  using compareIds_total [OF assms] by (auto simp: beats_def)

section \<open>Reels\<close>

text \<open>When every event that counts in a window carries an id of its own, the reel of the
  window does not depend on the order (or repetition) in which the events were read: two readings
  of the same events show the same symbol, team and event.\<close>

theorem reel_order_independent:
  assumes "set es = set fs"
    and "\<And>a b. a \<in> set es \<Longrightarrow> b \<in> set es \<Longrightarrow> in_window w a \<Longrightarrow> in_window w b \<Longrightarrow>
      \<not> no_id (re_eventId a) \<and> (re_eventId a = re_eventId b \<longrightarrow> a = b)"
  shows "reelForWindow es w = reelForWindow fs w"
proof -
  have "foldl reel_order.pick None (filter (in_window w) es) = foldl reel_order.pick None (filter (in_window w) fs)"
  proof (rule reel_order.fold_pick_order)
    fix a b
    assume ab: "a \<in> set (filter (in_window w) es)" "b \<in> set (filter (in_window w) es)" "a \<noteq> b"
    then show "beats a b \<or> beats b a"
      using assms(2) [of a b] assms(2) [of b a] by (intro beats_total) auto
  qed (simp add: assms(1))
  then show ?thesis by (simp add: reelForWindow_def reel_fold)
qed

theorem reel_order_independent_witness:
  "reelForWindow
     [\<lparr>re_symbol = Some FOUL, re_seconds = 11, re_disabled = False, re_team = Some home, re_eventId = Some ''7''\<rparr>,
      \<lparr>re_symbol = Some P2, re_seconds = 13, re_disabled = False, re_team = Some away, re_eventId = Some ''9''\<rparr>] 10
   = \<lparr>r_symbol = P2, r_team = Some away, r_eventId = Some ''9''\<rparr>"
proof -
  let ?a = "\<lparr>re_symbol = Some FOUL, re_seconds = 11, re_disabled = False, re_team = Some home, re_eventId = Some ''7''\<rparr>"
  let ?b = "\<lparr>re_symbol = Some P2, re_seconds = 13, re_disabled = False, re_team = Some away, re_eventId = Some ''9''\<rparr>"
  have "reelForWindow [?a, ?b] 10 = reelForWindow [?b, ?a] 10"
    by (rule reel_order_independent) (auto simp: no_id_def)
  also have "\<dots> = \<lparr>r_symbol = P2, r_team = Some away, r_eventId = Some ''9''\<rparr>" by code_simp
  finally show ?thesis .
qed

text \<open>A reel shows \<open>NONE\<close> with no event when nothing countable falls in its five seconds;
  otherwise the symbol of an enabled event inside the window, and no event of the window has a
  higher rank, nor the same rank at an earlier second.\<close>

theorem reel_shows_best:
  "if filter (in_window w) es = []
   then reelForWindow es w = \<lparr>r_symbol = NONE, r_team = None, r_eventId = None\<rparr>
   else \<exists>b \<in> set es. in_window w b \<and> re_symbol b = Some (r_symbol (reelForWindow es w))
     \<and> re_team b = r_team (reelForWindow es w) \<and> re_eventId b = r_eventId (reelForWindow es w)
     \<and> (\<forall>e \<in> set (filter (in_window w) es).
          event_rank e \<le> event_rank b \<and> (event_rank e = event_rank b \<longrightarrow> re_seconds b \<le> re_seconds e))"
proof (cases "filter (in_window w) es = []")
  case True
  then show ?thesis by (simp add: reelForWindow_def reel_fold)
next
  case False
  then obtain b where b: "foldl reel_order.pick None (filter (in_window w) es) = Some b"
    using reel_order.fold_pick_ne [of None "filter (in_window w) es"]
    by (cases "foldl reel_order.pick None (filter (in_window w) es)") auto
  note u = reel_order.fold_pick_unbeaten [OF b]
  have mem: "b \<in> set es" "in_window w b" using u by auto
  then have sym: "re_symbol b = Some (the (re_symbol b))" by (simp add: in_window_def)
  have best: "event_rank e \<le> event_rank b \<and> (event_rank e = event_rank b \<longrightarrow> re_seconds b \<le> re_seconds e)"
    if "e \<in> set (filter (in_window w) es)" for e
    using u that by (auto simp: beats_def split: if_splits)
  have r: "reelForWindow es w = \<lparr>r_symbol = the (re_symbol b), r_team = re_team b, r_eventId = re_eventId b\<rparr>"
    by (simp add: reelForWindow_def reel_fold b)
  have "\<exists>b \<in> set es. in_window w b \<and> re_symbol b = Some (r_symbol (reelForWindow es w))
     \<and> re_team b = r_team (reelForWindow es w) \<and> re_eventId b = r_eventId (reelForWindow es w)
     \<and> (\<forall>e \<in> set (filter (in_window w) es).
          event_rank e \<le> event_rank b \<and> (event_rank e = event_rank b \<longrightarrow> re_seconds b \<le> re_seconds e))"
    by (rule bexI [OF _ mem(1)]) (use mem sym best in \<open>simp add: r\<close>)
  then show ?thesis using False by simp
qed

theorem reel_shows_best_witness:
  "r_symbol (reelForWindow
     [\<lparr>re_symbol = Some P3, re_seconds = 11, re_disabled = True, re_team = Some home, re_eventId = Some ''7''\<rparr>] 10) = NONE"
  using reel_shows_best [of 10 "[\<lparr>re_symbol = Some P3, re_seconds = 11, re_disabled = True,
      re_team = Some home, re_eventId = Some ''7''\<rparr>]"]
  by (simp add: in_window_def)

section \<open>Windows\<close>

lemmas round_defs = roundEnd_def ROUND_SECONDS_def ROUND_WINDOWS_def roundWindows_def WINDOW_SECONDS_def

lemma windows_tile:
  "(f \<le> sec \<and> sec < roundEnd f) = (\<exists>!w. w \<in> set (roundWindows f) \<and> w \<le> sec \<and> sec < w + WINDOW_SECONDS)"
proof
  assume in_round: "f \<le> sec \<and> sec < roundEnd f"
  consider "sec < f + 5" | "f + 5 \<le> sec" "sec < f + 10" | "f + 10 \<le> sec" by linarith
  then show "\<exists>!w. w \<in> set (roundWindows f) \<and> w \<le> sec \<and> sec < w + WINDOW_SECONDS"
  proof cases
    case 1
    then show ?thesis using in_round by (intro ex1I [of _ f]) (auto simp: round_defs)
  next
    case 2
    then show ?thesis using in_round by (intro ex1I [of _ "f + 5"]) (auto simp: round_defs)
  next
    case 3
    then show ?thesis using in_round by (intro ex1I [of _ "f + 10"]) (auto simp: round_defs)
  qed
next
  assume "\<exists>!w. w \<in> set (roundWindows f) \<and> w \<le> sec \<and> sec < w + WINDOW_SECONDS"
  then obtain w where "w \<in> set (roundWindows f)" "w \<le> sec" "sec < w + WINDOW_SECONDS" by blast
  then show "f \<le> sec \<and> sec < roundEnd f" by (auto simp: round_defs)
qed

lemma first_window:
  "firstWindowFor clock lead mod 5 = 0" "clock + lead \<le> firstWindowFor clock lead"
  "firstWindowFor clock lead < clock + lead + 5"
proof -
  let ?e = "clock + lead"
  have f: "firstWindowFor clock lead = ?e + (- ?e) mod 5"
  proof -
    have "- (- ?e div 5) * 5 = ?e + (- ?e) mod 5" using div_mult_mod_eq [of "- ?e" 5] by linarith
    then show ?thesis by (simp only: firstWindowFor_def WINDOW_SECONDS_def Let_def)
  qed
  have "0 \<le> (- ?e) mod 5" "(- ?e) mod 5 < 5" by simp_all
  then show "?e \<le> firstWindowFor clock lead" "firstWindowFor clock lead < ?e + 5" unfolding f by linarith+
  show "firstWindowFor clock lead mod 5 = 0" by (simp add: firstWindowFor_def WINDOW_SECONDS_def Let_def)
qed

text \<open>The first window of a spin opens on a five-second mark of the match clock, never
  before the reading plus the lead and less than five seconds after it, and every second from
  there to the end of the round lies in exactly one of the three windows.\<close>

theorem spin_windows_on_grid:
  "firstWindowFor clock lead mod 5 = 0 \<and> clock + lead \<le> firstWindowFor clock lead
   \<and> firstWindowFor clock lead < clock + lead + 5
   \<and> roundEnd (firstWindowFor clock lead) = last (roundWindows (firstWindowFor clock lead)) + WINDOW_SECONDS
   \<and> ((firstWindowFor clock lead \<le> sec \<and> sec < roundEnd (firstWindowFor clock lead)) =
      (\<exists>!w. w \<in> set (roundWindows (firstWindowFor clock lead)) \<and> w \<le> sec \<and> sec < w + WINDOW_SECONDS))"
  using first_window [of clock lead] windows_tile [of "firstWindowFor clock lead" sec]
  by (simp add: roundEnd_def ROUND_SECONDS_def ROUND_WINDOWS_def roundWindows_def WINDOW_SECONDS_def)

text \<open>The countdown of a match-clock reading always lies inside its period: it is never
  negative and never exceeds the length of the period (or of the overtime) it counts down.\<close>

lemma countdown_in_period:
  "let c = periodClock sec feed fmt in
     0 \<le> remaining c \<and> 1 \<le> period c \<and>
     remaining c \<le> (if overtime c then stated (Option.bind fmt overtimeSeconds) OVERTIME_SECONDS
                     else stated (Option.bind fmt periodSeconds) PERIOD_SECONDS)"
proof -
  have pos: "0 < stated v d" if "0 < d" for v d using that by (simp add: stated_def split: option.splits)
  let ?p = "stated (Option.bind fmt periodSeconds) PERIOD_SECONDS"
  let ?o = "stated (Option.bind fmt overtimeSeconds) OVERTIME_SECONDS"
  let ?n = "stated (Option.bind fmt regulationPeriods) REGULATION_PERIODS"
  have p: "0 < ?p" "0 < ?o" "0 < ?n"
    by (simp_all add: pos PERIOD_SECONDS_def OVERTIME_SECONDS_def REGULATION_PERIODS_def)
  have div: "0 \<le> max 0 sec div ?p" using p by (simp add: pos_imp_zdiv_nonneg_iff)
  show ?thesis
  proof (cases "?n * ?p \<le> max 0 sec")
    case True
    let ?i = "max 0 sec - ?n * ?p"
    have "0 \<le> ?i div ?o" using True p by (simp add: pos_imp_zdiv_nonneg_iff)
    moreover have "?i div ?o * ?o \<le> ?i"
      using minus_div_mult_eq_mod [of ?i ?o] pos_mod_sign [OF p(2), of ?i] by linarith
    ultimately show ?thesis using True p by (auto simp: periodClock_def Let_def split: option.splits)
  next
    case False
    then show ?thesis using p div by (auto simp: periodClock_def Let_def split: option.splits)
  qed
qed

section \<open>Lines and money\<close>

text \<open>The line of three reels is \<open>all3\<close> of a symbol exactly when all three show it,
  \<open>any2\<close> exactly when two and not three of them do, and none when the three differ; it does not
  depend on the order of the reels.\<close>

lemma line_means_what_it_says:
  "(evaluateLine a b c = Some (all3 s) \<longleftrightarrow> count_where (\<lambda>x. x = s) [a, b, c] = 3) \<and>
   (evaluateLine a b c = Some (any2 s) \<longleftrightarrow> count_where (\<lambda>x. x = s) [a, b, c] = 2) \<and>
   (evaluateLine a b c = None \<longleftrightarrow> distinct [a, b, c]) \<and>
   evaluateLine b a c = evaluateLine a b c \<and> evaluateLine a c b = evaluateLine a b c"
  by (auto simp: evaluateLine_def)

lemma fold_max: "foldl (\<lambda>m v. if v > m then v else m) (a :: int) vs = Max (insert a (set vs))"
proof (induction vs arbitrary: a)
  case (Cons v vs)
  have "Max (insert (max v a) (set vs)) = Max (insert a (insert v (set vs)))"
    by (cases "vs = []") (simp_all add: Max_insert max.assoc max.left_commute max.commute)
  then show ?case using Cons by (simp add: max_def split: if_splits)
qed simp

lemma maxMultiplier_ge: "(k, m) \<in> set lines \<Longrightarrow> m \<le> maxMultiplierX100 lines" "0 \<le> maxMultiplierX100 lines"
  by (auto simp: maxMultiplierX100_def fold_max intro!: Max_ge rev_image_eqI)

text \<open>Whatever line a spin lands on, what it pays, limited by the maximum payout of a
  spin, never exceeds the exposure booked when it was placed.\<close>

theorem payout_within_exposure:
  assumes "0 \<le> stake" and "(k, m) \<in> set lines" and "0 \<le> m"
  shows "\<exists>pay ex. payoutMicro stake m = Inr pay \<and> exposureMicro stake lines cap = Inr ex
    \<and> min pay cap \<le> ex \<and> ex \<le> cap"
proof -
  have le: "stake * m \<le> stake * maxMultiplierX100 lines"
    using maxMultiplier_ge(1) [OF assms(2)] assms(1) by (rule mult_left_mono)
  have "stake * m div 100 \<le> stake * maxMultiplierX100 lines div 100" by (rule zdiv_mono1 [OF le]) simp
  then show ?thesis using assms maxMultiplier_ge(2) [of lines]
    by (simp add: payoutMicro_def exposureMicro_def big_div_nonneg)
qed

theorem payout_within_exposure_witness:
  "\<exists>pay ex. payoutMicro 2000000 3500 = Inr pay \<and> exposureMicro 2000000 DEFAULT_PAYTABLE_LINES 500000000 = Inr ex
    \<and> min pay 500000000 \<le> ex \<and> ex \<le> 500000000"
  by (rule payout_within_exposure [where k = "any2 P3"]) (simp_all add: DEFAULT_PAYTABLE_LINES_def)

text \<open>Fitting a paytable to a return target keeps every fixed line exactly, scales
  every other line by the one factor and rounds it, and neither adds nor drops a line.\<close>

theorem fit_keeps_fixed_lines:
  "let fit = fitLinesToTarget base freq target fixed in
   map_of (fit_lines fit) k =
     (if k \<in> set fixed then map_of base k
      else map_option (\<lambda>m. js_round (js_mul m (fit_factor fit))) (map_of base k))"
proof -
  have keys: "k \<in> set LINE_KEYS" for k
    by (cases k; rename_tac x; case_tac x) (simp_all add: LINE_KEYS_def SLOT_SYMBOLS_def)
  have mf: "map_of (List.map_filter (\<lambda>k. map_option (\<lambda>m. (k, g k m)) (map_of base k)) ks) k =
      (if k \<in> set ks then map_option (g k) (map_of base k) else None)" for g ks
    by (induction ks) (auto simp: map_filter_simps split: option.splits)
  show ?thesis
    unfolding fitLinesToTarget_def Let_def by (simp add: mf keys option.map_ident_strong)
qed

end
