(* ===== verification/Bot_Controls.thy ===== *)
theory Bot_Controls
  imports Money Tables
begin

text \<open>
  lib/riskzilla/bot-controls.ts: the operator's anti-automation switches and the
  velocity cap of a bettor, shared by bet and spin placement.  The few seconds
  of in-process memoisation of the row are not modelled: it is read fresh.
\<close>

definition DEFAULT_BOT_CONTROLS :: bot_controls_row where
  "DEFAULT_BOT_CONTROLS = \<lparr>bc_intentRequired = True, bc_intentTtlSeconds = 120, bc_minHumanMs = 600,
     bc_velocityEnabled = True, bc_maxBetsPerMinute = 12, bc_maxMatchesPerMinute = 10\<rparr>"

definition loadBotControls :: "bot_controls_row dbtx" where
  "loadBotControls = getT (\<lambda>s. case bot_controls s of Some r \<Rightarrow> r | None \<Rightarrow> DEFAULT_BOT_CONTROLS)"

definition velocityCapFor :: "int \<Rightarrow> jsnum \<Rightarrow> jsnum" where
  "velocityCapFor base riskScore =
    (let rs = (if js_isFinite riskScore \<and> js_lt (Fin 0) riskScore then riskScore else Fin 1) in
     js_max (Fin 1) (js_round (js_mul (js_int base) rs)))"

text \<open>A bettor can always place one entry per minute, whatever the score.\<close>

lemma js_lt_asym: "js_lt a b \<Longrightarrow> \<not> js_lt b a"
  by (cases a; cases b) auto

lemma velocityCapFor_ge_1: "\<not> js_lt (velocityCapFor base rs) (Fin 1)"
  by (auto simp: velocityCapFor_def Let_def js_max_def dest: js_lt_asym)

end
