(* ===== verification/Slot_Service.thy ===== *)
theory Slot_Service
  imports Slot_Rules Deposits Bot_Controls
begin

text \<open>
  services/api/src/lib/slotzilla/service.ts, the routes that call it
  (modules/slotzilla/routes.ts, modules/admin/slotzilla.ts): the clock estimate, the reasons a spin
  is refused, the fallback windows, the placement transaction, and pausing,
  resuming and voiding a game.  The config row is seeded by the migration; its
  defensive insert on an empty table is not modelled.  Publishing a frame to
  Redis after the commit changes no table and is left out.
\<close>

section \<open>Clock, blocks, windows\<close>

definition estimatedClockSeconds ::
  "int option \<Rightarrow> bool \<Rightarrow> millis option \<Rightarrow> millis \<Rightarrow> int option" where
  "estimatedClockSeconds clockSeconds clockRunning clockReadAtMs nowMs =
    (case clockSeconds of
       None \<Rightarrow> None
     | Some c \<Rightarrow> (case clockReadAtMs of
         None \<Rightarrow> Some c
       | Some readAt \<Rightarrow> if \<not> clockRunning then Some c
           else Some (c + max 0 ((nowMs - readAt) div 1000))))"

datatype spin_block = game_not_live | clock_stopped | game_paused | open_spin | sign_in | disabled

record block_input =
  bi_enabled :: bool
  bi_hasUser :: bool
  bi_gameStatus :: game_status
  bi_clockReadAtMs :: "millis option"
  bi_nowMs :: millis
  bi_feedDarkVoidSeconds :: int
  bi_hasOpenSpin :: bool

definition spinBlockFor :: "block_input \<Rightarrow> spin_block option" where
  "spinBlockFor i =
    (if \<not> bi_enabled i then Some disabled
     else if \<not> bi_hasUser i then Some sign_in
     else if bi_gameStatus i = paused then Some game_paused
     else if bi_gameStatus i \<noteq> live then Some game_not_live
     else if \<not> clockIsFresh (bi_clockReadAtMs i) (bi_nowMs i) (bi_feedDarkVoidSeconds i) then Some clock_stopped
     else if bi_hasOpenSpin i then Some open_spin
     else None)"

fun block_text :: "spin_block \<Rightarrow> string" where
  "block_text game_not_live = ''game_not_live''"
| "block_text clock_stopped = ''clock_stopped''"
| "block_text game_paused = ''game_paused''"
| "block_text open_spin = ''open_spin''"
| "block_text sign_in = ''sign_in''"
| "block_text disabled = ''disabled''"

definition WINDOW_LOOKBACK_SECONDS :: int where "WINDOW_LOOKBACK_SECONDS = 90"

record slot_window =
  sw_from :: int
  sw_symbol :: slot_symbol
  sw_team :: "slot_team option"
  sw_eventId :: "string option"
  sw_final :: bool

definition windowsFromEvents :: "reel_event list \<Rightarrow> int \<Rightarrow> int \<Rightarrow> int \<Rightarrow> slot_window list" where
  "windowsFromEvents events clockSeconds clockPastSeconds lookback =
    (let lst = windowStartOf (max 0 clockSeconds);
         frst = max 0 (windowStartOf (max 0 (clockSeconds - lookback)));
         steps = (if frst \<le> lst then nat ((lst - frst) div WINDOW_SECONDS) + 1 else 0) in
     map (\<lambda>i. let from = frst + int i * WINDOW_SECONDS; r = reelForWindow events from in
        \<lparr>sw_from = from, sw_symbol = r_symbol r, sw_team = r_team r, sw_eventId = r_eventId r,
         sw_final = (clockSeconds \<ge> from + WINDOW_SECONDS + clockPastSeconds)\<rparr>) [0..<steps])"

section \<open>Rows on the wire\<close>

definition asTeam :: "string option \<Rightarrow> slot_team option" where
  "asTeam v = (if v = Some ''home'' then Some home else if v = Some ''away'' then Some away else None)"

definition paytable_line :: "string \<times> json \<Rightarrow> (line_key \<times> int) option" where
  "paytable_line kv = (case kv of (k, v) \<Rightarrow>
     (case (isLineKey k, v) of (Some lk, JNum n) \<Rightarrow> if n \<ge> 0 then Some (lk, n) else None
      | _ \<Rightarrow> None))"

definition paytableLinesOf :: "(string \<times> json) list \<Rightarrow> paytable_lines" where
  "paytableLinesOf raw = List.map_filter paytable_line raw"

record spin_view =
  v_id :: uuid
  v_matchId :: string
  v_currency :: currency
  v_stakeMicro :: string
  v_windowFrom :: int
  v_windows :: "int list"
  v_reels :: "slot_symbol option list"
  v_reelTeams :: "slot_team option list"
  v_lineKey :: "line_key option"
  v_multiplierX100 :: "int option"
  v_payoutMicro :: string
  v_status :: spin_status
  v_voidReason :: "string option"
  v_placedAt :: millis
  v_settledAt :: "millis option"

definition nth_opt :: "'a list \<Rightarrow> nat \<Rightarrow> 'a option" where
  "nth_opt xs i = (if i < length xs then Some (xs ! i) else None)"

definition spinToView :: "slotzilla_spins_row \<Rightarrow> spin_view" where
  "spinToView row =
    (let reels = (case sp_reels row of None \<Rightarrow> [] | Some r \<Rightarrow> r);
         teams = (case sp_reelTeams row of None \<Rightarrow> [] | Some t \<Rightarrow> t);
         rl = (\<lambda>i. Option.bind (nth_opt reels i) isSlotSymbol);
         tm = (\<lambda>i. asTeam (Option.bind (nth_opt teams i) id)) in
     \<lparr>v_id = sp_id row, v_matchId = show_int (sp_matchId row), v_currency = sp_currency row,
      v_stakeMicro = show_int (sp_stakeMicro row), v_windowFrom = sp_windowFrom row,
      v_windows = roundWindows (sp_windowFrom row), v_reels = [rl 0, rl 1, rl 2],
      v_reelTeams = [tm 0, tm 1, tm 2], v_lineKey = Option.bind (sp_lineKey row) isLineKey,
      v_multiplierX100 = sp_multiplierX100 row, v_payoutMicro = show_int (sp_payoutMicro row),
      v_status = sp_status row, v_voidReason = sp_voidReason row, v_placedAt = sp_placedAt row,
      v_settledAt = sp_settledAt row\<rparr>)"

section \<open>Config and paytables\<close>

definition loadConfig :: "slotzilla_config_row dbtx" where
  "loadConfig = getT slotzilla_config"

definition loadActivePaytable :: "slotzilla_paytables_row option dbtx" where
  "loadActivePaytable = getT (\<lambda>s. select_one pt_active (slotzilla_paytables s))"

definition loadPaytableById :: "int \<Rightarrow> slotzilla_paytables_row option dbtx" where
  "loadPaytableById i = getT (\<lambda>s. select_one (\<lambda>p. pt_id p = i) (slotzilla_paytables s))"

definition paytableForGame :: "int option \<Rightarrow> slotzilla_paytables_row option dbtx" where
  "paytableForGame paytableId = (case paytableId of
     None \<Rightarrow> loadActivePaytable
   | Some i \<Rightarrow> bindT (loadPaytableById i) (\<lambda>pinned. case pinned of
       Some p \<Rightarrow> returnT (Some p) | None \<Rightarrow> loadActivePaytable))"

section \<open>Placing a spin\<close>

record spin_request =
  rq_currency :: string
  rq_stakeMicro :: string
  rq_idempotencyKey :: string
  rq_autoplay :: "bool option"

definition parse_spinBody :: "spin_request \<Rightarrow> failure + unit" where
  "parse_spinBody b =
    (if length (rq_currency b) < 1 \<or> length (rq_currency b) > 4 then Inl (ZodError ''currency'')
     else if \<not> is_digits (rq_stakeMicro b) \<or> length (rq_stakeMicro b) > 20 then Inl (ZodError ''stakeMicro'')
     else if length (rq_idempotencyKey b) < 8 \<or> length (rq_idempotencyKey b) > 128
       then Inl (ZodError ''idempotencyKey'')
     else Inr ())"

text \<open>\<open>BigInt(text)\<close> for the digit strings the route admits; other text is a SyntaxError.\<close>

definition parse_stake :: "string \<Rightarrow> failure + micro" where
  "parse_stake t = (if is_digits t then Inr (big_int t) else Inl (BadRequestError ''invalid_stake'' ''invalid_stake''))"

definition findExisting :: "uuid \<Rightarrow> string \<Rightarrow> db \<Rightarrow> slotzilla_spins_row option" where
  "findExisting userId key s =
     select_one (\<lambda>r. sp_userId r = userId \<and> sp_idempotencyKey r = Some key) (slotzilla_spins s)"

text \<open>The bettor, the config, the currency, the stake limits and the wallet.\<close>

definition spin_bettor_checks ::
  "uuid \<Rightarrow> micro \<Rightarrow> spin_request \<Rightarrow> (users_row \<times> slotzilla_config_row \<times> currency) dbtx" where
  "spin_bettor_checks userId stake request =
    bindT (getT (\<lambda>s. select_one (\<lambda>r. u_id r = userId) (users s))) (\<lambda>u.
    bindT (someOr (UnauthorizedError ''Unauthorized'' ''unauthorized'') u) (\<lambda>user.
    thenT (throwIf (u_status user \<noteq> active) (ForbiddenError ''account_not_active'' ''account_not_active'')) (
    bindT loadConfig (\<lambda>cfg.
    thenT (throwIf (\<not> sc_enabled cfg) (bad ''disabled'')) (
    thenT (throwIf (isCurrency (rq_currency request) = None
        \<or> rq_currency request \<notin> set (sc_currencies cfg)) (bad ''currency_not_allowed'')) (
    let cur = the (isCurrency (rq_currency request)) in
    thenT (throwIf (stake < sc_minStakeMicro cfg) (bad ''stake_below_min'')) (
    thenT (throwIf (stake > sc_maxStakeMicro cfg) (bad ''stake_above_max'')) (
    thenT (throwIf (u_globalLimitMicro user > 0 \<and> stake > u_globalLimitMicro user)
      (bad ''exceeds_global_limit'')) (
    bindT (getT (\<lambda>s. select_one (\<lambda>w. wallet_key w = (userId, cur)) (wallets s))) (\<lambda>w.
    bindT (someOr (NotFoundError ''wallet_not_found'' ''wallet_not_found'') w) (\<lambda>wallet.
    thenT (throwIf (stake > w_balanceMicro wallet - w_lockedMicro wallet) (bad ''insufficient_balance'')) (
    returnT (user, cfg, cur)))))))))))))"

text \<open>The game: demo currency, one open spin, the block reasons.\<close>

definition spin_game_checks ::
  "millis \<Rightarrow> uuid \<Rightarrow> int \<Rightarrow> slotzilla_config_row \<Rightarrow> currency \<Rightarrow> slotzilla_games_row dbtx" where
  "spin_game_checks nowMs userId matchId cfg cur =
    bindT (getT (\<lambda>s. select_one (\<lambda>g. g_matchId g = matchId) (slotzilla_games s))) (\<lambda>g.
    bindT (someOr (NotFoundError ''slotzilla_game_not_found'' ''slotzilla_game_not_found'') g) (\<lambda>game.
    thenT (throwIf (g_isDemo game \<and> cur \<noteq> OZ) (bad ''demo_game_oz_only'')) (
    bindT (getT (\<lambda>s. select_one (\<lambda>r. sp_userId r = userId \<and> sp_matchId r = matchId
        \<and> sp_status r = spin_open) (slotzilla_spins s))) (\<lambda>openSpin.
    let block = spinBlockFor \<lparr>bi_enabled = sc_enabled cfg, bi_hasUser = True,
        bi_gameStatus = g_status game, bi_clockReadAtMs = g_clockReadAt game, bi_nowMs = nowMs,
        bi_feedDarkVoidSeconds = sc_feedDarkVoidSeconds cfg, bi_hasOpenSpin = openSpin \<noteq> None\<rparr> in
    thenT (throwIf (block = Some open_spin) (ConflictError ''open_spin'' ''open_spin'')) (
    thenT (case block of None \<Rightarrow> returnT () | Some b \<Rightarrow> throwT (bad (block_text b))) (
    returnT game))))))"

text \<open>Paytable and exposure, the liability cap of the match, the velocity cap, the window.\<close>

definition spin_risk_checks ::
  "millis \<Rightarrow> uuid \<Rightarrow> int \<Rightarrow> micro \<Rightarrow> users_row \<Rightarrow> slotzilla_config_row \<Rightarrow> slotzilla_games_row \<Rightarrow>
   (int \<times> micro \<times> int) dbtx" where
  "spin_risk_checks nowMs userId matchId stake user cfg game =
    bindT (paytableForGame (g_paytableId game)) (\<lambda>p.
    bindT (someOr (ServiceUnavailableError ''slotzilla_no_paytable'' ''slotzilla_no_paytable'') p) (\<lambda>paytable.
    bindT (liftE (exposureMicro stake (paytableLinesOf (pt_lines paytable)) (sc_maxPayoutMicro cfg))) (\<lambda>exposure.
    bindT (getT (\<lambda>s. sum_where (\<lambda>r. sp_matchId r = matchId \<and> sp_status r = spin_open) sp_exposureMicro
        (slotzilla_spins s))) (\<lambda>openExposure.
    thenT (throwIf (openExposure + exposure > sc_matchLiabilityCapMicro cfg) (bad ''slot_match_limit'')) (
    bindT loadBotControls (\<lambda>controls.
    bindT (getT (\<lambda>s. count_where (\<lambda>r. sp_userId r = userId \<and> sp_placedAt r \<ge> nowMs - 60000)
        (slotzilla_spins s))) (\<lambda>spins.
    thenT (throwIf (bc_velocityEnabled controls
        \<and> js_lt (velocityCapFor (bc_maxBetsPerMinute controls) (js_Number (u_riskScore user)))
                (js_int (int spins + 1)))
      (bad ''velocity_bets_per_minute_exceeded'')) (
    bindT (someOr (bad ''clock_stopped'')
      (estimatedClockSeconds (g_clockSeconds game) (g_clockRunning game) (g_clockReadAt game) nowMs)) (\<lambda>clockNow.
    returnT (pt_id paytable, exposure, firstWindowFor clockNow (sc_leadSeconds cfg)))))))))))"

definition new_spin ::
  "millis \<Rightarrow> uuid \<Rightarrow> uuid \<Rightarrow> int \<Rightarrow> currency \<Rightarrow> micro \<Rightarrow> micro \<Rightarrow> int \<Rightarrow> int \<Rightarrow> spin_request \<Rightarrow>
   slotzilla_spins_row" where
  "new_spin now newId userId matchId cur stake exposure paytableId windowFrom request =
    \<lparr>sp_id = newId, sp_userId = userId, sp_matchId = matchId, sp_currency = cur,
     sp_stakeMicro = stake, sp_exposureMicro = exposure, sp_paytableId = paytableId,
     sp_windowFrom = windowFrom, sp_reels = None, sp_reelTeams = None, sp_lineKey = None,
     sp_multiplierX100 = None, sp_payoutMicro = 0, sp_status = spin_open, sp_voidReason = None,
     sp_autoplay = (rq_autoplay request = Some True),
     sp_idempotencyKey = Some (rq_idempotencyKey request), sp_placedAt = now, sp_settledAt = None\<rparr>"

definition slot_stake_row :: "slotzilla_spins_row \<Rightarrow> wallet_ledger_row" where
  "slot_stake_row r = \<lparr>l_userId = sp_userId r, l_currency = sp_currency r,
     l_deltaMicro = - sp_stakeMicro r, l_type = slot_stake, l_refType = Some ''slotzilla_spin'',
     l_refId = Some (sp_id r), l_txHash = None, l_memo = None\<rparr>"

definition add_game_stake :: "millis \<Rightarrow> currency \<Rightarrow> micro \<Rightarrow> slotzilla_games_row \<Rightarrow> slotzilla_games_row" where
  "add_game_stake now cur d g =
    (if cur = USDC then g\<lparr>g_usdcStakeMicro := g_usdcStakeMicro g + d, g_updatedAt := now\<rparr>
     else g\<lparr>g_ozStakeMicro := g_ozStakeMicro g + d, g_updatedAt := now\<rparr>)"

text \<open>The writes: the spin, the lock, the ledger row, the open liability, the game totals.\<close>

definition spin_commit :: "millis \<Rightarrow> slotzilla_spins_row \<Rightarrow> unit dbtx" where
  "spin_commit now r =
    thenT (insert_spin r) (
    thenT (update_wallets (\<lambda>w. wallet_key w = (sp_userId r, sp_currency r))
      (lock_add (sp_stakeMicro r) now)) (
    thenT (insert_ledger (slot_stake_row r)) (
    thenT (whenT (sp_currency r = USDC \<and> sp_exposureMicro r > 0)
      (update_bank (\<lambda>b. b\<lparr>openLiabilityMicro := openLiabilityMicro b + sp_exposureMicro r,
                            bank_updatedAt := now\<rparr>))) (
    update_games (\<lambda>g. g_matchId g = sp_matchId r)
      (\<lambda>g. (add_game_stake now (sp_currency r) (sp_stakeMicro r) g)
         \<lparr>g_spinsCount := g_spinsCount g + 1\<rparr>)))))"

definition spin_transaction ::
  "millis \<Rightarrow> uuid \<Rightarrow> uuid \<Rightarrow> int \<Rightarrow> micro \<Rightarrow> spin_request \<Rightarrow> (slotzilla_spins_row \<times> bool) dbtx" where
  "spin_transaction nowMs newId userId matchId stake request =
    bindT (getT (findExisting userId (rq_idempotencyKey request))) (\<lambda>existing.
    case existing of
      Some row \<Rightarrow> returnT (row, False)
    | None \<Rightarrow>
        bindT (spin_bettor_checks userId stake request) (\<lambda>(user, cfg, cur).
        bindT (spin_game_checks nowMs userId matchId cfg cur) (\<lambda>game.
        bindT (spin_risk_checks nowMs userId matchId stake user cfg game) (\<lambda>(paytableId, exposure, windowFrom).
        let r = new_spin nowMs newId userId matchId cur stake exposure paytableId windowFrom request in
        thenT (spin_commit nowMs r) (returnT (r, True))))))"

fun pgConstraint :: "failure \<Rightarrow> string option" where
  "pgConstraint (PgError st c) = Some c"
| "pgConstraint _ = None"

fun text_includes :: "string \<Rightarrow> string \<Rightarrow> bool" where
  "text_includes [] needle \<longleftrightarrow> needle = []"
| "text_includes (c # cs) needle \<longleftrightarrow> take (length needle) (c # cs) = needle \<or> text_includes cs needle"

text \<open>The catch around the transaction: a lost race against the bettor's own retry answers with
  the winner's row, read outside the rolled-back transaction.\<close>

definition spin_catch ::
  "uuid \<Rightarrow> spin_request \<Rightarrow> (slotzilla_spins_row \<times> bool) dbtx \<Rightarrow> (slotzilla_spins_row \<times> bool) dbtx" where
  "spin_catch userId request m s = (case m s of
     Inr r \<Rightarrow> Inr r
   | Inl e \<Rightarrow>
       if isUniqueViolation e then
         (case (text_includes (case pgConstraint e of None \<Rightarrow> [] | Some c \<Rightarrow> c) ''idempotency'',
                findExisting userId (rq_idempotencyKey request) s) of
            (True, Some row) \<Rightarrow> Inr ((row, False), s)
          | _ \<Rightarrow> Inl (ConflictError ''open_spin'' ''open_spin''))
       else Inl e)"

definition placeSpin ::
  "millis \<Rightarrow> uuid \<Rightarrow> uuid \<Rightarrow> int \<Rightarrow> spin_request \<Rightarrow> (spin_view \<times> bool) dbtx" where
  "placeSpin nowMs newId userId matchId request =
    bindT (liftE (parse_stake (rq_stakeMicro request))) (\<lambda>stake.
    thenT (throwIf (stake \<le> 0) (bad ''stake_must_be_positive'')) (
    bindT (spin_catch userId request (spin_transaction nowMs newId userId matchId stake request)) (\<lambda>(row, created).
    returnT (spinToView row, created))))"

definition post_spin ::
  "millis \<Rightarrow> uuid \<Rightarrow> authed_user option \<Rightarrow> int \<Rightarrow> spin_request \<Rightarrow> spin_view dbtx" where
  "post_spin nowMs newId ru matchId body =
    bindT (liftE (requireAuth ru)) (\<lambda>u.
    thenT (liftE (parse_spinBody body)) (
    bindT (placeSpin nowMs newId (ru_id u) matchId body) (\<lambda>(spin, created).
    returnT spin)))"

section \<open>Voiding the open spins of a game\<close>

definition slot_refund_row :: "slotzilla_spins_row \<Rightarrow> string \<Rightarrow> wallet_ledger_row" where
  "slot_refund_row spin reason = \<lparr>l_userId = sp_userId spin, l_currency = sp_currency spin,
     l_deltaMicro = sp_stakeMicro spin, l_type = slot_refund, l_refType = Some ''slotzilla_spin'',
     l_refId = Some (sp_id spin), l_txHash = None, l_memo = Some reason\<rparr>"

definition void_spin :: "millis \<Rightarrow> int \<Rightarrow> string \<Rightarrow> slotzilla_spins_row \<Rightarrow> (uuid \<times> spin_view) option dbtx" where
  "void_spin now matchId reason spin =
    (let P = (\<lambda>r. sp_id r = sp_id spin \<and> sp_status r = spin_open);
         f = (\<lambda>r. r\<lparr>sp_status := spin_void, sp_voidReason := Some reason, sp_settledAt := Some now\<rparr>) in
     bindT (getT (\<lambda>s. select_one P (slotzilla_spins s))) (\<lambda>hit.
     thenT (update_spins P f) (
     case hit of
       None \<Rightarrow> returnT None
     | Some old \<Rightarrow>
         thenT (update_wallets (\<lambda>w. wallet_key w = (sp_userId spin, sp_currency spin))
           (lock_sub (sp_stakeMicro spin) now)) (
         thenT (insert_ledger_once (slot_refund_row spin reason)) (
         thenT (releaseOpenLiability now (sp_currency spin) (sp_exposureMicro spin)) (
         thenT (update_games (\<lambda>g. g_matchId g = matchId)
           (add_game_stake now (sp_currency spin) (- sp_stakeMicro spin))) (
         returnT (Some (sp_userId spin, spinToView (f old)))))))))) "

definition voidOpenSpinsForGame :: "millis \<Rightarrow> int \<Rightarrow> string \<Rightarrow> (uuid \<times> spin_view) list dbtx" where
  "voidOpenSpinsForGame now matchId reason =
    bindT (getT (\<lambda>s. filter (\<lambda>r. sp_matchId r = matchId \<and> sp_status r = spin_open) (slotzilla_spins s))) (\<lambda>openRows.
    bindT (forT openRows (void_spin now matchId reason)) (\<lambda>out.
    returnT (List.map_filter id out)))"

definition returnBp :: "micro \<Rightarrow> micro \<Rightarrow> int option" where
  "returnBp stakeMicro payout = (if stakeMicro \<le> 0 then None else Some (big_div (payout * 10000) stakeMicro))"

section \<open>Operating a game (modules/admin/slotzilla.ts)\<close>

fun show_game_status :: "game_status \<Rightarrow> string" where
  "show_game_status scheduled = ''scheduled''"
| "show_game_status live = ''live''"
| "show_game_status paused = ''paused''"
| "show_game_status ended = ''ended''"
| "show_game_status game_voided = ''voided''"

definition gameAudit :: "slotzilla_games_row \<Rightarrow> (string \<times> json) list" where
  "gameAudit g = [(''status'', JStr (show_game_status (g_status g))),
     (''pausedBy'', case g_pausedBy g of None \<Rightarrow> JNull | Some u \<Rightarrow> JStr u),
     (''pausedAt'', json_millis (g_pausedAt g)),
     (''note'', case g_note g of None \<Rightarrow> JNull | Some n \<Rightarrow> JStr n)]"

definition loadGameOr404 :: "int \<Rightarrow> slotzilla_games_row dbtx" where
  "loadGameOr404 matchId =
    bindT (getT (\<lambda>s. select_one (\<lambda>g. g_matchId g = matchId) (slotzilla_games s)))
      (someOr (NotFoundError ''slotzilla_game_not_found'' ''slotzilla_game_not_found''))"

text \<open>\<^verbatim>\<open>update ... returning; if (!row) throw\<close> on a game.\<close>

definition update_game_returning ::
  "(slotzilla_games_row \<Rightarrow> bool) \<Rightarrow> (slotzilla_games_row \<Rightarrow> slotzilla_games_row) \<Rightarrow> failure \<Rightarrow>
   slotzilla_games_row dbtx" where
  "update_game_returning P f e =
    bindT (getT (\<lambda>s. select_one P (slotzilla_games s))) (\<lambda>hit.
    thenT (update_games P f) (
    bindT (someOr e hit) (\<lambda>old. returnT (f old))))"

definition pause_game ::
  "millis \<Rightarrow> string option \<Rightarrow> authed_user option \<Rightarrow> int \<Rightarrow> string option \<Rightarrow> unit dbtx" where
  "pause_game now ip ru matchId note =
    bindT (liftE (requireRole admin_r ru)) (\<lambda>admin.
    bindT (loadGameOr404 matchId) (\<lambda>before.
    thenT (throwIf (g_status before \<noteq> live \<and> g_status before \<noteq> scheduled)
      (ConflictError ''game_not_pausable'' ''game_not_pausable'')) (
    bindT (update_game_returning (\<lambda>g. g_matchId g = matchId \<and> g_status g = g_status before)
      (\<lambda>g. g\<lparr>g_status := paused, g_pausedBy := Some (ru_id admin), g_pausedAt := Some now,
             g_note := (case note of None \<Rightarrow> g_note before | Some n \<Rightarrow> Some n), g_updatedAt := now\<rparr>)
      (ConflictError ''game_state_changed'' ''game_state_changed'')) (\<lambda>row.
    insert_audit (audit_entry (ru_id admin) ''slotzilla.game.pause'' ''slotzilla_game'' (show_int matchId)
      (gameAudit before) (gameAudit row) ip)))))"

definition resume_game :: "millis \<Rightarrow> string option \<Rightarrow> authed_user option \<Rightarrow> int \<Rightarrow> unit dbtx" where
  "resume_game now ip ru matchId =
    bindT (liftE (requireRole admin_r ru)) (\<lambda>admin.
    bindT (loadGameOr404 matchId) (\<lambda>before.
    thenT (throwIf (g_status before \<noteq> paused) (ConflictError ''game_not_paused'' ''game_not_paused'')) (
    bindT (update_game_returning (\<lambda>g. g_matchId g = matchId \<and> g_status g = paused)
      (\<lambda>g. g\<lparr>g_status := (if g_clockSeconds before \<noteq> None then live else scheduled),
             g_pausedBy := None, g_pausedAt := None, g_updatedAt := now\<rparr>)
      (ConflictError ''game_state_changed'' ''game_state_changed'')) (\<lambda>row.
    insert_audit (audit_entry (ru_id admin) ''slotzilla.game.resume'' ''slotzilla_game'' (show_int matchId)
      (gameAudit before) (gameAudit row) ip)))))"

definition void_game ::
  "millis \<Rightarrow> string option \<Rightarrow> authed_user option \<Rightarrow> int \<Rightarrow> string option \<Rightarrow> nat dbtx" where
  "void_game now ip ru matchId note =
    bindT (liftE (requireRole admin_r ru)) (\<lambda>admin.
    bindT (loadGameOr404 matchId) (\<lambda>before.
    thenT (throwIf (g_status before = game_voided)
      (ConflictError ''game_already_voided'' ''game_already_voided'')) (
    bindT (voidOpenSpinsForGame now matchId ''admin_void'') (\<lambda>voided.
    bindT (update_game_returning (\<lambda>g. g_matchId g = matchId)
      (\<lambda>g. g\<lparr>g_status := game_voided, g_note := (case note of None \<Rightarrow> g_note before | Some n \<Rightarrow> Some n),
             g_updatedAt := now\<rparr>)
      (InternalError ''slotzilla_games void returned no row'')) (\<lambda>row.
    thenT (insert_audit (audit_entry (ru_id admin) ''slotzilla.game.void'' ''slotzilla_game'' (show_int matchId)
      (gameAudit before) (gameAudit row @ [(''voidedSpins'', JNum (int (length voided)))]) ip)) (
    returnT (length voided)))))))"

end
