(* ===== verification/Slot_Books.thy ===== *)
theory Slot_Books
  imports Slot_Service
begin

text \<open>
  What the operations on spins and games did when they committed, and that
  they keep the books balanced.
\<close>

section \<open>What each step did\<close>

lemma paytableForGame_Inr [step_simps]:
  "paytableForGame i s = Inr (p, t) \<longleftrightarrow> t = s \<and> p = (case i of
     None \<Rightarrow> select_one pt_active (slotzilla_paytables s)
   | Some j \<Rightarrow> (case select_one (\<lambda>p. pt_id p = j) (slotzilla_paytables s) of
       Some q \<Rightarrow> Some q | None \<Rightarrow> select_one pt_active (slotzilla_paytables s)))"
  by (auto simp: paytableForGame_def loadActivePaytable_def loadPaytableById_def step_simps
      split: option.splits)

lemma spin_bettor_checks_effect:
  assumes "spin_bettor_checks userId stake request s = Inr ((user, cfg, cur), t)"
  shows "t = s" "select_one (\<lambda>r. u_id r = userId) (users s) = Some user" "u_status user = active"
    "cfg = slotzilla_config s" "sc_enabled cfg" "isCurrency (rq_currency request) = Some cur"
    "rq_currency request \<in> set (sc_currencies cfg)"
    "sc_minStakeMicro cfg \<le> stake" "stake \<le> sc_maxStakeMicro cfg"
    "u_globalLimitMicro user \<le> 0 \<or> stake \<le> u_globalLimitMicro user"
    "\<exists>w. select_one (\<lambda>w. wallet_key w = (userId, cur)) (wallets s) = Some w
      \<and> stake \<le> w_balanceMicro w - w_lockedMicro w"
  using assms unfolding spin_bettor_checks_def Let_def loadConfig_def
  by (auto simp: step_simps)

lemma spin_game_checks_effect:
  assumes "spin_game_checks nowMs userId matchId cfg cur s = Inr (game, t)"
  shows "t = s" "select_one (\<lambda>g. g_matchId g = matchId) (slotzilla_games s) = Some game"
    "g_isDemo game \<longrightarrow> cur = OZ" "g_status game = live"
    "clockIsFresh (g_clockReadAt game) nowMs (sc_feedDarkVoidSeconds cfg)"
    "select_one (\<lambda>r. sp_userId r = userId \<and> sp_matchId r = matchId \<and> sp_status r = spin_open)
      (slotzilla_spins s) = None"
  using assms unfolding spin_game_checks_def Let_def
  by (auto simp: step_simps spinBlockFor_def split: if_splits option.splits)

lemma spin_risk_checks_effect:
  assumes "spin_risk_checks nowMs userId matchId stake user cfg game s = Inr ((p, ex, w), t)"
  shows "t = s"
    "\<exists>lines. exposureMicro stake lines (sc_maxPayoutMicro cfg) = Inr ex"
    "sum_where (\<lambda>r. sp_matchId r = matchId \<and> sp_status r = spin_open) sp_exposureMicro (slotzilla_spins s) + ex
      \<le> sc_matchLiabilityCapMicro cfg"
    "\<exists>c. estimatedClockSeconds (g_clockSeconds game) (g_clockRunning game) (g_clockReadAt game) nowMs = Some c
      \<and> w = firstWindowFor c (sc_leadSeconds cfg)"
  using assms unfolding spin_risk_checks_def loadBotControls_def
  by (auto simp: step_simps)

definition opened_bank :: "millis \<Rightarrow> slotzilla_spins_row \<Rightarrow> bank_state_row \<Rightarrow> bank_state_row" where
  "opened_bank now r b = (if sp_currency r = USDC \<and> sp_exposureMicro r > 0
     then b\<lparr>openLiabilityMicro := openLiabilityMicro b + sp_exposureMicro r, bank_updatedAt := now\<rparr> else b)"

lemma spin_commit_effect:
  assumes "spin_commit now r s = Inr (x, t)"
  shows "t = s\<lparr>slotzilla_spins := slotzilla_spins s @ [r],
      wallets := update_where (\<lambda>w. wallet_key w = (sp_userId r, sp_currency r))
        (lock_add (sp_stakeMicro r) now) (wallets s),
      wallet_ledger := wallet_ledger s @ [slot_stake_row r],
      bank_state := opened_bank now r (bank_state s),
      slotzilla_games := update_where (\<lambda>g. g_matchId g = sp_matchId r)
        (\<lambda>g. (add_game_stake now (sp_currency r) (sp_stakeMicro r) g)
         \<lparr>g_spinsCount := g_spinsCount g + 1\<rparr>) (slotzilla_games s)\<rparr>"
    and "insert_checks spins_viol spins_uniq r (slotzilla_spins s)"
  using assms unfolding spin_commit_def
  by (auto simp: step_simps opened_bank_def split: if_splits)

text \<open>A placement either answers with the spin its key already made, or opens one spin after
  every check passed.\<close>

lemma spin_transaction_cases:
  assumes "spin_transaction nowMs newId userId matchId stake request s = Inr ((row, created), t)"
  obtains (replayed) "\<not> created" "t = s" "findExisting userId (rq_idempotencyKey request) s = Some row"
  | (placed) user cfg cur game p ex w where "created"
      "findExisting userId (rq_idempotencyKey request) s = None"
      "spin_bettor_checks userId stake request s = Inr ((user, cfg, cur), s)"
      "spin_game_checks nowMs userId matchId cfg cur s = Inr (game, s)"
      "spin_risk_checks nowMs userId matchId stake user cfg game s = Inr ((p, ex, w), s)"
      "row = new_spin nowMs newId userId matchId cur stake ex p w request"
      "spin_commit nowMs row s = Inr ((), t)"
proof (cases "findExisting userId (rq_idempotencyKey request) s")
  case (Some r)
  then show thesis using assms replayed by (simp add: spin_transaction_def step_simps)
next
  case None
  then obtain user cfg cur s1 game s2 p ex w s3 u where
    steps: "spin_bettor_checks userId stake request s = Inr ((user, cfg, cur), s1)"
      "spin_game_checks nowMs userId matchId cfg cur s1 = Inr (game, s2)"
      "spin_risk_checks nowMs userId matchId stake user cfg game s2 = Inr ((p, ex, w), s3)"
      "row = new_spin nowMs newId userId matchId cur stake ex p w request"
      "spin_commit nowMs row s3 = Inr (u, t)" "created"
    using assms by (auto simp: spin_transaction_def step_simps Let_def split: prod.splits)
  have eq: "s1 = s" "s2 = s" "s3 = s"
    using spin_bettor_checks_effect(1) [OF steps(1)] spin_game_checks_effect(1) [OF steps(2)]
      spin_risk_checks_effect(1) [OF steps(3)] by simp_all
  from steps show thesis by (intro placed [of user cfg cur game p ex w]) (simp_all add: eq None)
qed

lemma placeSpin_cases:
  assumes "placeSpin nowMs newId userId matchId request s = Inr ((view, created), t)"
  obtains (replayed) row where "\<not> created" "t = s" "view = spinToView row"
      "findExisting userId (rq_idempotencyKey request) s = Some row"
  | (placed) row stake where "created" "parse_stake (rq_stakeMicro request) = Inr stake" "0 < stake"
      "view = spinToView row"
      "spin_transaction nowMs newId userId matchId stake request s = Inr ((row, True), t)"
proof -
  from assms obtain stake row where stake: "parse_stake (rq_stakeMicro request) = Inr stake" "0 < stake"
    and view: "view = spinToView row"
    and run: "spin_catch userId request (spin_transaction nowMs newId userId matchId stake request) s
        = Inr ((row, created), t)"
    unfolding placeSpin_def by (auto simp: step_simps split: prod.splits)
  show thesis
  proof (cases "spin_transaction nowMs newId userId matchId stake request s")
    case (Inl e)
    then have "\<not> created" "t = s" "findExisting userId (rq_idempotencyKey request) s = Some row"
      using run by (auto simp: spin_catch_def split: if_splits option.splits bool.splits)
    then show thesis using view replayed by blast
  next
    case (Inr r)
    then have r: "spin_transaction nowMs newId userId matchId stake request s = Inr ((row, created), t)"
      using run by (simp add: spin_catch_def)
    then show thesis
    proof (cases rule: spin_transaction_cases)
      case replayed
      then show thesis using view that(1) by blast
    next
      case placed
      then show thesis using view stake r that(2) by simp
    qed
  qed
qed

section \<open>Opening and closing a spin\<close>

lemma books_spin_open:
  assumes ok: "books_ok s" and t: "schema_ok t"
    and upd: "slotzilla_spins t = slotzilla_spins s @ [r]" "sp_open r"
    and acq: "acquires (sp_userId r, sp_currency r) (sp_stakeMicro r) (wallets s) (wallets t)"
    and frame: "withdrawals t = withdrawals s" "tickets t = tickets s" "deposit_intents t = deposit_intents s"
      "bank_state t = opened_bank now r (bank_state s)"
      "wallet_ledger t = wallet_ledger s @ [slot_stake_row r]"
  shows "books_ok t"
proof (rule books_okI [OF t])
  note s = books_okD [OF ok]
  show "locks_ok t" by (rule sp_obl.acquire [OF s(1,2) upd acq]) (simp add: frame)
  have "0 \<le> sp_exposureMicro r" using spin_bounds(2) [OF t, of r] upd(1) by simp
  then show "liability_ok t"
    using s(3) upd by (auto simp: liability_ok_def open_liability_def frame opened_bank_def)
  have "entities_le s t" using upd by (auto simp: entities_le_def frame)
  moreover have "pred_option (ref_ok t) (ledger_key (slot_stake_row r))"
    using upd(1) by (simp add: slot_stake_row_def ledger_key_def ref_ok.simps)
  ultimately show "refs_ok t" by (intro refs_ok_add [OF s(4), of t "slot_stake_row r"]) (simp_all add: frame)
qed

lemma books_spin_close:
  assumes ok: "books_ok s" and t: "schema_ok t"
    and row: "select_one (\<lambda>r. sp_id r = i) (slotzilla_spins s) = Some row" "sp_open row"
    and upd: "slotzilla_spins t = update_where (\<lambda>r. sp_id r = i) f (slotzilla_spins s)"
      "\<And>r. sp_id (f r) = sp_id r \<and> \<not> sp_open (f r)"
    and rel: "releases (sp_userId row, sp_currency row) (sp_stakeMicro row) (wallets s) (wallets t)"
    and frame: "withdrawals t = withdrawals s" "tickets t = tickets s"
      "deposit_intents t = deposit_intents s"
      "bank_state t = released now (sp_currency row) (sp_exposureMicro row) (bank_state s)"
    and led: "wallet_ledger t = book_once l (wallet_ledger s)" "pred_option (ref_ok t) (ledger_key l)"
  shows "books_ok t"
proof (rule books_okI [OF t])
  note s = books_okD [OF ok]
  have mem: "row \<in> set (slotzilla_spins s)" using row(1) by (auto dest: select_one_SomeD)
  have closed: "\<not> sp_open (f row)" using upd(2) by simp
  show "locks_ok t" by (rule sp_obl.release [OF s(1,2) row upd(1) closed rel]) (simp add: frame)
  show "liability_ok t"
    using open_liability_spin_close [OF s(1) row upd(1) closed frame(2)] s(3)
      spin_exposure_le [OF s(1) mem row(2)] spin_bounds(2) [OF s(1) mem]
    by (auto simp: liability_ok_def frame(4) released_def)
  have "closed_spins s \<subseteq> closed_spins t" unfolding upd(1) using upd(2) by (intro ids_where_update) simp
  moreover have "spin_ids t = spin_ids s"
    unfolding upd(1) by (subst map_key_update_where) (simp_all add: upd(2))
  ultimately have "entities_le s t" by (simp add: entities_le_def frame)
  then show "refs_ok t" using s(4) led by (rule_tac refs_ok_le)
qed

section \<open>The books stay balanced\<close>

lemma schema_slot_ops [keeps_intros]:
  "keeps schema_ok (spin_commit now r)"
  "keeps schema_ok (update_game_returning P f e)"
  unfolding spin_commit_def update_game_returning_def
  by (intro keeps_intros)+

lemma spin_transaction_books:
  assumes ok: "books_ok s" and run: "spin_transaction nowMs newId userId matchId stake request s = Inr ((row, created), t)"
  shows "books_ok t"
  using run
proof (cases rule: spin_transaction_cases)
  case replayed
  then show ?thesis using ok by simp
next
  case (placed user cfg cur game p ex w)
  note eff = spin_commit_effect [OF placed(7)]
  have fields: "sp_userId row = userId" "sp_currency row = cur" "sp_stakeMicro row = stake" "sp_open row"
    by (simp_all add: placed(6) new_spin_def sp_open_def)
  have schema: "schema_ok t"
    using placed(7) ok by (auto intro: keepsD [OF schema_slot_ops(1)] dest: books_okD)
  have "has_wallet (userId, cur) (wallets s)"
    using spin_bettor_checks_effect(11) [OF placed(3)] by (auto simp: has_wallet_iff)
  then have acq: "acquires (userId, cur) stake (wallets s) (wallets t)"
    unfolding eff(1) by (simp add: fields acquires_lock_add)
  show ?thesis
    by (rule books_spin_open [OF ok schema, of row nowMs]) (use acq in \<open>simp_all add: eff(1) fields\<close>)
qed

lemma books_placeSpin: "keeps books_ok (placeSpin nowMs newId userId matchId request)"
proof (rule keepsI)
  fix s x t
  assume ok: "books_ok s" and step: "placeSpin nowMs newId userId matchId request s = Inr (x, t)"
  obtain view created where x: "x = (view, created)" by (cases x)
  from step [unfolded x] show "books_ok t"
    by (cases rule: placeSpin_cases) (use ok spin_transaction_books in blast)+
qed

lemma books_post_spin: "keeps books_ok (post_spin nowMs newId ru matchId body)"
  unfolding post_spin_def by (intro keeps_intros books_placeSpin) (auto intro: keeps_intros split: prod.splits)

text \<open>Steps that change games only.\<close>

lemma books_games_only:
  assumes "books_ok s" and "schema_ok (s\<lparr>slotzilla_games := gs\<rparr>)"
  shows "books_ok (s\<lparr>slotzilla_games := gs\<rparr>)"
  by (rule books_frame [OF assms]) simp_all

lemma books_update_games: "keeps books_ok (update_games P f)"
proof (rule keepsI)
  fix s x t
  assume ok: "books_ok s" and step: "update_games P f s = Inr (x, t)"
  have "schema_ok t" using ok step by (auto intro: keepsD [OF schema_statements_slots(1)] dest: books_okD)
  then show "books_ok t" using step ok by (auto simp: step_simps intro: books_games_only)
qed

lemma books_audit: "keeps books_ok (insert_audit a)"
proof (rule keepsI)
  fix s x t
  assume ok: "books_ok s" and step: "insert_audit a s = Inr (x, t)"
  have "schema_ok t" using ok step by (auto intro: keepsD [OF schema_bank(2)] dest: books_okD)
  then show "books_ok t" using step ok by (auto simp: step_simps intro!: books_frame [OF ok])
qed

text \<open>The row a listed spin stands for: the columns a void does not change.\<close>

definition spin_known :: "db \<Rightarrow> slotzilla_spins_row \<Rightarrow> bool" where
  "spin_known s x \<longleftrightarrow> (\<forall>r \<in> set (slotzilla_spins s). sp_id r = sp_id x \<longrightarrow>
     sp_userId r = sp_userId x \<and> sp_currency r = sp_currency x \<and> sp_stakeMicro r = sp_stakeMicro x
     \<and> sp_exposureMicro r = sp_exposureMicro x)"

definition voided_spin :: "millis \<Rightarrow> string \<Rightarrow> slotzilla_spins_row \<Rightarrow> slotzilla_spins_row" where
  "voided_spin now reason r = r\<lparr>sp_status := spin_void, sp_voidReason := Some reason, sp_settledAt := Some now\<rparr>"

lemma voided_spin_simps [simp]:
  "sp_id (voided_spin n z r) = sp_id r" "\<not> sp_open (voided_spin n z r)"
  "sp_userId (voided_spin n z r) = sp_userId r" "sp_currency (voided_spin n z r) = sp_currency r"
  "sp_stakeMicro (voided_spin n z r) = sp_stakeMicro r" "sp_exposureMicro (voided_spin n z r) = sp_exposureMicro r"
  "sp_matchId (voided_spin n z r) = sp_matchId r" "sp_status (voided_spin n z r) = spin_void"
  by (simp_all add: voided_spin_def sp_open_def)

lemma void_spin_cases:
  assumes "void_spin now matchId reason spin s = Inr (x, t)"
  obtains (skipped) "x = None" "t = s"
      "select_one (\<lambda>r. sp_id r = sp_id spin \<and> sp_status r = spin_open) (slotzilla_spins s) = None"
  | (voided) old where "x = Some (sp_userId spin, spinToView (voided_spin now reason old))"
      "select_one (\<lambda>r. sp_id r = sp_id spin \<and> sp_status r = spin_open) (slotzilla_spins s) = Some old"
      "t = s\<lparr>slotzilla_spins := update_where (\<lambda>r. sp_id r = sp_id spin \<and> sp_status r = spin_open)
           (voided_spin now reason) (slotzilla_spins s),
         wallets := update_where (\<lambda>w. wallet_key w = (sp_userId spin, sp_currency spin))
           (lock_sub (sp_stakeMicro spin) now) (wallets s),
         wallet_ledger := book_once (slot_refund_row spin reason) (wallet_ledger s),
         bank_state := released now (sp_currency spin) (sp_exposureMicro spin) (bank_state s),
         slotzilla_games := update_where (\<lambda>g. g_matchId g = matchId)
           (add_game_stake now (sp_currency spin) (- sp_stakeMicro spin)) (slotzilla_games s)\<rparr>"
proof (cases "select_one (\<lambda>r. sp_id r = sp_id spin \<and> sp_status r = spin_open) (slotzilla_spins s)")
  case None
  then have "update_where (\<lambda>r. sp_id r = sp_id spin \<and> sp_status r = spin_open) f (slotzilla_spins s)
      = slotzilla_spins s" for f
    by (intro update_where_none) (auto simp: select_one_None_iff)
  then show thesis using assms None skipped unfolding void_spin_def Let_def by (simp add: step_simps)
next
  case (Some old)
  then show thesis using assms voided
    unfolding void_spin_def Let_def voided_spin_def [abs_def] by (simp add: step_simps)
qed

lemma schema_void_spin [keeps_intros]: "keeps schema_ok (void_spin now matchId reason spin)"
  unfolding void_spin_def Let_def releaseOpenLiability_def
  by (intro keeps_intros)

lemma void_spin_books:
  assumes ok: "books_ok s" and known: "spin_known s spin"
    and step: "void_spin now matchId reason spin s = Inr (x, t)"
  shows "books_ok t"
  using step
proof (cases rule: void_spin_cases)
  case skipped
  then show ?thesis using ok by simp
next
  case (voided old)
  have schema: "schema_ok t" using ok step by (auto intro: keepsD [OF schema_void_spin] dest: books_okD)
  have old: "old \<in> set (slotzilla_spins s)" "sp_id old = sp_id spin" "sp_status old = spin_open"
    using voided(2) by (auto dest: select_one_SomeD)
  then have same: "sp_userId old = sp_userId spin" "sp_currency old = sp_currency spin"
      "sp_stakeMicro old = sp_stakeMicro spin" "sp_exposureMicro old = sp_exposureMicro spin"
    using known by (auto simp: spin_known_def)
  note dist = spins_distinct [OF books_okD(1) [OF ok]]
  have row: "select_one (\<lambda>r. sp_id r = sp_id spin) (slotzilla_spins s) = Some old"
    using select_one_key [OF dist old(1)] old(2) by simp
  have upd: "slotzilla_spins t = update_where (\<lambda>r. sp_id r = sp_id spin) (voided_spin now reason) (slotzilla_spins s)"
    unfolding voided(3) using old(3) by (auto dest: select_one_unique [OF dist row] intro!: update_where_cong)
  have "voided_spin now reason old \<in> set (slotzilla_spins t)"
    unfolding upd using old by (auto simp: in_set_update_where)
  then have "sp_id spin \<in> closed_spins t" using old(2) by (intro ids_whereI [of "voided_spin now reason old"]) simp_all
  then have led: "pred_option (ref_ok t) (ledger_key (slot_refund_row spin reason))"
    by (simp add: slot_refund_row_def ledger_key_def ref_ok.simps)
  show ?thesis
    by (rule books_spin_close [OF ok schema row _ upd _ _ _ _ _ _ _ led, of now])
       (simp_all add: voided(3) sp_open_def old(3) same releases_lock_sub)
qed

lemma void_spin_known:
  assumes "void_spin now matchId reason spin s = Inr (x, t)" and "spin_known s y"
  shows "spin_known t y"
  using assms(1)
proof (cases rule: void_spin_cases)
  case skipped
  then show ?thesis using assms(2) by simp
next
  case (voided old)
  then show ?thesis using assms(2) by (auto simp: spin_known_def in_set_update_where)
qed

lemma books_voidOpenSpins: "keeps books_ok (voidOpenSpinsForGame now matchId reason)"
proof -
  have "wp (forT xs (void_spin now matchId reason)) (\<lambda>_. books_ok) s"
    if ok: "books_ok s" and xs: "xs = filter (\<lambda>r. sp_matchId r = matchId \<and> sp_status r = spin_open) (slotzilla_spins s)"
    for s xs
  proof -
    let ?I = "\<lambda>s. books_ok s \<and> (\<forall>y \<in> set xs. spin_known s y)"
    have "wp (forT xs (void_spin now matchId reason)) (\<lambda>_. ?I) s"
    proof (rule wp_forT)
      fix spin u
      assume "spin \<in> set xs" "?I u"
      then show "wp (void_spin now matchId reason spin) (\<lambda>_. ?I) u"
        by (intro wpI) (auto intro: void_spin_books void_spin_known)
    next
      show "?I s" using ok xs spins_distinct [OF books_okD(1) [OF ok]]
        by (auto simp: spin_known_def dest: distinct_key_inj)
    qed
    then show ?thesis by (rule wp_mono) simp
  qed
  then show ?thesis
    by (auto simp: keeps_def voidOpenSpinsForGame_def wp_bindT wp_getT wp_returnT [abs_def])
qed

lemma books_update_game_returning: "keeps books_ok (update_game_returning P f e)"
  unfolding update_game_returning_def by (intro keeps_intros books_update_games)

lemma books_loadGame: "keeps books_ok (loadGameOr404 matchId)"
  unfolding loadGameOr404_def by (intro keeps_intros)

lemmas books_slot_ops [keeps_intros] = books_post_spin books_placeSpin books_voidOpenSpins
  books_update_game_returning books_loadGame books_audit

lemma books_game_ops [keeps_intros]:
  "keeps books_ok (pause_game now ip ru matchId note)"
  "keeps books_ok (resume_game now ip ru matchId)"
  "keeps books_ok (void_game now ip ru matchId note)"
  unfolding pause_game_def resume_game_def void_game_def
  by (intro keeps_intros)+

end
