(* ===== verification/Slot_Safety.thy ===== *)
theory Slot_Safety
  imports Slot_Books Sample
begin

text \<open>
  What a bettor and the operator can rely on when spins are placed and games
  are voided: the liability cap of a match, one open spin per bettor and match,
  the demo currency, windows that lie ahead of the clock, replays that change
  nothing, and a void that closes every open spin and takes no money.
\<close>

lemma spin_open_exposure_append:
  assumes "slotzilla_spins t = slotzilla_spins s @ [r]"
  shows "sum_where (\<lambda>x. sp_matchId x = m \<and> sp_status x = spin_open) sp_exposureMicro (slotzilla_spins t) =
    sum_where (\<lambda>x. sp_matchId x = m \<and> sp_status x = spin_open) sp_exposureMicro (slotzilla_spins s)
    + (if sp_matchId r = m \<and> sp_status r = spin_open then sp_exposureMicro r else 0)"
  by (simp add: assms)

text \<open>C20: a spin that is placed is covered: the game is live with a fresh clock, a demo game
  took play money, the stake was free in the wallet and is now locked, the open exposure of the
  match stays within its cap, the first window opens on the grid at least the lead after the
  clock reading, and it is the bettor's only open spin on the match.\<close>

theorem placed_spin_is_covered:
  assumes ok: "books_ok s" and step: "placeSpin nowMs newId userId matchId request s = Inr ((view, True), t)"
  shows "\<exists>r game w. slotzilla_spins t = slotzilla_spins s @ [r] \<and> view = spinToView r
    \<and> sp_userId r = userId \<and> sp_matchId r = matchId \<and> sp_status r = spin_open
    \<and> select_one (\<lambda>g. g_matchId g = matchId) (slotzilla_games s) = Some game
    \<and> g_status game = live \<and> clockIsFresh (g_clockReadAt game) nowMs (sc_feedDarkVoidSeconds (slotzilla_config s))
    \<and> (g_isDemo game \<longrightarrow> sp_currency r = OZ)
    \<and> select_one (\<lambda>x. wallet_key x = (userId, sp_currency r)) (wallets s) = Some w
    \<and> 0 < sp_stakeMicro r \<and> sp_stakeMicro r \<le> w_balanceMicro w - w_lockedMicro w
    \<and> locked_of (userId, sp_currency r) (wallets t)
        = locked_of (userId, sp_currency r) (wallets s) + sp_stakeMicro r
    \<and> sum_where (\<lambda>x. sp_matchId x = matchId \<and> sp_status x = spin_open) sp_exposureMicro (slotzilla_spins t)
        \<le> sc_matchLiabilityCapMicro (slotzilla_config s)
    \<and> sp_windowFrom r mod WINDOW_SECONDS = 0
    \<and> (\<forall>c. g_clockSeconds game = Some c \<longrightarrow> c + sc_leadSeconds (slotzilla_config s) \<le> sp_windowFrom r)
    \<and> filter (\<lambda>x. sp_userId x = userId \<and> sp_matchId x = matchId \<and> sp_status x = spin_open)
        (slotzilla_spins t) = [r]"
  using step
proof (cases rule: placeSpin_cases)
  case (placed row stake)
  from placed(5) show ?thesis
  proof (cases rule: spin_transaction_cases)
    case replayed
    then show ?thesis by simp
  next
    case tx: (placed user cfg cur game p ex w)
    note b = spin_bettor_checks_effect [OF tx(3)] and g = spin_game_checks_effect [OF tx(4)]
      and k = spin_risk_checks_effect [OF tx(5)] and c = spin_commit_effect [OF tx(7)]
    have row: "sp_userId row = userId" "sp_matchId row = matchId" "sp_status row = spin_open"
        "sp_currency row = cur" "sp_stakeMicro row = stake" "sp_exposureMicro row = ex" "sp_windowFrom row = w"
      by (simp_all add: tx(6) new_spin_def)
    obtain wal where wal: "select_one (\<lambda>w. wallet_key w = (userId, cur)) (wallets s) = Some wal"
      "stake \<le> w_balanceMicro wal - w_lockedMicro wal" using b(11) by blast
    obtain clk where clk: "estimatedClockSeconds (g_clockSeconds game) (g_clockRunning game) (g_clockReadAt game) nowMs
        = Some clk" "w = firstWindowFor clk (sc_leadSeconds cfg)" using k(4) by blast
    have lead: "w mod 5 = 0" "clk + sc_leadSeconds cfg \<le> w"
      using clk(2) div_mult_mod_eq [of "- (clk + sc_leadSeconds cfg)" 5]
        pos_mod_sign [of 5 "- (clk + sc_leadSeconds cfg)"]
      by (simp_all add: firstWindowFor_def WINDOW_SECONDS_def Let_def)
    have ahead: "x \<le> clk" if "g_clockSeconds game = Some x" for x
      using clk(1) that by (auto simp: estimatedClockSeconds_def split: option.splits if_splits)
    have "has_wallet (userId, cur) (wallets s)" using wal(1) by (simp add: has_wallet_iff)
    then have locked: "locked_of (userId, cur) (wallets t) = locked_of (userId, cur) (wallets s) + stake"
      using locked_of_update [OF wallets_distinct [OF books_okD(1) [OF ok]], of "lock_add stake nowMs" stake]
      by (simp add: c(1) row)
    have spins: "slotzilla_spins t = slotzilla_spins s @ [row]" by (simp add: c(1))
    have only: "filter (\<lambda>x. sp_userId x = userId \<and> sp_matchId x = matchId \<and> sp_status x = spin_open)
        (slotzilla_spins t) = [row]"
      using g(6) by (auto simp: spins row select_one_None_iff filter_empty_conv)
    have cap: "sum_where (\<lambda>x. sp_matchId x = matchId \<and> sp_status x = spin_open) sp_exposureMicro (slotzilla_spins t)
        \<le> sc_matchLiabilityCapMicro cfg"
      using k(3) by (simp add: spin_open_exposure_append [OF spins] row)
    show ?thesis
      using g(2-5) lead ahead locked only cap wal placed(3,4) b(4) spins
      by (intro exI [of _ row] exI [of _ game] exI [of _ wal]) (auto simp: row WINDOW_SECONDS_def intro: order_trans)
  qed
qed simp

text \<open>An idempotency key buys one spin: placing again with the key of a spin that was
  placed, at any later time and for any match, answers with the same spin and changes nothing.\<close>

theorem spin_replay_is_noop:
  assumes "placeSpin nowMs newId userId matchId request s = Inr ((view, True), t)"
    and "rq_idempotencyKey request' = rq_idempotencyKey request"
    and "parse_stake (rq_stakeMicro request') = Inr stake'" "0 < stake'"
  shows "placeSpin nowMs' newId' userId matchId' request' t = Inr ((view, False), t)"
  using assms(1)
proof (cases rule: placeSpin_cases)
  case (placed row stake)
  from placed(5) show ?thesis
  proof (cases rule: spin_transaction_cases)
    case replayed
    then show ?thesis by simp
  next
    case tx: (placed user cfg cur game p ex w)
    have "slotzilla_spins t = slotzilla_spins s @ [row]" using spin_commit_effect(1) [OF tx(7)] by simp
    then have "findExisting userId (rq_idempotencyKey request') t = Some row"
      using tx(2) by (simp add: findExisting_def select_one_append assms(2) tx(6) new_spin_def)
    then show ?thesis using assms(3,4) placed(4)
      by (simp add: placeSpin_def spin_transaction_def spin_catch_def run_defs not_le)
  qed
qed simp

section \<open>Voiding a game\<close>

lemma list_all2_source: "list_all2 P xs ys \<Longrightarrow> y \<in> set ys \<Longrightarrow> \<exists>x \<in> set xs. P x y"
  by (induction rule: list_all2_induct) auto

lemma list_all2_update_where:
  "list_all2 (\<lambda>r r'. r' = r \<or> r' = f r) rs (update_where P f rs)"
  by (induction rs) auto

definition maybe_voided :: "millis \<Rightarrow> string \<Rightarrow> slotzilla_spins_row \<Rightarrow> slotzilla_spins_row \<Rightarrow> bool" where
  "maybe_voided now reason r r' \<longleftrightarrow> r' = r \<or> r' = voided_spin now reason r"

lemma maybe_voided_simps:
  "maybe_voided now reason r r' \<Longrightarrow> sp_id r' = sp_id r \<and> sp_matchId r' = sp_matchId r
     \<and> (sp_status r' = spin_open \<longrightarrow> r' = r)"
  by (auto simp: maybe_voided_def)

lemma maybe_voided_trans:
  "maybe_voided now reason a b \<Longrightarrow> maybe_voided now reason b c \<Longrightarrow> maybe_voided now reason a c"
  by (auto simp: maybe_voided_def voided_spin_def)

lemma void_spin_rows:
  assumes "void_spin now matchId reason spin s = Inr (x, t)"
  shows "list_all2 (maybe_voided now reason) (slotzilla_spins s) (slotzilla_spins t)"
  using assms
proof (cases rule: void_spin_cases)
  case skipped
  then show ?thesis by (simp add: maybe_voided_def list_all2_same)
next
  case (voided old)
  then show ?thesis
    using list_all2_update_where [of "voided_spin now reason" "slotzilla_spins s"]
    by (simp add: maybe_voided_def [abs_def])
qed

lemma void_spin_closes:
  assumes "void_spin now matchId reason spin s = Inr (x, t)"
    and "r \<in> set (slotzilla_spins t)" "sp_id r = sp_id spin"
  shows "sp_status r \<noteq> spin_open"
  using assms(1)
proof (cases rule: void_spin_cases)
  case skipped
  then show ?thesis using assms(2,3) by (auto simp: select_one_None_iff)
next
  case (voided old)
  then obtain r0 where "r = (if sp_id r0 = sp_id spin \<and> sp_status r0 = spin_open
      then voided_spin now reason r0 else r0)"
    using assms(2) by (auto simp: in_set_update_where)
  then show ?thesis using assms(3) by (simp split: if_splits)
qed

lemma balance_lock_update:
  "balance_of k (update_where Q (lock_sub a n) ws) = balance_of k ws"
  unfolding balance_of_def by (rule sum_where_update_same) simp

lemma void_spin_balance:
  assumes "void_spin now matchId reason spin s = Inr (x, t)"
  shows "balance_of k (wallets t) = balance_of k (wallets s)"
  using assms by (cases rule: void_spin_cases) (simp_all add: balance_lock_update)

lemma void_loop:
  assumes "forT xs (void_spin now matchId reason) s = Inr (ys, t)"
  shows "list_all2 (maybe_voided now reason) (slotzilla_spins s) (slotzilla_spins t)
    \<and> (\<forall>r \<in> set (slotzilla_spins t). sp_id r \<in> sp_id ` set xs \<longrightarrow> sp_status r \<noteq> spin_open)
    \<and> (\<forall>k. balance_of k (wallets t) = balance_of k (wallets s))"
  using assms
proof (induction xs arbitrary: s ys)
  case Nil
  then show ?case by (simp add: step_simps maybe_voided_def list_all2_same)
next
  case (Cons x xs)
  then obtain y s1 zs where step: "void_spin now matchId reason x s = Inr (y, s1)"
    and loop: "forT xs (void_spin now matchId reason) s1 = Inr (zs, t)"
    by (auto simp: step_simps)
  note IH = Cons.IH [OF loop]
  have rows: "list_all2 (maybe_voided now reason) (slotzilla_spins s) (slotzilla_spins t)"
    using list_all2_trans [OF _ void_spin_rows [OF step] conjunct1 [OF IH]] maybe_voided_trans by blast
  have "sp_status r \<noteq> spin_open" if r: "r \<in> set (slotzilla_spins t)" "sp_id r = sp_id x" for r
  proof
    assume st: "sp_status r = spin_open"
    obtain r1 where "r1 \<in> set (slotzilla_spins s1)" "maybe_voided now reason r1 r"
      using list_all2_source [OF conjunct1 [OF IH] r(1)] by blast
    then show False using void_spin_closes [OF step, of r] r(2) st maybe_voided_simps by metis
  qed
  then show ?case using rows IH void_spin_balance [OF step] by auto
qed

lemma update_game_returning_effect:
  assumes "update_game_returning P f e s = Inr (g, t)"
  shows "\<exists>old. select_one P (slotzilla_games s) = Some old \<and> g = f old
    \<and> t = s\<lparr>slotzilla_games := update_where P f (slotzilla_games s)\<rparr>"
  using assms unfolding update_game_returning_def by (auto simp: step_simps)

lemma void_game_effect:
  assumes "void_game now ip ru matchId note s = Inr (n, t)"
  obtains before out s1 where
    "select_one (\<lambda>g. g_matchId g = matchId) (slotzilla_games s) = Some before"
    "forT (filter (\<lambda>r. sp_matchId r = matchId \<and> sp_status r = spin_open) (slotzilla_spins s))
       (void_spin now matchId ''admin_void'') s = Inr (out, s1)"
    "slotzilla_spins t = slotzilla_spins s1" "wallets t = wallets s1"
    "slotzilla_games t = update_where (\<lambda>g. g_matchId g = matchId)
       (\<lambda>g. g\<lparr>g_status := game_voided, g_note := (case note of None \<Rightarrow> g_note before | Some n \<Rightarrow> Some n),
             g_updatedAt := now\<rparr>) (slotzilla_games s1)"
  using assms unfolding void_game_def voidOpenSpinsForGame_def loadGameOr404_def
  by (auto simp: step_simps dest!: update_game_returning_effect intro!: that)

text \<open>Voiding a game closes it for good: every spin that was open on the match is void, no
  spin on it is open, no balance has changed, the game is voided, and from then on no new spin on
  it can be placed.\<close>

theorem void_game_closes_all:
  assumes step: "void_game now ip ru matchId note s = Inr (n, t)"
  shows "count_where (\<lambda>r. sp_matchId r = matchId \<and> sp_status r = spin_open) (slotzilla_spins t) = 0
    \<and> list_all2 (maybe_voided now ''admin_void'') (slotzilla_spins s) (slotzilla_spins t)
    \<and> balance_of k (wallets t) = balance_of k (wallets s)
    \<and> (\<forall>g \<in> set (slotzilla_games t). g_matchId g = matchId \<longrightarrow> g_status g = game_voided)
    \<and> placeSpin now' newId userId matchId request t \<noteq> Inr ((view, True), u)"
proof -
  let ?open = "\<lambda>r. sp_matchId r = matchId \<and> sp_status r = spin_open"
  from step obtain before out s1 where "select_one (\<lambda>g. g_matchId g = matchId) (slotzilla_games s) = Some before"
    and loop: "forT (filter ?open (slotzilla_spins s)) (void_spin now matchId ''admin_void'') s = Inr (out, s1)"
    and t: "slotzilla_spins t = slotzilla_spins s1" "wallets t = wallets s1"
      "slotzilla_games t = update_where (\<lambda>g. g_matchId g = matchId)
       (\<lambda>g. g\<lparr>g_status := game_voided, g_note := (case note of None \<Rightarrow> g_note before | Some n \<Rightarrow> Some n),
             g_updatedAt := now\<rparr>) (slotzilla_games s1)"
    by (rule void_game_effect)
  note l = void_loop [OF loop]
  have none: "\<not> ?open r" if mem: "r \<in> set (slotzilla_spins t)" for r
  proof
    assume r: "?open r"
    obtain r0 where "r0 \<in> set (slotzilla_spins s)" "maybe_voided now ''admin_void'' r0 r"
      using list_all2_source [OF conjunct1 [OF l], of r] mem by (auto simp: t)
    then have "r \<in> set (filter ?open (slotzilla_spins s))" using r maybe_voided_simps [of now "''admin_void''" r0 r] by auto
    then have "sp_id r \<in> sp_id ` set (filter ?open (slotzilla_spins s))" by (rule imageI)
    then have "sp_status r \<noteq> spin_open"
      using conjunct1 [OF conjunct2 [OF l]] mem unfolding t by blast
    then show False using r by simp
  qed
  have games: "g_status g = game_voided" if mem: "g \<in> set (slotzilla_games t)" and id: "g_matchId g = matchId" for g
  proof -
    obtain g0 where "g = (if g_matchId g0 = matchId then g0\<lparr>g_status := game_voided,
        g_note := (case note of None \<Rightarrow> g_note before | Some n \<Rightarrow> Some n), g_updatedAt := now\<rparr> else g0)"
      using mem unfolding t in_set_update_where by blast
    then show ?thesis using id by (simp split: if_splits)
  qed
  have "placeSpin now' newId userId matchId request t \<noteq> Inr ((view, True), u)"
  proof
    assume "placeSpin now' newId userId matchId request t = Inr ((view, True), u)"
    then obtain row stake where "spin_transaction now' newId userId matchId stake request t = Inr ((row, True), u)"
      by (cases rule: placeSpin_cases) auto
    then obtain cfg cur game where g: "spin_game_checks now' userId matchId cfg cur t = Inr (game, t)"
      by (cases rule: spin_transaction_cases) auto
    then show False using games [of game] spin_game_checks_effect(2,4) [OF g]
      by (auto dest: select_one_SomeD)
  qed
  moreover have "count_where ?open (slotzilla_spins t) = 0"
    using none unfolding count_where_def by (simp add: filter_empty_conv)
  moreover have "\<forall>g \<in> set (slotzilla_games t). g_matchId g = matchId \<longrightarrow> g_status g = game_voided"
    using games by blast
  ultimately show ?thesis using conjunct1 [OF l] spec [OF conjunct2 [OF conjunct2 [OF l]], of k] by (simp add: t)
qed

section \<open>On the sample database\<close>

definition sample_request :: spin_request where
  "sample_request = \<lparr>rq_currency = ''OZ'', rq_stakeMicro = ''1000'', rq_idempotencyKey = ''spin-key-1'',
     rq_autoplay = None\<rparr>"

lemma sample_spin_selects [simp]:
  "findExisting ''ann'' ''spin-key-1'' sample_db = None"
  "select_one (\<lambda>r. u_id r = ''ann'') (users sample_db) = Some (sample_user ''ann'' ''ann@x'' user_r)"
  "select_one (\<lambda>w. wallet_key w = (''ann'', OZ)) (wallets sample_db) = Some sample_oz_wallet"
  "select_one (\<lambda>g. g_matchId g = 8) (slotzilla_games sample_db) = Some sample_demo_game"
  "select_one (\<lambda>r. sp_userId r = ''ann'' \<and> sp_matchId r = 8 \<and> sp_status r = spin_open)
     (slotzilla_spins sample_db) = None"
  by code_simp+

lemma sample_checks_run:
  "spin_bettor_checks ''ann'' 1000 sample_request sample_db =
     Inr ((sample_user ''ann'' ''ann@x'' user_r, slotzilla_config sample_db, OZ), sample_db)"
  "spin_game_checks 20000 ''ann'' 8 (slotzilla_config sample_db) OZ sample_db = Inr (sample_demo_game, sample_db)"
  by (simp_all add: spin_bettor_checks_def spin_game_checks_def loadConfig_def step_simps Let_def
      sample_request_def isCurrency_def)
     (code_simp)+

lemma sample_exposure: "exposureMicro 1000 (paytableLinesOf (pt_lines (hd (slotzilla_paytables sample_db)))) 500000000 = Inr 7000"
  by code_simp

lemma sample_paytable: "select_one pt_active (slotzilla_paytables sample_db) = Some (hd (slotzilla_paytables sample_db))"
  by code_simp

lemma sample_risk_runs:
  "spin_risk_checks 20000 ''ann'' 8 1000 (sample_user ''ann'' ''ann@x'' user_r) (slotzilla_config sample_db)
     sample_demo_game sample_db = Inr ((1, 7000, 115), sample_db)"
proof -
  have "sc_maxPayoutMicro (slotzilla_config sample_db) = 500000000" "g_paytableId sample_demo_game = None"
    "pt_id (hd (slotzilla_paytables sample_db)) = 1"
    "estimatedClockSeconds (g_clockSeconds sample_demo_game) (g_clockRunning sample_demo_game)
       (g_clockReadAt sample_demo_game) 20000 = Some 101"
    "firstWindowFor 101 (sc_leadSeconds (slotzilla_config sample_db)) = 115"
    "sum_where (\<lambda>r. sp_matchId r = 8 \<and> sp_status r = spin_open) sp_exposureMicro (slotzilla_spins sample_db) = 0"
    "sc_matchLiabilityCapMicro (slotzilla_config sample_db) = 5000000000"
    by code_simp+
  moreover have "\<not> bc_velocityEnabled (case bot_controls sample_db of None \<Rightarrow> DEFAULT_BOT_CONTROLS | Some r \<Rightarrow> r)"
    by (simp add: sample_db_def)
  ultimately show ?thesis
    by (simp add: spin_risk_checks_def step_simps loadBotControls_def sample_paytable sample_exposure)
qed

lemma sample_commit_runs:
  "\<exists>t. spin_commit 20000 (new_spin 20000 ''s2'' ''ann'' 8 OZ 1000 7000 1 115 sample_request) sample_db = Inr ((), t)"
  by (simp add: spin_commit_def step_simps new_spin_def sample_request_def) code_simp

lemma sample_spin_places:
  "\<exists>v t. placeSpin 20000 ''s2'' ''ann'' 8 sample_request sample_db = Inr ((v, True), t)"
proof -
  obtain t where t: "spin_commit 20000 (new_spin 20000 ''s2'' ''ann'' 8 OZ 1000 7000 1 115 sample_request) sample_db
      = Inr ((), t)"
    using sample_commit_runs by blast
  have k: "rq_idempotencyKey sample_request = ''spin-key-1''" "parse_stake (rq_stakeMicro sample_request) = Inr 1000"
    by code_simp+
  have "spin_transaction 20000 ''s2'' ''ann'' 8 1000 sample_request sample_db =
      Inr ((new_spin 20000 ''s2'' ''ann'' 8 OZ 1000 7000 1 115 sample_request, True), t)"
    by (simp add: spin_transaction_def Let_def bindT_def thenT_def getT_def returnT_def k sample_checks_run sample_risk_runs t)
  then show ?thesis by (simp add: placeSpin_def spin_catch_def bindT_def thenT_def liftE_def returnT_def throwIf_def k)
qed

theorem placed_spin_is_covered_witness:
  "\<exists>v t r. placeSpin 20000 ''s2'' ''ann'' 8 sample_request sample_db = Inr ((v, True), t)
     \<and> slotzilla_spins t = slotzilla_spins sample_db @ [r] \<and> sp_status r = spin_open"
proof -
  obtain v t where t: "placeSpin 20000 ''s2'' ''ann'' 8 sample_request sample_db = Inr ((v, True), t)"
    using sample_spin_places by blast
  then show ?thesis using placed_spin_is_covered [OF sample_books_ok t] by blast
qed

theorem spin_replay_is_noop_witness:
  "\<exists>v t. placeSpin 20000 ''s2'' ''ann'' 8 sample_request sample_db = Inr ((v, True), t)
     \<and> placeSpin 29000 ''s3'' ''ann'' 8 sample_request t = Inr ((v, False), t)"
proof -
  obtain v t where t: "placeSpin 20000 ''s2'' ''ann'' 8 sample_request sample_db = Inr ((v, True), t)"
    using sample_spin_places by blast
  have "parse_stake (rq_stakeMicro sample_request) = Inr 1000" by code_simp
  then show ?thesis using t spin_replay_is_noop [OF t refl, of 1000 29000 "''s3''" 8] by auto
qed

lemma sample_void_facts:
  "select_one (\<lambda>g. g_matchId g = 7) (slotzilla_games sample_db) = Some sample_game"
  "filter (\<lambda>r. sp_matchId r = 7 \<and> sp_status r = spin_open) (slotzilla_spins sample_db) = [sample_spin]"
  "select_one (\<lambda>r. sp_id r = sp_id sample_spin \<and> sp_status r = spin_open) (slotzilla_spins sample_db) = Some sample_spin"
  "g_status sample_game = live"
  by code_simp+

lemma ex_Some_iff: "(\<exists>y. x = Some y) \<longleftrightarrow> \<not> Option.is_none x"
  by (cases x) simp_all

lemma sample_void_runs: "\<exists>n t. void_game 5 None (Some sample_op) 7 None sample_db = Inr (n, t)"
  by (simp add: void_game_def voidOpenSpinsForGame_def loadGameOr404_def update_game_returning_def void_spin_def
      Let_def step_simps requireRole_def sample_void_facts ex_Some_iff) code_simp

theorem void_game_closes_all_witness:
  "\<exists>n t. void_game 5 None (Some sample_op) 7 None sample_db = Inr (n, t)
     \<and> count_where (\<lambda>r. sp_matchId r = 7 \<and> sp_status r = spin_open) (slotzilla_spins t) = 0"
proof -
  obtain n t where t: "void_game 5 None (Some sample_op) 7 None sample_db = Inr (n, t)"
    using sample_void_runs by blast
  then show ?thesis using void_game_closes_all [OF t] by blast
qed

end
