(* ===== verification/Slot_Calibrator.thy ===== *)
theory Slot_Calibrator
  imports Slot_Properties Slot_Service
begin

text \<open>
  services/api/src/lib/slotzilla/calibrator.ts and the route
  POST /admin/slotzilla/paytables/fit: the play-by-play corpus grouped by
  match, the symbol of every five-second window of a match, every round a spin
  could have anchored, the measured line frequencies and the fitted table.
  The corpus is an argument of the definitions: it is read by a query over
  Sportradar's events, which no modelled call writes.
\<close>

section \<open>The corpus\<close>

record corpus_event = reel_event +
  ce_srMatchId :: string

fun bucket_push :: "string \<Rightarrow> 'e \<Rightarrow> (string \<times> 'e list) list \<Rightarrow> (string \<times> 'e list) list" where
  "bucket_push k e [] = [(k, [e])]"
| "bucket_push k e ((k', b) # out) =
     (if k = k' then (k', b @ [e]) # out else (k', b) # bucket_push k e out)"

definition groupByMatch :: "corpus_event list \<Rightarrow> (string \<times> corpus_event list) list" where
  "groupByMatch events = foldl (\<lambda>out e. bucket_push (ce_srMatchId e) e out) [] events"

definition last_reading :: "reel_event list \<Rightarrow> int" where
  "last_reading events = foldl (\<lambda>lst e. if re_seconds e > lst then re_seconds e else lst) (- 1) events"

text \<open>The loop over the grid, from a window start to the last one.\<close>

function window_loop :: "reel_event list \<Rightarrow> int \<Rightarrow> int \<Rightarrow> slot_symbol list" where
  "window_loop events from lastWindow =
    (if from \<le> lastWindow
     then r_symbol (reelForWindow events from) # window_loop events (from + WINDOW_SECONDS) lastWindow
     else [])"
  by pat_completeness auto
termination
  by (relation "measure (\<lambda>(_, from, lastWindow). nat (lastWindow + 1 - from))") (auto simp: WINDOW_SECONDS_def)

declare window_loop.simps [simp del]

definition windowSymbolsForMatch :: "reel_event list \<Rightarrow> int option \<Rightarrow> slot_symbol list" where
  "windowSymbolsForMatch events maxSeconds =
    (let end_s = max (last_reading events) (case maxSeconds of None \<Rightarrow> - 1 | Some m \<Rightarrow> m) in
     if end_s < 0 then [] else window_loop events 0 (windowStartOf end_s))"

definition corpusRounds :: "(string \<times> corpus_event list) list \<Rightarrow> round_reels list" where
  "corpusRounds eventsByMatch = concat (map (\<lambda>(_, events).
     slidingRounds (windowSymbolsForMatch (map reel_event.truncate events) None)) eventsByMatch)"

record corpus_summary =
  cs_matches :: nat
  cs_events :: nat
  cs_rounds :: nat
  cs_byLine :: "line_key \<Rightarrow> jsnum"

definition summariseCorpus :: "corpus_event list \<Rightarrow> corpus_summary" where
  "summariseCorpus events =
    (let byMatch = groupByMatch events; rounds = corpusRounds byMatch in
     \<lparr>cs_matches = length byMatch, cs_events = length events, cs_rounds = length rounds,
      cs_byLine = lineFrequencies rounds\<rparr>)"

text \<open>The fit: lines, factor, fitted return; matches, rounds and frequencies of the corpus.\<close>

record corpus_fit =
  cf_fit :: fit_result
  cf_matches :: nat
  cf_rounds :: nat
  cf_byLine :: "line_key \<Rightarrow> jsnum"

definition fitCorpus :: "corpus_event list \<Rightarrow> number_lines \<Rightarrow> jsnum \<Rightarrow> corpus_fit" where
  "fitCorpus events base targetBp =
    (let summary = summariseCorpus events in
     \<lparr>cf_fit = fitLinesToTarget base (cs_byLine summary) targetBp FIXED_LINES,
      cf_matches = cs_matches summary, cf_rounds = cs_rounds summary, cf_byLine = cs_byLine summary\<rparr>)"

section \<open>The route\<close>

record fit_body =
  fb_baseId :: "int option"
  fb_targetBp :: "int option"
  fb_coverageLevel :: "int option"

definition parse_fitBody :: "fit_body \<Rightarrow> failure + unit" where
  "parse_fitBody b =
    (if \<not> (case fb_targetBp b of None \<Rightarrow> True | Some t \<Rightarrow> 5000 \<le> t \<and> t \<le> 9900) then Inl (ZodError ''targetBp'')
     else if \<not> (case fb_coverageLevel b of None \<Rightarrow> True | Some l \<Rightarrow> 1 \<le> l \<and> l \<le> 9)
       then Inl (ZodError ''coverageLevel'')
     else Inr ())"

definition number_lines_of :: "paytable_lines \<Rightarrow> number_lines" where
  "number_lines_of lines = map (\<lambda>(k, m). (k, js_int m)) lines"

definition fit_base :: "int option \<Rightarrow> paytable_lines dbtx" where
  "fit_base baseId = (case baseId of
     Some i \<Rightarrow> bindT (loadPaytableById i) (\<lambda>hit.
       bindT (someOr (NotFoundError ''paytable_not_found'' ''paytable_not_found'') hit) (\<lambda>row.
       returnT (paytableLinesOf (pt_lines row))))
   | None \<Rightarrow> bindT loadActivePaytable (\<lambda>hit. returnT (case hit of
       Some row \<Rightarrow> paytableLinesOf (pt_lines row) | None \<Rightarrow> DEFAULT_PAYTABLE_LINES)))"

definition fit_paytable ::
  "(int option \<Rightarrow> corpus_event list) \<Rightarrow> authed_user option \<Rightarrow> fit_body \<Rightarrow> corpus_fit dbtx" where
  "fit_paytable loadCorpusEvents ru body =
    bindT (liftE (requireRole admin_r ru)) (\<lambda>admin.
    thenT (liftE (parse_fitBody body)) (
    bindT loadConfig (\<lambda>cfg.
    bindT (fit_base (fb_baseId body)) (\<lambda>base.
    let events = loadCorpusEvents (fb_coverageLevel body);
        target = (case fb_targetBp body of None \<Rightarrow> sc_rtpTargetBp cfg | Some t \<Rightarrow> t);
        fit = fitCorpus events (number_lines_of base) (js_int target) in
    thenT (throwIf (cf_rounds fit = 0) (bad ''corpus_empty'')) (
    returnT fit)))))"

section \<open>Grouping\<close>

text \<open>The matches in the order their first event was read.\<close>

definition match_order :: "corpus_event list \<Rightarrow> string list" where
  "match_order events = rev (remdups (rev (map ce_srMatchId events)))"

abbreviation events_of :: "corpus_event list \<Rightarrow> string \<Rightarrow> corpus_event list" where
  "events_of events m \<equiv> filter (\<lambda>e. ce_srMatchId e = m) events"

lemma bucket_push_map:
  assumes "distinct ks"
  shows "bucket_push m e (map (\<lambda>k. (k, f k)) ks) =
    map (\<lambda>k. (k, if k = m then f k @ [e] else f k)) ks @ (if m \<in> set ks then [] else [(m, [e])])"
  using assms by (induction ks) auto

lemma set_match_order [simp]: "set (match_order es) = ce_srMatchId ` set es"
  by (simp add: match_order_def)

lemma distinct_match_order [simp]: "distinct (match_order es)"
  by (simp add: match_order_def)

lemma match_order_snoc:
  "match_order (es @ [e]) =
     match_order es @ (if ce_srMatchId e \<in> ce_srMatchId ` set es then [] else [ce_srMatchId e])"
  by (simp add: match_order_def)

lemma groupByMatch_eq: "groupByMatch events = map (\<lambda>m. (m, events_of events m)) (match_order events)"
proof (induction events rule: rev_induct)
  case Nil
  show ?case by (simp add: groupByMatch_def match_order_def)
next
  case (snoc e es)
  have "groupByMatch (es @ [e]) = bucket_push (ce_srMatchId e) e (groupByMatch es)"
    by (simp add: groupByMatch_def)
  also have "\<dots> = map (\<lambda>m. (m, events_of (es @ [e]) m)) (match_order (es @ [e]))"
    unfolding snoc.IH bucket_push_map [OF distinct_match_order] match_order_snoc
    by (auto simp: filter_empty_conv rev_image_eqI)
  finally show ?case .
qed

section \<open>Rounds\<close>

lemma last_reading_Max: "last_reading es = Max (insert (- 1) (re_seconds ` set es))"
proof -
  have "foldl (\<lambda>lst e. if re_seconds e > lst then re_seconds e else lst) a es = Max (insert a (re_seconds ` set es))" for a
  proof (induction es arbitrary: a)
    case (Cons e es)
    have "Max (insert a (re_seconds ` set (e # es))) = Max (insert (max a (re_seconds e)) (re_seconds ` set es))"
      by (cases "es = []") (simp_all add: max.assoc max.left_commute)
    then show ?case using Cons.IH by (simp add: max_def)
  qed simp
  then show ?thesis by (simp add: last_reading_def)
qed

lemma last_reading_ge: "- 1 \<le> last_reading es"
  by (simp add: last_reading_Max)

lemma window_loop_grid:
  "window_loop es (5 * int i) (5 * int n) =
     map (\<lambda>j. r_symbol (reelForWindow es (5 * int j))) [i..<Suc n]"
proof (induction "Suc n - i" arbitrary: i)
  case 0
  then show ?case by (subst window_loop.simps) simp
next
  case (Suc d)
  then have le: "i \<le> n" by simp
  have step: "5 * int i + WINDOW_SECONDS = 5 * int (Suc i)" by (simp add: WINDOW_SECONDS_def)
  have "window_loop es (5 * int i) (5 * int n) =
      r_symbol (reelForWindow es (5 * int i)) # window_loop es (5 * int (Suc i)) (5 * int n)"
    using le by (subst window_loop.simps) (simp only: step, simp)
  also have "\<dots> = map (\<lambda>j. r_symbol (reelForWindow es (5 * int j))) (i # [Suc i..<Suc n])"
    using Suc.hyps(1) [of "Suc i"] Suc.hyps(2) by (simp del: upt_Suc of_nat_Suc)
  finally show ?case using le by (simp add: upt_conv_Cons del: upt_Suc)
qed

lemma slidingRounds_nth:
  "slidingRounds xs = map (\<lambda>i. (xs ! i, xs ! (i + 1), xs ! (i + 2))) [0..<length xs - 2]"
proof (induction xs rule: slidingRounds.induct)
  case (1 a b c rest)
  let ?ys = "b # c # rest"
  have "map (\<lambda>i. ((a # ?ys) ! i, (a # ?ys) ! (i + 1), (a # ?ys) ! (i + 2))) [0..<length (a # ?ys) - 2] =
      (a, b, c) # map (\<lambda>i. (?ys ! i, ?ys ! (i + 1), ?ys ! (i + 2))) [0..<length ?ys - 2]"
    by (simp add: upt_conv_Cons map_Suc_upt [symmetric] del: upt_Suc)
  then show ?case using 1 by simp
qed simp_all

text \<open>The three symbols a spin anchored at a window would have shown.\<close>

definition shown :: "reel_event list \<Rightarrow> int \<Rightarrow> round_reels" where
  "shown events windowFrom = (case map r_symbol (reelsForRound events windowFrom) of
     [a, b, c] \<Rightarrow> (a, b, c) | _ \<Rightarrow> (NONE, NONE, NONE))"

lemma match_rounds:
  "slidingRounds (windowSymbolsForMatch es None) =
     map (\<lambda>i. shown es (WINDOW_SECONDS * int i)) [0..<nat (last_reading es div WINDOW_SECONDS) - 1]"
proof (cases "last_reading es < 0")
  case True
  then have "last_reading es = - 1" using last_reading_ge [of es] by simp
  then show ?thesis by (simp add: windowSymbolsForMatch_def WINDOW_SECONDS_def)
next
  case False
  define n where "n = nat (last_reading es div 5)"
  have end_s: "max (last_reading es) (- 1) = last_reading es" using False by simp
  have last: "windowStartOf (last_reading es) = 5 * int n"
    using False by (simp add: windowStartOf_def WINDOW_SECONDS_def n_def)
  have ws: "windowSymbolsForMatch es None = map (\<lambda>j. r_symbol (reelForWindow es (5 * int j))) [0..<Suc n]"
    using window_loop_grid [of es 0 n] False by (simp add: windowSymbolsForMatch_def end_s last del: upt_Suc)
  show ?thesis
    unfolding slidingRounds_nth ws
    by (auto simp: shown_def reelsForRound_def roundWindows_def WINDOW_SECONDS_def n_def nth_append
        algebra_simps simp del: upt_Suc intro!: map_cong)
qed

text \<open>C38: the rounds the calibrator measures are, match by match in the order of the
  corpus and in the order of the clock, exactly the three symbols a spin anchored at each
  five-second mark would have been settled on, as long as its last window had begun by the
  last event of its match; rounds of different matches are never mixed.\<close>

theorem calibrator_measures_spins:
  "corpusRounds (groupByMatch events) =
     concat (map (\<lambda>m. let es = map reel_event.truncate (filter (\<lambda>e. ce_srMatchId e = m) events);
         final = Max (insert (- 1) (re_seconds ` set es)) in
       map (\<lambda>i. shown es (WINDOW_SECONDS * int i)) [0..<nat (final div WINDOW_SECONDS) - 1])
     (match_order events))"
  by (simp add: corpusRounds_def groupByMatch_eq match_rounds last_reading_Max Let_def comp_def)

text \<open>The fit changes nothing, needs at least one round, and keeps the NONE lines of its base.\<close>

lemma fit_paytable_result:
  assumes "fit_paytable loadCorpusEvents ru body s = Inr (fit, t)"
  obtains base where "t = s" "fit_base (fb_baseId body) s = Inr (base, s)"
    "corpusRounds (groupByMatch (loadCorpusEvents (fb_coverageLevel body))) \<noteq> []"
    "\<And>k. k \<in> set FIXED_LINES \<Longrightarrow> map_of (fit_lines (cf_fit fit)) k = map_of (number_lines_of base) k"
proof -
  have base_state: "u = s'" if "fit_base b s' = Inr (x, u)" for b s' x u
    using that by (auto simp: fit_base_def loadPaytableById_def loadActivePaytable_def step_simps split: option.splits)
  from assms obtain base where run: "fit_base (fb_baseId body) s = Inr (base, s)" "t = s" "cf_rounds fit \<noteq> 0"
    and fit: "\<exists>target. fit = fitCorpus (loadCorpusEvents (fb_coverageLevel body)) (number_lines_of base) target"
    by (auto simp: fit_paytable_def loadConfig_def step_simps Let_def dest: base_state)
  from fit have "map_of (fit_lines (cf_fit fit)) k = map_of (number_lines_of base) k" if "k \<in> set FIXED_LINES" for k
    using that fit_keeps_fixed_lines by (auto simp: fitCorpus_def Let_def)
  with run fit show ?thesis by (intro that) (auto simp: fitCorpus_def summariseCorpus_def Let_def)
qed

end
