(* ===== verification/Catalog.thy ===== *)
theory Catalog
  imports Money Database
begin

text \<open>
  The tables the betting operations only read: the catalog the feed services
  fill (sports down to market outcomes), the operator's configuration tables,
  the joins over them (modules/cashout/service.ts \<open>loadLegs\<close>, the market query of
  modules/bets/service.ts), and the scope cascade match > tournament > sport >
  global that lib/bettor-odds-adjustment.ts, lib/bettor-promo-visibility.ts and
  the live-delay lookup share.
\<close>

section \<open>Rows\<close>

datatype match_status = ms_not_started | ms_live | ms_closed | ms_cancelled | ms_suspended

record sports_row =
  sport_id :: int
  sport_slug :: string
  sport_name :: string
  sport_active :: bool

record categories_row =
  cat_id :: int
  cat_sportId :: int

record tournaments_row =
  tn_id :: int
  tn_categoryId :: int
  tn_riskTier :: "int option"

record matches_row =
  m_id :: int
  m_tournamentId :: int
  m_providerUrn :: string
  m_scheduledAt :: "millis option"
  m_status :: match_status
  m_homeTeam :: string
  m_awayTeam :: string
  m_homeCompetitorId :: "int option"
  m_awayCompetitorId :: "int option"

record markets_row =
  mk_id :: int
  mk_matchId :: int
  mk_providerMarketId :: int
  mk_specifiersJson :: "(string \<times> string) list"
  mk_status :: int

record market_outcomes_row =
  mo_marketId :: int
  mo_outcomeId :: string
  mo_name :: string
  mo_publishedOdds :: "string option"
  mo_probability :: "string option"
  mo_active :: bool
  mo_result :: "outcome_result option"

datatype scope = scope_global | scope_sport | scope_tournament | scope_match

text \<open>The four scope columns of an override row.\<close>

record scope_cols =
  sr_scope :: scope
  sr_sportId :: "int option"
  sr_tournamentId :: "int option"
  sr_matchId :: "int option"

record adjustment_row =
  ba_userId :: uuid
  ba_scope :: scope_cols
  ba_adjustmentBp :: int

datatype promo_kind = zillaflash | combi_boost | zillabuild

record promo_visibility_row =
  pv_userId :: uuid
  pv_promoKind :: promo_kind
  pv_scope :: scope_cols
  pv_visible :: bool

record live_delay_row =
  ld_scope :: scope_cols
  ld_delaySeconds :: int

datatype odds_scope = os_global | os_sport | os_tournament | os_market_type

record cashout_config_row =
  cc_scope :: odds_scope
  cc_scopeRefId :: "string option"
  cc_enabled :: bool
  cc_prematchFullPaybackSeconds :: int
  cc_deductionLadderJson :: "json option"
  cc_minOfferMicro :: micro
  cc_minValueChangeBp :: int
  cc_acceptanceDelaySeconds :: int

record bet_product_row =
  bp_productName :: string
  bp_marginBp :: int
  bp_marginBpPerLeg :: int
  bp_minLegs :: int
  bp_maxLegs :: int
  bp_enabled :: bool

record combi_boost_row =
  cb_enabled :: bool
  cb_minOdds :: string
  cb_tiers :: "(int \<times> string) list"

record settings_row =
  rs_tier :: int
  rs_matchLiabilityMicro :: micro
  rs_minBetMicro :: micro
  rs_maxPayoutMicro :: micro
  rs_betFactor :: string

record market_factor_row =
  mf_providerMarketId :: int
  mf_factor :: string

datatype boost_scope = bsc_sport | bsc_tournament | bsc_match | bsc_competitor | bsc_market | bsc_outcome

record boosted_odds_row =
  bo_id :: uuid
  bo_scope :: boost_scope
  bo_sportId :: "int option"
  bo_tournamentId :: "int option"
  bo_matchId :: "int option"
  bo_competitorId :: "int option"
  bo_marketId :: "int option"
  bo_outcomeId :: "string option"
  bo_boostPct :: string
  bo_competitorMarkets :: string
  bo_startsAt :: "millis option"
  bo_endsAt :: "millis option"
  bo_minRiskScore :: "string option"

record zillaflash_config_row =
  zf_enabled :: bool
  zf_prematchTtlSeconds :: int
  zf_liveTtlSeconds :: int
  zf_prematchKeyDeltaPct :: string
  zf_liveKeyDeltaPct :: string
  zf_prematchMinTier :: int
  zf_prematchMaxTier :: int
  zf_liveMinTier :: int
  zf_liveMaxTier :: int

record market_description_row =
  md_providerMarketId :: int
  md_variant :: string
  md_language :: string
  md_nameTemplate :: string

record outcome_description_row =
  od_providerMarketId :: int
  od_variant :: string
  od_outcomeId :: string
  od_language :: string
  od_nameTemplate :: string

record display_order_row =
  do_sportId :: int
  do_scope :: string
  do_providerMarketId :: int

record catalog =
  sports :: "sports_row list"
  categories :: "categories_row list"
  tournaments :: "tournaments_row list"
  matches :: "matches_row list"
  markets :: "markets_row list"
  market_outcomes :: "market_outcomes_row list"
  bettor_odds_adjustment_config :: "adjustment_row list"
  bettor_promo_visibility_config :: "promo_visibility_row list"
  riskzilla_live_delay_config :: "live_delay_row list"
  cashout_config :: "cashout_config_row list"
  bet_product_config :: "bet_product_row list"
  combi_boost_config :: "combi_boost_row option"
  riskzilla_settings :: "settings_row list"
  riskzilla_market_factors :: "market_factor_row list"
  boosted_odds_config :: "boosted_odds_row list"
  zillaflash_config :: "zillaflash_config_row option"
  market_descriptions :: "market_description_row list"
  outcome_descriptions :: "outcome_description_row list"
  fe_market_display_order :: "display_order_row list"

section \<open>Joins\<close>

text \<open>
  One market joined with its match, tournament, category and (for placement)
  sport; an inner join drops the market when a parent is missing.
\<close>

record market_info =
  mi_marketId :: int
  mi_providerMarketId :: int
  mi_marketStatus :: int
  mi_specifiersJson :: "(string \<times> string) list"
  mi_matchId :: int
  mi_matchStatus :: match_status
  mi_scheduledAt :: "millis option"
  mi_sportId :: int
  mi_tournamentId :: int
  mi_riskTier :: "int option"

definition join_market :: "catalog \<Rightarrow> markets_row \<Rightarrow> market_info option" where
  "join_market c mk =
    Option.bind (select_one (\<lambda>m. m_id m = mk_matchId mk) (matches c)) (\<lambda>m.
    Option.bind (select_one (\<lambda>t. tn_id t = m_tournamentId m) (tournaments c)) (\<lambda>t.
    Option.bind (select_one (\<lambda>g. cat_id g = tn_categoryId t) (categories c)) (\<lambda>g.
    Some \<lparr>mi_marketId = mk_id mk, mi_providerMarketId = mk_providerMarketId mk,
          mi_marketStatus = mk_status mk, mi_specifiersJson = mk_specifiersJson mk, mi_matchId = m_id m,
          mi_matchStatus = m_status m, mi_scheduledAt = m_scheduledAt m, mi_sportId = cat_sportId g,
          mi_tournamentId = tn_id t, mi_riskTier = tn_riskTier t\<rparr>)))"

definition find_market :: "catalog \<Rightarrow> int \<Rightarrow> market_info option" where
  "find_market c i = Option.bind (select_one (\<lambda>mk. mk_id mk = i) (markets c)) (join_market c)"

definition find_outcome :: "catalog \<Rightarrow> int \<Rightarrow> string \<Rightarrow> market_outcomes_row option" where
  "find_outcome c i oid = select_one (\<lambda>r. mo_marketId r = i \<and> mo_outcomeId r = oid) (market_outcomes c)"

section \<open>The scope cascade\<close>

record 'v cascade =
  cs_global :: "'v option"
  cs_bySport :: "int \<rightharpoonup> 'v"
  cs_byTournament :: "int \<rightharpoonup> 'v"
  cs_byMatch :: "int \<rightharpoonup> 'v"
  cs_empty :: bool

definition emptyCascade :: "'v cascade" where
  "emptyCascade = \<lparr>cs_global = None, cs_bySport = Map.empty, cs_byTournament = Map.empty,
     cs_byMatch = Map.empty, cs_empty = True\<rparr>"

text \<open>The loop body: a row sets its scope's entry, a later row overwrites an earlier one.\<close>

definition cascade_row :: "'v cascade \<Rightarrow> scope_cols \<times> 'v \<Rightarrow> 'v cascade" where
  "cascade_row c row = (case row of (r, v) \<Rightarrow> (case sr_scope r of
     scope_global \<Rightarrow> c\<lparr>cs_global := Some v\<rparr>
   | scope_sport \<Rightarrow> (case sr_sportId r of None \<Rightarrow> c
       | Some i \<Rightarrow> c\<lparr>cs_bySport := (cs_bySport c)(i \<mapsto> v)\<rparr>)
   | scope_tournament \<Rightarrow> (case sr_tournamentId r of None \<Rightarrow> c
       | Some i \<Rightarrow> c\<lparr>cs_byTournament := (cs_byTournament c)(i \<mapsto> v)\<rparr>)
   | scope_match \<Rightarrow> (case sr_matchId r of None \<Rightarrow> c
       | Some i \<Rightarrow> c\<lparr>cs_byMatch := (cs_byMatch c)(i \<mapsto> v)\<rparr>)))"

definition load_cascade :: "(scope_cols \<times> 'v) list \<Rightarrow> 'v cascade" where
  "load_cascade rows = foldl cascade_row (emptyCascade\<lparr>cs_empty := (rows = [])\<rparr>) rows"

text \<open>The probes, most specific first; unknown ids skip their level.\<close>

definition probe :: "(int \<rightharpoonup> 'v) \<Rightarrow> int option \<Rightarrow> 'v option" where
  "probe f i = Option.bind i f"

definition resolve_cascade :: "'v \<Rightarrow> 'v cascade \<Rightarrow> int option \<Rightarrow> int option \<Rightarrow> int option \<Rightarrow> 'v" where
  "resolve_cascade dflt c matchId tournamentId sportId =
    (if cs_empty c then dflt
     else case first_some [probe (cs_byMatch c) matchId, probe (cs_byTournament c) tournamentId,
                           probe (cs_bySport c) sportId, cs_global c] of
       Some v \<Rightarrow> v | None \<Rightarrow> dflt)"

definition loadBettorAdjustmentCascade :: "catalog \<Rightarrow> uuid \<Rightarrow> int cascade" where
  "loadBettorAdjustmentCascade c userId =
     load_cascade (map (\<lambda>r. (ba_scope r, ba_adjustmentBp r))
       (filter (\<lambda>r. ba_userId r = userId) (bettor_odds_adjustment_config c)))"

definition resolveBettorAdjustmentBp :: "int cascade \<Rightarrow> int option \<Rightarrow> int option \<Rightarrow> int option \<Rightarrow> int" where
  "resolveBettorAdjustmentBp = resolve_cascade 0"

definition loadPromoVisibilityCascades :: "catalog \<Rightarrow> uuid \<Rightarrow> promo_kind \<Rightarrow> bool cascade" where
  "loadPromoVisibilityCascades c userId kind =
     load_cascade (map (\<lambda>r. (pv_scope r, pv_visible r))
       (filter (\<lambda>r. pv_userId r = userId \<and> pv_promoKind r = kind) (bettor_promo_visibility_config c)))"

definition resolveVisible ::
  "(promo_kind \<Rightarrow> bool cascade) \<Rightarrow> promo_kind \<Rightarrow> int option \<Rightarrow> int option \<Rightarrow> int option \<Rightarrow> bool" where
  "resolveVisible cascades kind = resolve_cascade True (cascades kind)"

section \<open>What the cascade picks\<close>

text \<open>The last row of a table that has a property, and the rows that speak about a scope.\<close>

definition last_row :: "(scope_cols \<Rightarrow> bool) \<Rightarrow> (scope_cols \<times> 'v) list \<Rightarrow> 'v option" where
  "last_row P rows = map_option snd (select_one (\<lambda>(r, v). P r) (rev rows))"

definition speaks_of :: "scope \<Rightarrow> (scope_cols \<Rightarrow> int option) \<Rightarrow> int option \<Rightarrow> scope_cols \<Rightarrow> bool" where
  "speaks_of sc col i r \<longleftrightarrow> sr_scope r = sc \<and> i \<noteq> None \<and> col r = i"

lemma last_row_snoc: "last_row P (rows @ [row]) = (if P (fst row) then Some (snd row) else last_row P rows)"
  by (cases row) (simp add: last_row_def)

lemma last_row_Nil [simp]: "last_row P [] = None"
  by (simp add: last_row_def)

lemma cascade_row_empty [simp]: "cs_empty (cascade_row c row) = cs_empty c"
  by (auto simp: cascade_row_def split: prod.splits scope.splits option.splits)

lemma cascade_row_levels:
  "cs_global (cascade_row c (r, v)) = (if sr_scope r = scope_global then Some v else cs_global c)"
  "probe (cs_bySport (cascade_row c (r, v))) i =
     (if speaks_of scope_sport sr_sportId i r then Some v else probe (cs_bySport c) i)"
  "probe (cs_byTournament (cascade_row c (r, v))) i =
     (if speaks_of scope_tournament sr_tournamentId i r then Some v else probe (cs_byTournament c) i)"
  "probe (cs_byMatch (cascade_row c (r, v))) i =
     (if speaks_of scope_match sr_matchId i r then Some v else probe (cs_byMatch c) i)"
  by (cases i; auto simp: cascade_row_def probe_def speaks_of_def split: scope.splits option.splits)+

lemma load_cascade_levels:
  shows "cs_global (foldl cascade_row (emptyCascade\<lparr>cs_empty := b\<rparr>) rows)
      = last_row (\<lambda>r. sr_scope r = scope_global) rows"
    and "probe (cs_bySport (foldl cascade_row (emptyCascade\<lparr>cs_empty := b\<rparr>) rows)) i
      = last_row (speaks_of scope_sport sr_sportId i) rows"
    and "probe (cs_byTournament (foldl cascade_row (emptyCascade\<lparr>cs_empty := b\<rparr>) rows)) i
      = last_row (speaks_of scope_tournament sr_tournamentId i) rows"
    and "probe (cs_byMatch (foldl cascade_row (emptyCascade\<lparr>cs_empty := b\<rparr>) rows)) i
      = last_row (speaks_of scope_match sr_matchId i) rows"
    and "cs_empty (foldl cascade_row (emptyCascade\<lparr>cs_empty := b\<rparr>) rows) = b"
proof (induction rows rule: rev_induct)
  case (snoc row rows)
  obtain r v where "row = (r, v)" by (cases row)
  with snoc show "cs_global (foldl cascade_row (emptyCascade\<lparr>cs_empty := b\<rparr>) (rows @ [row]))
      = last_row (\<lambda>r. sr_scope r = scope_global) (rows @ [row])"
    and "probe (cs_bySport (foldl cascade_row (emptyCascade\<lparr>cs_empty := b\<rparr>) (rows @ [row]))) i
      = last_row (speaks_of scope_sport sr_sportId i) (rows @ [row])"
    and "probe (cs_byTournament (foldl cascade_row (emptyCascade\<lparr>cs_empty := b\<rparr>) (rows @ [row]))) i
      = last_row (speaks_of scope_tournament sr_tournamentId i) (rows @ [row])"
    and "probe (cs_byMatch (foldl cascade_row (emptyCascade\<lparr>cs_empty := b\<rparr>) (rows @ [row]))) i
      = last_row (speaks_of scope_match sr_matchId i) (rows @ [row])"
    and "cs_empty (foldl cascade_row (emptyCascade\<lparr>cs_empty := b\<rparr>) (rows @ [row])) = b"
    by (simp_all add: cascade_row_levels last_row_snoc)
qed (simp_all add: emptyCascade_def probe_def split: option.splits)

text \<open>The scope table as a decision list.\<close>

definition cascade_spec :: "'v \<Rightarrow> (scope_cols \<times> 'v) list \<Rightarrow> int option \<Rightarrow> int option \<Rightarrow> int option \<Rightarrow> 'v" where
  "cascade_spec dflt rows matchId tournamentId sportId =
    (case first_some [last_row (speaks_of scope_match sr_matchId matchId) rows,
                      last_row (speaks_of scope_tournament sr_tournamentId tournamentId) rows,
                      last_row (speaks_of scope_sport sr_sportId sportId) rows,
                      last_row (\<lambda>r. sr_scope r = scope_global) rows] of
       Some v \<Rightarrow> v | None \<Rightarrow> dflt)"

lemma resolve_load: "resolve_cascade dflt (load_cascade rows) = cascade_spec dflt rows"
proof (intro ext)
  fix m t sp
  show "resolve_cascade dflt (load_cascade rows) m t sp = cascade_spec dflt rows m t sp"
    unfolding resolve_cascade_def load_cascade_def load_cascade_levels cascade_spec_def by auto
qed

text \<open>The odds adjustment of a bettor on a leg is the most recent row of the most specific
  scope that covers the leg (match before tournament before sport before global), zero when no row
  does, and the promo visibility resolves the same way with visible as its default.\<close>

theorem cascade_most_specific:
  "resolveBettorAdjustmentBp (loadBettorAdjustmentCascade c u) m t sp =
     cascade_spec 0 (map (\<lambda>r. (ba_scope r, ba_adjustmentBp r))
       (filter (\<lambda>r. ba_userId r = u) (bettor_odds_adjustment_config c))) m t sp
   \<and> resolveVisible (loadPromoVisibilityCascades c u) k m t sp =
     cascade_spec True (map (\<lambda>r. (pv_scope r, pv_visible r))
       (filter (\<lambda>r. pv_userId r = u \<and> pv_promoKind r = k) (bettor_promo_visibility_config c))) m t sp"
  by (simp add: resolveBettorAdjustmentBp_def loadBettorAdjustmentCascade_def resolveVisible_def
      loadPromoVisibilityCascades_def resolve_load)

end
