(* ===== verification/Cashout_Algorithm.thy ===== *)
theory Cashout_Algorithm
  imports Catalog
begin

text \<open>
  modules/cashout/algorithm.ts: the offer for a ticket from its legs, in
  binary64 arithmetic for the odds and probability products and integers for
  the money.  A thrown \<open>Error\<close> is an \<open>InternalError\<close>.
\<close>

section \<open>Inputs and outputs\<close>

datatype unavailable_reason = ur_not_open | feature_disabled | leg_inactive | leg_no_probability
  | leg_lost | below_minimum | below_change_threshold | bet_type_unsupported

record leg_input =
  li_oddsAtPlacement :: string
  li_probabilityCurrent :: "jsnum option"
  li_oddsCurrent :: "string option"
  li_active :: bool
  li_result :: "outcome_result option"
  li_voidFactor :: "string option"

record ladder_step =
  factor :: jsnum
  deduction :: jsnum

record resolved_config =
  rc_enabled :: bool
  rc_prematchFullPaybackSeconds :: int
  rc_deductionLadder :: "ladder_step list option"
  rc_minOfferMicro :: micro
  rc_minValueChangeBp :: int
  rc_acceptanceDelaySeconds :: int

record compute_input =
  ci_betType :: bet_type
  ci_stakeMicro :: micro
  ci_potentialPayoutMicro :: micro
  ci_placedAtMs :: millis
  ci_matchEarliestKickoffMs :: "millis option"
  ci_legs :: "leg_input list"
  ci_config :: resolved_config
  ci_nowMs :: millis

record compute_output =
  co_available :: bool
  co_reason :: "unavailable_reason option"
  co_offerMicro :: micro
  co_ticketOdds :: jsnum
  co_probability :: jsnum
  co_ticketValueFairMicro :: micro
  co_deductionFactor :: "jsnum option"
  co_fullPayback :: bool

definition blank :: "unavailable_reason \<Rightarrow> jsnum \<Rightarrow> jsnum \<Rightarrow> compute_output" where
  "blank reason ticketOdds probability =
    \<lparr>co_available = False, co_reason = Some reason, co_offerMicro = 0, co_ticketOdds = ticketOdds,
     co_probability = probability, co_ticketValueFairMicro = 0, co_deductionFactor = None,
     co_fullPayback = False\<rparr>"

definition parseFiniteFloat :: "string \<Rightarrow> failure + jsnum" where
  "parseFiniteFloat s = (let f = js_Number s in
     if \<not> js_isFinite f \<or> js_le f (Fin 0) then Inl (InternalError (''invalid decimal: '' @ s)) else Inr f)"

section \<open>The legs\<close>

text \<open>\<open>1.0001\<close>, the largest probability that counts as a rounding artefact.\<close>

definition PROB_SLACK :: jsnum where
  "PROB_SLACK = js_fin (10001 / 10000)"

text \<open>What a leg contributes: it ends the loop, it is skipped, or it multiplies the two products.\<close>

datatype leg_effect = Stop unavailable_reason | Skip | Mult jsnum "jsnum option"

definition leg_probability :: "leg_input \<Rightarrow> failure + jsnum option" where
  "leg_probability leg =
    (case li_probabilityCurrent leg of
       Some p \<Rightarrow> Inr (Some p)
     | None \<Rightarrow> (case li_oddsCurrent leg of
         None \<Rightarrow> Inr None
       | Some oc \<Rightarrow> if oc = [] then Inr None
           else case parseFiniteFloat oc of
             Inl e \<Rightarrow> Inl e
           | Inr v \<Rightarrow> Inr (if js_lt (Fin 0) v then Some (js_div (Fin 1) v) else None)))"

definition accept_probability :: "jsnum option \<Rightarrow> jsnum option" where
  "accept_probability p = (case p of
     None \<Rightarrow> None
   | Some x \<Rightarrow> if \<not> js_isFinite x \<or> js_le x (Fin 0) \<or> js_le PROB_SLACK x
       then (if js_lt (Fin 1) x \<and> js_le x PROB_SLACK then Some (Fin 1) else None)
       else Some x)"

definition leg_effect_of :: "leg_input \<Rightarrow> failure + leg_effect" where
  "leg_effect_of leg =
    (let withOdds = (\<lambda>k. case parseFiniteFloat (li_oddsAtPlacement leg) of Inl e \<Rightarrow> Inl e | Inr v \<Rightarrow> k v) in
     if li_result leg = Some res_lost then Inr (Stop leg_lost)
     else if li_result leg = Some res_void \<or> li_voidFactor leg = Some ''1'' \<or> li_voidFactor leg = Some ''1.0''
       then Inr Skip
     else if li_result leg = Some res_won then withOdds (\<lambda>v. Inr (Mult v None))
     else if li_result leg = Some res_half_won
       then withOdds (\<lambda>v. Inr (Mult (js_add (Fin 1) (js_mul (js_sub v (Fin 1)) (js_fin (1 / 2)))) None))
     else if li_result leg = Some res_half_lost then Inr (Mult (js_fin (1 / 2)) None)
     else if \<not> li_active leg then Inr (Stop leg_inactive)
     else withOdds (\<lambda>v. case leg_probability leg of
        Inl e \<Rightarrow> Inl e
      | Inr p \<Rightarrow> (case accept_probability p of
          None \<Rightarrow> Inr (Stop leg_no_probability)
        | Some q \<Rightarrow> Inr (Mult v (Some q)))))"

text \<open>The loop over the legs: an early answer, or the two products.\<close>

fun scan_legs :: "jsnum \<Rightarrow> jsnum \<Rightarrow> leg_input list \<Rightarrow> failure + (compute_output + jsnum \<times> jsnum)" where
  "scan_legs ticketOdds probability [] = Inr (Inr (ticketOdds, probability))"
| "scan_legs ticketOdds probability (leg # legs) =
    (case leg_effect_of leg of
       Inl e \<Rightarrow> Inl e
     | Inr (Stop r) \<Rightarrow> Inr (Inl (if r = leg_lost then blank r ticketOdds probability
                               else blank r (Fin 0) (Fin 0)))
     | Inr Skip \<Rightarrow> scan_legs ticketOdds probability legs
     | Inr (Mult v p) \<Rightarrow> scan_legs (js_mul ticketOdds v)
         (case p of None \<Rightarrow> probability | Some q \<Rightarrow> js_mul probability q) legs)"

section \<open>The deduction ladder\<close>

text \<open>\<open>sort((a, b) => a.factor - b.factor)\<close> is stable: equal factors keep their order.\<close>

fun insert_step :: "ladder_step \<Rightarrow> ladder_step list \<Rightarrow> ladder_step list" where
  "insert_step x [] = [x]"
| "insert_step x (y # ys) = (if js_lt (factor x) (factor y) then x # y # ys else y # insert_step x ys)"

definition sort_ladder :: "ladder_step list \<Rightarrow> ladder_step list" where
  "sort_ladder steps = foldl (\<lambda>acc x. insert_step x acc) [] steps"

fun ladder_scan :: "jsnum \<Rightarrow> ladder_step list \<Rightarrow> jsnum option" where
  "ladder_scan valueRatio (lo # hi # rest) =
    (if js_le (factor lo) valueRatio \<and> js_le valueRatio (factor hi)
     then let t = js_div (js_sub valueRatio (factor lo)) (js_sub (factor hi) (factor lo)) in
       Some (js_add (deduction lo) (js_mul t (js_sub (deduction hi) (deduction lo))))
     else ladder_scan valueRatio (hi # rest))"
| "ladder_scan valueRatio _ = None"

definition lookupLadder :: "ladder_step list \<Rightarrow> jsnum \<Rightarrow> jsnum" where
  "lookupLadder ladder valueRatio =
    (if ladder = [] then Fin 1
     else let sorted = sort_ladder ladder in
       if js_le valueRatio (factor (hd sorted)) then deduction (hd sorted)
       else if js_le (factor (last sorted)) valueRatio then deduction (last sorted)
       else case ladder_scan valueRatio sorted of Some d \<Rightarrow> d | None \<Rightarrow> deduction (last sorted))"

section \<open>The offer\<close>

definition full_payback_window :: "compute_input \<Rightarrow> bool" where
  "full_payback_window i \<longleftrightarrow>
     rc_prematchFullPaybackSeconds (ci_config i) > 0
   \<and> ci_nowMs i - ci_placedAtMs i \<le> rc_prematchFullPaybackSeconds (ci_config i) * 1000
   \<and> (case ci_matchEarliestKickoffMs i of None \<Rightarrow> False | Some k \<Rightarrow> k > ci_nowMs i)"

text \<open>The fair value and the deduction: \<open>(ticketValueFairMicro, deductionFactor, offerMicro)\<close>.\<close>

definition deducted_offer ::
  "micro \<Rightarrow> resolved_config \<Rightarrow> jsnum \<Rightarrow> failure + micro \<times> jsnum option \<times> micro" where
  "deducted_offer stakeMicro cfg valueRatio =
    (case multiplyMicroByOdds stakeMicro valueRatio of
       Inl e \<Rightarrow> Inl e
     | Inr fair \<Rightarrow> (case rc_deductionLadder cfg of
         None \<Rightarrow> Inr (fair, None, fair)
       | Some ladder \<Rightarrow> if ladder = [] then Inr (fair, None, fair)
           else let d = lookupLadder ladder (if stakeMicro > 0 then valueRatio else Fin 1) in
             case multiplyMicroByOdds fair (js_div (Fin 1) d) of
               Inl e \<Rightarrow> Inl e | Inr o' \<Rightarrow> Inr (fair, Some d, o')))"

definition price_offer :: "compute_input \<Rightarrow> jsnum \<Rightarrow> jsnum \<Rightarrow> failure + compute_output" where
  "price_offer i ticketOdds probability =
    (let cfg = ci_config i; stake = ci_stakeMicro i; full = full_payback_window i;
         valueRatio = js_mul ticketOdds probability in
     case deducted_offer stake cfg valueRatio of
       Inl e \<Rightarrow> Inl e
     | Inr (fair, deductionFactor, deducted) \<Rightarrow>
         let offer0 = (if full then stake else deducted);
             offer = (if offer0 > ci_potentialPayoutMicro i then ci_potentialPayoutMicro i else offer0);
             change = js_mul (js_abs (js_sub valueRatio (Fin 1))) (Fin 10000) in
         if \<not> full \<and> rc_minValueChangeBp cfg > 0 \<and> stake > 0
            \<and> js_lt change (js_int (rc_minValueChangeBp cfg))
         then Inr \<lparr>co_available = False, co_reason = Some below_change_threshold, co_offerMicro = 0,
                co_ticketOdds = ticketOdds, co_probability = probability, co_ticketValueFairMicro = fair,
                co_deductionFactor = deductionFactor, co_fullPayback = False\<rparr>
         else if offer < rc_minOfferMicro cfg
         then Inr \<lparr>co_available = False, co_reason = Some below_minimum, co_offerMicro = offer,
                co_ticketOdds = ticketOdds, co_probability = probability, co_ticketValueFairMicro = fair,
                co_deductionFactor = deductionFactor, co_fullPayback = full\<rparr>
         else Inr \<lparr>co_available = True, co_reason = None, co_offerMicro = offer,
                co_ticketOdds = ticketOdds, co_probability = probability, co_ticketValueFairMicro = fair,
                co_deductionFactor = deductionFactor, co_fullPayback = full\<rparr>)"

definition compute :: "compute_input \<Rightarrow> failure + compute_output" where
  "compute i =
    (if \<not> rc_enabled (ci_config i) then Inr (blank feature_disabled (Fin 0) (Fin 0))
     else if ci_betType i \<in> {tiple, tippot, betbuilder} then Inr (blank bet_type_unsupported (Fin 0) (Fin 0))
     else case scan_legs (Fin 1) (Fin 1) (ci_legs i) of
       Inl e \<Rightarrow> Inl e
     | Inr (Inl out) \<Rightarrow> Inr out
     | Inr (Inr (ticketOdds, probability)) \<Rightarrow> price_offer i ticketOdds probability)"

section \<open>Which legs let an offer through\<close>

definition leg_settled :: "leg_input \<Rightarrow> bool" where
  "leg_settled leg \<longleftrightarrow> li_result leg \<noteq> None \<or> li_voidFactor leg = Some ''1'' \<or> li_voidFactor leg = Some ''1.0''"

text \<open>A usable probability: positive and at most the slack.\<close>

definition usable_probability :: "jsnum \<Rightarrow> bool" where
  "usable_probability q \<longleftrightarrow> js_isFinite q \<and> js_lt (Fin 0) q \<and> js_lt q PROB_SLACK"

lemma PROB_SLACK_gt: "js_lt (Fin 1) PROB_SLACK"
  by code_simp

lemma js_lt_le: "x \<noteq> NaN \<Longrightarrow> y \<noteq> NaN \<Longrightarrow> \<not> js_le x y \<Longrightarrow> js_lt y x"
  by (cases x; cases y) (auto simp: js_le_def)

lemma accept_probability_usable:
  assumes "accept_probability p = Some q"
  shows "usable_probability q"
proof -
  obtain x where x: "p = Some x" using assms by (cases p) (simp_all add: accept_probability_def)
  have slack: "PROB_SLACK \<noteq> NaN" "Fin 0 \<noteq> NaN" using PROB_SLACK_gt by auto
  have nan: "x \<noteq> NaN" if "js_isFinite x" using that by auto
  have one: "usable_probability (Fin 1)" using PROB_SLACK_gt by (simp add: usable_probability_def)
  show ?thesis
    using assms slack js_lt_le [OF nan slack(2)] js_lt_le [OF slack(1) nan] one
    by (auto simp: accept_probability_def x usable_probability_def split: if_splits)
qed

lemma leg_effect_cases:
  assumes "leg_effect_of leg = Inr eff" and "\<And>r. eff \<noteq> Stop r"
  shows "li_result leg \<noteq> Some res_lost" and "leg_settled leg \<or> li_active leg"
    and "leg_settled leg \<or> (\<exists>v q. eff = Mult v (Some q) \<and> usable_probability q)"
  using assms accept_probability_usable
  by (auto simp: leg_effect_of_def leg_settled_def Let_def split: if_splits sum.splits option.splits)

lemma scan_legs_through:
  assumes "scan_legs a b legs = Inr (Inr (x, y))"
  shows "\<forall>leg \<in> set legs. li_result leg \<noteq> Some res_lost \<and> (leg_settled leg \<or> li_active leg)"
  using assms
proof (induction a b legs rule: scan_legs.induct)
  case (2 a b leg legs)
  then obtain eff where eff: "leg_effect_of leg = Inr eff" "\<And>r. eff \<noteq> Stop r"
    by (auto split: sum.splits leg_effect.splits if_splits)
  with 2 have "\<forall>leg \<in> set legs. li_result leg \<noteq> Some res_lost \<and> (leg_settled leg \<or> li_active leg)"
    by (cases eff) (auto split: option.splits)
  then show ?case using leg_effect_cases(1,2) [OF eff] by simp
qed simp

lemma scan_legs_stopped:
  "scan_legs a b legs = Inr (Inl out) \<Longrightarrow> \<not> co_available out \<and> co_offerMicro out = 0"
  by (induction a b legs rule: scan_legs.induct)
     (auto simp: blank_def split: sum.splits leg_effect.splits if_splits)

lemma compute_available:
  assumes "compute i = Inr out" and "co_available out"
  obtains v p where "rc_enabled (ci_config i)" "ci_betType i \<notin> {tiple, tippot, betbuilder}"
    "scan_legs (Fin 1) (Fin 1) (ci_legs i) = Inr (Inr (v, p))" "price_offer i v p = Inr out"
  using assms scan_legs_stopped
  by (auto simp: compute_def blank_def split: if_splits sum.splits)

lemma multiplyMicroByOdds_nonneg:
  "multiplyMicroByOdds a x = Inr v \<Longrightarrow> 0 \<le> a \<Longrightarrow> 0 \<le> v"
proof -
  assume run: "multiplyMicroByOdds a x = Inr v" and a: "0 \<le> a"
  from run obtain q sc where x: "x = Fin q" "\<not> q < 0"
    and sc: "js_BigInt (js_round (js_mul x (Fin 10000))) = Some sc" and v: "v = big_div (a * sc) 10000"
    by (cases x) (auto simp: multiplyMicroByOdds_def split: if_splits option.splits)
  have "0 \<le> sc"
  proof (cases "js_mul x (Fin 10000)")
    case (Fin y)
    have "0 \<le> rnd64 (q * 10000)" using x(2) by (intro dbl.rnd_nonneg) simp
    then have "0 \<le> y" using Fin x(1) by (auto simp: js_fin_def Let_def split: if_splits)
    then show ?thesis using sc Fin by (auto split: if_splits)
  qed (use sc in simp_all)
  then show ?thesis using a by (simp add: v big_div_nonneg pos_imp_zdiv_nonneg_iff)
qed

end
