(* ===== verification/Cashout_Service.thy ===== *)
theory Cashout_Service
  imports Cashout_Algorithm Deposits
begin

text \<open>
  modules/cashout/service.ts: issuing a quote, the configuration cascade, and
  accepting a quote.  Accepting is two calls here, \<open>accept_begin\<close> (pre-validation
  up to the delay) and \<open>accept_finish\<close> (recomputation, drift check, commit):
  during the delay no lock is held, so other calls run between the two, with
  another catalog.  The community projection, the achievements and the WebSocket
  frame after the commit write none of these tables and are left out.
\<close>

section \<open>Legs\<close>

record leg_row =
  lg_oddsAtPlacement :: string
  lg_result :: "outcome_result option"
  lg_voidFactor :: "string option"
  lg_marketStatus :: int
  lg_providerMarketId :: int
  lg_publishedOdds :: "string option"
  lg_probability :: "string option"
  lg_active :: "bool option"
  lg_sportId :: int
  lg_tournamentId :: int
  lg_matchScheduledAt :: "millis option"
  lg_matchStatus :: match_status

definition leg_row_of :: "catalog \<Rightarrow> ticket_selections_row \<Rightarrow> leg_row option" where
  "leg_row_of c ts = Option.bind (find_market c (ts_marketId ts)) (\<lambda>mi.
     let mo = find_outcome c (ts_marketId ts) (ts_outcomeId ts) in
     Some \<lparr>lg_oddsAtPlacement = ts_oddsAtPlacement ts, lg_result = ts_result ts,
           lg_voidFactor = ts_voidFactor ts, lg_marketStatus = mi_marketStatus mi,
           lg_providerMarketId = mi_providerMarketId mi,
           lg_publishedOdds = Option.bind mo mo_publishedOdds,
           lg_probability = Option.bind mo mo_probability, lg_active = map_option mo_active mo,
           lg_sportId = mi_sportId mi, lg_tournamentId = mi_tournamentId mi,
           lg_matchScheduledAt = mi_scheduledAt mi, lg_matchStatus = mi_matchStatus mi\<rparr>)"

definition loadLegs :: "catalog \<Rightarrow> uuid \<Rightarrow> db \<Rightarrow> leg_row list" where
  "loadLegs c ticketId s =
     List.map_filter (leg_row_of c) (filter (\<lambda>ts. ts_ticketId ts = ticketId) (ticket_selections s))"

definition legsAllPrematch :: "leg_row list \<Rightarrow> bool" where
  "legsAllPrematch legs \<longleftrightarrow> legs \<noteq> [] \<and> list_all (\<lambda>l. lg_matchStatus l = ms_not_started) legs"

definition earliest_kickoff :: "leg_row list \<Rightarrow> millis option" where
  "earliest_kickoff legs = foldl (\<lambda>acc l. case lg_matchScheduledAt l of
       None \<Rightarrow> acc
     | Some ms \<Rightarrow> (case acc of None \<Rightarrow> Some ms | Some a \<Rightarrow> if ms < a then Some ms else acc)) None legs"

definition leg_input_of :: "leg_row \<Rightarrow> leg_input" where
  "leg_input_of l = \<lparr>li_oddsAtPlacement = lg_oddsAtPlacement l,
     li_probabilityCurrent = map_option js_Number (lg_probability l), li_oddsCurrent = lg_publishedOdds l,
     li_active = (lg_active l = Some True \<and> lg_marketStatus l = 1),
     li_result = lg_result l, li_voidFactor = lg_voidFactor l\<rparr>"

section \<open>Configuration\<close>

definition json_get :: "string \<Rightarrow> json \<Rightarrow> json option" where
  "json_get k j = (case j of JObj fs \<Rightarrow> map_of fs k | _ \<Rightarrow> None)"

text \<open>\<^verbatim>\<open>typeof v === "number"\<close>\<close>

definition json_number :: "json option \<Rightarrow> jsnum option" where
  "json_number v = (case v of Some (JNum n) \<Rightarrow> Some (js_int n) | Some (JReal x) \<Rightarrow> Some (js_fin x) | _ \<Rightarrow> None)"

definition read_step :: "json \<Rightarrow> ladder_step option" where
  "read_step item = (case (json_number (json_get ''factor'' item), json_number (json_get ''deduction'' item)) of
     (Some f, Some d) \<Rightarrow> Some \<lparr>factor = f, deduction = d\<rparr> | _ \<Rightarrow> None)"

definition readLadder :: "json option \<Rightarrow> ladder_step list option" where
  "readLadder raw = (case raw of
     Some (JArr items) \<Rightarrow> (let parsed = List.map_filter read_step items in
       if parsed = [] then None else Some parsed)
   | _ \<Rightarrow> None)"

definition by_scope :: "catalog \<Rightarrow> odds_scope \<Rightarrow> string \<Rightarrow> cashout_config_row option" where
  "by_scope c sc ref = select_one (\<lambda>r. cc_scope r = sc
     \<and> (case cc_scopeRefId r of None \<Rightarrow> [] | Some i \<Rightarrow> i) = ref) (rev (cashout_config c))"

definition config_of_row :: "cashout_config_row \<Rightarrow> resolved_config" where
  "config_of_row w = \<lparr>rc_enabled = cc_enabled w,
     rc_prematchFullPaybackSeconds = cc_prematchFullPaybackSeconds w,
     rc_deductionLadder = readLadder (cc_deductionLadderJson w), rc_minOfferMicro = cc_minOfferMicro w,
     rc_minValueChangeBp = cc_minValueChangeBp w,
     rc_acceptanceDelaySeconds = cc_acceptanceDelaySeconds w\<rparr>"

definition leg_config :: "catalog \<Rightarrow> cashout_config_row \<Rightarrow> leg_row \<Rightarrow> resolved_config" where
  "leg_config c global leg = config_of_row
    (case first_some [by_scope c os_market_type (show_int (lg_providerMarketId leg)),
                      by_scope c os_tournament (show_int (lg_tournamentId leg)),
                      by_scope c os_sport (show_int (lg_sportId leg))] of
       Some w \<Rightarrow> w | None \<Rightarrow> global)"

definition MAX_SAFE_INTEGER :: int where "MAX_SAFE_INTEGER = 9007199254740991"

definition merge_config :: "resolved_config \<Rightarrow> resolved_config \<Rightarrow> resolved_config" where
  "merge_config acc c = \<lparr>rc_enabled = (rc_enabled acc \<and> rc_enabled c),
     rc_prematchFullPaybackSeconds =
       min (rc_prematchFullPaybackSeconds acc) (rc_prematchFullPaybackSeconds c),
     rc_deductionLadder = (case rc_deductionLadder acc of None \<Rightarrow> rc_deductionLadder c | Some l \<Rightarrow> Some l),
     rc_minOfferMicro = (if rc_minOfferMicro c > rc_minOfferMicro acc then rc_minOfferMicro c
                         else rc_minOfferMicro acc),
     rc_minValueChangeBp = max (rc_minValueChangeBp acc) (rc_minValueChangeBp c),
     rc_acceptanceDelaySeconds = max (rc_acceptanceDelaySeconds acc) (rc_acceptanceDelaySeconds c)\<rparr>"

definition resolveConfig :: "catalog \<Rightarrow> leg_row list \<Rightarrow> resolved_config" where
  "resolveConfig c legs = (case by_scope c os_global [] of
     None \<Rightarrow> \<lparr>rc_enabled = False, rc_prematchFullPaybackSeconds = 0, rc_deductionLadder = None,
              rc_minOfferMicro = 0, rc_minValueChangeBp = 0, rc_acceptanceDelaySeconds = 0\<rparr>
   | Some global \<Rightarrow> foldl merge_config
       \<lparr>rc_enabled = True, rc_prematchFullPaybackSeconds = MAX_SAFE_INTEGER, rc_deductionLadder = None,
        rc_minOfferMicro = 0, rc_minValueChangeBp = 0, rc_acceptanceDelaySeconds = 0\<rparr>
       (map (leg_config c global) legs))"

section \<open>Quotes\<close>

definition QUOTE_TTL_SECONDS :: int where "QUOTE_TTL_SECONDS = 30"

definition loadTicket :: "uuid \<Rightarrow> uuid \<Rightarrow> tickets_row dbtx" where
  "loadTicket userId ticketId =
    bindT (getT (\<lambda>s. select_one (\<lambda>r. t_id r = ticketId \<and> t_userId r = userId) (tickets s)))
      (someOr (NotFoundError ''ticket_not_found'' ''ticket_not_found''))"

definition compute_for :: "tickets_row \<Rightarrow> leg_row list \<Rightarrow> resolved_config \<Rightarrow> millis \<Rightarrow> compute_input" where
  "compute_for ticket legs cfg nowMs =
    \<lparr>ci_betType = t_betType ticket, ci_stakeMicro = t_stakeMicro ticket,
     ci_potentialPayoutMicro = t_potentialPayoutMicro ticket, ci_placedAtMs = t_placedAt ticket,
     ci_matchEarliestKickoffMs = earliest_kickoff legs, ci_legs = map leg_input_of legs,
     ci_config = cfg, ci_nowMs = nowMs\<rparr>"

definition acceptance_delay :: "leg_row list \<Rightarrow> resolved_config \<Rightarrow> int" where
  "acceptance_delay legs cfg = (if legsAllPrematch legs then 0 else rc_acceptanceDelaySeconds cfg)"

record cashout_quote =
  cq_available :: bool
  cq_reason :: "unavailable_reason option"
  cq_ticketStakeMicro :: string
  cq_ticketOdds :: "string option"
  cq_probability :: "string option"
  cq_ticketValueFairMicro :: "string option"
  cq_deductionFactor :: "string option"
  cq_fullPayback :: "bool option"
  cq_acceptanceDelaySeconds :: "int option"
  cq_quoteId :: "uuid option"
  cq_offerMicro :: "string option"
  cq_expiresAt :: "millis option"

definition not_open_quote :: "tickets_row \<Rightarrow> cashout_quote" where
  "not_open_quote ticket = \<lparr>cq_available = False, cq_reason = Some ur_not_open,
     cq_ticketStakeMicro = show_int (t_stakeMicro ticket), cq_ticketOdds = None, cq_probability = None,
     cq_ticketValueFairMicro = None, cq_deductionFactor = None, cq_fullPayback = None,
     cq_acceptanceDelaySeconds = None, cq_quoteId = None, cq_offerMicro = None, cq_expiresAt = None\<rparr>"

definition base_quote :: "tickets_row \<Rightarrow> compute_output \<Rightarrow> int \<Rightarrow> cashout_quote" where
  "base_quote ticket r delay = \<lparr>cq_available = co_available r, cq_reason = co_reason r,
     cq_ticketStakeMicro = show_int (t_stakeMicro ticket),
     cq_ticketOdds = Some (js_toFixed 4 (co_ticketOdds r)),
     cq_probability = Some (js_toFixed 7 (co_probability r)),
     cq_ticketValueFairMicro = Some (show_int (co_ticketValueFairMicro r)),
     cq_deductionFactor = map_option (js_toFixed 4) (co_deductionFactor r),
     cq_fullPayback = Some (co_fullPayback r), cq_acceptanceDelaySeconds = Some delay,
     cq_quoteId = None, cq_offerMicro = None, cq_expiresAt = None\<rparr>"

definition offered_row :: "uuid \<Rightarrow> uuid \<Rightarrow> uuid \<Rightarrow> compute_output \<Rightarrow> millis \<Rightarrow> cashouts_row" where
  "offered_row newId ticketId userId r expiresAt =
    \<lparr>c_id = newId, c_ticketId = ticketId, c_userId = userId, c_status = offered,
     c_offeredMicro = co_offerMicro r, c_payoutMicro = None,
     c_ticketOddsSnapshot = js_toFixed 4 (co_ticketOdds r),
     c_probabilitySnapshot = js_toFixed 15 (co_probability r),
     c_deductionFactorSnapshot = map_option (js_toFixed 4) (co_deductionFactor r), c_reason = None,
     c_expiresAt = expiresAt, c_acceptedAt = None, c_executedAt = None\<rparr>"

definition quote :: "catalog \<Rightarrow> millis \<Rightarrow> uuid \<Rightarrow> uuid \<Rightarrow> uuid \<Rightarrow> cashout_quote dbtx" where
  "quote c now newId userId ticketId =
    bindT (loadTicket userId ticketId) (\<lambda>ticket.
    if t_status ticket \<noteq> accepted then returnT (not_open_quote ticket)
    else bindT (getT (loadLegs c ticketId)) (\<lambda>legs.
      if legs = [] then returnT (not_open_quote ticket)
      else let cfg = resolveConfig c legs in
        bindT (liftE (compute (compute_for ticket legs cfg now))) (\<lambda>result.
        let baseQuote = base_quote ticket result (acceptance_delay legs cfg) in
        if \<not> co_available result then returnT baseQuote
        else let expiresAt = now + QUOTE_TTL_SECONDS * 1000 in
          thenT (insert_cashout (offered_row newId ticketId userId result expiresAt)) (
          returnT (baseQuote\<lparr>cq_quoteId := Some newId, cq_offerMicro := Some (show_int (co_offerMicro result)),
                             cq_expiresAt := Some expiresAt\<rparr>)))))"

section \<open>Accepting: before the delay\<close>

record pending_accept =
  pa_quote :: cashouts_row
  pa_ticketBefore :: tickets_row
  pa_config :: resolved_config
  pa_delaySeconds :: int

definition conflict :: "string \<Rightarrow> failure" where
  "conflict m = ConflictError m m"

definition load_offer :: "uuid \<Rightarrow> uuid \<Rightarrow> uuid \<Rightarrow> cashouts_row dbtx" where
  "load_offer userId ticketId quoteId =
    bindT (getT (\<lambda>s. select_one (\<lambda>q. c_id q = quoteId \<and> c_ticketId q = ticketId) (cashouts s))) (\<lambda>found.
    bindT (someOr (NotFoundError ''quote_not_found'' ''quote_not_found'') found) (\<lambda>q.
    thenT (throwIf (c_userId q \<noteq> userId) (ForbiddenError ''quote_other_user'' ''quote_other_user'')) (
    thenT (throwIf (c_status q \<noteq> offered) (conflict (''quote_'' @ show_cashout_status (c_status q)))) (
    returnT q))))"

definition prevalidate ::
  "catalog \<Rightarrow> uuid \<Rightarrow> uuid \<Rightarrow> micro \<Rightarrow> cashouts_row \<Rightarrow> pending_accept dbtx" where
  "prevalidate c userId ticketId expectedOfferMicro q =
    thenT (throwIf (c_offeredMicro q \<noteq> expectedOfferMicro) (conflict ''quote_amount_mismatch'')) (
    bindT (loadTicket userId ticketId) (\<lambda>ticketBefore.
    thenT (throwIf (t_status ticketBefore \<noteq> accepted)
      (conflict (''ticket_'' @ show_ticket_status (t_status ticketBefore)))) (
    bindT (getT (loadLegs c ticketId)) (\<lambda>legs.
    let cfg = resolveConfig c legs in
    returnT \<lparr>pa_quote = q, pa_ticketBefore = ticketBefore, pa_config = cfg,
             pa_delaySeconds = acceptance_delay legs cfg\<rparr>))))"

definition accept_begin ::
  "catalog \<Rightarrow> millis \<Rightarrow> uuid \<Rightarrow> uuid \<Rightarrow> uuid \<Rightarrow> micro \<Rightarrow> (db, pending_accept) call" where
  "accept_begin c now userId ticketId quoteId expectedOfferMicro =
    bindC (atomically (load_offer userId ticketId quoteId)) (\<lambda>q.
    if c_expiresAt q < now then
      bindC (atomically (update_cashouts (\<lambda>r. c_id r = quoteId) (\<lambda>r. r\<lparr>c_status := expired\<rparr>)))
        (\<lambda>_. throwC (conflict ''quote_expired''))
    else atomically (prevalidate c userId ticketId expectedOfferMicro q))"

section \<open>Accepting: after the delay\<close>

definition ACCEPTANCE_DRIFT_TOLERANCE :: jsnum where
  "ACCEPTANCE_DRIFT_TOLERANCE = js_fin (5 / 100)"

definition tolBp :: int where
  "tolBp = (case js_BigInt (js_round (js_mul ACCEPTANCE_DRIFT_TOLERANCE (Fin 10000))) of
     Some n \<Rightarrow> n | None \<Rightarrow> 0)"

definition driftFloor :: "micro \<Rightarrow> micro" where
  "driftFloor offeredMicro = offeredMicro - big_div (offeredMicro * tolBp) 10000"

fun show_reason :: "unavailable_reason \<Rightarrow> string" where
  "show_reason ur_not_open = ''not_open''"
| "show_reason feature_disabled = ''feature_disabled''"
| "show_reason leg_inactive = ''leg_inactive''"
| "show_reason leg_no_probability = ''leg_no_probability''"
| "show_reason leg_lost = ''leg_lost''"
| "show_reason below_minimum = ''below_minimum''"
| "show_reason below_change_threshold = ''below_change_threshold''"
| "show_reason bet_type_unsupported = ''bet_type_unsupported''"

definition drift_reason :: "compute_output \<Rightarrow> string" where
  "drift_reason r = (if \<not> co_available r
     then ''drift_'' @ (case co_reason r of None \<Rightarrow> ''unavailable'' | Some x \<Rightarrow> show_reason x)
     else ''drift_offer_dropped'')"

definition cash_out_wallet :: "micro \<Rightarrow> micro \<Rightarrow> millis \<Rightarrow> wallets_row \<Rightarrow> wallets_row" where
  "cash_out_wallet offer stake now w = w\<lparr>w_balanceMicro := w_balanceMicro w + offer - stake,
     w_lockedMicro := w_lockedMicro w - stake, w_updatedAt := now\<rparr>"

definition cashout_ledger_row :: "tickets_row \<Rightarrow> micro \<Rightarrow> wallet_ledger_row" where
  "cashout_ledger_row ticket offer =
    \<lparr>l_userId = t_userId ticket, l_currency = t_currency ticket,
     l_deltaMicro = offer - t_stakeMicro ticket, l_type = cashout, l_refType = Some ''ticket'',
     l_refId = Some (t_id ticket), l_txHash = None,
     l_memo = Some (''cashout offer '' @ show_int offer @ '' for stake '' @ show_int (t_stakeMicro ticket))\<rparr>"

definition cashout_commit :: "millis \<Rightarrow> uuid \<Rightarrow> uuid \<Rightarrow> uuid \<Rightarrow> micro dbtx" where
  "cashout_commit now userId ticketId quoteId =
    bindT (getT (\<lambda>s. select_one (\<lambda>q. c_id q = quoteId) (cashouts s))) (\<lambda>lq.
    bindT (someOr (NotFoundError ''quote_not_found'' ''quote_not_found'') lq) (\<lambda>lockedQuote.
    thenT (throwIf (c_status lockedQuote \<noteq> offered)
      (conflict (''quote_'' @ show_cashout_status (c_status lockedQuote)))) (
    bindT (loadTicket userId ticketId) (\<lambda>ticket.
    thenT (throwIf (t_status ticket \<noteq> accepted)
      (conflict (''ticket_'' @ show_ticket_status (t_status ticket)))) (
    bindT (getT (\<lambda>s. select_one (\<lambda>w. wallet_key w = (userId, t_currency ticket)) (wallets s))) (\<lambda>w.
    bindT (someOr (NotFoundError ''wallet_not_found'' ''wallet_not_found'') w) (\<lambda>wallet.
    let stake = t_stakeMicro ticket; offer = c_offeredMicro lockedQuote in
    thenT (update_wallets (\<lambda>w. wallet_key w = (userId, t_currency ticket)) (cash_out_wallet offer stake now)) (
    thenT (insert_ledger (cashout_ledger_row ticket offer)) (
    thenT (update_tickets (\<lambda>r. t_id r = ticketId)
      (\<lambda>r. r\<lparr>t_status := cashed_out, t_actualPayoutMicro := Some offer, t_settledAt := Some now\<rparr>)) (
    thenT (releaseOpenLiability now (t_currency ticket) (t_potentialPayoutMicro ticket)) (
    thenT (update_cashouts (\<lambda>r. c_id r = quoteId)
      (\<lambda>r. r\<lparr>c_status := co_accepted, c_payoutMicro := Some offer, c_acceptedAt := Some now,
             c_executedAt := Some now\<rparr>)) (
    returnT offer))))))))))))"

definition recompute ::
  "catalog \<Rightarrow> millis \<Rightarrow> uuid \<Rightarrow> pending_accept \<Rightarrow> compute_output dbtx" where
  "recompute c now ticketId p =
    bindT (getT (loadLegs c ticketId)) (\<lambda>freshLegs.
    liftE (compute (compute_for (pa_ticketBefore p) freshLegs (pa_config p) now)))"

definition accept_finish ::
  "catalog \<Rightarrow> millis \<Rightarrow> uuid \<Rightarrow> uuid \<Rightarrow> uuid \<Rightarrow> pending_accept \<Rightarrow> (db, micro) call" where
  "accept_finish c now userId ticketId quoteId p =
    bindC (atomically (recompute c now ticketId p)) (\<lambda>recomputed.
    if \<not> co_available recomputed \<or> co_offerMicro recomputed < driftFloor (c_offeredMicro (pa_quote p)) then
      bindC (atomically (update_cashouts (\<lambda>r. c_id r = quoteId)
          (\<lambda>r. r\<lparr>c_status := errored, c_reason := Some (drift_reason recomputed)\<rparr>)))
        (\<lambda>_. throwC (conflict ''offer_drifted''))
    else atomically (cashout_commit now userId ticketId quoteId))"

section \<open>What each step did\<close>

lemma loadTicket_Inr [step_simps]:
  "loadTicket userId ticketId s = Inr (r, t) \<longleftrightarrow>
     t = s \<and> select_one (\<lambda>r. t_id r = ticketId \<and> t_userId r = userId) (tickets s) = Some r"
  by (auto simp: loadTicket_def step_simps)

lemma cash_out_wallet_simps [simp]:
  "wallet_key (cash_out_wallet f k n w) = wallet_key w"
  "w_lockedMicro (cash_out_wallet f k n w) = w_lockedMicro w - k"
  "w_balanceMicro (cash_out_wallet f k n w) = w_balanceMicro w + f - k"
  by (simp_all add: cash_out_wallet_def wallet_key_def)

lemma quote_cases:
  assumes "quote c now newId userId ticketId s = Inr (q, t)"
  obtains (silent) "t = s" "cq_quoteId q = None"
  | (issued) ticket legs out where
      "select_one (\<lambda>r. t_id r = ticketId \<and> t_userId r = userId) (tickets s) = Some ticket"
      "t_status ticket = accepted" "legs = loadLegs c ticketId s" "legs \<noteq> []"
      "compute (compute_for ticket legs (resolveConfig c legs) now) = Inr out" "co_available out"
      "t = s\<lparr>cashouts := cashouts s @ [offered_row newId ticketId userId out (now + 30000)]\<rparr>"
      "cq_quoteId q = Some newId" "cq_offerMicro q = Some (show_int (co_offerMicro out))"
      "cq_expiresAt q = Some (now + 30000)"
proof -
  let ?legs = "loadLegs c ticketId s"
  from assms obtain ticket where tk: "select_one (\<lambda>r. t_id r = ticketId \<and> t_userId r = userId) (tickets s) = Some ticket"
    by (auto simp: quote_def step_simps)
  note defs = quote_def Let_def step_simps tk not_open_quote_def base_quote_def QUOTE_TTL_SECONDS_def
  show thesis
  proof (cases "t_status ticket = accepted \<and> ?legs \<noteq> []")
    case False
    then have "t = s" "cq_quoteId q = None" using assms by (auto simp: defs split: if_splits)
    then show thesis by (rule silent)
  next
    case True
    with assms obtain out where out: "compute (compute_for ticket ?legs (resolveConfig c ?legs) now) = Inr out"
      by (auto simp: quote_def Let_def step_simps tk split: if_splits)
    show thesis
    proof (cases "co_available out")
      case True': False
      then have "t = s" "cq_quoteId q = None" using assms True out by (auto simp: defs)
      then show thesis by (rule silent)
    next
      case av: True
      then show thesis using assms True out by (intro issued [OF tk _ refl _ out]) (auto simp: defs)
    qed
  qed
qed

lemma cashout_commit_effect:
  assumes "cashout_commit now userId ticketId quoteId s = Inr (x, t)"
  obtains qrow ticket wallet where
    "select_one (\<lambda>q. c_id q = quoteId) (cashouts s) = Some qrow" "c_status qrow = offered"
    "select_one (\<lambda>r. t_id r = ticketId \<and> t_userId r = userId) (tickets s) = Some ticket"
    "t_status ticket = accepted"
    "select_one (\<lambda>w. wallet_key w = (userId, t_currency ticket)) (wallets s) = Some wallet"
    "x = c_offeredMicro qrow"
    "t = s\<lparr>wallets := update_where (\<lambda>w. wallet_key w = (userId, t_currency ticket))
           (cash_out_wallet x (t_stakeMicro ticket) now) (wallets s),
         wallet_ledger := wallet_ledger s @ [cashout_ledger_row ticket x],
         tickets := update_where (\<lambda>r. t_id r = ticketId)
           (\<lambda>r. r\<lparr>t_status := cashed_out, t_actualPayoutMicro := Some x, t_settledAt := Some now\<rparr>) (tickets s),
         bank_state := released now (t_currency ticket) (t_potentialPayoutMicro ticket) (bank_state s),
         cashouts := update_where (\<lambda>r. c_id r = quoteId)
           (\<lambda>r. r\<lparr>c_status := co_accepted, c_payoutMicro := Some x, c_acceptedAt := Some now,
                  c_executedAt := Some now\<rparr>) (cashouts s)\<rparr>"
  using assms unfolding cashout_commit_def Let_def
  by (auto simp: step_simps intro!: that)

lemma recompute_Inr:
  "recompute c now ticketId p s = Inr (out, t) \<longleftrightarrow> t = s \<and>
     compute (compute_for (pa_ticketBefore p) (loadLegs c ticketId s) (pa_config p) now) = Inr out"
  by (auto simp: recompute_def step_simps)

text \<open>A finished acceptance either commits, or leaves everything but the quote's own status.\<close>

lemma accept_finish_cases:
  assumes "accept_finish c now userId ticketId quoteId p s = (r, t)"
  obtains (committed) x out where "r = Inr x"
      "compute (compute_for (pa_ticketBefore p) (loadLegs c ticketId s) (pa_config p) now) = Inr out"
      "co_available out" "driftFloor (c_offeredMicro (pa_quote p)) \<le> co_offerMicro out"
      "cashout_commit now userId ticketId quoteId s = Inr (x, t)"
  | (refused) e where "r = Inl e" "t = s"
  | (drifted) e where "r = Inl e" "\<exists>g. (\<forall>q. c_status (g q) = errored) \<and>
      t = s\<lparr>cashouts := update_where (\<lambda>q. c_id q = quoteId) g (cashouts s)\<rparr>"
proof (cases r)
  case (Inr x)
  then show thesis using assms committed
    by (auto simp: accept_finish_def step_simps recompute_Inr split: if_splits)
next
  case (Inl e)
  have "t = s \<or> (\<exists>g. (\<forall>q. c_status (g q) = errored) \<and>
      t = s\<lparr>cashouts := update_where (\<lambda>q. c_id q = quoteId) g (cashouts s)\<rparr>)"
    using assms unfolding Inl accept_finish_def
    by (auto simp: step_simps recompute_Inr split: if_splits
        intro!: exI [of _ "\<lambda>r. r\<lparr>c_status := errored, c_reason := Some _\<rparr>"])
  then show thesis using Inl refused drifted by blast
qed

end
