(* ===== verification/Cashout_Books.thy ===== *)
theory Cashout_Books
  imports Cashout_Service
begin

text \<open>
  Issuing and accepting a cashout quote keep the books balanced: an accepted
  quote closes its ticket, releases the lock and the bank's exposure.
\<close>

section \<open>The books stay balanced\<close>

lemma schema_cashout_ops [keeps_intros]:
  "keeps schema_ok (quote c now newId userId ticketId)"
  "keeps schema_ok (cashout_commit now userId ticketId quoteId)"
  unfolding quote_def cashout_commit_def loadTicket_def Let_def
  by (intro keeps_intros)+

text \<open>Steps that change quotes only.\<close>

lemma books_cashouts_only:
  assumes "keeps schema_ok m" and "\<And>s x t. m s = Inr (x, t) \<Longrightarrow> t = s\<lparr>cashouts := cashouts t\<rparr>"
  shows "keeps books_ok m"
proof (rule keepsI)
  fix s x t
  assume ok: "books_ok s" and step: "m s = Inr (x, t)"
  have "schema_ok t" using ok step by (auto intro: keepsD [OF assms(1)] dest: books_okD)
  moreover obtain cs where "t = s\<lparr>cashouts := cs\<rparr>" using assms(2) [OF step] by blast
  ultimately show "books_ok t" by (auto intro!: books_frame [OF ok])
qed

lemma books_update_cashouts [keeps_intros]: "keeps books_ok (update_cashouts P f)"
  by (rule books_cashouts_only) (auto intro: keeps_intros simp: step_simps)

lemma books_quote [keeps_intros]: "keeps books_ok (quote c now newId userId ticketId)"
  by (rule books_cashouts_only, rule schema_cashout_ops(1), erule quote_cases) simp_all

lemma releases_cash_out: "releases k a ws (update_where (\<lambda>w. wallet_key w = k) (cash_out_wallet f a n) ws)"
  unfolding releases_def by (rule exI [of _ "cash_out_wallet f a n"]) simp

text \<open>The ticket a lookup by id and owner finds is the one its id names.\<close>

lemma select_ticket_by_id:
  assumes "schema_ok s" and "select_one (\<lambda>r. t_id r = i \<and> t_userId r = u) (tickets s) = Some row"
  shows "select_one (\<lambda>r. t_id r = i) (tickets s) = Some row" and "t_userId row = u" and "t_id row = i"
proof -
  have row: "row \<in> set (tickets s)" "t_id row = i" "t_userId row = u"
    using assms(2) by (auto dest: select_one_SomeD)
  then show "t_userId row = u" "t_id row = i" by simp_all
  show "select_one (\<lambda>r. t_id r = i) (tickets s) = Some row"
    using select_one_key [OF tickets_distinct [OF assms(1)] row(1)] row(2) by simp
qed

lemma cashout_ledger_key: "ledger_key (cashout_ledger_row ticket x) = Some (cashout, ''ticket'', t_id ticket)"
  by (simp add: cashout_ledger_row_def ledger_key_def)

lemma open_not_closed:
  assumes "schema_ok s" and "select_one (\<lambda>r. t_id r = i) (tickets s) = Some row" and "t_open row"
  shows "i \<notin> closed_tickets s"
  using select_one_unique [OF tickets_distinct [OF assms(1)] assms(2)] assms(3)
  by (auto simp: ids_where_def)

lemma books_cashout_commit [keeps_intros]: "keeps books_ok (cashout_commit now userId ticketId quoteId)"
proof (rule keepsI)
  fix s x t
  assume ok: "books_ok s" and step: "cashout_commit now userId ticketId quoteId s = Inr (x, t)"
  note s = books_okD [OF ok]
  have schema: "schema_ok t" using s(1) step by (rule_tac keepsD [OF schema_cashout_ops(2)])
  from step show "books_ok t"
  proof (rule cashout_commit_effect)
    fix qrow ticket wallet
    let ?f = "\<lambda>r. r\<lparr>t_status := cashed_out, t_actualPayoutMicro := Some x, t_settledAt := Some now\<rparr>"
    assume tk: "select_one (\<lambda>r. t_id r = ticketId \<and> t_userId r = userId) (tickets s) = Some ticket"
      and st: "t_status ticket = accepted"
      and t: "t = s\<lparr>wallets := update_where (\<lambda>w. wallet_key w = (userId, t_currency ticket))
           (cash_out_wallet x (t_stakeMicro ticket) now) (wallets s),
         wallet_ledger := wallet_ledger s @ [cashout_ledger_row ticket x],
         tickets := update_where (\<lambda>r. t_id r = ticketId) ?f (tickets s),
         bank_state := released now (t_currency ticket) (t_potentialPayoutMicro ticket) (bank_state s),
         cashouts := update_where (\<lambda>r. c_id r = quoteId)
           (\<lambda>r. r\<lparr>c_status := co_accepted, c_payoutMicro := Some x, c_acceptedAt := Some now,
                  c_executedAt := Some now\<rparr>) (cashouts s)\<rparr>"
    note row = select_ticket_by_id [OF s(1) tk]
    have opn: "t_open ticket" using st by (simp add: t_open_def)
    have upd: "tickets t = update_where (\<lambda>r. t_id r = ticketId) ?f (tickets s)" by (simp add: t)
    have f: "t_id (?f r) = t_id r \<and> \<not> t_open (?f r)" for r by (simp add: t_open_def)
    have "\<not> ref_ok s (cashout, ''ticket'', t_id ticket)"
      using open_not_closed [OF s(1) row(1) opn] row(3) by (simp add: ref_ok.simps)
    then have once: "wallet_ledger s @ [cashout_ledger_row ticket x] = book_once (cashout_ledger_row ticket x) (wallet_ledger s)"
      using no_conflict [OF s(4) cashout_ledger_key] by (simp add: book_once_def)
    have led: "pred_option (ref_ok t) (ledger_key (cashout_ledger_row ticket x))"
      using closed_ref_ok [OF row(1) upd f] row(3) by (simp add: cashout_ledger_key ref_ok.simps)
    show ?thesis
      by (rule books_ticket_close [OF ok schema row(1) opn upd f _ _ _ _ _ _ led, of now])
         (simp_all add: t row(2) releases_cash_out once)
  qed
qed

lemma books_accept [keeps_intros]:
  "keepsC books_ok (accept_begin c now userId ticketId quoteId expected)"
  "keepsC books_ok (accept_finish c now userId ticketId quoteId p)"
  unfolding accept_begin_def accept_finish_def load_offer_def prevalidate_def loadTicket_def recompute_def Let_def
  by (intro keeps_intros)+

lemma commit_closes:
  assumes "cashout_commit now userId ticketId quoteId s = Inr (x, t)"
    and "k \<in> set (tickets t)" and "t_id k = ticketId"
  shows "t_status k = cashed_out"
proof -
  obtain f where "tickets t = update_where (\<lambda>r. t_id r = ticketId) f (tickets s)"
    and f: "\<And>r. t_status (f r) = cashed_out \<and> t_id (f r) = t_id r"
    using assms(1) by (rule cashout_commit_effect) simp
  then obtain r where "k = (if t_id r = ticketId then f r else r)"
    using assms(2) by (auto simp: in_set_update_where)
  with f [of r] assms(3) show ?thesis by (auto split: if_splits)
qed

end
