(* ===== verification/Sample_Catalog.thy ===== *)
theory Sample_Catalog
  imports Catalog Sample
begin

text \<open>
  A catalog for the sample database: one sport, a tournament of risk tier 3, a
  match that has not started and a live one, open markets on each, and at most
  one configuration row per table.
\<close>

definition sample_market :: "int \<Rightarrow> int \<Rightarrow> markets_row" where
  "sample_market i m = \<lparr>mk_id = i, mk_matchId = m, mk_providerMarketId = i, mk_specifiersJson = [],
     mk_status = 1\<rparr>"

definition sample_outcome :: "int \<Rightarrow> string \<Rightarrow> string \<Rightarrow> string \<Rightarrow> market_outcomes_row" where
  "sample_outcome i oid price prob = \<lparr>mo_marketId = i, mo_outcomeId = oid, mo_name = [], mo_publishedOdds = Some price,
     mo_probability = Some prob, mo_active = True, mo_result = None\<rparr>"

definition sample_match :: "int \<Rightarrow> match_status \<Rightarrow> matches_row" where
  "sample_match i st = \<lparr>m_id = i, m_tournamentId = 5, m_providerUrn = ''od:match:'' @ show_int i,
     m_scheduledAt = Some 10000000, m_status = st,
     m_homeTeam = ''Alpha'', m_awayTeam = ''Beta'', m_homeCompetitorId = Some 21, m_awayCompetitorId = Some 22\<rparr>"

definition sample_catalog :: catalog where
  "sample_catalog = \<lparr>sports = [\<lparr>sport_id = 1, sport_slug = ''cs2'', sport_name = ''CS2'', sport_active = True\<rparr>], categories = [\<lparr>cat_id = 2, cat_sportId = 1\<rparr>],
     tournaments = [\<lparr>tn_id = 5, tn_categoryId = 2, tn_riskTier = Some 3\<rparr>],
     matches = [sample_match 7 ms_not_started, sample_match 9 ms_live],
     markets = [sample_market 11 7, sample_market 12 9, sample_market 13 7],
     market_outcomes = [sample_outcome 11 ''1'' ''2'' ''0.5'', sample_outcome 11 ''2'' ''2'' ''0.5'',
       sample_outcome 12 ''1'' ''4'' ''0.25'', sample_outcome 13 ''1'' ''3'' ''0.25''],
     bettor_odds_adjustment_config = [], bettor_promo_visibility_config = [],
     riskzilla_live_delay_config = [\<lparr>ld_scope = \<lparr>sr_scope = scope_global, sr_sportId = None,
       sr_tournamentId = None, sr_matchId = None\<rparr>, ld_delaySeconds = 4\<rparr>],
     cashout_config = [\<lparr>cc_scope = os_global, cc_scopeRefId = None, cc_enabled = True,
       cc_prematchFullPaybackSeconds = 600, cc_deductionLadderJson = None, cc_minOfferMicro = 1,
       cc_minValueChangeBp = 0, cc_acceptanceDelaySeconds = 5\<rparr>],
     bet_product_config = [],
     combi_boost_config = Some \<lparr>cb_enabled = False, cb_minOdds = ''1.5'', cb_tiers = []\<rparr>,
     riskzilla_settings = [\<lparr>rs_tier = 0, rs_matchLiabilityMicro = 100000, rs_minBetMicro = 10,
       rs_maxPayoutMicro = 50000, rs_betFactor = ''0.5000''\<rparr>],
     riskzilla_market_factors = [], boosted_odds_config = [], zillaflash_config = None,
     market_descriptions = [], outcome_descriptions = [], fe_market_display_order = []\<rparr>"

end
