(* ===== verification/Cashout_Properties.thy ===== *)
theory Cashout_Properties
  imports Cashout_Books Sample_Catalog
begin

text \<open>
  What the cashout operations promise: bounds of the offer, the most restrictive
  configuration, what an accepted quote does to ticket, wallet, ledger and bank,
  and that a ticket is cashed out at most once.
\<close>

section \<open>The offer\<close>

lemma price_offer_available:
  assumes "price_offer i v p = Inr out" and "co_available out"
  shows "rc_minOfferMicro (ci_config i) \<le> co_offerMicro out"
    and "co_offerMicro out \<le> ci_potentialPayoutMicro i"
    and "co_fullPayback out = full_payback_window i"
    and "full_payback_window i \<Longrightarrow> co_offerMicro out = min (ci_stakeMicro i) (ci_potentialPayoutMicro i)"
  using assms
  by (auto simp: price_offer_def Let_def min_def split: sum.splits if_splits)

lemma available_offer_bounds:
  assumes "compute i = Inr out" and "co_available out"
  shows "rc_minOfferMicro (ci_config i) \<le> co_offerMicro out" and "co_offerMicro out \<le> ci_potentialPayoutMicro i"
  using assms by (auto elim!: compute_available dest: price_offer_available(1,2))

text \<open>An available offer never exceeds the ticket's potential payout nor falls below the
  configured minimum; it exists only while the feature is enabled, for single, combo and system
  bets, and only when no leg is lost and every leg still open is active.\<close>

theorem offer_bounds:
  assumes "compute i = Inr out" and "co_available out"
  shows "rc_minOfferMicro (ci_config i) \<le> co_offerMicro out \<and> co_offerMicro out \<le> ci_potentialPayoutMicro i
    \<and> rc_enabled (ci_config i) \<and> ci_betType i \<notin> {tiple, tippot, betbuilder}
    \<and> list_all (\<lambda>leg. li_result leg \<noteq> Some res_lost \<and> (leg_settled leg \<or> li_active leg)) (ci_legs i)"
  using assms
proof (rule compute_available)
  fix v p
  assume "scan_legs (Fin 1) (Fin 1) (ci_legs i) = Inr (Inr (v, p))" and run: "price_offer i v p = Inr out"
    and rest: "rc_enabled (ci_config i)" "ci_betType i \<notin> {tiple, tippot, betbuilder}"
  then have "list_all (\<lambda>leg. li_result leg \<noteq> Some res_lost \<and> (leg_settled leg \<or> li_active leg)) (ci_legs i)"
    by (auto dest: scan_legs_through simp: list_all_iff)
  with price_offer_available(1,2) [OF run assms(2)] rest show ?thesis by simp
qed

definition sample_input :: compute_input where
  "sample_input = \<lparr>ci_betType = single, ci_stakeMicro = 1000, ci_potentialPayoutMicro = 2000,
     ci_placedAtMs = 0, ci_matchEarliestKickoffMs = Some 90000,
     ci_legs = [\<lparr>li_oddsAtPlacement = ''2'', li_probabilityCurrent = Some (Fin (3 / 4)), li_oddsCurrent = None,
       li_active = True, li_result = None, li_voidFactor = None\<rparr>],
     ci_config = \<lparr>rc_enabled = True, rc_prematchFullPaybackSeconds = 60, rc_deductionLadder = None,
       rc_minOfferMicro = 1, rc_minValueChangeBp = 0, rc_acceptanceDelaySeconds = 0\<rparr>,
     ci_nowMs = 70000\<rparr>"

lemma sample_input_run: "map_sum id (\<lambda>r. (co_available r, co_offerMicro r)) (compute sample_input) = Inr (True, 1500)"
  by code_simp

theorem offer_bounds_witness:
  "\<exists>out. compute sample_input = Inr out \<and> co_offerMicro out = 1500
     \<and> co_offerMicro out \<le> ci_potentialPayoutMicro sample_input"
proof -
  obtain out where "compute sample_input = Inr out" "co_available out" "co_offerMicro out = 1500"
    using sample_input_run by (cases "compute sample_input") auto
  then show ?thesis using offer_bounds [of sample_input out] by simp
qed

text \<open>Inside the prematch full-payback window an available offer is exactly the stake, capped
  by the potential payout, whatever the odds, the probabilities and the deduction ladder say.\<close>

theorem full_payback_offer:
  assumes "compute i = Inr out" and "co_available out" and "full_payback_window i"
  shows "co_fullPayback out \<and> co_offerMicro out = min (ci_stakeMicro i) (ci_potentialPayoutMicro i)"
  using assms(1,2)
proof (rule compute_available)
  fix v p
  assume "price_offer i v p = Inr out"
  from price_offer_available(3,4) [OF this assms(2)] assms(3) show ?thesis by simp
qed

lemma sample_payback_run:
  "map_sum id co_available (compute (sample_input\<lparr>ci_nowMs := 30000\<rparr>)) = Inr True"
  "full_payback_window (sample_input\<lparr>ci_nowMs := 30000\<rparr>)"
  by code_simp+

theorem full_payback_offer_witness:
  "\<exists>out. compute (sample_input\<lparr>ci_nowMs := 30000\<rparr>) = Inr out \<and> co_offerMicro out = 1000"
proof -
  let ?i = "sample_input\<lparr>ci_nowMs := 30000\<rparr>"
  obtain out where "compute ?i = Inr out" "co_available out"
    using sample_payback_run(1) by (cases "compute ?i") auto
  then show ?thesis using full_payback_offer [OF _ _ sample_payback_run(2)] by (simp add: sample_input_def)
qed

section \<open>The configuration of several legs\<close>

definition at_most_as_permissive :: "resolved_config \<Rightarrow> resolved_config \<Rightarrow> bool" where
  "at_most_as_permissive r c \<longleftrightarrow> (rc_enabled r \<longrightarrow> rc_enabled c)
     \<and> rc_prematchFullPaybackSeconds r \<le> rc_prematchFullPaybackSeconds c
     \<and> rc_minOfferMicro c \<le> rc_minOfferMicro r \<and> rc_minValueChangeBp c \<le> rc_minValueChangeBp r
     \<and> rc_acceptanceDelaySeconds c \<le> rc_acceptanceDelaySeconds r"

lemma permissive_refl: "at_most_as_permissive r r"
  by (simp add: at_most_as_permissive_def)

lemma permissive_trans: "at_most_as_permissive a b \<Longrightarrow> at_most_as_permissive b c \<Longrightarrow> at_most_as_permissive a c"
  by (auto simp: at_most_as_permissive_def)

lemma merge_config_permissive:
  "at_most_as_permissive (merge_config a c) a" "at_most_as_permissive (merge_config a c) c"
  by (auto simp: at_most_as_permissive_def merge_config_def)

lemma foldl_merge_permissive:
  "at_most_as_permissive (foldl merge_config a cs) a
   \<and> (\<forall>c \<in> set cs. at_most_as_permissive (foldl merge_config a cs) c)"
proof (induction cs arbitrary: a)
  case (Cons c cs)
  from Cons [of "merge_config a c"] show ?case
    by (auto intro: permissive_trans merge_config_permissive)
qed (simp add: permissive_refl)

text \<open>The configuration a ticket is cashed out under is at most as permissive as the one of
  each of its legs (enabled only if every leg is, the shortest payback window, the largest minimum
  offer, change threshold and acceptance delay), and without a global row the feature is off.\<close>

theorem config_most_restrictive:
  assumes "leg \<in> set legs"
  shows "case by_scope c os_global [] of
      None \<Rightarrow> \<not> rc_enabled (resolveConfig c legs)
    | Some g \<Rightarrow> at_most_as_permissive (resolveConfig c legs) (leg_config c g leg)"
  using assms foldl_merge_permissive
  by (auto simp: resolveConfig_def split: option.splits)

definition sample_leg :: leg_row where
  "sample_leg = \<lparr>lg_oddsAtPlacement = ''2'', lg_result = None, lg_voidFactor = None, lg_marketStatus = 1,
     lg_providerMarketId = 1, lg_publishedOdds = None, lg_probability = None, lg_active = Some True,
     lg_sportId = 1, lg_tournamentId = 5, lg_matchScheduledAt = None, lg_matchStatus = ms_live\<rparr>"

theorem config_most_restrictive_witness:
  "rc_acceptanceDelaySeconds (resolveConfig sample_catalog [sample_leg]) \<ge> 5"
proof -
  let ?g = "hd (cashout_config sample_catalog)"
  have g: "by_scope sample_catalog os_global [] = Some ?g"
    by (simp add: by_scope_def sample_catalog_def)
  have leg: "leg_config sample_catalog ?g sample_leg = config_of_row ?g"
    by (simp add: leg_config_def by_scope_def sample_catalog_def)
  show ?thesis
    using config_most_restrictive [of sample_leg "[sample_leg]" sample_catalog]
    by (simp add: g leg at_most_as_permissive_def config_of_row_def) (simp add: sample_catalog_def)
qed

section \<open>Issuing a quote\<close>

text \<open>A quote with an id is an offer on an accepted ticket of the caller that is recorded as
  offered for thirty seconds, does not exceed the ticket's potential payout, and is the only change
  to the database.\<close>

theorem quote_issues_offer:
  assumes "quote c now newId userId ticketId s = Inr (q, t)" and "cq_quoteId q = Some i"
  shows "\<exists>ticket row. select_one (\<lambda>r. t_id r = ticketId \<and> t_userId r = userId) (tickets s) = Some ticket
    \<and> t_status ticket = accepted \<and> t = s\<lparr>cashouts := cashouts s @ [row]\<rparr> \<and> c_id row = i
    \<and> c_ticketId row = ticketId \<and> c_userId row = userId \<and> c_status row = offered
    \<and> c_offeredMicro row \<le> t_potentialPayoutMicro ticket \<and> c_expiresAt row = now + 30000
    \<and> cq_offerMicro q = Some (show_int (c_offeredMicro row))"
  using assms(1)
proof (cases rule: quote_cases)
  case silent
  then show ?thesis using assms(2) by simp
next
  case (issued ticket legs out)
  have "co_offerMicro out \<le> t_potentialPayoutMicro ticket"
    using available_offer_bounds(2) [OF issued(5,6)] by (simp add: compute_for_def)
  with issued assms(2) show ?thesis
    by (auto simp: offered_row_def intro!: exI [of _ ticket]
        exI [of _ "offered_row newId ticketId userId out (now + 30000)"])
qed

lemma sample_quote_run:
  "map_sum id co_available (compute (compute_for sample_ticket (loadLegs sample_catalog ''t1'' sample_db)
     (resolveConfig sample_catalog (loadLegs sample_catalog ''t1'' sample_db)) 1000)) = Inr True"
  "loadLegs sample_catalog ''t1'' sample_db \<noteq> []"
  "rc_minOfferMicro (resolveConfig sample_catalog (loadLegs sample_catalog ''t1'' sample_db)) = 1"
  by code_simp+

lemma sample_quote:
  obtains q t where "quote sample_catalog 1000 ''q1'' ''ann'' ''t1'' sample_db = Inr (q, t)"
    and "cq_quoteId q = Some ''q1''"
proof -
  let ?legs = "loadLegs sample_catalog ''t1'' sample_db"
  obtain out where out: "compute (compute_for sample_ticket ?legs (resolveConfig sample_catalog ?legs) 1000) = Inr out"
      "co_available out"
    using sample_quote_run(1)
    by (cases "compute (compute_for sample_ticket ?legs (resolveConfig sample_catalog ?legs) 1000)") auto
  have tk: "loadTicket ''ann'' ''t1'' sample_db = Inr (sample_ticket, sample_db)" "t_status sample_ticket = accepted"
    by (simp_all add: loadTicket_Inr) (simp_all add: sample_defs)
  have "1 \<le> co_offerMicro out" "co_offerMicro out \<le> 120"
    using available_offer_bounds [OF out] sample_quote_run(3) by (simp_all add: compute_for_def sample_ticket_def)
  then have viol: "cashouts_viol (offered_row ''q1'' ''t1'' ''ann'' out e) = None" for e
    by (simp add: cashouts_viol_def offered_row_def in_bigint_def)
  let ?r = "offered_row ''q1'' ''t1'' ''ann'' out 31000"
  have ins: "insert_cashout ?r sample_db = Inr ((), sample_db\<lparr>cashouts := [?r]\<rparr>)"
    using viol [of 31000] by (simp add: insert_cashout_Inr insert_checks_def cashouts_uniq_def)
      (simp add: sample_db_def offered_row_def map_filter_simps)
  show thesis
    by (rule that) (auto simp: quote_def Let_def run_defs tk out sample_quote_run(2) QUOTE_TTL_SECONDS_def ins)
qed

theorem quote_issues_offer_witness:
  "\<exists>q t row. quote sample_catalog 1000 ''q1'' ''ann'' ''t1'' sample_db = Inr (q, t)
     \<and> cashouts t = [row] \<and> c_offeredMicro row \<le> 120 \<and> c_expiresAt row = 31000"
proof -
  obtain q t where run: "quote sample_catalog 1000 ''q1'' ''ann'' ''t1'' sample_db = Inr (q, t)"
    and q: "cq_quoteId q = Some ''q1''" by (rule sample_quote)
  from quote_issues_offer [OF run q] show ?thesis using run by (auto simp: sample_defs)
qed

section \<open>Accepting a quote\<close>

lemma tolBp_eq: "tolBp = 500"
  by code_simp

lemma driftFloor_95: "0 \<le> q \<Longrightarrow> 95 * q \<le> 100 * driftFloor q"
  by (simp add: driftFloor_def tolBp_eq big_div_nonneg)

lemma cash_out_sums:
  assumes "schema_ok s" and "has_wallet k (wallets s)"
  shows "balance_of k' (update_where (\<lambda>w. wallet_key w = k) (cash_out_wallet x a n) (wallets s)) =
      balance_of k' (wallets s) + (if k' = k then x - a else 0)"
    and "locked_of k' (update_where (\<lambda>w. wallet_key w = k) (cash_out_wallet x a n) (wallets s)) =
      locked_of k' (wallets s) - (if k' = k then a else 0)"
  using assms balance_of_update [of "wallets s" "cash_out_wallet x a n" "x - a"]
    locked_of_update [of "wallets s" "cash_out_wallet x a n" "- a"]
  by (simp_all add: wallets_distinct)

text \<open>The sample ticket with an open offer of its stake, half way through its acceptance.\<close>

definition sample_offer :: cashouts_row where
  "sample_offer = \<lparr>c_id = ''q1'', c_ticketId = ''t1'', c_userId = ''ann'', c_status = offered,
     c_offeredMicro = 50, c_payoutMicro = None, c_ticketOddsSnapshot = ''2.4000'',
     c_probabilitySnapshot = ''0.500000000000000'', c_deductionFactorSnapshot = None, c_reason = None,
     c_expiresAt = 31000, c_acceptedAt = None, c_executedAt = None\<rparr>"

definition sample_quoted_db :: db where
  "sample_quoted_db = sample_db\<lparr>cashouts := [sample_offer]\<rparr>"

definition sample_pending :: pending_accept where
  "sample_pending = \<lparr>pa_quote = sample_offer, pa_ticketBefore = sample_ticket,
     pa_config = config_of_row (hd (cashout_config sample_catalog)), pa_delaySeconds = 0\<rparr>"

lemma sample_quoted_books_ok: "books_ok sample_quoted_db"
  unfolding sample_quoted_db_def
  by (rule books_frame [OF sample_books_ok]) (code_simp, simp_all)

lemma sample_accept:
  obtains t where "accept_finish sample_catalog 2000 ''ann'' ''t1'' ''q1'' sample_pending sample_quoted_db = (Inr 50, t)"
proof -
  have "fst (accept_finish sample_catalog 2000 ''ann'' ''t1'' ''q1'' sample_pending sample_quoted_db) = Inr 50"
    by code_simp
  then show thesis using that by (metis prod.collapse)
qed

lemma sample_quoted_ticket: "select_one (\<lambda>r. t_id r = ''t1'') (tickets sample_quoted_db) = Some sample_ticket"
  by (simp add: sample_quoted_db_def sample_db_def) (simp add: sample_ticket_def)

text \<open>C21: an accepted cashout pays exactly the amount quoted.  The ticket, open until then, becomes
  cashed out at that payout; the owner's wallet gains the offer less the stake and the stake's lock
  is released; the bank's open liability shrinks by the ticket's whole potential payout (USDC only);
  and at that moment the recomputed offer was still available and at least 95% of the quote.\<close>

theorem cashout_pays_quote:
  assumes ok: "books_ok s" and step: "accept_finish c now userId ticketId quoteId p s = (Inr x, t)"
    and "0 \<le> c_offeredMicro (pa_quote p)"
  shows "\<exists>ticket qrow out. select_one (\<lambda>r. t_id r = ticketId) (tickets s) = Some ticket
    \<and> t_userId ticket = userId \<and> t_status ticket = accepted
    \<and> select_one (\<lambda>q. c_id q = quoteId) (cashouts s) = Some qrow \<and> c_status qrow = offered
    \<and> x = c_offeredMicro qrow
    \<and> select_one (\<lambda>r. t_id r = ticketId) (tickets t) = Some (ticket\<lparr>t_status := cashed_out,
        t_actualPayoutMicro := Some x, t_settledAt := Some now\<rparr>)
    \<and> balance_of (userId, t_currency ticket) (wallets t) =
        balance_of (userId, t_currency ticket) (wallets s) + x - t_stakeMicro ticket
    \<and> locked_of (userId, t_currency ticket) (wallets t) =
        locked_of (userId, t_currency ticket) (wallets s) - t_stakeMicro ticket
    \<and> openLiabilityMicro (bank_state t) = openLiabilityMicro (bank_state s)
        - (if t_currency ticket = USDC then t_potentialPayoutMicro ticket else 0)
    \<and> compute (compute_for (pa_ticketBefore p) (loadLegs c ticketId s) (pa_config p) now) = Inr out
    \<and> co_available out \<and> 95 * c_offeredMicro (pa_quote p) \<le> 100 * co_offerMicro out"
  using step
proof (cases rule: accept_finish_cases)
  case (committed y out)
  then have x: "y = x" by simp
  note s = books_okD [OF ok]
  from committed(5) show ?thesis
  proof (rule cashout_commit_effect)
    fix qrow ticket wallet
    let ?f = "\<lambda>r. r\<lparr>t_status := cashed_out, t_actualPayoutMicro := Some y, t_settledAt := Some now\<rparr>"
    assume q: "select_one (\<lambda>q. c_id q = quoteId) (cashouts s) = Some qrow" "c_status qrow = offered"
      and tk: "select_one (\<lambda>r. t_id r = ticketId \<and> t_userId r = userId) (tickets s) = Some ticket"
        "t_status ticket = accepted"
      and w: "select_one (\<lambda>w. wallet_key w = (userId, t_currency ticket)) (wallets s) = Some wallet"
      and y: "y = c_offeredMicro qrow"
      and t: "t = s\<lparr>wallets := update_where (\<lambda>w. wallet_key w = (userId, t_currency ticket))
           (cash_out_wallet y (t_stakeMicro ticket) now) (wallets s),
         wallet_ledger := wallet_ledger s @ [cashout_ledger_row ticket y],
         tickets := update_where (\<lambda>r. t_id r = ticketId) ?f (tickets s),
         bank_state := released now (t_currency ticket) (t_potentialPayoutMicro ticket) (bank_state s),
         cashouts := update_where (\<lambda>r. c_id r = quoteId)
           (\<lambda>r. r\<lparr>c_status := co_accepted, c_payoutMicro := Some y, c_acceptedAt := Some now,
                  c_executedAt := Some now\<rparr>) (cashouts s)\<rparr>"
    note row = select_ticket_by_id [OF s(1) tk(1)]
    have has: "has_wallet (userId, t_currency ticket) (wallets s)" using w by (simp add: has_wallet_iff)
    have mem: "ticket \<in> set (tickets s)" using row(1) by (auto dest: select_one_SomeD)
    have lia: "openLiabilityMicro (bank_state t) = openLiabilityMicro (bank_state s)
        - (if t_currency ticket = USDC then t_potentialPayoutMicro ticket else 0)"
      using ticket_exposure_le [OF s(1) mem] ticket_bounds(2) [OF s(1) mem] s(3) tk(2)
      by (auto simp: t released_def liability_ok_def t_open_def)
    have tick: "select_one (\<lambda>r. t_id r = ticketId) (tickets t) = Some (?f ticket)"
      unfolding t using select_one_update_key [OF row(1), of ?f] by simp
    have floor: "95 * c_offeredMicro (pa_quote p) \<le> 100 * co_offerMicro out"
      using driftFloor_95 [OF assms(3)] committed(4) by linarith
    have sums: "balance_of (userId, t_currency ticket) (wallets t) =
        balance_of (userId, t_currency ticket) (wallets s) + x - t_stakeMicro ticket"
      "locked_of (userId, t_currency ticket) (wallets t) =
        locked_of (userId, t_currency ticket) (wallets s) - t_stakeMicro ticket"
      using cash_out_sums [OF s(1) has] by (simp_all add: t x)
    show ?thesis
      using row q tk(2) y x tick sums lia committed(2,3) floor by blast
  qed
qed simp_all

theorem cashout_pays_quote_witness:
  "\<exists>t. accept_finish sample_catalog 2000 ''ann'' ''t1'' ''q1'' sample_pending sample_quoted_db = (Inr 50, t)
     \<and> openLiabilityMicro (bank_state t) = 80"
proof -
  obtain t where t: "accept_finish sample_catalog 2000 ''ann'' ''t1'' ''q1'' sample_pending sample_quoted_db = (Inr 50, t)"
    by (rule sample_accept)
  have "0 \<le> c_offeredMicro (pa_quote sample_pending)" by (simp add: sample_pending_def sample_offer_def)
  moreover have "t_currency sample_ticket = USDC" "t_potentialPayoutMicro sample_ticket = 120"
    "openLiabilityMicro (bank_state sample_quoted_db) = 200"
    by (simp_all add: sample_ticket_def sample_quoted_db_def sample_db_def)
  ultimately show ?thesis
    using cashout_pays_quote [OF sample_quoted_books_ok t] t by (auto simp: sample_quoted_ticket)
qed

text \<open>C5: a ticket is cashed out at most once: after a successful acceptance every further one on
  the same ticket, by whatever quote, fails and moves no money.\<close>

theorem cashed_out_once:
  assumes "accept_finish c now userId ticketId quoteId p s = (Inr x, t)"
    and "accept_finish c' now' userId' ticketId quoteId' p' t = (r, u)"
  shows "(\<exists>e. r = Inl e) \<and> wallets u = wallets t \<and> wallet_ledger u = wallet_ledger t
    \<and> tickets u = tickets t \<and> bank_state u = bank_state t"
proof -
  from assms(1) obtain y where "cashout_commit now userId ticketId quoteId s = Inr (y, t)"
    by (cases rule: accept_finish_cases) auto
  note closed = commit_closes [OF this]
  from assms(2) show ?thesis
  proof (cases rule: accept_finish_cases)
    case (committed z out)
    from committed(5) show ?thesis
      by (rule cashout_commit_effect) (auto dest!: select_one_SomeD closed)
  next
    case (refused e)
    then show ?thesis by simp
  next
    case (drifted e)
    then show ?thesis by auto
  qed
qed

theorem cashed_out_once_witness:
  "\<exists>t e. accept_finish sample_catalog 2000 ''ann'' ''t1'' ''q1'' sample_pending sample_quoted_db = (Inr 50, t)
     \<and> fst (accept_finish sample_catalog 3000 ''ann'' ''t1'' ''q1'' sample_pending t) = Inl e"
proof -
  obtain t where t: "accept_finish sample_catalog 2000 ''ann'' ''t1'' ''q1'' sample_pending sample_quoted_db = (Inr 50, t)"
    by (rule sample_accept)
  let ?r = "accept_finish sample_catalog 3000 ''ann'' ''t1'' ''q1'' sample_pending t"
  have "?r = (fst ?r, snd ?r)" by simp
  from cashed_out_once [OF t this] t show ?thesis by blast
qed

text \<open>Every cashout leaves the ledger of the bettor one stake short: the stake was booked as a
  debit when the bet was placed, and the cashout row books the offer less the stake again, so the
  reconciliation of balances against the ledger is off by exactly the stake.\<close>

theorem cashout_ledger_drifts:
  assumes ok: "books_ok s" and step: "accept_finish c now userId ticketId quoteId p s = (Inr x, t)"
  shows "\<exists>ticket. select_one (\<lambda>r. t_id r = ticketId) (tickets s) = Some ticket \<and> 0 < t_stakeMicro ticket
    \<and> ledger_drift (userId, t_currency ticket) t =
        ledger_drift (userId, t_currency ticket) s - t_stakeMicro ticket"
  using step
proof (cases rule: accept_finish_cases)
  case (committed y out)
  note s = books_okD [OF ok]
  from committed(5) show ?thesis
  proof (rule cashout_commit_effect)
    fix qrow ticket wallet
    let ?f = "\<lambda>r. r\<lparr>t_status := cashed_out, t_actualPayoutMicro := Some y, t_settledAt := Some now\<rparr>"
    assume tk: "select_one (\<lambda>r. t_id r = ticketId \<and> t_userId r = userId) (tickets s) = Some ticket"
        "t_status ticket = accepted"
      and w: "select_one (\<lambda>w. wallet_key w = (userId, t_currency ticket)) (wallets s) = Some wallet"
      and t: "t = s\<lparr>wallets := update_where (\<lambda>w. wallet_key w = (userId, t_currency ticket))
           (cash_out_wallet y (t_stakeMicro ticket) now) (wallets s),
         wallet_ledger := wallet_ledger s @ [cashout_ledger_row ticket y],
         tickets := update_where (\<lambda>r. t_id r = ticketId) ?f (tickets s),
         bank_state := released now (t_currency ticket) (t_potentialPayoutMicro ticket) (bank_state s),
         cashouts := update_where (\<lambda>r. c_id r = quoteId)
           (\<lambda>r. r\<lparr>c_status := co_accepted, c_payoutMicro := Some y, c_acceptedAt := Some now,
                  c_executedAt := Some now\<rparr>) (cashouts s)\<rparr>"
    note row = select_ticket_by_id [OF s(1) tk(1)]
    have has: "has_wallet (userId, t_currency ticket) (wallets s)" using w by (simp add: has_wallet_iff)
    have stake: "0 < t_stakeMicro ticket"
      using row(1) by (auto dest!: select_one_SomeD intro: ticket_bounds(1) [OF s(1)])
    have "open_stakes (userId, t_currency ticket) (tickets t) =
        open_stakes (userId, t_currency ticket) (tickets s) - t_stakeMicro ticket"
      using sum_where_update_key [OF tickets_distinct [OF s(1)] row(1)] tk(2) row(2)
      by (simp add: t open_stakes_def t_open_def)
    then have "ledger_drift (userId, t_currency ticket) t =
        ledger_drift (userId, t_currency ticket) s - t_stakeMicro ticket"
      using cash_out_sums(1) [OF s(1) has]
      by (simp add: t ledger_drift_def ledger_of_def cashout_ledger_row_def row(2))
    with row(1) stake show ?thesis by blast
  qed
qed simp_all

theorem cashout_ledger_drifts_witness:
  "\<exists>t. accept_finish sample_catalog 2000 ''ann'' ''t1'' ''q1'' sample_pending sample_quoted_db = (Inr 50, t)
     \<and> ledger_drift (''ann'', USDC) t = - 50"
proof -
  obtain t where t: "accept_finish sample_catalog 2000 ''ann'' ''t1'' ''q1'' sample_pending sample_quoted_db = (Inr 50, t)"
    by (rule sample_accept)
  have "ledger_drift (''ann'', USDC) sample_quoted_db = 0" by code_simp
  with cashout_ledger_drifts [OF sample_quoted_books_ok t] t show ?thesis
    by (auto simp: sample_quoted_ticket sample_ticket_def)
qed

end
