(* ===== verification/Bettor_Odds.thy ===== *)
theory Bettor_Odds
  imports Catalog Odds
begin

text \<open>
  lib/bettor-odds-adjustment.ts: the price a bettor is quoted for an outcome,
  from the published price, the fair probability and the bettor's adjustment in
  basis points, rendered on the quote ladder.
\<close>

definition ADJUSTED_ODDS_FLOOR :: jsnum where
  "ADJUSTED_ODDS_FLOOR = js_fin (1001 / 1000)"

definition formatOddsTrimNum :: "jsnum \<Rightarrow> string" where
  "formatOddsTrimNum n =
    (if \<not> js_isFinite n then js_int_text n
     else if js_lt n (Fin 0) then js_toFixed 2 n
     else let units = js_floor (js_add (js_mul (quoteOnLadder n) (Fin 10000)) (js_fin (1 / 10 ^ 6))) in
       if js_lt units (Fin 0) then js_toFixed 2 n
       else let intP = js_floor (js_div units (Fin 10000));
                fracText = pad_left 4 (js_int_text (js_mod units (Fin 10000))) in
         js_int_text intP @ ''.'' @ take 2 fracText @ strip_zeros (drop 2 fracText))"

definition formatOddsTrim :: "string \<Rightarrow> string" where
  "formatOddsTrim s = (let n = js_parseFloat s in if \<not> js_isFinite n then s else formatOddsTrimNum n)"

text \<open>The fair-odds ceiling and the floor.\<close>

definition fair_ceiling :: "string option \<Rightarrow> jsnum \<Rightarrow> jsnum" where
  "fair_ceiling probability adjusted = (case probability of
     None \<Rightarrow> adjusted
   | Some t \<Rightarrow> let p = js_parseFloat t in
       if js_isFinite p \<and> js_lt (Fin 0) p \<and> js_lt p (Fin 1)
       then (let fair = js_div (Fin 1) p in if js_lt fair adjusted then fair else adjusted)
       else adjusted)"

definition adjusted_price :: "jsnum \<Rightarrow> string option \<Rightarrow> int \<Rightarrow> jsnum" where
  "adjusted_price raw probability bp =
    (let a = fair_ceiling probability (js_mul raw (js_add (Fin 1) (js_div (js_int bp) (Fin 10000)))) in
     if js_lt a ADJUSTED_ODDS_FLOOR then ADJUSTED_ODDS_FLOOR else a)"

definition applyBettorAdjustment :: "string option \<Rightarrow> string option \<Rightarrow> int \<Rightarrow> string option" where
  "applyBettorAdjustment rawOdds probability bp = (case rawOdds of
     None \<Rightarrow> None
   | Some t \<Rightarrow> let raw = js_parseFloat t in
       if \<not> js_isFinite raw \<or> js_le raw (Fin 0) then Some (formatOddsTrim t)
       else if bp = 0 then Some (formatOddsTrimNum raw)
       else Some (formatOddsTrimNum (adjusted_price raw probability bp)))"

section \<open>Bounds of the adjusted price\<close>

lemma not_js_lt_self: "\<not> js_lt x x"
  by (cases x) auto

text \<open>Whatever the adjustment, the price before rendering is never below 1.001, and it exceeds
  the fair price \<open>1 / p\<close> of a known probability only when that fair price itself is below the 1.001
  floor.\<close>

theorem adjusted_price_bounds:
  "\<not> js_lt (adjusted_price raw probability bp) ADJUSTED_ODDS_FLOOR \<and>
   (case probability of None \<Rightarrow> True | Some t \<Rightarrow>
      let p = js_parseFloat t; fair = js_div (Fin 1) p in
      if js_lt (Fin 0) p \<and> js_lt p (Fin 1) \<and> js_lt fair (adjusted_price raw probability bp)
      then js_lt fair ADJUSTED_ODDS_FLOOR \<and> adjusted_price raw probability bp = ADJUSTED_ODDS_FLOOR
      else True)"
proof -
  have fin: "js_isFinite p" if "js_lt (Fin 0) p" "js_lt p (Fin 1)" for p using that by (cases p) auto
  show ?thesis
    by (auto simp: adjusted_price_def fair_ceiling_def Let_def not_js_lt_self fin split: option.splits if_splits)
qed

end
