(* ===== verification/Riskzilla.thy ===== *)
theory Riskzilla
  imports Catalog Bot_Controls
begin

text \<open>
  lib/riskzilla/engine.ts: the pre-bet evaluation (stake floor, payout ceiling,
  market factor, per-bucket match and bettor liability, bank limit), the
  velocity gate, and the bookkeeping of accepted and rejected bets.  The
  quotient of two NUMERIC values, which PostgreSQL rounds to a scale of its own
  choice, is the parameter \<open>numeric_div\<close>.
\<close>

section \<open>Intents and decisions\<close>

definition UNTIERED_RISK_TIER :: int where "UNTIERED_RISK_TIER = 10"

datatype risk_decision = rd_accepted | rejected_min_stake | rejected_max_payout
  | rejected_match_liability | rejected_bet_factor | rejected_bank_limit | rejected_user_blocked
  | rejected_market_factor | rejected_velocity

fun show_decision :: "risk_decision \<Rightarrow> string" where
  "show_decision rd_accepted = ''accepted''"
| "show_decision rejected_min_stake = ''rejected_min_stake''"
| "show_decision rejected_max_payout = ''rejected_max_payout''"
| "show_decision rejected_match_liability = ''rejected_match_liability''"
| "show_decision rejected_bet_factor = ''rejected_bet_factor''"
| "show_decision rejected_bank_limit = ''rejected_bank_limit''"
| "show_decision rejected_user_blocked = ''rejected_user_blocked''"
| "show_decision rejected_market_factor = ''rejected_market_factor''"
| "show_decision rejected_velocity = ''rejected_velocity''"

record intent_leg =
  il_marketId :: int
  il_outcomeId :: string
  il_matchId :: int
  il_providerMarketId :: int
  il_sportId :: int
  il_tournamentId :: int
  il_riskTier :: "int option"
  il_oddsAtPlacement :: jsnum

record risk_intent =
  ri_userId :: uuid
  ri_currency :: currency
  ri_stakeMicro :: micro
  ri_potentialPayoutMicro :: micro
  ri_legs :: "intent_leg list"
  ri_userStatus :: user_status
  ri_userRiskScore :: jsnum

record bucket_entry =
  bk_leg :: intent_leg
  bk_tier :: int
  bk_marketFactor :: jsnum
  bk_matchCap :: micro
  bk_bettorCap :: micro
  bk_liabilityBefore :: micro
  bk_liabilityAfter :: micro
  bk_bettorLiabilityBefore :: micro
  bk_bettorLiabilityAfter :: micro

record decision_meta =
  dm_effectiveTier :: int
  dm_effectiveMinBetMicro :: micro
  dm_effectiveMaxPayoutMicro :: micro
  dm_effectiveBetFactor :: string
  dm_bankLimitMicro :: micro
  dm_openLiabilityMicroBefore :: micro
  dm_userBalancesMicro :: micro
  dm_freeCapacityMicroBefore :: micro
  dm_buckets :: "bucket_entry list"
  dm_extra :: "(string \<times> json) list"

record risk_result =
  rr_decision :: risk_decision
  rr_reason :: string
  rr_meta :: decision_meta

definition emptyMeta :: "(string \<times> json) list \<Rightarrow> decision_meta" where
  "emptyMeta extra = \<lparr>dm_effectiveTier = 0, dm_effectiveMinBetMicro = 0, dm_effectiveMaxPayoutMicro = 0,
     dm_effectiveBetFactor = ''0.0000'', dm_bankLimitMicro = 0, dm_openLiabilityMicroBefore = 0,
     dm_userBalancesMicro = 0, dm_freeCapacityMicroBefore = 0, dm_buckets = [], dm_extra = extra\<rparr>"

section \<open>Caps\<close>

definition multiplyMicroByFactor :: "micro \<Rightarrow> jsnum \<Rightarrow> micro" where
  "multiplyMicroByFactor amountMicro factor =
    (if \<not> js_isFinite factor \<or> js_le factor (Fin 0) then 0
     else if js_le (Fin 1) factor then amountMicro
     else case js_BigInt (js_round (js_mul factor (Fin 10000))) of
       None \<Rightarrow> 0 | Some scaled \<Rightarrow> big_div (amountMicro * scaled) 10000)"

definition leg_tier :: "intent_leg \<Rightarrow> int" where
  "leg_tier leg = (case il_riskTier leg of None \<Rightarrow> UNTIERED_RISK_TIER | Some t \<Rightarrow> t)"

definition tierFor :: "catalog \<Rightarrow> settings_row \<Rightarrow> intent_leg \<Rightarrow> settings_row" where
  "tierFor c fallback leg =
    (case select_one (\<lambda>r. rs_tier r = leg_tier leg) (riskzilla_settings c) of Some r \<Rightarrow> r | None \<Rightarrow> fallback)"

definition factor_for :: "catalog \<Rightarrow> int \<Rightarrow> jsnum" where
  "factor_for c p = (case select_one (\<lambda>r. mf_providerMarketId r = p) (riskzilla_market_factors c) of
     None \<Rightarrow> Fin 1 | Some r \<Rightarrow> js_Number (mf_factor r))"

text \<open>The strictest floor and ceiling over the legs, and the row the ceiling comes from.\<close>

definition strictest_step ::
  "(intent_leg \<Rightarrow> settings_row) \<Rightarrow> micro \<times> micro \<times> settings_row \<Rightarrow> intent_leg \<Rightarrow> micro \<times> micro \<times> settings_row" where
  "strictest_step tier acc leg = (case acc of (minBet, maxPayout, ceil) \<Rightarrow>
     let t = tier leg in
     (if rs_minBetMicro t > minBet then rs_minBetMicro t else minBet,
      if rs_maxPayoutMicro t < maxPayout then rs_maxPayoutMicro t else maxPayout,
      if rs_maxPayoutMicro t < maxPayout then t else ceil))"

definition strictest :: "(intent_leg \<Rightarrow> settings_row) \<Rightarrow> intent_leg list \<Rightarrow> micro \<times> micro \<times> settings_row" where
  "strictest tier legs = (let t0 = tier (hd legs) in
     foldl (strictest_step tier) (rs_minBetMicro t0, rs_maxPayoutMicro t0, t0) legs)"

section \<open>Liability buckets\<close>

definition netwins :: "intent_leg list \<Rightarrow> jsnum list" where
  "netwins legs = map (\<lambda>l. js_max (Fin 0) (js_sub (il_oddsAtPlacement l) (Fin 1))) legs"

definition leg_shares_of :: "intent_leg list \<Rightarrow> jsnum list" where
  "leg_shares_of legs = (let nw = netwins legs; total = foldl js_add (Fin 0) nw in
     map (\<lambda>v. if js_le total (Fin 0) then js_div (Fin 1) (js_int (int (length legs))) else js_div v total) nw)"

record leg_share =
  ls_marketId :: int
  ls_outcomeId :: string
  ls_userId :: uuid
  ls_stakeMicro :: micro
  ls_payoutMicro :: micro
  ls_share :: rat

definition leg_nw :: "ticket_selections_row \<Rightarrow> rat" where
  "leg_nw ts = (case parse_decimal (ts_oddsAtPlacement ts) of None \<Rightarrow> 0 | Some x \<Rightarrow> max 0 (x - 1))"

definition market_in :: "catalog \<Rightarrow> int list \<Rightarrow> int \<Rightarrow> bool" where
  "market_in c matchIds i = (case select_one (\<lambda>m. mk_id m = i) (markets c) of
     None \<Rightarrow> False | Some m \<Rightarrow> mk_matchId m \<in> set matchIds)"

text \<open>The common table expression: every leg of an open USDC ticket on the matches of the bet, with
  its share of the ticket.\<close>

definition leg_shares ::
  "(rat \<Rightarrow> rat \<Rightarrow> rat) \<Rightarrow> catalog \<Rightarrow> int list \<Rightarrow> db \<Rightarrow> leg_share list" where
  "leg_shares numeric_div c matchIds s =
    concat (map (\<lambda>t.
      let sels = filter (\<lambda>ts. ts_ticketId ts = t_id t) (ticket_selections s);
          total_nw = sum_list (map leg_nw sels); leg_count = length sels in
      map (\<lambda>ts. \<lparr>ls_marketId = ts_marketId ts, ls_outcomeId = ts_outcomeId ts, ls_userId = t_userId t,
                 ls_stakeMicro = t_stakeMicro t, ls_payoutMicro = t_potentialPayoutMicro t,
                 ls_share = (if total_nw \<le> 0 then numeric_div 1 (of_nat leg_count)
                             else numeric_div (leg_nw ts) total_nw)\<rparr>)
        (filter (\<lambda>ts. market_in c matchIds (ts_marketId ts)) sels))
     (filter (\<lambda>t. t_status t \<in> {accepted, pending_delay} \<and> t_currency t = USDC) (tickets s)))"

text \<open>\<open>ROUND\<close> of a NUMERIC: half away from zero.\<close>

definition pg_round :: "rat \<Rightarrow> int" where
  "pg_round x = (if x < 0 then - \<lfloor>- x + 1 / 2\<rfloor> else \<lfloor>x + 1 / 2\<rfloor>)"

definition share_sum :: "(leg_share \<Rightarrow> micro) \<Rightarrow> (leg_share \<Rightarrow> bool) \<Rightarrow> leg_share list \<Rightarrow> micro" where
  "share_sum col P rows = pg_round (sum_list (map (\<lambda>r. of_int (col r) * ls_share r) (filter P rows)))"

text \<open>The liability of a bucket before and after a payout is added to it, over the rows of a set
  of bettors.\<close>

definition bucket_liability :: "(leg_share \<Rightarrow> bool) \<Rightarrow> intent_leg \<Rightarrow> leg_share list \<Rightarrow> micro \<Rightarrow> micro" where
  "bucket_liability who leg rows added =
    (let inMarket = (\<lambda>r. who r \<and> ls_marketId r = il_marketId leg);
         inBucket = (\<lambda>r. inMarket r \<and> ls_outcomeId r = il_outcomeId leg);
         payout = share_sum ls_payoutMicro inBucket rows; stake = share_sum ls_stakeMicro inBucket rows;
         total = share_sum ls_stakeMicro inMarket rows in
     max 0 (payout + added - total + stake))"

definition bucket_of ::
  "catalog \<Rightarrow> settings_row \<Rightarrow> risk_intent \<Rightarrow> leg_share list \<Rightarrow> intent_leg \<times> jsnum \<Rightarrow> bucket_entry" where
  "bucket_of c fallback intent rows ls = (case ls of (leg, share) \<Rightarrow>
     let tier = tierFor c fallback leg; factor = factor_for c (il_providerMarketId leg);
         matchCap = multiplyMicroByFactor (rs_matchLiabilityMicro tier) factor;
         bettorCapRaw = multiplyMicroByFactor matchCap
           (js_mul (js_Number (rs_betFactor tier)) (ri_userRiskScore intent));
         bettorCap = min bettorCapRaw matchCap;
         incremental = multiplyMicroByFactor (ri_potentialPayoutMicro intent) share;
         own = (\<lambda>r. ls_userId r = ri_userId intent) in
     \<lparr>bk_leg = leg, bk_tier = rs_tier tier, bk_marketFactor = factor, bk_matchCap = matchCap,
      bk_bettorCap = bettorCap, bk_liabilityBefore = bucket_liability (\<lambda>_. True) leg rows 0,
      bk_liabilityAfter = bucket_liability (\<lambda>_. True) leg rows incremental,
      bk_bettorLiabilityBefore = bucket_liability own leg rows 0,
      bk_bettorLiabilityAfter = bucket_liability own leg rows incremental\<rparr>)"

definition bucket_rejection :: "bucket_entry \<Rightarrow> (risk_decision \<times> string) option" where
  "bucket_rejection b =
    (if bk_liabilityAfter b > bk_matchCap b then Some (rejected_match_liability, ''match_liability_exceeded'')
     else if bk_bettorLiabilityAfter b > bk_bettorCap b
       then Some (rejected_bet_factor, ''bettor_match_share_exceeded'')
     else None)"

text \<open>The loop over the buckets: stops at the first that is exceeded, with the buckets seen so far.\<close>

fun bucket_loop :: "bucket_entry list \<Rightarrow> bucket_entry list \<times> (risk_decision \<times> string) option" where
  "bucket_loop [] = ([], None)"
| "bucket_loop (b # bs) = (case bucket_rejection b of
     Some r \<Rightarrow> ([b], Some r)
   | None \<Rightarrow> (case bucket_loop bs of (seen, r) \<Rightarrow> (b # seen, r)))"

section \<open>The evaluation\<close>

definition available_usdc :: "db \<Rightarrow> micro" where
  "available_usdc s = sum_where (\<lambda>w. w_currency w = USDC) (\<lambda>w. w_balanceMicro w - w_lockedMicro w) (wallets s)"

definition reject_with :: "decision_meta \<Rightarrow> risk_decision \<Rightarrow> string \<Rightarrow> risk_result" where
  "reject_with m d why = \<lparr>rr_decision = d, rr_reason = why, rr_meta = m\<rparr>"

definition accept_with :: "decision_meta \<Rightarrow> risk_result" where
  "accept_with m = \<lparr>rr_decision = rd_accepted, rr_reason = [], rr_meta = m\<rparr>"

definition evaluate_usdc ::
  "(rat \<Rightarrow> rat \<Rightarrow> rat) \<Rightarrow> catalog \<Rightarrow> settings_row \<Rightarrow> risk_intent \<Rightarrow> db \<Rightarrow> risk_result" where
  "evaluate_usdc numeric_div c fallback intent s =
    (let bankLimit = bankLimitMicro (bank_state s); openLiability = openLiabilityMicro (bank_state s);
         userBalances = available_usdc s; legs = ri_legs intent;
         (minBet, maxPayout, ceilingTier) = strictest (tierFor c fallback) legs;
         baseMeta = \<lparr>dm_effectiveTier = rs_tier ceilingTier, dm_effectiveMinBetMicro = minBet,
           dm_effectiveMaxPayoutMicro = maxPayout, dm_effectiveBetFactor = rs_betFactor ceilingTier,
           dm_bankLimitMicro = bankLimit, dm_openLiabilityMicroBefore = openLiability,
           dm_userBalancesMicro = userBalances,
           dm_freeCapacityMicroBefore = bankLimit - userBalances - openLiability,
           dm_buckets = [], dm_extra = []\<rparr> in
     if ri_stakeMicro intent < minBet then reject_with baseMeta rejected_min_stake ''stake_below_min''
     else if ri_potentialPayoutMicro intent > maxPayout
       then reject_with baseMeta rejected_max_payout ''payout_above_max''
     else if list_ex (\<lambda>l. js_le (factor_for c (il_providerMarketId l)) (Fin 0)) legs
       then reject_with baseMeta rejected_market_factor ''market_factor_zero''
     else
       let rows = leg_shares numeric_div c (map il_matchId legs) s;
           (seen, rejection) = bucket_loop (map (bucket_of c fallback intent rows) (zip legs (leg_shares_of legs)));
           meta = baseMeta\<lparr>dm_buckets := seen\<rparr> in
       case rejection of
         Some (d, why) \<Rightarrow> reject_with meta d why
       | None \<Rightarrow> if userBalances + openLiability + ri_potentialPayoutMicro intent > bankLimit
           then reject_with meta rejected_bank_limit ''bank_limit_exceeded''
           else accept_with meta)"

definition evaluate ::
  "(rat \<Rightarrow> rat \<Rightarrow> rat) \<Rightarrow> catalog \<Rightarrow> risk_intent \<Rightarrow> db \<Rightarrow> failure + risk_result" where
  "evaluate numeric_div c intent s =
    (if ri_currency intent \<noteq> USDC
       then Inr (accept_with (emptyMeta [(''reason'', JStr ''non_riskzilla_currency'')]))
     else if ri_userStatus intent \<noteq> active
       then Inr (reject_with (emptyMeta [(''reason'', JStr ''account_not_active'')])
                 rejected_user_blocked ''account_not_active'')
     else case select_one (\<lambda>r. rs_tier r = 0) (riskzilla_settings c) of
       None \<Rightarrow> Inl (InternalError ''riskzilla_settings_global_missing'')
     | Some fallback \<Rightarrow> Inr (evaluate_usdc numeric_div c fallback intent s))"

section \<open>Velocity\<close>

definition recent_matches :: "catalog \<Rightarrow> tickets_row list \<Rightarrow> db \<Rightarrow> int list" where
  "recent_matches c recent s = remdups (List.map_filter
     (\<lambda>ts. if list_ex (\<lambda>t. t_id t = ts_ticketId ts) recent
           then map_option mk_matchId (select_one (\<lambda>m. mk_id m = ts_marketId ts) (markets c)) else None)
     (ticket_selections s))"

definition json_of_num :: "jsnum \<Rightarrow> json" where
  "json_of_num x = (case x of Fin q \<Rightarrow> JReal q | _ \<Rightarrow> JNull)"

definition evaluateVelocity :: "catalog \<Rightarrow> millis \<Rightarrow> risk_intent \<Rightarrow> bot_controls_row \<Rightarrow> db \<Rightarrow> risk_result" where
  "evaluateVelocity c now intent controls s =
    (if \<not> bc_velocityEnabled controls
     then accept_with (emptyMeta [(''reason'', JStr ''velocity_disabled'')])
     else
       let betsCap = velocityCapFor (bc_maxBetsPerMinute controls) (ri_userRiskScore intent);
           matchesCap = velocityCapFor (bc_maxMatchesPerMinute controls) (ri_userRiskScore intent);
           recent = filter (\<lambda>t. t_userId t = ri_userId intent \<and> t_placedAt t \<ge> now - 60000) (tickets s);
           before = recent_matches c recent s;
           after = remdups (before @ map il_matchId (ri_legs intent));
           meta = emptyMeta [(''velocity'', JObj [(''betsLastMinute'', JNum (int (length recent))),
             (''betsCap'', json_of_num betsCap), (''matchesLastMinute'', JNum (int (length before))),
             (''matchesAfterThisBet'', JNum (int (length after))), (''matchesCap'', json_of_num matchesCap)])] in
       if js_lt betsCap (js_int (int (length recent) + 1))
       then reject_with meta rejected_velocity ''velocity_bets_per_minute_exceeded''
       else if js_lt matchesCap (js_int (int (length after)))
       then reject_with meta rejected_velocity ''velocity_matches_per_minute_exceeded''
       else accept_with meta)"

section \<open>Bookkeeping\<close>

definition bucket_json :: "bucket_entry \<Rightarrow> json" where
  "bucket_json b = JObj [(''matchId'', JStr (show_int (il_matchId (bk_leg b)))),
     (''marketId'', JStr (show_int (il_marketId (bk_leg b)))),
     (''providerMarketId'', JNum (il_providerMarketId (bk_leg b))),
     (''outcomeId'', JStr (il_outcomeId (bk_leg b))), (''tier'', JNum (bk_tier b)),
     (''marketFactor'', JStr (js_toFixed 3 (bk_marketFactor b))),
     (''matchLiabilityCapMicro'', JStr (show_int (bk_matchCap b))),
     (''bettorCapMicro'', JStr (show_int (bk_bettorCap b))),
     (''bucketLiabilityBeforeMicro'', JStr (show_int (bk_liabilityBefore b))),
     (''bucketLiabilityAfterMicro'', JStr (show_int (bk_liabilityAfter b))),
     (''bettorBucketLiabilityBeforeMicro'', JStr (show_int (bk_bettorLiabilityBefore b))),
     (''bettorBucketLiabilityAfterMicro'', JStr (show_int (bk_bettorLiabilityAfter b)))]"

definition meta_json :: "decision_meta \<Rightarrow> json" where
  "meta_json m = JObj ([(''effectiveTier'', JNum (dm_effectiveTier m)),
     (''effectiveMinBetMicro'', JStr (show_int (dm_effectiveMinBetMicro m))),
     (''effectiveMaxPayoutMicro'', JStr (show_int (dm_effectiveMaxPayoutMicro m))),
     (''effectiveBetFactor'', JStr (dm_effectiveBetFactor m)),
     (''bankLimitMicro'', JStr (show_int (dm_bankLimitMicro m))),
     (''openLiabilityMicroBefore'', JStr (show_int (dm_openLiabilityMicroBefore m))),
     (''userBalancesMicro'', JStr (show_int (dm_userBalancesMicro m))),
     (''freeCapacityMicroBefore'', JStr (show_int (dm_freeCapacityMicroBefore m))),
     (''buckets'', JArr (map bucket_json (dm_buckets m)))] @ dm_extra m)"

record match_context =
  mc_matchId :: "int option"
  mc_sportId :: "int option"
  mc_tournamentId :: "int option"
  mc_riskTier :: "int option"

definition event_row :: "uuid option \<Rightarrow> risk_intent \<Rightarrow> risk_result \<Rightarrow> match_context \<Rightarrow> event_log_row" where
  "event_row ticketId intent result ctx = \<lparr>ev_ticketId = ticketId, ev_userId = ri_userId intent,
     ev_decision = show_decision (rr_decision result),
     ev_reasonMessage = (if rr_decision result = rd_accepted then None else Some (rr_reason result)),
     ev_currency = ri_currency intent, ev_stakeMicro = ri_stakeMicro intent,
     ev_potentialPayoutMicro = ri_potentialPayoutMicro intent, ev_matchId = mc_matchId ctx,
     ev_sportId = mc_sportId ctx, ev_tournamentId = mc_tournamentId ctx, ev_riskTier = mc_riskTier ctx,
     ev_rsAtDecision = js_toFixed 3 (ri_userRiskScore intent),
     ev_bankAtDecisionMicro = dm_bankLimitMicro (rr_meta result), ev_decisionMeta = meta_json (rr_meta result)\<rparr>"

definition commitAccepted ::
  "millis \<Rightarrow> uuid \<Rightarrow> risk_intent \<Rightarrow> risk_result \<Rightarrow> match_context \<Rightarrow> unit dbtx" where
  "commitAccepted now ticketId intent result ctx =
    (if ri_currency intent \<noteq> USDC then returnT ()
     else thenT (update_bank (\<lambda>b. b\<lparr>openLiabilityMicro := openLiabilityMicro b + ri_potentialPayoutMicro intent,
                                    bank_updatedAt := now\<rparr>))
       (insert_event (event_row (Some ticketId) intent result ctx)))"

definition recordRejection :: "risk_intent \<Rightarrow> risk_result \<Rightarrow> match_context \<Rightarrow> unit dbtx" where
  "recordRejection intent result ctx =
    (if ri_currency intent \<noteq> USDC then returnT () else insert_event (event_row None intent result ctx))"

section \<open>What acceptance means\<close>

lemma bucket_loop_None:
  "snd (bucket_loop bs) = None \<longleftrightarrow> (\<forall>b \<in> set bs. bucket_rejection b = None)"
  by (induction bs) (auto split: option.splits prod.splits)

lemma strictest_step_bounds:
  "foldl (strictest_step tier) (a, b, x) legs = (a', b', x') \<Longrightarrow>
     a \<le> a' \<and> b' \<le> b \<and> (\<forall>l \<in> set legs. rs_minBetMicro (tier l) \<le> a' \<and> b' \<le> rs_maxPayoutMicro (tier l))"
proof (induction legs arbitrary: a b x)
  case (Cons l legs)
  obtain a1 b1 x1 where one: "strictest_step tier (a, b, x) l = (a1, b1, x1)" by (cases "strictest_step tier (a, b, x) l")
  with Cons.prems have "foldl (strictest_step tier) (a1, b1, x1) legs = (a', b', x')" by simp
  from Cons.IH [OF this] one show ?case
    by (auto simp: strictest_step_def Let_def split: if_splits)
qed simp

lemma strictest_bounds:
  assumes "strictest tier legs = (minBet, maxPayout, x)" and "l \<in> set legs"
  shows "rs_minBetMicro (tier l) \<le> minBet" and "maxPayout \<le> rs_maxPayoutMicro (tier l)"
  using strictest_step_bounds assms unfolding strictest_def Let_def by blast+

lemma evaluate_accepted:
  assumes "evaluate nd c intent s = Inr r" and "rr_decision r = rd_accepted" and "ri_currency intent = USDC"
  obtains fallback rows where "select_one (\<lambda>r. rs_tier r = 0) (riskzilla_settings c) = Some fallback"
    "ri_userStatus intent = active" "rows = leg_shares nd c (map il_matchId (ri_legs intent)) s"
    "\<forall>l \<in> set (ri_legs intent). rs_minBetMicro (tierFor c fallback l) \<le> ri_stakeMicro intent
      \<and> ri_potentialPayoutMicro intent \<le> rs_maxPayoutMicro (tierFor c fallback l)
      \<and> \<not> js_le (factor_for c (il_providerMarketId l)) (Fin 0)"
    "\<forall>ls \<in> set (zip (ri_legs intent) (leg_shares_of (ri_legs intent))).
      bucket_rejection (bucket_of c fallback intent rows ls) = None"
    "available_usdc s + openLiabilityMicro (bank_state s) + ri_potentialPayoutMicro intent
      \<le> bankLimitMicro (bank_state s)"
proof -
  from assms obtain fallback where fb: "select_one (\<lambda>r. rs_tier r = 0) (riskzilla_settings c) = Some fallback"
    and st: "ri_userStatus intent = active" and r: "r = evaluate_usdc nd c fallback intent s"
    by (auto simp: evaluate_def reject_with_def split: if_splits option.splits)
  obtain mn mx x where mm: "strictest (tierFor c fallback) (ri_legs intent) = (mn, mx, x)"
    by (cases "strictest (tierFor c fallback) (ri_legs intent)")
  let ?rows = "leg_shares nd c (map il_matchId (ri_legs intent)) s"
  let ?bs = "map (bucket_of c fallback intent ?rows) (zip (ri_legs intent) (leg_shares_of (ri_legs intent)))"
  obtain seen rej where bl: "bucket_loop ?bs = (seen, rej)" by (cases "bucket_loop ?bs")
  have acc: "rr_decision (reject_with m d w) = d" "rr_decision (accept_with m) = rd_accepted" for m d w
    by (simp_all add: reject_with_def accept_with_def)
  have rej: "rej = None \<or> rej = Some (rejected_match_liability, ''match_liability_exceeded'')
      \<or> rej = Some (rejected_bet_factor, ''bettor_match_share_exceeded'')"
  proof -
    have "snd (bucket_loop bs) = None \<or> (\<exists>b. snd (bucket_loop bs) = bucket_rejection b)" for bs
    proof (induction bs)
      case (Cons b bs)
      then show ?case by (cases "bucket_rejection b") (auto split: prod.splits intro: exI [of _ b])
    qed simp
    then show ?thesis using bl by (metis bucket_rejection_def snd_conv)
  qed
  have all: "\<not> ri_stakeMicro intent < mn" "\<not> ri_potentialPayoutMicro intent > mx"
    "\<not> list_ex (\<lambda>l. js_le (factor_for c (il_providerMarketId l)) (Fin 0)) (ri_legs intent)" "rej = None"
    "available_usdc s + openLiabilityMicro (bank_state s) + ri_potentialPayoutMicro intent
      \<le> bankLimitMicro (bank_state s)"
    using assms(2) rej unfolding r evaluate_usdc_def Let_def mm bl
    by (auto simp: acc split: if_splits option.splits)
  show thesis
  proof (rule that [OF fb st refl _ _ all(5)])
    show "\<forall>l \<in> set (ri_legs intent). rs_minBetMicro (tierFor c fallback l) \<le> ri_stakeMicro intent
      \<and> ri_potentialPayoutMicro intent \<le> rs_maxPayoutMicro (tierFor c fallback l)
      \<and> \<not> js_le (factor_for c (il_providerMarketId l)) (Fin 0)"
      using strictest_bounds [OF mm] all(1-3) by (fastforce simp: list_ex_iff)
    show "\<forall>ls \<in> set (zip (ri_legs intent) (leg_shares_of (ri_legs intent))).
      bucket_rejection (bucket_of c fallback intent ?rows ls) = None"
      using bucket_loop_None [of ?bs] bl all(4) by auto
  qed
qed

lemma evaluate_oz: "ri_currency intent \<noteq> USDC \<Longrightarrow> evaluate nd c intent s =
    Inr (accept_with (emptyMeta [(''reason'', JStr ''non_riskzilla_currency'')]))"
  by (simp add: evaluate_def)

end
