(* ===== verification/Bets_Pricing.thy ===== *)
theory Bets_Pricing
  imports Riskzilla Bettor_Odds Products Deposits "HOL-Library.List_Lexorder" "HOL-Library.Char_ord"
begin

text \<open>
  The pure half of bet placement (modules/bets/service.ts \<open>place\<close>): what a
  request asks for, the checks and the authoritative price of every leg, and
  the payout and frozen metadata of each product.  The answer of the OBB
  service of Oddin to a session query and \<open>Math.pow\<close> are parameters of the
  environment, as is the quotient of two NUMERIC values.
\<close>

section \<open>Requests\<close>

record bet_selection =
  bs_marketId :: string
  bs_outcomeId :: string
  bs_odds :: string
  bs_zillaFlashOfferId :: "uuid option"
  bs_boostedOddsRuleId :: "uuid option"

record bet_builder_block =
  bb_sessionId :: string
  bb_expectedOddsX10000 :: int
  bb_selectionIds :: "string list"

record place_request =
  pr_stakeMicro :: string
  pr_idempotencyKey :: string
  pr_currency :: "string option"
  pr_betType :: "bet_type option"
  pr_selections :: "bet_selection list"
  pr_betBuilder :: "bet_builder_block option"
  pr_acceptOddsChanges :: "bool option"

record place_context =
  pc_userId :: uuid
  pc_ip :: "string option"
  pc_userAgent :: "string option"
  pc_zillaFlashLiveBoost :: bool
  pc_quoteIssuedAtMs :: "millis option"

text \<open>What a session query comes back with: a status, the \<open>ObbError\<close> of lib/obb-client.ts, or
  another exception.\<close>

datatype obb_answer = obb_status string | obb_error string | obb_exception string

record bet_env =
  be_catalog :: catalog
  be_numeric_div :: "rat \<Rightarrow> rat \<Rightarrow> rat"
  be_math_pow :: "jsnum \<Rightarrow> jsnum \<Rightarrow> jsnum"
  be_obb :: "(string \<Rightarrow> string list \<Rightarrow> int \<Rightarrow> obb_answer) option"

section \<open>What the request asks for\<close>

definition DEFAULT_ODDS_DRIFT_TOLERANCE :: jsnum where
  "DEFAULT_ODDS_DRIFT_TOLERANCE = js_fin (5 / 100)"

definition parseBigIntStrict :: "string \<Rightarrow> string \<Rightarrow> failure + int" where
  "parseBigIntStrict raw field =
    (if is_digits raw then Inr (big_int raw) else Inl (bad (field @ ''_must_be_positive_integer'')))"

definition bet_type_of :: "place_request \<Rightarrow> bet_type" where
  "bet_type_of req = (case pr_betType req of Some t \<Rightarrow> t
     | None \<Rightarrow> if length (pr_selections req) > 1 then combo else single)"

definition is_product :: "bet_type \<Rightarrow> bool" where
  "is_product t \<longleftrightarrow> t = tiple \<or> t = tippot"

definition bet_builder_gate :: "bet_env \<Rightarrow> place_request \<Rightarrow> failure + unit" where
  "bet_builder_gate env req =
    (if be_obb env = None then Inl (ServiceUnavailableError ''betbuilder_disabled'' ''betbuilder_disabled'')
     else case pr_betBuilder req of
       None \<Rightarrow> Inl (bad ''betbuilder_block_required'')
     | Some b \<Rightarrow> if length (bb_selectionIds b) \<noteq> length (pr_selections req)
         then Inl (bad ''betbuilder_selection_mismatch'') else Inr ())"

definition stake_and_currency :: "place_request \<Rightarrow> failure + micro \<times> currency" where
  "stake_and_currency req = (case parseBigIntStrict (pr_stakeMicro req) ''stakeMicro'' of
     Inl e \<Rightarrow> Inl e
   | Inr stake \<Rightarrow> if stake \<le> 0 then Inl (bad ''stake_must_be_positive'')
       else Inr (stake, case Option.bind (pr_currency req) isCurrency of
                          Some c \<Rightarrow> c | None \<Rightarrow> DEFAULT_CURRENCY))"

definition resolve_bet :: "bet_env \<Rightarrow> place_request \<Rightarrow> failure + bet_type \<times> micro \<times> currency" where
  "resolve_bet env req =
    (let betType = bet_type_of req; n = length (pr_selections req) in
     if n = 0 then Inl (bad ''no_selections'')
     else if betType = single \<and> n \<noteq> 1 then Inl (bad ''single_requires_one_leg'')
     else if (betType = combo \<or> is_product betType \<or> betType = betbuilder) \<and> \<not> n > 1
       then Inl (bad ''multi_leg_required'')
     else if betType = system then Inl (bad ''bet_type_unsupported'')
     else case (if betType = betbuilder then bet_builder_gate env req else Inr ()) of
       Inl e \<Rightarrow> Inl e
     | Inr _ \<Rightarrow>
         if n > 1 \<and> \<not> distinct (map bs_marketId (pr_selections req)) then Inl (bad ''duplicate_market'')
         else (case stake_and_currency req of
           Inl e \<Rightarrow> Inl e | Inr (stake, cur) \<Rightarrow> Inr (betType, stake, cur)))"

section \<open>The legs\<close>

text \<open>The market of a leg by the text of its id, through the inner joins up to the sport.\<close>

definition bet_market :: "catalog \<Rightarrow> string \<Rightarrow> market_info option" where
  "bet_market c t = Option.bind (select_one (\<lambda>mk. show_int (mk_id mk) = t) (markets c)) (\<lambda>mk.
     Option.bind (join_market c mk) (\<lambda>m. if mi_sportId m \<in> set (map sport_id (sports c)) then Some m else None))"

record priced_leg =
  pl_sel :: bet_selection
  pl_market :: market_info
  pl_outcome :: market_outcomes_row
  pl_num :: jsnum
  pl_str :: string
  pl_probability :: jsnum

text \<open>What the loop over the legs remembers of the earlier ones.\<close>

record leg_scan =
  lc_seenMatchIds :: "int list"
  lc_betBuilderMatchId :: "int option"

definition market_gate ::
  "catalog \<Rightarrow> bet_type \<Rightarrow> bool \<Rightarrow> leg_scan \<Rightarrow> bet_selection \<Rightarrow> failure + market_info \<times> leg_scan" where
  "market_gate c betType multi scan sel = (case bet_market c (bs_marketId sel) of
     None \<Rightarrow> Inl (bad ''market_not_found'')
   | Some m \<Rightarrow>
       if mi_marketStatus m \<noteq> 1 then Inl (bad ''market_not_active'')
       else if mi_matchStatus m \<noteq> ms_not_started \<and> mi_matchStatus m \<noteq> ms_live
         then Inl (bad ''match_not_open'')
       else if multi \<and> betType \<noteq> betbuilder \<and> mi_matchId m \<in> set (lc_seenMatchIds scan)
         then Inl (bad ''combo_same_match'')
       else if betType = betbuilder \<and> lc_betBuilderMatchId scan \<noteq> None
           \<and> lc_betBuilderMatchId scan \<noteq> Some (mi_matchId m)
         then Inl (bad ''betbuilder_cross_match'')
       else Inr (m, \<lparr>lc_seenMatchIds = (if multi \<and> betType \<noteq> betbuilder
                        then mi_matchId m # lc_seenMatchIds scan else lc_seenMatchIds scan),
                     lc_betBuilderMatchId = (if betType = betbuilder then Some (mi_matchId m)
                        else lc_betBuilderMatchId scan)\<rparr>))"

text \<open>The outcome and its published price, with the submitted odds as a number.\<close>

definition outcome_gate ::
  "catalog \<Rightarrow> market_info \<Rightarrow> bet_selection \<Rightarrow> failure + market_outcomes_row \<times> string" where
  "outcome_gate c m sel = (case find_outcome c (mi_marketId m) (bs_outcomeId sel) of
     None \<Rightarrow> Inl (bad ''outcome_not_found'')
   | Some o' \<Rightarrow>
       if \<not> mo_active o' then Inl (bad ''outcome_not_active'')
       else if mo_result o' \<noteq> None then Inl (bad ''outcome_already_settled'')
       else (case mo_publishedOdds o' of
         None \<Rightarrow> Inl (bad ''outcome_no_price'')
       | Some published \<Rightarrow>
           if published = [] then Inl (bad ''outcome_no_price'')
           else if \<not> js_isFinite (js_Number published) \<or> \<not> js_isFinite (js_Number (bs_odds sel))
             then Inl (bad ''odds_parse_error'')
           else if js_le (js_Number published) (Fin 0) \<or> js_le (js_Number (bs_odds sel)) (Fin 0)
             then Inl (bad ''outcome_no_price'')
           else Inr (o', published)))"

definition truthy :: "string option \<Rightarrow> bool" where
  "truthy t \<longleftrightarrow> t \<noteq> None \<and> t \<noteq> Some []"

text \<open>The price the ticket is frozen at: boosted legs carry the value the route has overwritten,
  every other leg the published price as adjusted for the bettor.\<close>

definition authoritative_price ::
  "int cascade option \<Rightarrow> market_info \<Rightarrow> market_outcomes_row \<Rightarrow> string \<Rightarrow> bet_selection \<Rightarrow> jsnum \<times> string" where
  "authoritative_price bettorCascade m o' published sel =
    (if truthy (bs_zillaFlashOfferId sel) \<or> truthy (bs_boostedOddsRuleId sel)
     then (js_Number (bs_odds sel), bs_odds sel)
     else case bettorCascade of
       None \<Rightarrow> (js_Number published, published)
     | Some cs \<Rightarrow>
         if cs_empty cs then (js_Number published, published)
         else let bp = resolveBettorAdjustmentBp cs (Some (mi_matchId m)) (Some (mi_tournamentId m))
                         (Some (mi_sportId m)) in
           (case applyBettorAdjustment (Some published) (mo_probability o') bp of
             None \<Rightarrow> (js_Number published, published)
           | Some adj \<Rightarrow> if js_isFinite (js_Number adj) \<and> js_lt (Fin 0) (js_Number adj)
               then (js_Number adj, adj) else (js_Number published, published)))"

definition drift :: "jsnum \<Rightarrow> jsnum \<Rightarrow> jsnum" where
  "drift authNum submittedOdds = js_div (js_abs (js_sub authNum submittedOdds)) submittedOdds"

definition product_probability :: "market_outcomes_row \<Rightarrow> failure + jsnum" where
  "product_probability o' =
    (if \<not> truthy (mo_probability o') then Inl (bad ''outcome_no_probability'')
     else (case parseProbability (the (mo_probability o')) of
       Inl e \<Rightarrow> Inl (bad ''outcome_probability_invalid'')
     | Inr p \<Rightarrow> if in_unit p then Inr p else Inl (bad ''outcome_probability_extreme'')))"

definition price_leg ::
  "catalog \<Rightarrow> bet_type \<Rightarrow> bool \<Rightarrow> int cascade option \<Rightarrow> leg_scan \<Rightarrow> bet_selection \<Rightarrow>
   failure + priced_leg \<times> leg_scan" where
  "price_leg c betType multi bettorCascade scan sel =
    (case market_gate c betType multi scan sel of
       Inl e \<Rightarrow> Inl e
     | Inr (m, scan') \<Rightarrow> (case outcome_gate c m sel of
         Inl e \<Rightarrow> Inl e
       | Inr (o', published) \<Rightarrow>
           let (authNum, authStr) = authoritative_price bettorCascade m o' published sel in
           if js_le authNum (Fin 1) then Inl (bad ''outcome_odds_too_low'')
           else if betType \<noteq> betbuilder
               \<and> js_lt DEFAULT_ODDS_DRIFT_TOLERANCE (drift authNum (js_Number (bs_odds sel)))
             then Inl (bad ''odds_drift_exceeded'')
           else (case (if is_product betType then product_probability o' else Inr (Fin 0)) of
             Inl e \<Rightarrow> Inl e
           | Inr p \<Rightarrow> Inr (\<lparr>pl_sel = sel, pl_market = m, pl_outcome = o', pl_num = authNum,
                              pl_str = authStr, pl_probability = p\<rparr>, scan'))))"

fun price_legs ::
  "catalog \<Rightarrow> bet_type \<Rightarrow> bool \<Rightarrow> int cascade option \<Rightarrow> leg_scan \<Rightarrow> bet_selection list \<Rightarrow>
   failure + priced_leg list" where
  "price_legs c betType multi cs scan [] = Inr []"
| "price_legs c betType multi cs scan (sel # sels) =
    (case price_leg c betType multi cs scan sel of
       Inl e \<Rightarrow> Inl e
     | Inr (leg, scan') \<Rightarrow> (case price_legs c betType multi cs scan' sels of
         Inl e \<Rightarrow> Inl e | Inr legs \<Rightarrow> Inr (leg # legs)))"

definition scan_start :: leg_scan where
  "scan_start = \<lparr>lc_seenMatchIds = [], lc_betBuilderMatchId = None\<rparr>"

text \<open>The product configuration and the leg-count limits.\<close>

definition product_name :: "bet_type \<Rightarrow> string" where
  "product_name t = (if t = tiple then ''tiple'' else ''tippot'')"

definition product_gate :: "catalog \<Rightarrow> bet_type \<Rightarrow> nat \<Rightarrow> failure + bet_product_row option" where
  "product_gate c betType n =
    (if is_product betType then
       case select_one (\<lambda>r. bp_productName r = product_name betType) (bet_product_config c) of
         None \<Rightarrow> Inl (bad ''bet_product_unconfigured'')
       | Some cfg \<Rightarrow>
           if \<not> bp_enabled cfg then Inl (bad ''bet_product_disabled'')
           else if int n < bp_minLegs cfg then Inl (bad ''too_few_legs'')
           else if int n > bp_maxLegs cfg then Inl (bad ''too_many_legs'')
           else Inr (Some cfg)
     else if n > 20 then Inl (bad ''too_many_legs'')
     else Inr None)"

definition bettor_cascade :: "catalog \<Rightarrow> bet_type \<Rightarrow> uuid \<Rightarrow> int cascade option" where
  "bettor_cascade c betType userId =
    (if \<not> is_product betType \<and> betType \<noteq> betbuilder
     then Some (loadBettorAdjustmentCascade c userId) else None)"

section \<open>Payouts\<close>

definition product_odds :: "priced_leg list \<Rightarrow> jsnum" where
  "product_odds legs = foldl js_mul (Fin 1) (map pl_num legs)"

text \<open>\<open>Math.round(((1 + base) * Math.pow(1 + per_leg, n) - 1) * 10000)\<close>; an infinite value is out of
  the range the products accept.\<close>

definition effectiveMarginBp :: "bet_env \<Rightarrow> bet_product_row \<Rightarrow> nat \<Rightarrow> failure + int" where
  "effectiveMarginBp env cfg n =
    (let base = js_add (Fin 1) (js_div (js_int (bp_marginBp cfg)) (Fin 10000));
         perLeg = js_add (Fin 1) (js_div (js_int (bp_marginBpPerLeg cfg)) (Fin 10000));
         e = js_round (js_mul (js_sub (js_mul base (be_math_pow env perLeg (js_int (int n)))) (Fin 1)) (Fin 10000)) in
     case js_BigInt e of Some bp \<Rightarrow> Inr bp | None \<Rightarrow> Inl (InternalError ''margin_bp out of range''))"

definition tiple_payout :: "micro \<Rightarrow> priced_leg list \<Rightarrow> int \<Rightarrow> failure + micro \<times> json option" where
  "tiple_payout stake legs marginBp = (case priceTiple (map pl_probability legs) marginBp of
     Inl e \<Rightarrow> Inl e
   | Inr quote \<Rightarrow>
       if js_lt (js_Number (offeredOdds quote)) (js_fin (101 / 100)) then Inl (bad ''tiple_odds_too_low'')
       else (case multiplyMicroByOddsText stake (offeredOdds quote) of
         Inl e \<Rightarrow> Inl e
       | Inr payout \<Rightarrow> Inr (payout, Some (JObj [(''product'', JStr ''tiple''), (''n'', JNum (int (tiple_n quote))),
           (''marginBp'', JNum (tiple_marginBp quote)),
           (''fairProbability'', JStr (js_toFixed 6 (fairProbability quote)))]))))"

definition tier_json :: "tippot_tier \<Rightarrow> json" where
  "tier_json t = JObj [(''k'', JNum (int (tier_k t))), (''pAtLeastK'', JStr (pAtLeastK t)),
     (''multiplier'', JStr (tier_multiplier t))]"

definition tippot_payout :: "micro \<Rightarrow> priced_leg list \<Rightarrow> int \<Rightarrow> failure + micro \<times> json option" where
  "tippot_payout stake legs marginBp = (case priceTippot (map pl_probability legs) marginBp of
     Inl e \<Rightarrow> Inl e
   | Inr quote \<Rightarrow> (case multiplyMicroByOddsText stake (tier_multiplier (last (tiers quote))) of
       Inl e \<Rightarrow> Inl e
     | Inr payout \<Rightarrow> Inr (payout, Some (JObj [(''product'', JStr ''tippot''), (''n'', JNum (int (tippot_n quote))),
         (''marginBp'', JNum (tippot_marginBp quote)), (''tiers'', JArr (map tier_json (tiers quote)))]))))"

text \<open>modules/betbuilder/selection-id.ts.\<close>

definition buildSelectionId :: "string \<Rightarrow> int \<Rightarrow> string \<Rightarrow> (string \<times> string) list \<Rightarrow> string" where
  "buildSelectionId eventUrn providerMarketId outcomeId specifiers =
    (let keys = sort (map fst specifiers);
         qs = join_with ''|'' (map (\<lambda>k. k @ ''='' @ the (map_of specifiers k)) keys);
         base = eventUrn @ ''/'' @ show_int providerMarketId @ ''/'' @ outcomeId in
     if qs = [] then base else base @ ''?'' @ qs)"

definition leg_selection_id :: "string \<Rightarrow> priced_leg \<Rightarrow> string" where
  "leg_selection_id eventUrn leg = buildSelectionId eventUrn (mi_providerMarketId (pl_market leg))
     (bs_outcomeId (pl_sel leg)) (mi_specifiersJson (pl_market leg))"

definition match_urn :: "catalog \<Rightarrow> int \<Rightarrow> string" where
  "match_urn c i = (case select_one (\<lambda>m. m_id m = i) (matches c) of None \<Rightarrow> [] | Some m \<Rightarrow> m_providerUrn m)"

text \<open>A builder pays the session odds, after the session is bound to the legs and found valid.\<close>

definition bet_builder_payout ::
  "bet_env \<Rightarrow> place_request \<Rightarrow> micro \<Rightarrow> priced_leg list \<Rightarrow> failure + micro \<times> json option" where
  "bet_builder_payout env req stake legs = (case (be_obb env, pr_betBuilder req) of
     (Some sessionInfo, Some b) \<Rightarrow>
       let eventUrn = match_urn (be_catalog env) (mi_matchId (pl_market (hd legs))) in
       if eventUrn = [] then Inl (bad ''match_not_open'')
       else if sort (map (leg_selection_id eventUrn) legs) \<noteq> sort (bb_selectionIds b)
         then Inl (bad ''betbuilder_selection_mismatch'')
       else (case sessionInfo (bb_sessionId b) (bb_selectionIds b) (bb_expectedOddsX10000 b) of
         obb_error msg \<Rightarrow> Inl (ServiceUnavailableError ''betbuilder_unavailable'' msg)
       | obb_exception d \<Rightarrow> Inl (InternalError d)
       | obb_status st \<Rightarrow>
           if st \<noteq> ''valid'' then Inl (bad ''betbuilder_session_invalid'')
           else let decimalOdds = js_div (js_int (bb_expectedOddsX10000 b)) (Fin 10000) in
             if \<not> js_isFinite decimalOdds \<or> js_lt decimalOdds (js_fin (101 / 100))
             then Inl (bad ''betbuilder_odds_too_low'')
             else (case multiplyMicroByOdds stake decimalOdds of
               Inl e \<Rightarrow> Inl e
             | Inr payout \<Rightarrow> Inr (payout, Some (JObj [(''product'', JStr ''betbuilder''),
                 (''sessionId'', JStr (bb_sessionId b)), (''sessionOddsMicro'', JStr (show_int payout)),
                 (''oddsX10000'', JNum (bb_expectedOddsX10000 b)), (''eventUrn'', JStr eventUrn),
                 (''selectionIds'', JArr (map JStr (bb_selectionIds b)))]))))
   | _ \<Rightarrow> Inl (bad ''betbuilder_block_required''))"

definition live_boost_config :: "catalog \<Rightarrow> boost_config" where
  "live_boost_config c = (case combi_boost_config c of
     None \<Rightarrow> COMBI_BOOST_DEFAULT_CONFIG
   | Some r \<Rightarrow> \<lparr>boost_enabled = cb_enabled r, minOdds = js_Number (cb_minOdds r),
       boost_tiers = map (\<lambda>(n, t). \<lparr>minLegs = n, boost_multiplier = js_Number t,
         boost_label = ''x'' @ js_toFixed 2 (js_Number t)\<rparr>) (cb_tiers r)\<rparr>)"

definition boost_hidden :: "catalog \<Rightarrow> uuid \<Rightarrow> priced_leg list \<Rightarrow> bool" where
  "boost_hidden c userId legs = (let cascades = loadPromoVisibilityCascades c userId in
     \<not> cs_empty (cascades combi_boost) \<and> list_ex (\<lambda>l. \<not> resolveVisible cascades combi_boost
       (Some (mi_matchId (pl_market l))) (Some (mi_tournamentId (pl_market l)))
       (Some (mi_sportId (pl_market l)))) legs)"

definition combi_multiplier :: "catalog \<Rightarrow> uuid \<Rightarrow> bet_type \<Rightarrow> priced_leg list \<Rightarrow> jsnum \<times> json option" where
  "combi_multiplier c userId betType legs =
    (if betType \<noteq> combo then (Fin 1, None)
     else let boost = computeCombiBoost (map pl_str legs) (live_boost_config c);
              mult = (if js_lt (Fin 1) (multiplier boost) \<and> boost_hidden c userId legs then Fin 1
                      else multiplier boost) in
       (mult, if js_lt (Fin 1) mult
              then Some (JObj [(''product'', JStr ''combo''), (''boostMultiplier'', JStr (js_toFixed 2 mult)),
                (''boostEligibleLegCount'', JNum (eligibleLegCount boost))]) else None))"

definition odds_payout ::
  "catalog \<Rightarrow> uuid \<Rightarrow> bet_type \<Rightarrow> micro \<Rightarrow> priced_leg list \<Rightarrow> failure + micro \<times> json option" where
  "odds_payout c userId betType stake legs =
    (let (mult, meta) = combi_multiplier c userId betType legs in
     case multiplyMicroByOdds stake (js_mul (product_odds legs) mult) of
       Inl e \<Rightarrow> Inl e | Inr payout \<Rightarrow> Inr (payout, meta))"

definition price_ticket ::
  "bet_env \<Rightarrow> uuid \<Rightarrow> place_request \<Rightarrow> bet_type \<Rightarrow> micro \<Rightarrow> bet_product_row option \<Rightarrow> priced_leg list \<Rightarrow>
   failure + micro \<times> json option" where
  "price_ticket env userId req betType stake cfg legs =
    (case (case cfg of None \<Rightarrow> Inr 0 | Some r \<Rightarrow> effectiveMarginBp env r (length (pr_selections req))) of
       Inl e \<Rightarrow> Inl e
     | Inr marginBp \<Rightarrow>
         if betType = tiple then tiple_payout stake legs marginBp
         else if betType = tippot then tippot_payout stake legs marginBp
         else if betType = betbuilder then bet_builder_payout env req stake legs
         else odds_payout (be_catalog env) userId betType stake legs)"

end
