(* ===== verification/Bets_Service.thy ===== *)
theory Bets_Service
  imports Bets_Pricing
begin

text \<open>
  Bet placement as it touches the database (modules/bets/service.ts \<open>place\<close>):
  the idempotency check, the bettor and the wallet, the pricing, the velocity
  and risk gates, the acceptance delay, and the writes.  A risk rejection rolls
  the transaction back and is logged afterwards in a transaction of its own.
  The user-channel message, the bet-delay notification and the hydrated summary
  of the answer are not modelled: the answer is the ticket row.
\<close>

section \<open>The bettor\<close>

definition ticket_by_key :: "string \<Rightarrow> db \<Rightarrow> tickets_row option" where
  "ticket_by_key key s = select_one (\<lambda>t. t_idempotencyKey t = key) (tickets s)"

definition bet_bettor_checks :: "uuid \<Rightarrow> micro \<Rightarrow> currency \<Rightarrow> users_row dbtx" where
  "bet_bettor_checks userId stake cur =
    bindT (getT (\<lambda>s. select_one (\<lambda>r. u_id r = userId) (users s))) (\<lambda>u.
    bindT (someOr (UnauthorizedError ''Unauthorized'' ''unauthorized'') u) (\<lambda>user.
    thenT (throwIf (u_status user \<noteq> active) (ForbiddenError ''account_not_active'' ''account_not_active'')) (
    bindT (getT (\<lambda>s. select_one (\<lambda>w. wallet_key w = (userId, cur)) (wallets s))) (\<lambda>w.
    bindT (someOr (NotFoundError ''wallet_not_found'' ''wallet_not_found'') w) (\<lambda>wallet.
    thenT (throwIf (stake > w_balanceMicro wallet - w_lockedMicro wallet) (bad ''insufficient_balance'')) (
    thenT (throwIf (u_globalLimitMicro user > 0 \<and> stake > u_globalLimitMicro user)
      (bad ''exceeds_global_limit'')) (
    returnT user)))))))"

section \<open>The price and the risk intent\<close>

definition price_bet ::
  "bet_env \<Rightarrow> uuid \<Rightarrow> place_request \<Rightarrow> bet_type \<Rightarrow> micro \<Rightarrow> failure + priced_leg list \<times> micro \<times> json option" where
  "price_bet env userId req betType stake =
    (let c = be_catalog env; n = length (pr_selections req) in
     case product_gate c betType n of
       Inl e \<Rightarrow> Inl e
     | Inr cfg \<Rightarrow>
         (case price_legs c betType (n > 1) (bettor_cascade c betType userId) scan_start (pr_selections req) of
            Inl e \<Rightarrow> Inl e
          | Inr legs \<Rightarrow>
              (case price_ticket env userId req betType stake cfg legs of
                 Inl e \<Rightarrow> Inl e | Inr (payout, meta) \<Rightarrow> Inr (legs, payout, meta))))"

definition leg_intent :: "priced_leg \<Rightarrow> intent_leg" where
  "leg_intent l = \<lparr>il_marketId = mi_marketId (pl_market l), il_outcomeId = bs_outcomeId (pl_sel l),
     il_matchId = mi_matchId (pl_market l), il_providerMarketId = mi_providerMarketId (pl_market l),
     il_sportId = mi_sportId (pl_market l), il_tournamentId = mi_tournamentId (pl_market l),
     il_riskTier = mi_riskTier (pl_market l), il_oddsAtPlacement = pl_num l\<rparr>"

definition bet_intent :: "users_row \<Rightarrow> currency \<Rightarrow> micro \<Rightarrow> micro \<Rightarrow> priced_leg list \<Rightarrow> risk_intent" where
  "bet_intent user cur stake payout legs = \<lparr>ri_userId = u_id user, ri_currency = cur,
     ri_stakeMicro = stake, ri_potentialPayoutMicro = payout, ri_legs = map leg_intent legs,
     ri_userStatus = u_status user, ri_userRiskScore = js_Number (u_riskScore user)\<rparr>"

definition bet_match_context :: "priced_leg list \<Rightarrow> match_context" where
  "bet_match_context legs = (let m = pl_market (hd legs) in
     \<lparr>mc_matchId = Some (mi_matchId m), mc_sportId = Some (mi_sportId m),
      mc_tournamentId = Some (mi_tournamentId m), mc_riskTier = mi_riskTier m\<rparr>)"

text \<open>Velocity for every currency, then the engine, whose own failure refuses the bet.\<close>

definition risk_gate ::
  "bet_env \<Rightarrow> millis \<Rightarrow> risk_intent \<Rightarrow> (risk_result + risk_result) dbtx" where
  "risk_gate env now intent =
    bindT loadBotControls (\<lambda>controls.
    bindT (getT (evaluateVelocity (be_catalog env) now intent controls)) (\<lambda>velocity.
    if rr_decision velocity \<noteq> rd_accepted then returnT (Inl velocity)
    else bindT (getT (evaluate (be_numeric_div env) (be_catalog env) intent)) (\<lambda>r. case r of
        Inl e \<Rightarrow> throwT (bad ''riskzilla_engine_error'')
      | Inr result \<Rightarrow> returnT (if rr_decision result \<noteq> rd_accepted then Inl result else Inr result))))"

section \<open>The acceptance delay\<close>

definition live_legs :: "priced_leg list \<Rightarrow> market_info list" where
  "live_legs legs = filter (\<lambda>m. mi_matchStatus m = ms_live) (map pl_market legs)"

definition delay_row_applies :: "market_info list \<Rightarrow> live_delay_row \<Rightarrow> bool" where
  "delay_row_applies ms r = (let sc = ld_scope r in case sr_scope sc of
     scope_global \<Rightarrow> True
   | scope_sport \<Rightarrow> sr_sportId sc \<in> set (map (Some \<circ> mi_sportId) ms)
   | scope_tournament \<Rightarrow> sr_tournamentId sc \<in> set (map (Some \<circ> mi_tournamentId) ms)
   | scope_match \<Rightarrow> sr_matchId sc \<in> set (map (Some \<circ> mi_matchId) ms))"

definition leg_delay :: "int cascade \<Rightarrow> market_info \<Rightarrow> int" where
  "leg_delay cs m =
     resolve_cascade 0 cs (Some (mi_matchId m)) (Some (mi_tournamentId m)) (Some (mi_sportId m))"

definition live_cascade_delay :: "catalog \<Rightarrow> market_info list \<Rightarrow> int" where
  "live_cascade_delay c ms =
    (let cs = load_cascade (map (\<lambda>r. (ld_scope r, ld_delaySeconds r))
           (filter (delay_row_applies ms) (riskzilla_live_delay_config c))) in
     foldl (\<lambda>acc m. if leg_delay cs m > acc then leg_delay cs m else acc) 0 ms)"

definition effective_delay :: "catalog \<Rightarrow> users_row \<Rightarrow> bool \<Rightarrow> priced_leg list \<Rightarrow> int" where
  "effective_delay c user zillaFlashLiveBoost legs =
    (let ms = live_legs legs in
     if ms = [] then 0
     else let d = max (u_betDelaySeconds user) (live_cascade_delay c ms) in
       if zillaFlashLiveBoost then max 0 (d - 2) else d)"

section \<open>The writes\<close>

definition new_ticket ::
  "millis \<Rightarrow> uuid \<Rightarrow> place_request \<Rightarrow> place_context \<Rightarrow> bet_type \<Rightarrow> micro \<Rightarrow> currency \<Rightarrow> micro \<Rightarrow> json option \<Rightarrow>
   int \<Rightarrow> tickets_row" where
  "new_ticket now newId req ctx betType stake cur payout meta delay =
    (let delayed = delay > 0 in
     \<lparr>t_id = newId, t_userId = pc_userId ctx,
      t_status = (if delayed then pending_delay else accepted), t_betType = betType, t_currency = cur,
      t_stakeMicro = stake, t_potentialPayoutMicro = payout, t_actualPayoutMicro = None,
      t_idempotencyKey = pr_idempotencyKey req,
      t_notBeforeTs = (if delayed then Some (now + delay * 1000) else None), t_rejectReason = None,
      t_placedAt = now, t_acceptedAt = (if delayed then None else Some now), t_settledAt = None,
      t_clientIp = pc_ip ctx, t_userAgent = pc_userAgent ctx, t_betMeta = meta,
      t_acceptOddsChanges = (pr_acceptOddsChanges req = Some True \<and> (betType = single \<or> betType = combo)),
      t_quoteToPlaceMs = map_option (\<lambda>q. max 0 (now - q)) (pc_quoteIssuedAtMs ctx)\<rparr>)"

definition selection_row :: "uuid \<Rightarrow> priced_leg \<Rightarrow> ticket_selections_row" where
  "selection_row ticketId l = \<lparr>ts_ticketId = ticketId, ts_marketId = mi_marketId (pl_market l),
     ts_outcomeId = bs_outcomeId (pl_sel l), ts_oddsAtPlacement = pl_str l,
     ts_probabilityAtPlacement = mo_probability (pl_outcome l),
     ts_boostRuleId = bs_boostedOddsRuleId (pl_sel l), ts_result = None, ts_voidFactor = None,
     ts_settledAt = None\<rparr>"

definition bet_stake_row :: "tickets_row \<Rightarrow> wallet_ledger_row" where
  "bet_stake_row t = \<lparr>l_userId = t_userId t, l_currency = t_currency t, l_deltaMicro = - t_stakeMicro t,
     l_type = bet_stake, l_refType = Some ''ticket'', l_refId = Some (t_id t), l_txHash = None, l_memo = None\<rparr>"

definition bet_commit ::
  "millis \<Rightarrow> tickets_row \<Rightarrow> priced_leg list \<Rightarrow> risk_intent \<Rightarrow> risk_result \<Rightarrow> match_context \<Rightarrow> unit dbtx" where
  "bet_commit now t legs intent result ctx =
    thenT (insert_ticket t) (
    thenT (insert_selections (map (selection_row (t_id t)) legs)) (
    thenT (update_wallets (\<lambda>w. wallet_key w = (t_userId t, t_currency t)) (lock_add (t_stakeMicro t) now)) (
    thenT (insert_ledger (bet_stake_row t)) (
    commitAccepted now (t_id t) intent result ctx))))"

section \<open>Placement\<close>

text \<open>How the transaction ends: a ticket of its own, the ticket the key already made, or a risk
  rejection, which is thrown and rolls back.\<close>

datatype placement = placed_ticket tickets_row | replayed_ticket tickets_row
  | risk_rejected risk_result risk_intent match_context

definition replay_or_collision :: "uuid \<Rightarrow> tickets_row \<Rightarrow> placement dbtx" where
  "replay_or_collision userId t =
    thenT (throwIf (t_userId t \<noteq> userId) (ConflictError ''idempotency_key_collision'' ''idempotency_key_collision''))
      (returnT (replayed_ticket t))"

definition accept_bet ::
  "bet_env \<Rightarrow> millis \<Rightarrow> uuid \<Rightarrow> place_request \<Rightarrow> place_context \<Rightarrow> bet_type \<Rightarrow> micro \<Rightarrow> currency \<Rightarrow> users_row \<Rightarrow>
   priced_leg list \<Rightarrow> micro \<Rightarrow> json option \<Rightarrow> risk_intent \<Rightarrow> risk_result \<Rightarrow> placement dbtx" where
  "accept_bet env now newId req ctx betType stake cur user legs payout meta intent result =
    (let delay = effective_delay (be_catalog env) user (pc_zillaFlashLiveBoost ctx) legs;
         t = new_ticket now newId req ctx betType stake cur payout meta delay in
     bindT (getT (ticket_by_key (pr_idempotencyKey req))) (\<lambda>again. case again of
       Some t' \<Rightarrow> replay_or_collision (pc_userId ctx) t'
     | None \<Rightarrow> thenT (bet_commit now t legs intent result (bet_match_context legs))
         (returnT (placed_ticket t))))"

definition place_transaction ::
  "bet_env \<Rightarrow> millis \<Rightarrow> uuid \<Rightarrow> place_request \<Rightarrow> place_context \<Rightarrow> bet_type \<Rightarrow> micro \<Rightarrow> currency \<Rightarrow> placement dbtx" where
  "place_transaction env now newId req ctx betType stake cur =
    bindT (getT (ticket_by_key (pr_idempotencyKey req))) (\<lambda>existing. case existing of
      Some t \<Rightarrow> replay_or_collision (pc_userId ctx) t
    | None \<Rightarrow>
        bindT (bet_bettor_checks (pc_userId ctx) stake cur) (\<lambda>user.
        bindT (liftE (price_bet env (pc_userId ctx) req betType stake)) (\<lambda>(legs, payout, meta).
        let intent = bet_intent user cur stake payout legs in
        bindT (risk_gate env now intent) (\<lambda>gate. case gate of
          Inl rejection \<Rightarrow> returnT (risk_rejected rejection intent (bet_match_context legs))
        | Inr result \<Rightarrow>
            accept_bet env now newId req ctx betType stake cur user legs payout meta intent result))))"

definition place ::
  "bet_env \<Rightarrow> millis \<Rightarrow> uuid \<Rightarrow> place_request \<Rightarrow> place_context \<Rightarrow> (db, tickets_row \<times> bool) call" where
  "place env now newId req ctx = (case resolve_bet env req of
     Inl e \<Rightarrow> throwC e
   | Inr (betType, stake, cur) \<Rightarrow>
       bindC (atomically (place_transaction env now newId req ctx betType stake cur)) (\<lambda>out. case out of
         placed_ticket t \<Rightarrow> returnC (t, True)
       | replayed_ticket t \<Rightarrow> returnC (t, False)
       | risk_rejected result intent mctx \<Rightarrow>
           bindC (best_effort (atomically (recordRejection intent result mctx))) (\<lambda>_.
           throwC (BadRequestError (rr_reason result) (show_decision (rr_decision result))))))"

end
