(* ===== verification/Bets_Books.thy ===== *)
theory Bets_Books
  imports Bets_Service
begin

text \<open>
  What a bet placement did when it committed, and that it keeps the books
  balanced: the ticket, its lock, its ledger row and the bank's exposure appear
  together or not at all.
\<close>

section \<open>What each step did\<close>

lemma bet_bettor_checks_effect:
  assumes "bet_bettor_checks userId stake cur s = Inr (user, t)"
  shows "t = s" "select_one (\<lambda>r. u_id r = userId) (users s) = Some user" "u_status user = active"
    "u_globalLimitMicro user \<le> 0 \<or> stake \<le> u_globalLimitMicro user"
    "\<exists>w. select_one (\<lambda>w. wallet_key w = (userId, cur)) (wallets s) = Some w
      \<and> stake \<le> w_balanceMicro w - w_lockedMicro w"
  using assms unfolding bet_bettor_checks_def by (auto simp: step_simps)

lemma risk_gate_effect:
  assumes "risk_gate env now intent s = Inr (gate, t)"
  shows "t = s"
    and "gate = Inr r \<Longrightarrow> evaluate (be_numeric_div env) (be_catalog env) intent s = Inr r \<and> rr_decision r = rd_accepted"
    and "gate = Inl r \<Longrightarrow> rr_decision r \<noteq> rd_accepted"
  using assms unfolding risk_gate_def loadBotControls_def
  by (auto simp: step_simps split: if_splits sum.splits)

lemma replay_or_collision_Inr [step_simps]:
  "replay_or_collision userId r s = Inr (p, t) \<longleftrightarrow> t_userId r = userId \<and> p = replayed_ticket r \<and> t = s"
  by (auto simp: replay_or_collision_def step_simps)

definition exposed_bank :: "millis \<Rightarrow> tickets_row \<Rightarrow> bank_state_row \<Rightarrow> bank_state_row" where
  "exposed_bank now r b = (if t_currency r = USDC
     then b\<lparr>openLiabilityMicro := openLiabilityMicro b + t_potentialPayoutMicro r, bank_updatedAt := now\<rparr> else b)"

lemma commitAccepted_Inr [step_simps]:
  "commitAccepted now i intent result ctx s = Inr (u, t) \<longleftrightarrow>
     t = (if ri_currency intent \<noteq> USDC then s
       else s\<lparr>bank_state := (bank_state s)\<lparr>openLiabilityMicro := openLiabilityMicro (bank_state s) + ri_potentialPayoutMicro intent,
              bank_updatedAt := now\<rparr>,
             riskzilla_event_log := riskzilla_event_log s @ [event_row (Some i) intent result ctx]\<rparr>)
     \<and> (ri_currency intent \<noteq> USDC \<or> (\<exists>v s'. update_bank (\<lambda>b. b\<lparr>openLiabilityMicro := openLiabilityMicro b + ri_potentialPayoutMicro intent,
              bank_updatedAt := now\<rparr>) s = Inr (v, s')))"
  unfolding commitAccepted_def by (auto simp: step_simps)

lemma recordRejection_Inr [step_simps]:
  "recordRejection intent result ctx s = Inr (u, t) \<longleftrightarrow>
     t = (if ri_currency intent \<noteq> USDC then s
          else s\<lparr>riskzilla_event_log := riskzilla_event_log s @ [event_row None intent result ctx]\<rparr>)"
  unfolding recordRejection_def by (auto simp: step_simps)

text \<open>The state after the writes of a bet.\<close>

definition booked ::
  "millis \<Rightarrow> tickets_row \<Rightarrow> priced_leg list \<Rightarrow> risk_intent \<Rightarrow> risk_result \<Rightarrow> match_context \<Rightarrow> db \<Rightarrow> db" where
  "booked now r legs intent result ctx s = s\<lparr>tickets := tickets s @ [r],
      ticket_selections := ticket_selections s @ map (selection_row (t_id r)) legs,
      wallets := update_where (\<lambda>w. wallet_key w = (t_userId r, t_currency r)) (lock_add (t_stakeMicro r) now) (wallets s),
      wallet_ledger := wallet_ledger s @ [bet_stake_row r],
      bank_state := exposed_bank now r (bank_state s),
      riskzilla_event_log := riskzilla_event_log s
        @ (if t_currency r = USDC then [event_row (Some (t_id r)) intent result ctx] else [])\<rparr>"

lemma bet_commit_effect:
  assumes "bet_commit now r legs intent result ctx s = Inr (x, t)"
    and "ri_currency intent = t_currency r" "ri_potentialPayoutMicro intent = t_potentialPayoutMicro r"
  shows "t = booked now r legs intent result ctx s" and "insert_checks tickets_viol tickets_uniq r (tickets s)"
  using assms unfolding bet_commit_def booked_def
  by (auto simp: step_simps exposed_bank_def split: if_splits)

lemma new_ticket_simps [simp]:
  "t_id (new_ticket now i req ctx bt st cur po meta d) = i"
  "t_userId (new_ticket now i req ctx bt st cur po meta d) = pc_userId ctx"
  "t_currency (new_ticket now i req ctx bt st cur po meta d) = cur"
  "t_betType (new_ticket now i req ctx bt st cur po meta d) = bt"
  "t_stakeMicro (new_ticket now i req ctx bt st cur po meta d) = st"
  "t_potentialPayoutMicro (new_ticket now i req ctx bt st cur po meta d) = po"
  "t_idempotencyKey (new_ticket now i req ctx bt st cur po meta d) = pr_idempotencyKey req"
  "t_status (new_ticket now i req ctx bt st cur po meta d) = (if d > 0 then pending_delay else accepted)"
  "t_notBeforeTs (new_ticket now i req ctx bt st cur po meta d) = (if d > 0 then Some (now + d * 1000) else None)"
  "t_open (new_ticket now i req ctx bt st cur po meta d)"
  by (simp_all add: new_ticket_def t_open_def Let_def)

lemma bet_intent_simps [simp]:
  "ri_currency (bet_intent user cur st po legs) = cur"
  "ri_potentialPayoutMicro (bet_intent user cur st po legs) = po"
  "ri_stakeMicro (bet_intent user cur st po legs) = st"
  "ri_legs (bet_intent user cur st po legs) = map leg_intent legs"
  by (simp_all add: bet_intent_def)

section \<open>How a placement ends\<close>

lemma place_transaction_cases:
  assumes run: "place_transaction env now newId req ctx betType stake cur s = Inr (p, t)"
  obtains (replayed) r where "p = replayed_ticket r" "t = s" "t_userId r = pc_userId ctx"
      "ticket_by_key (pr_idempotencyKey req) s = Some r"
  | (refused) result intent mctx where "p = risk_rejected result intent mctx" "t = s"
      "ticket_by_key (pr_idempotencyKey req) s = None" "rr_decision result \<noteq> rd_accepted"
  | (placed) user legs payout meta result r where "p = placed_ticket r"
      "ticket_by_key (pr_idempotencyKey req) s = None"
      "bet_bettor_checks (pc_userId ctx) stake cur s = Inr (user, s)"
      "price_bet env (pc_userId ctx) req betType stake = Inr (legs, payout, meta)"
      "risk_gate env now (bet_intent user cur stake payout legs) s = Inr (Inr result, s)"
      "r = new_ticket now newId req ctx betType stake cur payout meta
        (effective_delay (be_catalog env) user (pc_zillaFlashLiveBoost ctx) legs)"
      "bet_commit now r legs (bet_intent user cur stake payout legs) result (bet_match_context legs) s = Inr ((), t)"
proof (cases "ticket_by_key (pr_idempotencyKey req) s")
  case (Some r)
  then have "p = replayed_ticket r" "t = s" "t_userId r = pc_userId ctx"
    using run by (simp_all add: place_transaction_def step_simps)
  with Some show thesis using replayed by blast
next
  case None
  then obtain user s1 legs payout meta gate s2 where
    checks: "bet_bettor_checks (pc_userId ctx) stake cur s = Inr (user, s1)"
    and price: "price_bet env (pc_userId ctx) req betType stake = Inr (legs, payout, meta)"
    and gate: "risk_gate env now (bet_intent user cur stake payout legs) s1 = Inr (gate, s2)"
    and rest: "(case gate of
          Inl rejection \<Rightarrow> returnT (risk_rejected rejection (bet_intent user cur stake payout legs) (bet_match_context legs))
        | Inr result \<Rightarrow> accept_bet env now newId req ctx betType stake cur user legs payout meta
            (bet_intent user cur stake payout legs) result) s2 = Inr (p, t)"
    using run unfolding place_transaction_def Let_def
    by (auto simp: step_simps split: prod.splits)
  have eq: "s1 = s" "s2 = s"
    using bet_bettor_checks_effect(1) [OF checks] risk_gate_effect(1) [OF gate] by simp_all
  show thesis
  proof (cases gate)
    case (Inl rejection)
    then show thesis
      using rest None risk_gate_effect(3) [OF gate] by (intro refused) (auto simp: eq step_simps)
  next
    case (Inr result)
    define r where "r = new_ticket now newId req ctx betType stake cur payout meta
        (effective_delay (be_catalog env) user (pc_zillaFlashLiveBoost ctx) legs)"
    have "p = placed_ticket r" "bet_commit now r legs (bet_intent user cur stake payout legs) result
        (bet_match_context legs) s = Inr ((), t)"
      using rest Inr None by (auto simp: accept_bet_def Let_def eq step_simps r_def)
    then show thesis
      using placed [OF _ None _ price] checks gate Inr by (simp add: eq r_def)
  qed
qed

text \<open>A placement that answers with a new ticket.\<close>

lemma place_created:
  assumes "place env now newId req ctx s = (Inr (r, True), t)"
  obtains betType stake cur user legs payout meta result where
      "resolve_bet env req = Inr (betType, stake, cur)"
      "ticket_by_key (pr_idempotencyKey req) s = None"
      "bet_bettor_checks (pc_userId ctx) stake cur s = Inr (user, s)"
      "price_bet env (pc_userId ctx) req betType stake = Inr (legs, payout, meta)"
      "evaluate (be_numeric_div env) (be_catalog env) (bet_intent user cur stake payout legs) s = Inr result"
      "rr_decision result = rd_accepted"
      "r = new_ticket now newId req ctx betType stake cur payout meta
        (effective_delay (be_catalog env) user (pc_zillaFlashLiveBoost ctx) legs)"
      "t = booked now r legs (bet_intent user cur stake payout legs) result (bet_match_context legs) s"
      "bet_commit now r legs (bet_intent user cur stake payout legs) result (bet_match_context legs) s = Inr ((), t)"
proof -
  obtain betType stake cur where res: "resolve_bet env req = Inr (betType, stake, cur)"
    using assms by (cases "resolve_bet env req") (auto simp: place_def step_simps)
  obtain p u where tx: "place_transaction env now newId req ctx betType stake cur s = Inr (p, u)"
    and answer: "(case p of placed_ticket t \<Rightarrow> returnC (t, True) | replayed_ticket t \<Rightarrow> returnC (t, False)
       | risk_rejected result intent mctx \<Rightarrow>
           bindC (best_effort (atomically (recordRejection intent result mctx))) (\<lambda>_.
           throwC (BadRequestError (rr_reason result) (show_decision (rr_decision result))))) u = (Inr (r, True), t)"
    using assms unfolding place_def res by (auto simp: step_simps)
  have run: "place_transaction env now newId req ctx betType stake cur s = Inr (placed_ticket r, t)"
    using tx answer by (cases p) (auto simp: step_simps)
  then show thesis
  proof (cases rule: place_transaction_cases)
    case (placed user legs payout meta result r')
    have r: "r' = r" using placed(1) by simp
    note eff = bet_commit_effect(1) [OF placed(7) [unfolded r]] risk_gate_effect(2) [OF placed(5) refl]
    show thesis
      by (rule that [OF res placed(2,3,4)]) (use placed(6,7) eff r in simp_all)
  qed simp_all
qed

text \<open>A placement that answers with anything else writes at most one line of the event log.\<close>

lemma place_not_created:
  assumes "place env now newId req ctx s = (a, t)" and "\<And>r. a \<noteq> Inr (r, True)"
  shows "t = s \<or> (\<exists>e. t = s\<lparr>riskzilla_event_log := riskzilla_event_log s @ [e]\<rparr> \<and> ev_ticketId e = None)"
proof (cases "resolve_bet env req")
  case (Inl e)
  then show ?thesis using assms(1) by (simp add: place_def step_simps)
next
  case (Inr q)
  obtain betType stake cur where res: "resolve_bet env req = Inr (betType, stake, cur)"
    using Inr by (cases q) simp
  show ?thesis
  proof (cases "place_transaction env now newId req ctx betType stake cur s")
    case (Inl e)
    then show ?thesis using assms(1) by (simp add: place_def res bindC_def atomically_def)
  next
    case (Inr pt)
    obtain p u where run: "place_transaction env now newId req ctx betType stake cur s = Inr (p, u)"
      using Inr by (cases pt) simp
    have logged: "snd (atomically (recordRejection i d m) s) = s
        \<or> (\<exists>e. snd (atomically (recordRejection i d m) s)
            = s\<lparr>riskzilla_event_log := riskzilla_event_log s @ [e]\<rparr> \<and> ev_ticketId e = None)" for i d m
    proof (cases "recordRejection i d m s")
      case (Inr x)
      then have "snd x = (if ri_currency i \<noteq> USDC then s
          else s\<lparr>riskzilla_event_log := riskzilla_event_log s @ [event_row None i d m]\<rparr>)"
        using recordRejection_Inr [of i d m s "()" "snd x"] by (cases x) simp
      moreover have "snd (atomically (recordRejection i d m) s) = snd x"
        using Inr by (cases x) (simp add: atomically_def)
      moreover have "ev_ticketId (event_row None i d m) = None" by (simp add: event_row_def)
      ultimately show ?thesis by (cases "ri_currency i = USDC") (simp_all, blast)
    qed (simp add: atomically_def)
    from run show ?thesis
    proof (cases rule: place_transaction_cases)
      case (replayed r)
      then show ?thesis using assms(1) run by (auto simp: place_def res bindC_def atomically_def step_simps)
    next
      case (refused d i m)
      then have "t = snd (atomically (recordRejection i d m) s)"
        using assms(1) run by (auto simp: place_def res bindC_def atomically_eq step_simps split: prod.splits sum.splits)
      then show ?thesis using logged by simp
    next
      case (placed user legs payout meta result r)
      then show ?thesis using assms run by (auto simp: place_def res bindC_def atomically_def step_simps)
    qed
  qed
qed

section \<open>The books stay balanced\<close>

lemma schema_bet_ops [keeps_intros]:
  "keeps schema_ok (bet_commit now r legs intent result ctx)"
  "keeps schema_ok (recordRejection intent result ctx)"
  unfolding bet_commit_def commitAccepted_def recordRejection_def by (intro keeps_intros)+

lemma books_ticket_open:
  assumes ok: "books_ok s" and t: "schema_ok t"
    and upd: "tickets t = tickets s @ [r]" "t_open r"
    and acq: "acquires (t_userId r, t_currency r) (t_stakeMicro r) (wallets s) (wallets t)"
    and frame: "withdrawals t = withdrawals s" "slotzilla_spins t = slotzilla_spins s"
      "deposit_intents t = deposit_intents s" "bank_state t = exposed_bank now r (bank_state s)"
      "wallet_ledger t = wallet_ledger s @ [bet_stake_row r]"
  shows "books_ok t"
proof (rule books_okI [OF t])
  note s = books_okD [OF ok]
  show "locks_ok t" by (rule t_obl.acquire [OF s(1,2) upd acq]) (simp add: frame)
  show "liability_ok t"
    using s(3) upd by (auto simp: liability_ok_def open_liability_def frame exposed_bank_def)
  have "entities_le s t" using upd by (auto simp: entities_le_def frame)
  moreover have "pred_option (ref_ok t) (ledger_key (bet_stake_row r))"
    using upd(1) by (simp add: bet_stake_row_def ledger_key_def ref_ok.simps)
  ultimately show "refs_ok t" by (intro refs_ok_add [OF s(4), of t "bet_stake_row r"]) (simp_all add: frame)
qed

lemma books_place: "keepsC books_ok (place env now newId req ctx)"
  unfolding keepsC_def
proof (intro allI impI)
  fix s
  assume ok: "books_ok s"
  obtain a t where run: "place env now newId req ctx s = (a, t)" by (cases "place env now newId req ctx s")
  show "books_ok (snd (place env now newId req ctx s))"
  proof (cases "\<exists>r. a = Inr (r, True)")
    case True
    then obtain r where run': "place env now newId req ctx s = (Inr (r, True), t)" using run by blast
    from this show ?thesis
    proof (cases rule: place_created)
      case (1 betType stake cur user legs payout meta result)
      have schema: "schema_ok t" using 1(9) ok by (auto intro: keepsD [OF schema_bet_ops(1)] dest: books_okD)
      have "has_wallet (pc_userId ctx, cur) (wallets s)"
        using bet_bettor_checks_effect(5) [OF 1(3)] by (auto simp: has_wallet_iff)
      then have acq: "acquires (t_userId r, t_currency r) (t_stakeMicro r) (wallets s) (wallets t)"
        unfolding 1(8) booked_def by (simp add: 1(7) acquires_lock_add)
      have "t_open r" by (simp add: 1(7))
      then have "books_ok t"
        by (rule_tac books_ticket_open [OF ok schema, of r now])
           (use acq in \<open>simp_all add: 1(8) booked_def\<close>)
      then show ?thesis by (simp add: run)
    qed
  next
    case False
    then consider "t = s" | e where "t = s\<lparr>riskzilla_event_log := riskzilla_event_log s @ [e]\<rparr>"
      using place_not_created [OF run] by blast
    then show ?thesis
    proof cases
      case 2
      have "schema_ok t" using books_okD(1) [OF ok] by (simp add: 2 schema_ok_def)
      then show ?thesis using ok 2 by (simp add: run books_frame)
    qed (simp add: run ok)
  qed
qed

end
