(* ===== verification/Bets_Legs.thy ===== *)
theory Bets_Legs
  imports Bets_Books
begin

text \<open>
  What the loop over the legs guarantees: which markets and outcomes a priced
  leg can stand for, at which price, on which matches, and that the odds the
  client submits decide nothing but whether the leg is refused.
\<close>

section \<open>Sound legs\<close>

definition leg_sound :: "catalog \<Rightarrow> priced_leg \<Rightarrow> bool" where
  "leg_sound c l \<longleftrightarrow> bet_market c (bs_marketId (pl_sel l)) = Some (pl_market l)
     \<and> mi_marketStatus (pl_market l) = 1 \<and> mi_matchStatus (pl_market l) \<in> {ms_not_started, ms_live}
     \<and> find_outcome c (mi_marketId (pl_market l)) (bs_outcomeId (pl_sel l)) = Some (pl_outcome l)
     \<and> mo_active (pl_outcome l) \<and> mo_result (pl_outcome l) = None
     \<and> pl_num l = js_Number (pl_str l) \<and> js_lt (Fin 1) (pl_num l)"

definition on_match :: "priced_leg \<Rightarrow> int" where
  "on_match l = mi_matchId (pl_market l)"

lemma market_gate_Inr:
  "market_gate c bt multi scan sel = Inr (m, scan') \<longleftrightarrow>
     bet_market c (bs_marketId sel) = Some m \<and> mi_marketStatus m = 1
     \<and> mi_matchStatus m \<in> {ms_not_started, ms_live}
     \<and> (multi \<and> bt \<noteq> betbuilder \<longrightarrow> mi_matchId m \<notin> set (lc_seenMatchIds scan))
     \<and> (bt = betbuilder \<longrightarrow> lc_betBuilderMatchId scan \<in> {None, Some (mi_matchId m)})
     \<and> scan' = \<lparr>lc_seenMatchIds = (if multi \<and> bt \<noteq> betbuilder
                        then mi_matchId m # lc_seenMatchIds scan else lc_seenMatchIds scan),
                 lc_betBuilderMatchId = (if bt = betbuilder then Some (mi_matchId m)
                        else lc_betBuilderMatchId scan)\<rparr>"
  by (auto simp: market_gate_def split: option.splits)

lemma outcome_gate_Inr:
  "outcome_gate c m sel = Inr (o', p) \<longleftrightarrow>
     find_outcome c (mi_marketId m) (bs_outcomeId sel) = Some o' \<and> mo_active o' \<and> mo_result o' = None
     \<and> mo_publishedOdds o' = Some p \<and> p \<noteq> []
     \<and> js_isFinite (js_Number p) \<and> js_isFinite (js_Number (bs_odds sel))
     \<and> \<not> js_le (js_Number p) (Fin 0) \<and> \<not> js_le (js_Number (bs_odds sel)) (Fin 0)"
  by (auto simp: outcome_gate_def split: option.splits)

lemma authoritative_price_num:
  assumes "authoritative_price cs m o' p sel = (n, t)"
  shows "n = js_Number t"
  using assms by (auto simp: authoritative_price_def Let_def split: if_splits option.splits)

lemma authoritative_price_finite:
  assumes "authoritative_price cs m o' p sel = (n, t)"
    and "js_isFinite (js_Number p)" "js_isFinite (js_Number (bs_odds sel))"
  shows "js_isFinite n"
  using assms by (auto simp: authoritative_price_def Let_def split: if_splits option.splits)

lemma finite_above_one: "js_isFinite n \<Longrightarrow> \<not> js_le n (Fin 1) \<Longrightarrow> js_lt (Fin 1) n"
  by (cases n) (auto simp: js_le_def)

lemma price_leg_cases:
  assumes "price_leg c bt multi cs scan sel = Inr (l, scan')"
  obtains published where "market_gate c bt multi scan sel = Inr (pl_market l, scan')" "pl_sel l = sel"
    "outcome_gate c (pl_market l) sel = Inr (pl_outcome l, published)"
    "authoritative_price cs (pl_market l) (pl_outcome l) published sel = (pl_num l, pl_str l)"
    "\<not> js_le (pl_num l) (Fin 1)"
    "bt \<noteq> betbuilder \<Longrightarrow> \<not> js_lt DEFAULT_ODDS_DRIFT_TOLERANCE (drift (pl_num l) (js_Number (bs_odds sel)))"
    "pl_probability l = (if is_product bt then pl_probability l else Fin 0)"
    "is_product bt \<Longrightarrow> product_probability (pl_outcome l) = Inr (pl_probability l)"
proof -
  obtain m s1 where m: "market_gate c bt multi scan sel = Inr (m, s1)"
    using assms by (cases "market_gate c bt multi scan sel") (auto simp: price_leg_def)
  obtain o' p where o: "outcome_gate c m sel = Inr (o', p)"
    using assms by (cases "outcome_gate c m sel") (auto simp: price_leg_def m)
  obtain n t where a: "authoritative_price cs m o' p sel = (n, t)" by (cases "authoritative_price cs m o' p sel")
  show thesis
    using assms that [of p]
    by (auto simp: price_leg_def m o a split: if_splits sum.splits)
qed

lemma price_leg_sound:
  assumes "price_leg c bt multi cs scan sel = Inr (l, scan')"
  shows "leg_sound c l"
  using assms
proof (cases rule: price_leg_cases)
  case (1 p)
  have "js_isFinite (pl_num l)"
    using 1(3) authoritative_price_finite [OF 1(4)] by (simp add: outcome_gate_Inr)
  then show ?thesis
    using 1 authoritative_price_num [OF 1(4)] finite_above_one
    by (simp add: leg_sound_def market_gate_Inr outcome_gate_Inr)
qed

lemma price_leg_match:
  assumes "price_leg c bt multi cs scan sel = Inr (l, scan')"
  shows "multi \<Longrightarrow> bt \<noteq> betbuilder \<Longrightarrow> on_match l \<notin> set (lc_seenMatchIds scan)
      \<and> lc_seenMatchIds scan' = on_match l # lc_seenMatchIds scan"
    and "bt = betbuilder \<Longrightarrow> lc_betBuilderMatchId scan \<in> {None, Some (on_match l)}
      \<and> lc_betBuilderMatchId scan' = Some (on_match l)"
  using assms by (auto elim!: price_leg_cases simp: market_gate_Inr on_match_def)

lemma price_legs_Cons:
  "price_legs c bt multi cs scan (sel # sels) = Inr legs \<longleftrightarrow>
     (\<exists>l ls scan'. price_leg c bt multi cs scan sel = Inr (l, scan')
       \<and> price_legs c bt multi cs scan' sels = Inr ls \<and> legs = l # ls)"
  by (auto split: sum.splits)

lemma price_legs_sound:
  assumes "price_legs c bt multi cs scan sels = Inr legs"
  shows "map pl_sel legs = sels" "\<forall>l \<in> set legs. leg_sound c l"
    "\<forall>l \<in> set legs. is_product bt \<longrightarrow> product_probability (pl_outcome l) = Inr (pl_probability l)"
  using assms
  by (induction sels arbitrary: scan legs)
     (auto simp: price_legs_Cons simp del: price_legs.simps(2) elim: price_leg_cases dest: price_leg_sound)

lemma price_legs_distinct:
  assumes "price_legs c bt True cs scan sels = Inr legs" and "bt \<noteq> betbuilder"
  shows "distinct (map on_match legs) \<and> set (map on_match legs) \<inter> set (lc_seenMatchIds scan) = {}"
  using assms
proof (induction sels arbitrary: scan legs)
  case (Cons sel sels)
  then obtain l ls scan' where leg: "price_leg c bt True cs scan sel = Inr (l, scan')"
    and rest: "price_legs c bt True cs scan' sels = Inr ls" and legs: "legs = l # ls"
    by (auto simp only: price_legs_Cons)
  show ?case using Cons.IH [OF rest assms(2)] price_leg_match(1) [OF leg _ assms(2)] by (auto simp: legs)
qed simp

lemma price_legs_same_match:
  assumes "price_legs c betbuilder multi cs scan sels = Inr legs"
  shows "\<forall>l \<in> set legs. lc_betBuilderMatchId scan = None \<and> on_match l = on_match (hd legs)
     \<or> lc_betBuilderMatchId scan = Some (on_match l)"
  using assms
proof (induction sels arbitrary: scan legs)
  case (Cons sel sels)
  then obtain l ls scan' where leg: "price_leg c betbuilder multi cs scan sel = Inr (l, scan')"
    and rest: "price_legs c betbuilder multi cs scan' sels = Inr ls" and legs: "legs = l # ls"
    by (auto simp only: price_legs_Cons)
  show ?case using Cons.IH [OF rest] price_leg_match(2) [OF leg refl] by (auto simp: legs)
qed simp

section \<open>The submitted odds decide no price\<close>

text \<open>A selection and a leg with the submitted odds erased.\<close>

definition unquoted :: "bet_selection \<Rightarrow> bet_selection" where
  "unquoted sel = sel\<lparr>bs_odds := []\<rparr>"

definition unquoted_leg :: "priced_leg \<Rightarrow> priced_leg" where
  "unquoted_leg l = l\<lparr>pl_sel := unquoted (pl_sel l)\<rparr>"

definition unboosted :: "bet_selection \<Rightarrow> bool" where
  "unboosted sel \<longleftrightarrow> \<not> truthy (bs_zillaFlashOfferId sel) \<and> \<not> truthy (bs_boostedOddsRuleId sel)"

lemma unquoted_simps [simp]:
  "bs_marketId (unquoted sel) = bs_marketId sel" "bs_outcomeId (unquoted sel) = bs_outcomeId sel"
  "bs_zillaFlashOfferId (unquoted sel) = bs_zillaFlashOfferId sel"
  "bs_boostedOddsRuleId (unquoted sel) = bs_boostedOddsRuleId sel"
  by (simp_all add: unquoted_def)

lemma unquoted_leg_simps [simp]:
  "pl_market (unquoted_leg l) = pl_market l" "pl_outcome (unquoted_leg l) = pl_outcome l"
  "pl_num (unquoted_leg l) = pl_num l" "pl_str (unquoted_leg l) = pl_str l"
  "pl_probability (unquoted_leg l) = pl_probability l" "pl_sel (unquoted_leg l) = unquoted (pl_sel l)"
  by (simp_all add: unquoted_leg_def)

lemma unquoted_fields:
  assumes "unquoted sel = unquoted sel'"
  shows "bs_marketId sel = bs_marketId sel'" "bs_outcomeId sel = bs_outcomeId sel'"
    "bs_zillaFlashOfferId sel = bs_zillaFlashOfferId sel'" "bs_boostedOddsRuleId sel = bs_boostedOddsRuleId sel'"
  using assms by (metis unquoted_simps)+

lemma authoritative_price_unquoted:
  assumes "unquoted sel = unquoted sel'" and "unboosted sel"
  shows "authoritative_price cs m o' p sel = authoritative_price cs m o' p sel'"
  using assms unquoted_fields [OF assms(1)] by (simp add: authoritative_price_def unboosted_def)

lemma market_gate_unquoted:
  "unquoted sel = unquoted sel' \<Longrightarrow> market_gate c bt multi scan sel = market_gate c bt multi scan sel'"
  using unquoted_fields [of sel sel'] by (simp add: market_gate_def)

lemma price_leg_unquoted:
  assumes "price_leg c bt multi cs scan sel = Inr (l, s1)" "price_leg c bt multi cs scan sel' = Inr (l', s2)"
    and sel: "unquoted sel = unquoted sel'" "unboosted sel"
  shows "unquoted_leg l = unquoted_leg l' \<and> s1 = s2"
  using assms(1)
proof (cases rule: price_leg_cases)
  case one: (1 p)
  from assms(2) show ?thesis
  proof (cases rule: price_leg_cases)
    case two: (1 p')
    have m: "pl_market l = pl_market l'" "s1 = s2"
      using one(1) two(1) market_gate_unquoted [OF sel(1)] by simp_all
    have o: "pl_outcome l = pl_outcome l'" "p = p'"
      using one(3) two(3) m(1) unquoted_fields(2) [OF sel(1)] by (auto simp: outcome_gate_Inr)
    have a: "pl_num l = pl_num l'" "pl_str l = pl_str l'"
      using one(4) two(4) m(1) o authoritative_price_unquoted [OF sel] by simp_all
    have "pl_probability l = pl_probability l'"
      using one(7,8) two(7,8) o by (cases "is_product bt") auto
    then show ?thesis using m o a one(2) two(2) sel(1) by (simp add: unquoted_leg_def)
  qed
qed

lemma price_legs_unquoted:
  assumes "price_legs c bt multi cs scan sels = Inr legs" "price_legs c bt multi cs scan sels' = Inr legs'"
    and "map unquoted sels = map unquoted sels'" "\<forall>sel \<in> set sels. unboosted sel"
  shows "map unquoted_leg legs = map unquoted_leg legs'"
  using assms
proof (induction sels arbitrary: scan legs sels' legs')
  case (Cons sel sels)
  then obtain sel' rest where sels': "sels' = sel' # rest" by (cases sels') auto
  obtain l ls s1 where one: "price_leg c bt multi cs scan sel = Inr (l, s1)" "price_legs c bt multi cs s1 sels = Inr ls"
    "legs = l # ls" using Cons.prems(1) by (auto simp only: price_legs_Cons)
  obtain l' ls' s2 where two: "price_leg c bt multi cs scan sel' = Inr (l', s2)"
    "price_legs c bt multi cs s2 rest = Inr ls'" "legs' = l' # ls'"
    using Cons.prems(2) by (auto simp only: price_legs_Cons sels')
  have "unquoted_leg l = unquoted_leg l'" "s1 = s2"
    using price_leg_unquoted [OF one(1) two(1)] Cons.prems(3,4) sels' by simp_all
  then show ?case
    using Cons.IH [OF one(2), of rest ls'] two Cons.prems(3,4) one(3) sels' by simp
qed simp

lemma leg_selection_id_unquoted [simp]: "leg_selection_id u (unquoted_leg l) = leg_selection_id u l"
  by (simp add: leg_selection_id_def)

lemma price_ticket_unquoted:
  assumes "legs \<noteq> []"
  shows "price_ticket env u req bt stake cfg (map unquoted_leg legs) = price_ticket env u req bt stake cfg legs"
proof -
  have maps: "map pl_probability (map unquoted_leg legs) = map pl_probability legs"
    "map pl_num (map unquoted_leg legs) = map pl_num legs" "map pl_str (map unquoted_leg legs) = map pl_str legs"
    "map (leg_selection_id urn) (map unquoted_leg legs) = map (leg_selection_id urn) legs" for urn
    by simp_all
  have first: "pl_market (hd (map unquoted_leg legs)) = pl_market (hd legs)" by (simp add: assms hd_map)
  have hidden: "boost_hidden c u (map unquoted_leg legs) = boost_hidden c u legs" for c
    by (simp add: boost_hidden_def list_ex_iff)
  have pay: "tiple_payout stake (map unquoted_leg legs) bp = tiple_payout stake legs bp"
    "tippot_payout stake (map unquoted_leg legs) bp = tippot_payout stake legs bp"
    "bet_builder_payout env req stake (map unquoted_leg legs) = bet_builder_payout env req stake legs"
    "odds_payout c u bt stake (map unquoted_leg legs) = odds_payout c u bt stake legs" for bp c
    unfolding tiple_payout_def tippot_payout_def bet_builder_payout_def odds_payout_def
      combi_multiplier_def product_odds_def maps first hidden by (rule refl)+
  show ?thesis unfolding price_ticket_def pay ..
qed

end
