(* ===== verification/Sample_Bets.thy ===== *)
theory Sample_Bets
  imports Bets_Service Sample_Catalog
begin

text \<open>
  Bets on the sample catalog: a live single in USDC, a combination and a
  builder in OZ, each with the outcome of placing it in the sample database.
\<close>

definition sample_pow :: "jsnum \<Rightarrow> jsnum \<Rightarrow> jsnum" where
  "sample_pow x n = (case n of Fin q \<Rightarrow> ((\<lambda>y. js_mul y x) ^^ nat \<lfloor>q\<rfloor>) (Fin 1) | _ \<Rightarrow> NaN)"

definition sample_bet_env :: bet_env where
  "sample_bet_env = \<lparr>be_catalog = sample_catalog, be_numeric_div = (/), be_math_pow = sample_pow,
     be_obb = Some (\<lambda>_ _ _. obb_status ''valid'')\<rparr>"

definition sample_selection :: "string \<Rightarrow> string \<Rightarrow> bet_selection" where
  "sample_selection i price = \<lparr>bs_marketId = i, bs_outcomeId = ''1'', bs_odds = price,
     bs_zillaFlashOfferId = None, bs_boostedOddsRuleId = None\<rparr>"

definition sample_request :: "string \<Rightarrow> bet_type option \<Rightarrow> bet_selection list \<Rightarrow> place_request" where
  "sample_request cur bt sels = \<lparr>pr_stakeMicro = ''20'', pr_idempotencyKey = ''key-0001'',
     pr_currency = Some cur, pr_betType = bt, pr_selections = sels, pr_betBuilder = None,
     pr_acceptOddsChanges = None\<rparr>"

definition sample_ctx :: place_context where
  "sample_ctx = \<lparr>pc_userId = ''ann'', pc_ip = None, pc_userAgent = None, pc_zillaFlashLiveBoost = False,
     pc_quoteIssuedAtMs = None\<rparr>"

definition live_single :: place_request where
  "live_single = sample_request ''USDC'' None [sample_selection ''12'' ''4'']"

definition two_match_combo :: place_request where
  "two_match_combo = sample_request ''OZ'' None [sample_selection ''11'' ''2'', sample_selection ''12'' ''4'']"

definition one_match_builder :: place_request where
  "one_match_builder = (sample_request ''OZ'' (Some betbuilder) [sample_selection ''11'' ''2'', sample_selection ''13'' ''3''])
     \<lparr>pr_betBuilder := Some \<lparr>bb_sessionId = ''s1'', bb_expectedOddsX10000 = 50000,
        bb_selectionIds = [''od:match:7/13/1'', ''od:match:7/11/1'']\<rparr>\<rparr>"

definition sample_place :: "place_request \<Rightarrow> (failure + tickets_row \<times> bool) \<times> db" where
  "sample_place req = place sample_bet_env 10000 ''t2'' req sample_ctx sample_db"

lemma created_iff:
  "map_sum id (\<lambda>(t, c). (t_currency t, t_betType t, t_potentialPayoutMicro t, t_status t, c)) a = Inr (cur, bt, p, st, True)
     \<longleftrightarrow> (\<exists>r. a = Inr (r, True) \<and> t_currency r = cur \<and> t_betType r = bt \<and> t_potentialPayoutMicro r = p \<and> t_status r = st)"
  by (cases a) auto

lemma live_single_run:
  obtains r t where "place sample_bet_env 10000 ''t2'' live_single sample_ctx sample_db = (Inr (r, True), t)"
    "t_currency r = USDC" "t_betType r = single" "t_potentialPayoutMicro r = 80" "t_status r = pending_delay"
proof -
  have "map_sum id (\<lambda>(t, c). (t_currency t, t_betType t, t_potentialPayoutMicro t, t_status t, c))
      (fst (sample_place live_single)) = Inr (USDC, single, 80, pending_delay, True)"
    by code_simp
  then show thesis
    unfolding created_iff sample_place_def
    using that by (metis prod.collapse)
qed

lemma two_match_combo_run:
  obtains r t where "place sample_bet_env 10000 ''t2'' two_match_combo sample_ctx sample_db = (Inr (r, True), t)"
    "t_currency r = OZ" "t_betType r = combo" "t_potentialPayoutMicro r = 160" "t_status r = pending_delay"
proof -
  have "map_sum id (\<lambda>(t, c). (t_currency t, t_betType t, t_potentialPayoutMicro t, t_status t, c))
      (fst (sample_place two_match_combo)) = Inr (OZ, combo, 160, pending_delay, True)"
    by code_simp
  then show thesis
    unfolding created_iff sample_place_def
    using that by (metis prod.collapse)
qed

lemma one_match_builder_run:
  obtains r t where "place sample_bet_env 10000 ''t2'' one_match_builder sample_ctx sample_db = (Inr (r, True), t)"
    "t_currency r = OZ" "t_betType r = betbuilder" "t_potentialPayoutMicro r = 100" "t_status r = accepted"
proof -
  have "map_sum id (\<lambda>(t, c). (t_currency t, t_betType t, t_potentialPayoutMicro t, t_status t, c))
      (fst (sample_place one_match_builder)) = Inr (OZ, betbuilder, 100, accepted, True)"
    by code_simp
  then show thesis
    unfolding created_iff sample_place_def
    using that by (metis prod.collapse)
qed

end
