(* ===== verification/Bets_Properties.thy ===== *)
theory Bets_Properties
  imports Bets_Legs Sample_Bets "HOL-Library.Multiset"
begin

text \<open>
  The guarantees of bet placement: the bank stays solvent, every leg's limits
  hold, the stake is locked and booked once, the price is the server's, the
  legs are open and on the matches the product allows, and a placement that
  makes no ticket moves no money.
\<close>

section \<open>Shared facts\<close>

lemma price_bet_cases:
  assumes "price_bet env u req bt stake = Inr (legs, payout, meta)"
  obtains cfg where "product_gate (be_catalog env) bt (length (pr_selections req)) = Inr cfg"
    "price_legs (be_catalog env) bt (length (pr_selections req) > 1) (bettor_cascade (be_catalog env) bt u)
       scan_start (pr_selections req) = Inr legs"
    "price_ticket env u req bt stake cfg legs = Inr (payout, meta)"
  using assms by (auto simp: price_bet_def Let_def split: sum.splits)

lemma resolve_bet_cases:
  assumes "resolve_bet env req = Inr (bt, stake, cur)"
  shows "pr_selections req \<noteq> []" "bt = bet_type_of req" "bt \<noteq> system" "0 < stake" "stake = big_int (pr_stakeMicro req)"
    "bt \<noteq> single \<longleftrightarrow> length (pr_selections req) > 1"
  using assms
  by (cases bt; auto simp: resolve_bet_def stake_and_currency_def parseBigIntStrict_def Let_def is_product_def
      split: if_splits sum.splits)+

lemma lock_add_available:
  assumes "distinct (map wallet_key ws)" "has_wallet (u, cur) ws"
  shows "sum_where (\<lambda>w. w_currency w = cur') (\<lambda>w. w_balanceMicro w - w_lockedMicro w)
      (update_where (\<lambda>w. wallet_key w = (u, cur)) (lock_add d now) ws)
    = sum_where (\<lambda>w. w_currency w = cur') (\<lambda>w. w_balanceMicro w - w_lockedMicro w) ws - (if cur = cur' then d else 0)"
proof -
  obtain w where w: "select_one (\<lambda>w. wallet_key w = (u, cur)) ws = Some w"
    using assms(2) by (auto simp: has_wallet_iff)
  have "w_currency w = cur" using w by (auto dest!: select_one_SomeD simp: wallet_key_def)
  then show ?thesis
    using sum_where_update_key [OF assms(1) w] by (auto simp: lock_add_def)
qed

section \<open>Solvency and limits\<close>

text \<open>C2: a USDC bet is accepted only while the free balances of all bettors, the payouts of all
  open tickets and spins and the payout of the bet together stay within the bank limit; after it, the
  free balances and the open payouts leave at least the stake of the bet below the limit.\<close>

theorem placed_bet_within_bank:
  assumes "books_ok s" and "place env now newId req ctx s = (Inr (r, True), t)" and "t_currency r = USDC"
  shows "available_usdc s + open_liability s + t_potentialPayoutMicro r \<le> bankLimitMicro (bank_state s)
    \<and> available_usdc t + open_liability t + t_stakeMicro r \<le> bankLimitMicro (bank_state t)
    \<and> bankLimitMicro (bank_state t) = bankLimitMicro (bank_state s)"
  using assms(2)
proof (cases rule: place_created)
  case (1 betType stake cur user legs payout meta result)
  have cur: "cur = USDC" using assms(3) by (simp add: 1(7))
  have "books_ok t" using keepsCD [OF books_place assms(1,2)] .
  then have liab: "openLiabilityMicro (bank_state s) = open_liability s"
      "openLiabilityMicro (bank_state t) = open_liability t"
    using assms(1) by (auto simp: liability_ok_def dest: books_okD)
  obtain fb where bank: "available_usdc s + openLiabilityMicro (bank_state s) + payout \<le> bankLimitMicro (bank_state s)"
    using evaluate_accepted [OF 1(5,6)] cur by auto
  have wallet: "has_wallet (pc_userId ctx, USDC) (wallets s)"
    using bet_bettor_checks_effect(5) [OF 1(3)] by (auto simp: has_wallet_iff cur)
  have "available_usdc t = available_usdc s - stake"
    using lock_add_available [OF wallets_distinct wallet] books_okD(1) [OF assms(1)]
    by (simp add: available_usdc_def 1(7,8) booked_def cur)
  moreover have "bank_state t = exposed_bank now r (bank_state s)" by (simp add: 1(8) booked_def)
  ultimately show ?thesis
    using bank liab by (auto simp: exposed_bank_def 1(7) cur)
qed

theorem placed_bet_within_bank_witness:
  "\<exists>r t. place sample_bet_env 10000 ''t2'' live_single sample_ctx sample_db = (Inr (r, True), t)
     \<and> available_usdc t + open_liability t + t_stakeMicro r \<le> bankLimitMicro (bank_state t)"
proof -
  obtain r t where run: "place sample_bet_env 10000 ''t2'' live_single sample_ctx sample_db = (Inr (r, True), t)"
    "t_currency r = USDC" using live_single_run .
  then show ?thesis using placed_bet_within_bank [OF sample_books_ok run] by blast
qed

text \<open>The limits a bet is judged by, for every leg: the floor and the ceiling of the leg's tier and
  the two liability caps of its outcome.\<close>

definition leg_limits_hold :: "bet_env \<Rightarrow> db \<Rightarrow> settings_row \<Rightarrow> risk_intent \<Rightarrow> bool" where
  "leg_limits_hold env s fallback intent \<longleftrightarrow>
    (\<forall>l \<in> set (ri_legs intent). rs_minBetMicro (tierFor (be_catalog env) fallback l) \<le> ri_stakeMicro intent
       \<and> ri_potentialPayoutMicro intent \<le> rs_maxPayoutMicro (tierFor (be_catalog env) fallback l)) \<and>
    (let rows = leg_shares (be_numeric_div env) (be_catalog env) (map il_matchId (ri_legs intent)) s in
     \<forall>i < length (ri_legs intent).
       let b = bucket_of (be_catalog env) fallback intent rows (ri_legs intent ! i, leg_shares_of (ri_legs intent) ! i) in
       bk_liabilityAfter b \<le> bk_matchCap b \<and> bk_bettorLiabilityAfter b \<le> bk_bettorCap b)"

lemma evaluate_limits:
  assumes "evaluate (be_numeric_div env) (be_catalog env) intent s = Inr r" "rr_decision r = rd_accepted"
    "ri_currency intent = USDC"
  obtains fallback where "select_one (\<lambda>q. rs_tier q = 0) (riskzilla_settings (be_catalog env)) = Some fallback"
    "leg_limits_hold env s fallback intent"
  using assms
proof (rule evaluate_accepted)
  fix fallback rows
  assume lim: "select_one (\<lambda>r. rs_tier r = 0) (riskzilla_settings (be_catalog env)) = Some fallback"
    "rows = leg_shares (be_numeric_div env) (be_catalog env) (map il_matchId (ri_legs intent)) s"
    "\<forall>l \<in> set (ri_legs intent). rs_minBetMicro (tierFor (be_catalog env) fallback l) \<le> ri_stakeMicro intent
      \<and> ri_potentialPayoutMicro intent \<le> rs_maxPayoutMicro (tierFor (be_catalog env) fallback l)
      \<and> \<not> js_le (factor_for (be_catalog env) (il_providerMarketId l)) (Fin 0)"
    "\<forall>ls \<in> set (zip (ri_legs intent) (leg_shares_of (ri_legs intent))).
      bucket_rejection (bucket_of (be_catalog env) fallback intent rows ls) = None"
  have caps: "bk_liabilityAfter b \<le> bk_matchCap b \<and> bk_bettorLiabilityAfter b \<le> bk_bettorCap b"
    if "bucket_rejection b = None" for b using that by (auto simp: bucket_rejection_def split: if_splits)
  have "(ri_legs intent ! i, leg_shares_of (ri_legs intent) ! i)
      \<in> set (zip (ri_legs intent) (leg_shares_of (ri_legs intent)))" if "i < length (ri_legs intent)" for i
    using that by (auto simp: set_zip leg_shares_of_def netwins_def Let_def)
  then show thesis using lim caps by (intro that [OF lim(1)]) (simp add: leg_limits_hold_def Let_def)
qed

text \<open>C10: an accepted USDC bet respects the limits of every leg, in whatever order the legs come: the
  stake floor and the payout ceiling of each leg's risk tier, and after the bet the liability of each
  leg's outcome stays within the match cap and the bettor's part of it within the bettor cap.\<close>

theorem placed_bet_within_limits:
  assumes "place env now newId req ctx s = (Inr (r, True), t)" and "t_currency r = USDC"
  shows "\<exists>user legs fallback. u_id user = t_userId r \<and> u_status user = active
    \<and> ticket_selections t = ticket_selections s @ map (selection_row (t_id r)) legs
    \<and> select_one (\<lambda>q. rs_tier q = 0) (riskzilla_settings (be_catalog env)) = Some fallback
    \<and> leg_limits_hold env s fallback (bet_intent user USDC (t_stakeMicro r) (t_potentialPayoutMicro r) legs)"
  using assms(1)
proof (cases rule: place_created)
  case (1 betType stake cur user legs payout meta result)
  have cur: "cur = USDC" using assms(2) by (simp add: 1(7))
  have user: "u_id user = pc_userId ctx" "u_status user = active"
    using bet_bettor_checks_effect(2,3) [OF 1(3)] by (auto dest: select_one_SomeD)
  from 1(5,6) obtain fallback where "select_one (\<lambda>q. rs_tier q = 0) (riskzilla_settings (be_catalog env)) = Some fallback"
    "leg_limits_hold env s fallback (bet_intent user cur stake payout legs)"
    by (rule evaluate_limits) (simp_all add: cur)
  then show ?thesis using user
    by (intro exI [of _ user] exI [of _ legs] exI [of _ fallback]) (simp add: 1(7,8) booked_def cur)
qed

theorem placed_bet_within_limits_witness:
  "\<exists>r t. place sample_bet_env 10000 ''t2'' live_single sample_ctx sample_db = (Inr (r, True), t)
     \<and> (\<exists>user legs fallback. u_id user = t_userId r
       \<and> leg_limits_hold sample_bet_env sample_db fallback
            (bet_intent user USDC (t_stakeMicro r) (t_potentialPayoutMicro r) legs))"
proof -
  obtain r t where run: "place sample_bet_env 10000 ''t2'' live_single sample_ctx sample_db = (Inr (r, True), t)"
    "t_currency r = USDC" using live_single_run .
  then show ?thesis using placed_bet_within_limits [OF run] by blast
qed

section \<open>What a placement writes\<close>

text \<open>C11: a new ticket is the caller's, for the stake of the request, which was free in the wallet and
  within the bettor's own limit; no balance changes, exactly the stake is locked and booked once, and
  the bank's open liability grows by the payout of a USDC ticket.\<close>

theorem placed_bet_locks_stake:
  assumes "books_ok s" and "place env now newId req ctx s = (Inr (r, True), t)"
  shows "tickets t = tickets s @ [r] \<and> t_userId r = pc_userId ctx \<and> t_idempotencyKey r = pr_idempotencyKey req
    \<and> t_stakeMicro r = big_int (pr_stakeMicro req) \<and> 0 < t_stakeMicro r \<and> t_open r
    \<and> t_stakeMicro r \<le> balance_of (t_userId r, t_currency r) (wallets s) - locked_of (t_userId r, t_currency r) (wallets s)
    \<and> (\<forall>k. balance_of k (wallets t) = balance_of k (wallets s)
      \<and> locked_of k (wallets t) = locked_of k (wallets s) + (if k = (t_userId r, t_currency r) then t_stakeMicro r else 0)
      \<and> ledger_of k (wallet_ledger t) = ledger_of k (wallet_ledger s) - (if k = (t_userId r, t_currency r) then t_stakeMicro r else 0))
    \<and> open_liability t = open_liability s + (if t_currency r = USDC then t_potentialPayoutMicro r else 0)"
  using assms(2)
proof (cases rule: place_created)
  case (1 betType stake cur user legs payout meta result)
  let ?k = "(pc_userId ctx, cur)"
  note distinct = wallets_distinct [OF books_okD(1) [OF assms(1)]]
  obtain w where w: "select_one (\<lambda>w. wallet_key w = ?k) (wallets s) = Some w" "stake \<le> w_balanceMicro w - w_lockedMicro w"
    using bet_bettor_checks_effect(5) [OF 1(3)] by blast
  have wallet: "has_wallet ?k (wallets s)" using w by (auto simp: has_wallet_iff)
  have one: "sum_where (\<lambda>w. wallet_key w = ?k) f (wallets s) = f w" for f
    using sum_where_unique [OF distinct w(1)] by simp
  have upd: "wallets t = update_where (\<lambda>w. wallet_key w = ?k) (lock_add stake now) (wallets s)"
    by (simp add: 1(7,8) booked_def)
  have sums: "balance_of k (wallets t) = balance_of k (wallets s)"
    "locked_of k (wallets t) = locked_of k (wallets s) + (if k = ?k then stake else 0)" for k
    unfolding upd using balance_of_update [OF distinct, of "lock_add stake now" 0 k ?k]
      locked_of_update [OF distinct, of "lock_add stake now" stake k ?k] wallet by simp_all
  show ?thesis
    using sums w(2) one [of w_balanceMicro] one [of w_lockedMicro] resolve_bet_cases(4,5) [OF 1(1)]
    by (auto simp: 1(7,8) booked_def balance_of_def locked_of_def ledger_of_def bet_stake_row_def open_liability_def)
qed

theorem placed_bet_locks_stake_witness:
  "\<exists>r t. place sample_bet_env 10000 ''t2'' live_single sample_ctx sample_db = (Inr (r, True), t)
     \<and> t_stakeMicro r = 20 \<and> ledger_of (t_userId r, t_currency r) (wallet_ledger t)
         = ledger_of (t_userId r, t_currency r) (wallet_ledger sample_db) - 20"
proof -
  obtain r t where run: "place sample_bet_env 10000 ''t2'' live_single sample_ctx sample_db = (Inr (r, True), t)"
    using live_single_run .
  have "big_int (pr_stakeMicro live_single) = 20" by code_simp
  then show ?thesis using run placed_bet_locks_stake [OF sample_books_ok run] by simp
qed

text \<open>A placement that answers with anything but a new ticket (a refusal, a failure, or the
  replay of its idempotency key) changes nothing but at most one line of the risk event log; a key
  that has already made a ticket never makes another: its owner gets that ticket back and anyone else
  a conflict.\<close>

theorem placement_without_ticket:
  assumes "place env now newId req ctx s = (a, t)"
  shows "((\<forall>r. a \<noteq> Inr (r, True)) \<longrightarrow>
      (\<exists>log. t = s\<lparr>riskzilla_event_log := riskzilla_event_log s @ log\<rparr> \<and> length log \<le> 1))
    \<and> (\<forall>r p. ticket_by_key (pr_idempotencyKey req) s = Some r \<and> resolve_bet env req = Inr p \<longrightarrow>
      t = s \<and> a = (if t_userId r = pc_userId ctx then Inr (r, False)
        else Inl (ConflictError ''idempotency_key_collision'' ''idempotency_key_collision'')))"
proof (intro conjI impI allI)
  assume "\<forall>r. a \<noteq> Inr (r, True)"
  then consider "t = s" | e where "t = s\<lparr>riskzilla_event_log := riskzilla_event_log s @ [e]\<rparr>"
    using place_not_created [OF assms] by blast
  then show "\<exists>log. t = s\<lparr>riskzilla_event_log := riskzilla_event_log s @ log\<rparr> \<and> length log \<le> 1"
  proof cases
    case 1
    then show ?thesis by (intro exI [of _ "[]"]) simp
  next
    case 2
    then show ?thesis by (intro exI [of _ "[e]"]) simp
  qed
next
  fix r p
  assume known: "ticket_by_key (pr_idempotencyKey req) s = Some r \<and> resolve_bet env req = Inr p"
  obtain bt stake cur where p: "p = (bt, stake, cur)" by (cases p)
  show "t = s" and "a = (if t_userId r = pc_userId ctx then Inr (r, False)
        else Inl (ConflictError ''idempotency_key_collision'' ''idempotency_key_collision''))"
    using assms known by (auto simp: p place_def place_transaction_def replay_or_collision_def run_defs bindC_def
        atomically_def returnC_def split: if_splits)
qed

text \<open>The same request sent again by the bettor who holds its ticket.\<close>

theorem placement_without_ticket_witness:
  "fst (place sample_bet_env 10000 ''t2'' (live_single\<lparr>pr_idempotencyKey := ''k1''\<rparr>) sample_ctx sample_db)
     = Inr (sample_ticket, False)"
proof -
  let ?req = "live_single\<lparr>pr_idempotencyKey := ''k1''\<rparr>"
  obtain a t where run: "place sample_bet_env 10000 ''t2'' ?req sample_ctx sample_db = (a, t)"
    by (cases "place sample_bet_env 10000 ''t2'' ?req sample_ctx sample_db")
  have "ticket_by_key (pr_idempotencyKey ?req) sample_db = Some sample_ticket"
    "resolve_bet sample_bet_env ?req = Inr (single, 20, USDC)" "t_userId sample_ticket = pc_userId sample_ctx"
    by code_simp+
  then show ?thesis using run placement_without_ticket [OF run] by simp
qed

section \<open>Legs and prices\<close>

text \<open>C23: the selections of a new ticket are the legs of the request, each on an active market of a
  match that is open, on an active outcome without a result, frozen at a price above 1; a
  combination, tiple or tippot has its legs on pairwise different matches, a builder all on one.\<close>

theorem placed_legs_are_open:
  assumes "place env now newId req ctx s = (Inr (r, True), t)"
  shows "\<exists>legs. ticket_selections t = ticket_selections s @ map (selection_row (t_id r)) legs
    \<and> map pl_sel legs = pr_selections req \<and> (\<forall>l \<in> set legs. leg_sound (be_catalog env) l)
    \<and> (t_betType r = single \<longrightarrow> length legs = 1)
    \<and> (t_betType r \<in> {combo, tiple, tippot} \<longrightarrow> 2 \<le> length legs \<and> distinct (map on_match legs))
    \<and> (t_betType r = betbuilder \<longrightarrow> 2 \<le> length legs \<and> (\<forall>l \<in> set legs. on_match l = on_match (hd legs)))"
  using assms
proof (cases rule: place_created)
  case (1 betType stake cur user legs payout meta result)
  have legs: "price_legs (be_catalog env) betType (length (pr_selections req) > 1)
      (bettor_cascade (be_catalog env) betType (pc_userId ctx)) scan_start (pr_selections req) = Inr legs"
    using 1(4) by (rule price_bet_cases)
  note sound = price_legs_sound [OF legs] and bt = resolve_bet_cases [OF 1(1)]
  have len: "length legs = length (pr_selections req)" using sound(1) by (metis length_map)
  have "distinct (map on_match legs)" if "betType \<in> {combo, tiple, tippot}"
    using price_legs_distinct legs that bt(6) by auto
  moreover have "\<forall>l \<in> set legs. on_match l = on_match (hd legs)" if "betType = betbuilder"
    using price_legs_same_match legs that by (fastforce simp: scan_start_def)
  moreover have "length legs = 1" if "betType = single"
    using bt(1,6) that len by (cases "pr_selections req") auto
  ultimately show ?thesis
    using sound(1,2) bt(6) len
    by (intro exI [of _ legs]) (auto simp: 1(7,8) booked_def)
qed

theorem placed_legs_are_open_witness:
  "\<exists>r t legs. place sample_bet_env 10000 ''t2'' two_match_combo sample_ctx sample_db = (Inr (r, True), t)
     \<and> map pl_sel legs = pr_selections two_match_combo \<and> distinct (map on_match legs)
     \<and> (\<forall>l \<in> set legs. leg_sound sample_catalog l)"
proof -
  obtain r t where run: "place sample_bet_env 10000 ''t2'' two_match_combo sample_ctx sample_db = (Inr (r, True), t)"
    "t_betType r = combo" using two_match_combo_run .
  have "be_catalog sample_bet_env = sample_catalog" by (simp add: sample_bet_env_def)
  then show ?thesis using placed_legs_are_open [OF run(1)] run by auto
qed

text \<open>C4: on a bet without boosted legs the odds the client submits decide no price: two requests that
  differ only in the submitted odds, if both are priced, have the same leg prices, the same payout and
  the same metadata.\<close>

theorem price_ignores_submitted_odds:
  assumes "price_bet env u req bt stake = Inr (legs, payout, meta)"
    and "price_bet env u (req\<lparr>pr_selections := sels\<rparr>) bt stake = Inr (legs', payout', meta')"
    and "map unquoted (pr_selections req) = map unquoted sels" and "\<forall>sel \<in> set (pr_selections req). unboosted sel"
    and "pr_selections req \<noteq> []"
  shows "map pl_num legs = map pl_num legs' \<and> map pl_str legs = map pl_str legs' \<and> payout = payout' \<and> meta = meta'"
proof -
  have len: "length sels = length (pr_selections req)" using assms(3) by (metis length_map)
  obtain cfg where one: "product_gate (be_catalog env) bt (length (pr_selections req)) = Inr cfg"
    "price_legs (be_catalog env) bt (length (pr_selections req) > 1) (bettor_cascade (be_catalog env) bt u)
       scan_start (pr_selections req) = Inr legs"
    "price_ticket env u req bt stake cfg legs = Inr (payout, meta)"
    using assms(1) by (rule price_bet_cases)
  obtain cfg' where two: "product_gate (be_catalog env) bt (length (pr_selections req)) = Inr cfg'"
    "price_legs (be_catalog env) bt (length (pr_selections req) > 1) (bettor_cascade (be_catalog env) bt u)
       scan_start sels = Inr legs'"
    "price_ticket env u (req\<lparr>pr_selections := sels\<rparr>) bt stake cfg' legs' = Inr (payout', meta')"
    using price_bet_cases [OF assms(2)] len by auto
  have cfg: "cfg' = cfg" using one(1) two(1) by simp
  have legs: "map unquoted_leg legs = map unquoted_leg legs'"
    using price_legs_unquoted [OF one(2) two(2) assms(3,4)] .
  have ne: "legs \<noteq> []" "legs' \<noteq> []"
    using price_legs_sound(1) [OF one(2)] assms(5) legs by auto
  have same: "bet_builder_payout env (req\<lparr>pr_selections := sels\<rparr>) stake ls = bet_builder_payout env req stake ls"
    "length (pr_selections (req\<lparr>pr_selections := sels\<rparr>)) = length (pr_selections req)" for ls
    by (simp_all add: bet_builder_payout_def len)
  have "price_ticket env u (req\<lparr>pr_selections := sels\<rparr>) bt stake cfg ls = price_ticket env u req bt stake cfg ls" for ls
    unfolding price_ticket_def same ..
  then have "price_ticket env u req bt stake cfg legs' = Inr (payout', meta')" using two(3) cfg by simp
  then have "Inr (payout, meta) = (Inr (payout', meta') :: failure + micro \<times> json option)"
    using one(3) price_ticket_unquoted [OF ne(1)] price_ticket_unquoted [OF ne(2)] legs by metis
  moreover have "map pl_num legs = map pl_num legs'" "map pl_str legs = map pl_str legs'"
    using arg_cong [OF legs, of "map pl_num"] arg_cong [OF legs, of "map pl_str"] by (simp_all add: comp_def)
  ultimately show ?thesis by simp
qed

text \<open>A bettor who submits 3.9 for a price of 4 is priced at 4.\<close>

theorem price_ignores_submitted_odds_witness:
  "\<exists>legs payout meta legs' payout' meta'.
     price_bet sample_bet_env ''ann'' live_single single 20 = Inr (legs, payout, meta)
   \<and> price_bet sample_bet_env ''ann'' (live_single\<lparr>pr_selections := [sample_selection ''12'' ''3.9'']\<rparr>) single 20
       = Inr (legs', payout', meta') \<and> payout = payout'"
proof -
  let ?sels = "[sample_selection ''12'' ''3.9'']"
  have "map_sum id (\<lambda>_. ()) (price_bet sample_bet_env ''ann'' live_single single 20) = Inr ()"
    "map_sum id (\<lambda>_. ()) (price_bet sample_bet_env ''ann'' (live_single\<lparr>pr_selections := ?sels\<rparr>) single 20) = Inr ()"
    by code_simp+
  then obtain legs payout meta legs' payout' meta' where
    run: "price_bet sample_bet_env ''ann'' live_single single 20 = Inr (legs, payout, meta)"
    "price_bet sample_bet_env ''ann'' (live_single\<lparr>pr_selections := ?sels\<rparr>) single 20 = Inr (legs', payout', meta')"
    by (cases "price_bet sample_bet_env ''ann'' live_single single 20";
        cases "price_bet sample_bet_env ''ann'' (live_single\<lparr>pr_selections := ?sels\<rparr>) single 20") auto
  have "map unquoted (pr_selections live_single) = map unquoted ?sels" "pr_selections live_single \<noteq> []"
    "\<forall>sel \<in> set (pr_selections live_single). unboosted sel"
    by (simp_all add: live_single_def sample_request_def sample_selection_def unquoted_def unboosted_def truthy_def)
  then show ?thesis using run price_ignores_submitted_odds [OF run] by blast
qed

text \<open>A builder ticket is made only when the session query finds the session valid for the very
  selection ids of the request, these are the canonical ids of the legs that are stored and settled (as
  a multiset), all legs are on one match, and the payout is the stake at the session odds, which are at
  least 1.01.\<close>

theorem builder_settles_what_was_priced:
  assumes "place env now newId req ctx s = (Inr (r, True), t)" and "t_betType r = betbuilder"
  shows "\<exists>b sessionInfo legs urn. pr_betBuilder req = Some b \<and> be_obb env = Some sessionInfo
    \<and> sessionInfo (bb_sessionId b) (bb_selectionIds b) (bb_expectedOddsX10000 b) = obb_status ''valid''
    \<and> ticket_selections t = ticket_selections s @ map (selection_row (t_id r)) legs
    \<and> map pl_sel legs = pr_selections req
    \<and> (\<forall>l \<in> set legs. match_urn (be_catalog env) (on_match l) = urn)
    \<and> mset (map (leg_selection_id urn) legs) = mset (bb_selectionIds b)
    \<and> (let odds = js_div (js_int (bb_expectedOddsX10000 b)) (Fin 10000) in
         \<not> js_lt odds (js_fin (101 / 100)) \<and> multiplyMicroByOdds (t_stakeMicro r) odds = Inr (t_potentialPayoutMicro r))"
  using assms(1)
proof (cases rule: place_created)
  case (1 betType stake cur user legs payout meta result)
  have bt: "betType = betbuilder" using assms(2) by (simp add: 1(7))
  obtain cfg where priced: "price_legs (be_catalog env) betbuilder (length (pr_selections req) > 1)
      (bettor_cascade (be_catalog env) betbuilder (pc_userId ctx)) scan_start (pr_selections req) = Inr legs"
    "price_ticket env (pc_userId ctx) req betbuilder stake cfg legs = Inr (payout, meta)"
    using 1(4) unfolding bt by (rule price_bet_cases)
  let ?urn = "match_urn (be_catalog env) (on_match (hd legs))"
  have same: "\<forall>l \<in> set legs. match_urn (be_catalog env) (on_match l) = ?urn"
    using price_legs_same_match [OF priced(1)] by (fastforce simp: scan_start_def)
  have pay: "bet_builder_payout env req stake legs = Inr (payout, meta)"
    using priced(2) by (auto simp: price_ticket_def split: sum.splits)
  then obtain b f where b: "pr_betBuilder req = Some b" "be_obb env = Some f"
    by (auto simp: bet_builder_payout_def split: option.splits)
  have facts: "sort (map (leg_selection_id ?urn) legs) = sort (bb_selectionIds b)"
    "f (bb_sessionId b) (bb_selectionIds b) (bb_expectedOddsX10000 b) = obb_status ''valid''"
    "\<not> js_lt (js_div (js_int (bb_expectedOddsX10000 b)) (Fin 10000)) (js_fin (101 / 100))"
    "multiplyMicroByOdds stake (js_div (js_int (bb_expectedOddsX10000 b)) (Fin 10000)) = Inr payout"
    using pay by (auto simp: bet_builder_payout_def b on_match_def Let_def split: if_splits obb_answer.splits sum.splits)
  have "mset (map (leg_selection_id ?urn) legs) = mset (bb_selectionIds b)"
    using arg_cong [OF facts(1), of mset] by simp
  with same facts(2-4) show ?thesis
    using price_legs_sound(1) [OF priced(1)] b
    by (intro exI [of _ b] exI [of _ f] exI [of _ legs] exI [of _ ?urn])
       (simp add: 1(7,8) booked_def Let_def)
qed

theorem builder_settles_what_was_priced_witness:
  "\<exists>r t legs urn. place sample_bet_env 10000 ''t2'' one_match_builder sample_ctx sample_db = (Inr (r, True), t)
     \<and> map pl_sel legs = pr_selections one_match_builder
     \<and> mset (map (leg_selection_id urn) legs) = {#''od:match:7/11/1'', ''od:match:7/13/1''#}"
proof -
  obtain r t where run: "place sample_bet_env 10000 ''t2'' one_match_builder sample_ctx sample_db = (Inr (r, True), t)"
    "t_betType r = betbuilder" using one_match_builder_run .
  have "\<forall>b. pr_betBuilder one_match_builder = Some b \<longrightarrow>
      mset (bb_selectionIds b) = {#''od:match:7/11/1'', ''od:match:7/13/1''#}"
    by (simp add: one_match_builder_def)
  then show ?thesis using run builder_settles_what_was_priced [OF run] by metis
qed

section \<open>The acceptance delay\<close>

lemma max_fold:
  "foldl (\<lambda>acc m. if f m > acc then f m else (acc :: int)) a ms = Max (insert a (set (map f ms)))"
proof (induction ms arbitrary: a)
  case (Cons m ms)
  have "foldl (\<lambda>acc m. if f m > acc then f m else acc) a (m # ms)
      = Max (insert (max (f m) a) (set (map f ms)))" by (simp add: Cons.IH max_def)
  also have "\<dots> = Max (insert a (set (map f (m # ms))))"
    by (cases "ms = []") (simp_all add: max.assoc max.commute max.left_commute)
  finally show ?case .
qed simp

text \<open>The rows of the delay table that bear on a leg, before the query narrows them down.\<close>

definition leg_delay_spec :: "catalog \<Rightarrow> market_info \<Rightarrow> int" where
  "leg_delay_spec c m = cascade_spec 0 (map (\<lambda>r. (ld_scope r, ld_delaySeconds r)) (riskzilla_live_delay_config c))
     (Some (mi_matchId m)) (Some (mi_tournamentId m)) (Some (mi_sportId m))"

lemma last_row_filter:
  assumes "\<And>r. P (f r) \<Longrightarrow> Q r"
  shows "last_row P (map (\<lambda>r. (f r, g r)) (filter Q rows)) = last_row P (map (\<lambda>r. (f r, g r)) rows)"
  using assms by (induction rows rule: rev_induct) (auto simp: last_row_snoc)

lemma leg_delay_narrow:
  assumes "m \<in> set ms"
  shows "leg_delay (load_cascade (map (\<lambda>r. (ld_scope r, ld_delaySeconds r))
      (filter (delay_row_applies ms) (riskzilla_live_delay_config c)))) m = leg_delay_spec c m"
proof -
  have "delay_row_applies ms r" if "speaks_of scope_match sr_matchId (Some (mi_matchId m)) (ld_scope r)
      \<or> speaks_of scope_tournament sr_tournamentId (Some (mi_tournamentId m)) (ld_scope r)
      \<or> speaks_of scope_sport sr_sportId (Some (mi_sportId m)) (ld_scope r) \<or> sr_scope (ld_scope r) = scope_global" for r
    using that assms by (auto simp: delay_row_applies_def speaks_of_def Let_def)
  then show ?thesis
    by (simp add: leg_delay_def leg_delay_spec_def resolve_load cascade_spec_def last_row_filter)
qed

text \<open>A ticket without a live leg is never delayed, whatever the bettor's or the operator's delay;
  with one it waits the largest of the bettor's delay and the delays the scope table gives its live
  legs, two seconds less for a live flash offer, and is accepted at once exactly when that is not
  positive.\<close>

theorem bet_acceptance_delay:
  assumes "place env now newId req ctx s = (Inr (r, True), t)"
  shows "\<exists>user legs. ticket_selections t = ticket_selections s @ map (selection_row (t_id r)) legs
    \<and> select_one (\<lambda>u. u_id u = pc_userId ctx) (users s) = Some user
    \<and> (let live = filter (\<lambda>m. mi_matchStatus m = ms_live) (map pl_market legs);
           longest = max (u_betDelaySeconds user) (Max (insert 0 (leg_delay_spec (be_catalog env) ` set live)));
           delay = (if live = [] then 0 else if pc_zillaFlashLiveBoost ctx then max 0 (longest - 2) else longest) in
         t_status r = (if 0 < delay then pending_delay else accepted)
         \<and> t_notBeforeTs r = (if 0 < delay then Some (now + delay * 1000) else None))"
  using assms
proof (cases rule: place_created)
  case (1 betType stake cur user legs payout meta result)
  have cong: "Max (insert 0 (set (map (leg_delay cs) ms))) = Max (insert 0 (leg_delay_spec (be_catalog env) ` set ms))"
    if "\<And>m. m \<in> set ms \<Longrightarrow> leg_delay cs m = leg_delay_spec (be_catalog env) m" for cs ms
    using that by (simp cong: image_cong)
  have "live_cascade_delay (be_catalog env) ms = Max (insert 0 (leg_delay_spec (be_catalog env) ` set ms))" for ms
    unfolding live_cascade_delay_def Let_def max_fold by (rule cong) (rule leg_delay_narrow)
  then show ?thesis
    using bet_bettor_checks_effect(2) [OF 1(3)]
    by (intro exI [of _ user] exI [of _ legs])
       (simp add: 1(7,8) booked_def effective_delay_def live_legs_def Let_def less_max_iff_disj)
qed

theorem bet_acceptance_delay_witness:
  "\<exists>r t. place sample_bet_env 10000 ''t2'' live_single sample_ctx sample_db = (Inr (r, True), t)
     \<and> t_status r = pending_delay \<and> t_notBeforeTs r \<noteq> None"
proof -
  obtain r t where run: "place sample_bet_env 10000 ''t2'' live_single sample_ctx sample_db = (Inr (r, True), t)"
    "t_status r = pending_delay" using live_single_run .
  then show ?thesis using bet_acceptance_delay [OF run(1)] by (auto simp: Let_def split: if_splits)
qed

end
