(* ===== verification/Accounts.thy ===== *)
theory Accounts
  imports Payments
begin

text \<open>
  User accounts: modules/admin/users.ts (create, patch, delete, adjust a
  balance, notes), the account part of signing up (modules/auth/service.ts,
  modules/email/enqueue.ts) and the profile routes of modules/users/routes.ts.
  Password hashing, the digest of tokens and the email syntax check are library
  functions and parameters.
\<close>

section \<open>Parameters\<close>

record account_env =
  ac_isEmail :: "string \<Rightarrow> bool"
  ac_hashPassword :: "string \<Rightarrow> string"
  ac_sha256 :: "string \<Rightarrow> string"
  ac_baseUrl :: string

section \<open>Validation\<close>

definition is_letter :: "char \<Rightarrow> bool" where
  "is_letter c \<longleftrightarrow> (let n = of_char c :: nat in (65 \<le> n \<and> n \<le> 90) \<or> (97 \<le> n \<and> n \<le> 122))"

definition country_ok :: "string option \<Rightarrow> bool" where
  "country_ok c = (case c of None \<Rightarrow> True | Some t \<Rightarrow> length t = 2 \<and> list_all is_letter t)"

definition opt_between :: "nat \<Rightarrow> nat \<Rightarrow> string option \<Rightarrow> bool" where
  "opt_between lo hi v = (case v of None \<Rightarrow> True | Some t \<Rightarrow> str_between lo hi t)"

record create_body =
  nb_email :: string
  nb_password :: string
  nb_displayName :: "string option"
  nb_countryCode :: "string option"
  nb_role :: "user_role option"
  nb_status :: "user_status option"
  nb_globalLimitMicro :: "string option"
  nb_betDelaySeconds :: "int option"

definition parse_createBody :: "account_env \<Rightarrow> create_body \<Rightarrow> failure + unit" where
  "parse_createBody env b =
    (if \<not> ac_isEmail env (nb_email b) \<or> length (nb_email b) > 320 then Inl (ZodError ''email'')
     else if \<not> str_between 8 256 (nb_password b) then Inl (ZodError ''password'')
     else if \<not> opt_between 1 64 (nb_displayName b) then Inl (ZodError ''displayName'')
     else if \<not> country_ok (nb_countryCode b) then Inl (ZodError ''countryCode'')
     else if \<not> (case nb_globalLimitMicro b of None \<Rightarrow> True | Some t \<Rightarrow> is_digits t) then Inl (ZodError ''globalLimitMicro'')
     else if \<not> (case nb_betDelaySeconds b of None \<Rightarrow> True | Some d \<Rightarrow> 0 \<le> d \<and> d \<le> 300)
       then Inl (ZodError ''betDelaySeconds'')
     else Inr ())"

section \<open>Creating an account\<close>

fun show_role :: "user_role \<Rightarrow> string" where
  "show_role user_r = ''user''"
| "show_role admin_r = ''admin''"
| "show_role support_r = ''support''"

fun show_status :: "user_status \<Rightarrow> string" where
  "show_status active = ''active''"
| "show_status blocked = ''blocked''"
| "show_status pending_kyc = ''pending_kyc''"

datatype account_namespace = bettor_ns | admin_ns

fun rolesForNamespace :: "account_namespace \<Rightarrow> user_role list" where
  "rolesForNamespace admin_ns = [admin_r, support_r]"
| "rolesForNamespace bettor_ns = [user_r]"

text \<open>The subdomain a request came to decides which accounts it can reach.\<close>

definition has_prefix :: "string \<Rightarrow> string \<Rightarrow> bool" where
  "has_prefix p t \<longleftrightarrow> take (length p) t = p"

definition accountNamespaceFromRequest :: "string option \<Rightarrow> string option \<Rightarrow> account_namespace" where
  "accountNamespaceFromRequest forwardedHost hostHeader =
    (let host = js_trim (takeWhile (\<lambda>c. c \<noteq> CHR '','') (case forwardedHost of
           Some h \<Rightarrow> h | None \<Rightarrow> (case hostHeader of Some h \<Rightarrow> h | None \<Rightarrow> [])));
         hostname = to_lower (takeWhile (\<lambda>c. c \<noteq> CHR '':'') host) in
     if list_ex (\<lambda>p. has_prefix p hostname) [''sadmin.'', ''admin.''] then admin_ns else bettor_ns)"

text \<open>An account with this email in this namespace; the column compares without case.\<close>

definition find_account :: "string \<Rightarrow> user_role list \<Rightarrow> db \<Rightarrow> users_row option" where
  "find_account email roles s =
     select_one (\<lambda>r. to_lower (u_email r) = to_lower email \<and> u_role r \<in> set roles) (users s)"

definition new_user :: "millis \<Rightarrow> uuid \<Rightarrow> string \<Rightarrow> string \<Rightarrow> string option \<Rightarrow> string option \<Rightarrow> users_row" where
  "new_user now newId email passwordHash displayName countryCode =
    \<lparr>u_id = newId, u_email = email, u_passwordHash = passwordHash, u_status = active, u_role = user_r,
     u_kycStatus = kyc_none, u_countryCode = countryCode, u_globalLimitMicro = 0, u_betDelaySeconds = 0,
     u_displayName = displayName, u_riskScore = ''1.000'', u_sportOrder = None, u_hiddenSports = None,
     u_emailVerifiedAt = None, u_notes = None, u_labels = [], u_updatedAt = now, u_lastLoginAt = None\<rparr>"

definition new_wallet :: "millis \<Rightarrow> uuid \<Rightarrow> currency \<Rightarrow> micro \<Rightarrow> wallets_row" where
  "new_wallet now userId cur balance = \<lparr>w_userId = userId, w_currency = cur, w_balanceMicro = balance,
     w_lockedMicro = 0, w_updatedAt = now\<rparr>"

definition create_user ::
  "account_env \<Rightarrow> millis \<Rightarrow> string option \<Rightarrow> uuid \<Rightarrow> authed_user option \<Rightarrow> create_body \<Rightarrow> users_row dbtx" where
  "create_user env now ip newId ru body =
    bindT (liftE (requireRole admin_r ru)) (\<lambda>admin.
    thenT (liftE (parse_createBody env body)) (
    let email = to_lower (nb_email body);
        role = (case nb_role body of None \<Rightarrow> user_r | Some r \<Rightarrow> r);
        dupNamespaceRoles = (if role = user_r then [user_r] else [admin_r, support_r]) in
    bindT (getT (find_account email dupNamespaceRoles)) (\<lambda>dup.
    thenT (throwIf (dup \<noteq> None) (ConflictError ''email_in_use'' ''email_in_use'')) (
    let u = (new_user now newId email (ac_hashPassword env (nb_password body)) (nb_displayName body)
              (map_option to_upper (nb_countryCode body)))
            \<lparr>u_status := (case nb_status body of None \<Rightarrow> active | Some t \<Rightarrow> t), u_role := role,
             u_globalLimitMicro := (case nb_globalLimitMicro body of None \<Rightarrow> 0 | Some t \<Rightarrow> big_int t),
             u_betDelaySeconds := (case nb_betDelaySeconds body of None \<Rightarrow> 0 | Some d \<Rightarrow> d)\<rparr> in
    thenT (insert_user u) (
    thenT (insert_wallet_once (new_wallet now newId USDC 0)) (
    thenT (insert_audit (audit_entry (ru_id admin) ''user.create'' ''user'' newId []
      [(''email'', JStr (u_email u)), (''role'', JStr (show_role (u_role u))),
       (''status'', JStr (show_status (u_status u))),
       (''globalLimitMicro'', JStr (show_int (u_globalLimitMicro u))),
       (''betDelaySeconds'', JNum (u_betDelaySeconds u))] ip)) (
    returnT u)))))))"

section \<open>Signing up\<close>

definition SIGNUP_BONUS_OZ_MICRO :: micro where "SIGNUP_BONUS_OZ_MICRO = 1000000000"
definition VERIFY_TTL_MS :: millis where "VERIFY_TTL_MS = 24 * 60 * 60 * 1000"
definition RESET_TTL_MS :: millis where "RESET_TTL_MS = 30 * 60 * 1000"

record signup_body =
  sb_email :: string
  sb_password :: string
  sb_displayName :: "string option"
  sb_countryCode :: "string option"
  sb_deviceId :: "string option"

definition parse_signupBody :: "account_env \<Rightarrow> signup_body \<Rightarrow> failure + unit" where
  "parse_signupBody env b =
    (if \<not> ac_isEmail env (sb_email b) \<or> length (sb_email b) > 320 then Inl (ZodError ''email'')
     else if \<not> str_between 8 256 (sb_password b) then Inl (ZodError ''password'')
     else if \<not> opt_between 1 64 (sb_displayName b) then Inl (ZodError ''displayName'')
     else if \<not> country_ok (sb_countryCode b) then Inl (ZodError ''countryCode'')
     else if \<not> opt_between 0 64 (sb_deviceId b) then Inl (ZodError ''deviceId'')
     else Inr ())"

text \<open>A token row and the mail that carries the raw token; the raw token is URL-safe text.\<close>

definition verify_token_row :: "account_env \<Rightarrow> millis \<Rightarrow> uuid \<Rightarrow> string \<Rightarrow> users_row \<Rightarrow> mail_token_row" where
  "verify_token_row env now tokenId raw u = \<lparr>mt_id = tokenId, mt_userId = u_id u, mt_tokenHash = ac_sha256 env raw,
     mt_expiresAt = now + VERIFY_TTL_MS, mt_usedAt = None, mt_requestedIp = None\<rparr>"

definition verify_mail :: "account_env \<Rightarrow> uuid \<Rightarrow> string \<Rightarrow> users_row \<Rightarrow> email_outbox_row" where
  "verify_mail env tokenId raw u = \<lparr>eo_kind = ''verify_email'', eo_userId = Some (u_id u), eo_toAddress = u_email u,
     eo_subject = ''Confirm your Oddzilla email'',
     eo_payload = JObj [(''url'', JStr (ac_baseUrl env @ ''/verify-email?token='' @ raw)),
       (''displayName'', json_opt (u_displayName u))],
     eo_dedupKey = Some (''verify_email:'' @ tokenId)\<rparr>"

definition reset_token_row :: "account_env \<Rightarrow> millis \<Rightarrow> string option \<Rightarrow> uuid \<Rightarrow> string \<Rightarrow> users_row \<Rightarrow> mail_token_row" where
  "reset_token_row env now requestedIp tokenId raw u = \<lparr>mt_id = tokenId, mt_userId = u_id u,
     mt_tokenHash = ac_sha256 env raw, mt_expiresAt = now + RESET_TTL_MS, mt_usedAt = None, mt_requestedIp = requestedIp\<rparr>"

definition reset_mail :: "account_env \<Rightarrow> string option \<Rightarrow> uuid \<Rightarrow> string \<Rightarrow> users_row \<Rightarrow> email_outbox_row" where
  "reset_mail env requestedIp tokenId raw u = \<lparr>eo_kind = ''password_reset'', eo_userId = Some (u_id u), eo_toAddress = u_email u,
     eo_subject = ''Reset your Oddzilla password'',
     eo_payload = JObj [(''url'', JStr (ac_baseUrl env @ ''/reset-password?token='' @ raw)),
       (''displayName'', json_opt (u_displayName u)), (''expiresIn'', JStr ''30 minutes''),
       (''requestedIp'', json_opt requestedIp)],
     eo_dedupKey = Some (''password_reset:'' @ tokenId)\<rparr>"

text \<open>Inside the transaction of a signup.\<close>

definition enqueueVerifyEmail ::
  "account_env \<Rightarrow> millis \<Rightarrow> uuid \<Rightarrow> string \<Rightarrow> users_row \<Rightarrow> unit dbtx" where
  "enqueueVerifyEmail env now tokenId raw u =
    thenT (insert_verification_token (verify_token_row env now tokenId raw u)) (
    insert_outbox (verify_mail env tokenId raw u))"

definition signup_bonus_row :: "uuid \<Rightarrow> wallet_ledger_row" where
  "signup_bonus_row userId = \<lparr>l_userId = userId, l_currency = OZ, l_deltaMicro = SIGNUP_BONUS_OZ_MICRO,
     l_type = adjustment, l_refType = Some ''signup_bonus'', l_refId = Some userId, l_txHash = None,
     l_memo = Some ''demo OZ signup bonus''\<rparr>"

definition signup_account ::
  "account_env \<Rightarrow> millis \<Rightarrow> uuid \<Rightarrow> uuid \<Rightarrow> string \<Rightarrow> signup_body \<Rightarrow> users_row dbtx" where
  "signup_account env now newId tokenId rawToken body =
    bindT (getT (find_account (to_lower (sb_email body)) (rolesForNamespace bettor_ns))) (\<lambda>existing.
    thenT (throwIf (existing \<noteq> None) (ConflictError ''email_in_use'' ''email_in_use'')) (
    let u = new_user now newId (to_lower (sb_email body)) (ac_hashPassword env (sb_password body))
              (sb_displayName body) (map_option to_upper (sb_countryCode body)) in
    thenT (insert_user u) (
    thenT (insert_wallet_once (new_wallet now newId USDC 0)) (
    thenT (insert_wallet_once (new_wallet now newId OZ SIGNUP_BONUS_OZ_MICRO)) (
    thenT (insert_ledger_once (signup_bonus_row newId)) (
    thenT (enqueueVerifyEmail env now tokenId rawToken u) (
    returnT u)))))))"

section \<open>Changing an account\<close>

definition normalizeLabels :: "string list \<Rightarrow> string list" where
  "normalizeLabels input = filter (\<lambda>l. l \<in> set input) BETTOR_LABELS"

record patch_body =
  pa_status :: "user_status option"
  pa_role :: "user_role option"
  pa_globalLimitMicro :: "string option"
  pa_betDelaySeconds :: "int option"
  pa_labels :: "string list option"

definition parse_patchBody :: "patch_body \<Rightarrow> failure + unit" where
  "parse_patchBody b =
    (if \<not> (case pa_globalLimitMicro b of None \<Rightarrow> True | Some t \<Rightarrow> is_digits t) then Inl (ZodError ''globalLimitMicro'')
     else if \<not> (case pa_betDelaySeconds b of None \<Rightarrow> True | Some d \<Rightarrow> 0 \<le> d \<and> d \<le> 300)
       then Inl (ZodError ''betDelaySeconds'')
     else if \<not> (case pa_labels b of None \<Rightarrow> True
         | Some ls \<Rightarrow> set ls \<subseteq> set BETTOR_LABELS \<and> length ls \<le> length BETTOR_LABELS) then Inl (ZodError ''labels'')
     else Inr ())"

text \<open>What an operator may not change of the own account.\<close>

definition self_guard :: "patch_body \<Rightarrow> failure option" where
  "self_guard b =
    (if pa_role b \<noteq> None \<and> pa_role b \<noteq> Some admin_r then Some (bad ''cannot_demote_self'')
     else if pa_status b \<noteq> None \<and> pa_status b \<noteq> Some active then Some (bad ''cannot_block_self'')
     else if pa_globalLimitMicro b \<noteq> None then Some (bad ''cannot_self_edit_limit'')
     else if pa_betDelaySeconds b \<noteq> None then Some (bad ''cannot_self_edit_bet_delay'')
     else None)"

definition patched :: "patch_body \<Rightarrow> users_row \<Rightarrow> users_row" where
  "patched b r = r\<lparr>
     u_status := (case pa_status b of None \<Rightarrow> u_status r | Some t \<Rightarrow> t),
     u_role := (case pa_role b of None \<Rightarrow> u_role r | Some t \<Rightarrow> t),
     u_globalLimitMicro := (case pa_globalLimitMicro b of None \<Rightarrow> u_globalLimitMicro r | Some t \<Rightarrow> big_int t),
     u_betDelaySeconds := (case pa_betDelaySeconds b of None \<Rightarrow> u_betDelaySeconds r | Some d \<Rightarrow> d),
     u_labels := (case pa_labels b of None \<Rightarrow> u_labels r
       | Some ls \<Rightarrow> if normalizeLabels ls = normalizeLabels (u_labels r) then u_labels r else normalizeLabels ls)\<rparr>"

text \<open>The audit record: the columns whose value changes.\<close>

definition patch_diff :: "users_row \<Rightarrow> users_row \<Rightarrow> (users_row \<Rightarrow> (string \<times> json) list)" where
  "patch_diff old new r =
    (if u_status new \<noteq> u_status old then [(''status'', JStr (show_status (u_status r)))] else [])
    @ (if u_role new \<noteq> u_role old then [(''role'', JStr (show_role (u_role r)))] else [])
    @ (if u_globalLimitMicro new \<noteq> u_globalLimitMicro old
       then [(''globalLimitMicro'', JStr (show_int (u_globalLimitMicro r)))] else [])
    @ (if u_betDelaySeconds new \<noteq> u_betDelaySeconds old then [(''betDelaySeconds'', JNum (u_betDelaySeconds r))] else [])
    @ (if u_labels new \<noteq> u_labels old then [(''labels'', JArr (map JStr (normalizeLabels (u_labels r))))] else [])"

definition live_session_of :: "uuid \<Rightarrow> sessions_row \<Rightarrow> bool" where
  "live_session_of userId r \<longleftrightarrow> se_userId r = userId \<and> se_revokedAt r = None"

text \<open>\<^verbatim>\<open>update sessions set revoked_at where ... returning id\<close>.\<close>

definition revoke_sessions :: "millis \<Rightarrow> (sessions_row \<Rightarrow> bool) \<Rightarrow> uuid list dbtx" where
  "revoke_sessions now P =
    bindT (getT (\<lambda>s. map se_id (filter P (sessions s)))) (\<lambda>ids.
    thenT (update_sessions P (\<lambda>r. r\<lparr>se_revokedAt := Some now\<rparr>)) (
    returnT ids))"

text \<open>The sessions it revoked are cached as revoked after the commit.\<close>

definition patch_user ::
  "millis \<Rightarrow> string option \<Rightarrow> authed_user option \<Rightarrow> uuid \<Rightarrow> patch_body \<Rightarrow> uuid list dbtx" where
  "patch_user now ip ru i body =
    bindT (liftE (requireRole admin_r ru)) (\<lambda>admin.
    thenT (liftE (parse_patchBody body)) (
    thenT (throwIf (pa_status body = None \<and> pa_role body = None \<and> pa_globalLimitMicro body = None
      \<and> pa_betDelaySeconds body = None \<and> pa_labels body = None) (bad ''no_changes'')) (
    thenT (case self_guard body of None \<Rightarrow> returnT () | Some e \<Rightarrow> throwIf (i = ru_id admin) e) (
    bindT (getT (\<lambda>s. select_one (\<lambda>r. u_id r = i) (users s))) (\<lambda>hit.
    bindT (someOr (NotFoundError ''user_not_found'' ''user_not_found'') hit) (\<lambda>existing.
    let new_row = patched body existing in
    thenT (throwIf (patch_diff existing new_row new_row = []) (bad ''no_changes'')) (
    let revokeSessions = (u_status new_row \<noteq> u_status existing \<and> pa_status body \<noteq> Some active)
          \<or> u_role new_row \<noteq> u_role existing in
    thenT (update_users (\<lambda>r. u_id r = i) (\<lambda>r. (patched body r)\<lparr>u_updatedAt := now\<rparr>)) (
    thenT (insert_audit (audit_entry (ru_id admin) ''user.update'' ''user'' i
      (patch_diff existing new_row existing) (patch_diff existing new_row new_row) ip)) (
    if revokeSessions then revoke_sessions now (live_session_of i) else returnT [])))))))))"

definition put_notes ::
  "millis \<Rightarrow> string option \<Rightarrow> authed_user option \<Rightarrow> uuid \<Rightarrow> string \<Rightarrow> bool dbtx" where
  "put_notes now ip ru i notes =
    bindT (liftE (requireRole admin_r ru)) (\<lambda>admin.
    thenT (throwIf (length notes > 4000) (ZodError ''notes'')) (
    let normalised = (if js_trim notes = [] then None else Some notes) in
    bindT (getT (\<lambda>s. select_one (\<lambda>r. u_id r = i) (users s))) (\<lambda>hit.
    bindT (someOr (NotFoundError ''user_not_found'' ''user_not_found'') hit) (\<lambda>existing.
    if u_notes existing = normalised then returnT False
    else
      thenT (update_users (\<lambda>r. u_id r = i) (\<lambda>r. r\<lparr>u_notes := normalised, u_updatedAt := now\<rparr>)) (
      thenT (insert_audit (audit_entry (ru_id admin) ''user.notes_update'' ''user'' i
        [(''notes'', json_opt (u_notes existing))]
        [(''notes'', json_opt normalised), (''targetEmail'', JStr (u_email existing))] ip)) (
      returnT True))))))"

section \<open>The own profile (modules/users/routes.ts)\<close>

text \<open>\<^verbatim>\<open>update users ... where id = u.id returning; if (!updated) throw NotFound\<close>.\<close>

definition update_me :: "authed_user option \<Rightarrow> (users_row \<Rightarrow> users_row) \<Rightarrow> users_row dbtx" where
  "update_me ru f =
    bindT (liftE (requireAuth ru)) (\<lambda>u.
    bindT (getT (\<lambda>s. select_one (\<lambda>r. u_id r = ru_id u) (users s))) (\<lambda>hit.
    thenT (update_users (\<lambda>r. u_id r = ru_id u) f) (
    bindT (someOr (NotFoundError ''Not found'' ''not_found'') hit) (\<lambda>old.
    returnT (f old)))))"

definition patch_me ::
  "millis \<Rightarrow> authed_user option \<Rightarrow> string option option \<Rightarrow> string option option \<Rightarrow> users_row dbtx" where
  "patch_me now ru displayName countryCode =
    bindT (liftE (requireAuth ru)) (\<lambda>u.
    thenT (throwIf (\<not> opt_between 1 64 (Option.bind displayName id)) (ZodError ''displayName'')) (
    thenT (throwIf (\<not> country_ok (Option.bind countryCode id)) (ZodError ''countryCode'')) (
    thenT (throwIf (displayName = None \<and> countryCode = None) (bad ''no_changes'')) (
    update_me ru (\<lambda>r. r\<lparr>
      u_displayName := (case displayName of None \<Rightarrow> u_displayName r | Some v \<Rightarrow> v),
      u_countryCode := (case countryCode of None \<Rightarrow> u_countryCode r | Some v \<Rightarrow> map_option to_upper v),
      u_updatedAt := now\<rparr>)))))"

definition is_slug :: "string \<Rightarrow> bool" where
  "is_slug t \<longleftrightarrow> str_between 1 64 t \<and> list_all (\<lambda>c. is_digit c \<or> c = CHR ''-''
     \<or> (97 \<le> (of_char c :: nat) \<and> (of_char c :: nat) \<le> 122)) t"

definition slugs_ok :: "string list option \<Rightarrow> bool" where
  "slugs_ok v = (case v of None \<Rightarrow> True | Some xs \<Rightarrow> list_all is_slug xs \<and> length xs \<le> 100)"

definition put_sport_order :: "millis \<Rightarrow> authed_user option \<Rightarrow> string list option \<Rightarrow> users_row dbtx" where
  "put_sport_order now ru order =
    bindT (liftE (requireAuth ru)) (\<lambda>u.
    thenT (throwIf (\<not> slugs_ok order) (ZodError ''order'')) (
    update_me ru (\<lambda>r. r\<lparr>u_sportOrder := map_option array_from_set order, u_updatedAt := now\<rparr>)))"

definition put_hidden_sports :: "millis \<Rightarrow> authed_user option \<Rightarrow> string list option \<Rightarrow> users_row dbtx" where
  "put_hidden_sports now ru hidden =
    bindT (liftE (requireAuth ru)) (\<lambda>u.
    thenT (throwIf (\<not> slugs_ok hidden) (ZodError ''hidden'')) (
    update_me ru (\<lambda>r. r\<lparr>u_hiddenSports := (case map_option array_from_set hidden of
        Some (x # xs) \<Rightarrow> Some (x # xs) | _ \<Rightarrow> None), u_updatedAt := now\<rparr>)))"

section \<open>Deleting an account\<close>

text \<open>The foreign keys that refuse to lose a user, on the modelled tables.\<close>

definition user_referenced :: "uuid \<Rightarrow> db \<Rightarrow> bool" where
  "user_referenced i s \<longleftrightarrow>
     list_ex (\<lambda>r. t_userId r = i) (tickets s) \<or> list_ex (\<lambda>r. l_userId r = i) (wallet_ledger s)
   \<or> list_ex (\<lambda>r. d_userId r = i) (deposits s) \<or> list_ex (\<lambda>r. di_userId r = i) (deposit_intents s)
   \<or> list_ex (\<lambda>r. wd_userId r = i \<or> wd_approvedByUserId r = Some i \<or> wd_submittedByUserId r = Some i
       \<or> wd_confirmedByUserId r = Some i) (withdrawals s)
   \<or> list_ex (\<lambda>r. sp_userId r = i) (slotzilla_spins s) \<or> list_ex (\<lambda>r. c_userId r = i) (cashouts s)
   \<or> list_ex (\<lambda>r. ev_userId r = i) (riskzilla_event_log s)
   \<or> list_ex (\<lambda>r. bl_actorUserId r = Some i) (bank_ledger s)
   \<or> list_ex (\<lambda>r. au_actorUserId r = i) (admin_audit_log s)"

text \<open>The rows that go with the user, and the references that become NULL.\<close>

definition forget :: "uuid \<Rightarrow> uuid option \<Rightarrow> uuid option" where
  "forget i v = (if v = Some i then None else v)"

definition forget_user :: "uuid \<Rightarrow> db \<Rightarrow> db" where
  "forget_user i s = s\<lparr>
     users := filter (\<lambda>r. u_id r \<noteq> i) (users s),
     sessions := filter (\<lambda>r. se_userId r \<noteq> i) (sessions s),
     email_verification_tokens := filter (\<lambda>r. mt_userId r \<noteq> i) (email_verification_tokens s),
     password_reset_tokens := filter (\<lambda>r. mt_userId r \<noteq> i) (password_reset_tokens s),
     email_outbox := filter (\<lambda>r. eo_userId r \<noteq> Some i) (email_outbox s),
     user_wallet_addresses := filter (\<lambda>r. a_userId r \<noteq> i) (user_wallet_addresses s),
     deposit_intents := map (\<lambda>r. r\<lparr>di_acknowledgedByUserId := forget i (di_acknowledgedByUserId r)\<rparr>) (deposit_intents s),
     unattributed_deposits :=
       map (\<lambda>r. r\<lparr>ud_acknowledgedByUserId := forget i (ud_acknowledgedByUserId r)\<rparr>) (unattributed_deposits s),
     bank_state := (bank_state s)\<lparr>bank_updatedBy := forget i (bank_updatedBy (bank_state s))\<rparr>,
     slotzilla_games := map (\<lambda>r. r\<lparr>g_pausedBy := forget i (g_pausedBy r)\<rparr>) (slotzilla_games s),
     slotzilla_config := (slotzilla_config s)\<lparr>sc_updatedBy := forget i (sc_updatedBy (slotzilla_config s))\<rparr>,
     slotzilla_paytables := map (\<lambda>r. r\<lparr>pt_updatedBy := forget i (pt_updatedBy r)\<rparr>) (slotzilla_paytables s)\<rparr>"

definition delete_users :: "uuid \<Rightarrow> unit dbtx" where
  "delete_users i s = (if user_referenced i s then Inl (PgError ''23503'' ''users_id_fkey'') else Inr ((), forget_user i s))"

definition financial_history :: "uuid \<Rightarrow> db \<Rightarrow> bool" where
  "financial_history i s \<longleftrightarrow>
     count_where (\<lambda>r. t_userId r = i) (tickets s) > 0 \<or> count_where (\<lambda>r. l_userId r = i) (wallet_ledger s) > 0
   \<or> count_where (\<lambda>r. d_userId r = i) (deposits s) > 0 \<or> count_where (\<lambda>r. wd_userId r = i) (withdrawals s) > 0
   \<or> sum_where (\<lambda>w. w_userId w = i) w_balanceMicro (wallets s) \<noteq> 0"

definition delete_user :: "string option \<Rightarrow> authed_user option \<Rightarrow> uuid \<Rightarrow> unit dbtx" where
  "delete_user ip ru i =
    bindT (liftE (requireRole admin_r ru)) (\<lambda>admin.
    thenT (throwIf (i = ru_id admin) (bad ''cannot_delete_self'')) (
    bindT (getT (\<lambda>s. select_one (\<lambda>r. u_id r = i) (users s))) (\<lambda>hit.
    bindT (someOr (NotFoundError ''user_not_found'' ''user_not_found'') hit) (\<lambda>existing.
    bindT (getT (financial_history i)) (\<lambda>hasHistory.
    thenT (throwIf hasHistory (ConflictError ''user_has_financial_history'' ''user_has_financial_history'')) (
    thenT (insert_audit (audit_entry (ru_id admin) ''user.delete'' ''user'' i
      [(''email'', JStr (u_email existing)), (''role'', JStr (show_role (u_role existing))),
       (''status'', JStr (show_status (u_status existing)))] [] ip)) (
    thenT (delete_wallets (\<lambda>w. w_userId w = i)) (
    delete_users i))))))))"

section \<open>Adjusting a balance\<close>

record adjust_body =
  ab_currency :: string
  ab_deltaMicro :: string
  ab_reason :: string

fun is_signed_digits :: "string \<Rightarrow> bool" where
  "is_signed_digits [] = False"
| "is_signed_digits (c # cs) = (if c = CHR ''-'' then is_digits cs else is_digits (c # cs))"

fun big_signed :: "string \<Rightarrow> int" where
  "big_signed [] = 0"
| "big_signed (c # cs) = (if c = CHR ''-'' then - big_int cs else big_int (c # cs))"

definition parse_adjustBody :: "adjust_body \<Rightarrow> failure + currency" where
  "parse_adjustBody b = (case isCurrency (ab_currency b) of
     None \<Rightarrow> Inl (ZodError ''currency'')
   | Some cur \<Rightarrow>
       if \<not> is_signed_digits (ab_deltaMicro b) then Inl (ZodError ''deltaMicro'')
       else if \<not> str_between 3 500 (ab_reason b) then Inl (ZodError ''reason'')
       else Inr cur)"

definition MAX_DELTA_MICRO :: micro where "MAX_DELTA_MICRO = 1000000000000"

definition wallet_adjust_row :: "uuid \<Rightarrow> currency \<Rightarrow> micro \<Rightarrow> uuid \<Rightarrow> string \<Rightarrow> wallet_ledger_row" where
  "wallet_adjust_row userId cur delta adjustmentId reason =
    \<lparr>l_userId = userId, l_currency = cur, l_deltaMicro = delta, l_type = adjustment,
     l_refType = Some ''admin_adjustment'', l_refId = Some adjustmentId, l_txHash = None, l_memo = Some reason\<rparr>"

definition adjust_balance ::
  "millis \<Rightarrow> string option \<Rightarrow> uuid \<Rightarrow> authed_user option \<Rightarrow> uuid \<Rightarrow> adjust_body \<Rightarrow> uuid dbtx" where
  "adjust_balance now ip adjustmentId ru i body =
    bindT (requireBalanceEditAdmin ru) (\<lambda>admin.
    bindT (liftE (parse_adjustBody body)) (\<lambda>cur.
    let delta = big_signed (ab_deltaMicro body) in
    thenT (throwIf (delta = 0) (bad ''delta_zero'')) (
    thenT (throwIf (delta > MAX_DELTA_MICRO \<or> delta < - MAX_DELTA_MICRO)
      (BadRequestError ''delta_too_large: split into multiple smaller adjustments'' ''delta_too_large'')) (
    bindT (getT (\<lambda>s. select_one (\<lambda>r. u_id r = i) (users s))) (\<lambda>hit.
    bindT (someOr (NotFoundError ''user_not_found'' ''user_not_found'') hit) (\<lambda>target.
    bindT (getT (\<lambda>s. select_one (\<lambda>w. wallet_key w = (i, cur)) (wallets s))) (\<lambda>w.
    bindT (someOr (NotFoundError ''wallet_not_found'' ''wallet_not_found'') w) (\<lambda>wallet.
    let newBalance = w_balanceMicro wallet + delta in
    thenT (throwIf (newBalance < 0) (bad ''would_go_negative'')) (
    thenT (throwIf (newBalance < w_lockedMicro wallet) (bad ''would_violate_locked'')) (
    thenT (update_wallets (\<lambda>w. wallet_key w = (i, cur)) (\<lambda>w. w\<lparr>w_balanceMicro := newBalance, w_updatedAt := now\<rparr>)) (
    thenT (insert_ledger_once (wallet_adjust_row i cur delta adjustmentId (ab_reason body))) (
    thenT (insert_audit (audit_entry admin ''wallet.adjust'' ''user'' i
      [(''currency'', JStr (ab_currency body)), (''balanceMicro'', JStr (show_int (w_balanceMicro wallet)))]
      [(''currency'', JStr (ab_currency body)), (''balanceMicro'', JStr (show_int newBalance)),
       (''deltaMicro'', JStr (show_int delta)), (''reason'', JStr (ab_reason body)),
       (''adjustmentId'', JStr adjustmentId), (''targetEmail'', JStr (u_email target))] ip)) (
    returnT adjustmentId)))))))))))))"

end
