(* ===== verification/Bank.thy ===== *)
theory Bank
  imports Accounts Sample
begin

text \<open>
  modules/admin/riskzilla/bank.ts: the operator's bank, its limit and the
  recomputation of both of its counters.  The seeded row always exists, so the
  defensive insert is not modelled.
\<close>

definition BANK_ADMIN_EMAIL :: string where "BANK_ADMIN_EMAIL = ''q1qooo@gmail.com''"

definition requireBankAdmin :: "uuid \<Rightarrow> unit dbtx" where
  "requireBankAdmin userId =
    bindT (getT (\<lambda>s. select_one (\<lambda>r. u_id r = userId) (users s))) (\<lambda>hit.
    bindT (someOr (ForbiddenError ''Forbidden'' ''forbidden'') hit) (\<lambda>row.
    throwIf (to_lower (u_email row) \<noteq> BANK_ADMIN_EMAIL) (ForbiddenError ''bank_admin_only'' ''bank_admin_only'')))"

text \<open>What all wallets of a currency hold free and locked.\<close>

definition loadUserBalances :: "currency \<Rightarrow> db \<Rightarrow> micro \<times> micro" where
  "loadUserBalances cur s =
    (sum_where (\<lambda>w. w_currency w = cur) (\<lambda>w. w_balanceMicro w - w_lockedMicro w) (wallets s),
     sum_where (\<lambda>w. w_currency w = cur) w_lockedMicro (wallets s))"

definition rowToDto :: "bank_state_row \<Rightarrow> micro \<times> micro \<Rightarrow> (string \<times> json) list" where
  "rowToDto row balances = (case balances of (available, locked) \<Rightarrow>
    [(''bankLimitMicro'', JStr (show_int (bankLimitMicro row))),
     (''openLiabilityMicro'', JStr (show_int (openLiabilityMicro row))),
     (''userBalancesMicro'', JStr (show_int available)), (''userLockedMicro'', JStr (show_int locked)),
     (''freeCapacityMicro'', JStr (show_int (bankLimitMicro row - available - openLiabilityMicro row))),
     (''updatedAt'', JNum (bank_updatedAt row)), (''updatedBy'', json_opt (bank_updatedBy row))])"

record bank_body =
  bb_setMicro :: "string option"
  bb_deltaMicro :: "string option"
  bb_memo :: string

definition parse_bankBody :: "bank_body \<Rightarrow> failure + unit" where
  "parse_bankBody b =
    (if \<not> (case bb_setMicro b of None \<Rightarrow> True | Some t \<Rightarrow> is_digits t) then Inl (ZodError ''setMicro'')
     else if \<not> (case bb_deltaMicro b of None \<Rightarrow> True | Some t \<Rightarrow> is_signed_digits t) then Inl (ZodError ''deltaMicro'')
     else if \<not> str_between 1 500 (bb_memo b) then Inl (ZodError ''memo'')
     else Inr ())"

definition next_limit :: "bank_body \<Rightarrow> micro \<Rightarrow> micro" where
  "next_limit b limit = (case bb_setMicro b of
     Some t \<Rightarrow> big_int t
   | None \<Rightarrow> limit + (case bb_deltaMicro b of None \<Rightarrow> 0 | Some t \<Rightarrow> big_signed t))"

text \<open>The row is read before the transaction, without a lock; the transaction writes what was computed from it.\<close>

definition bank_limit_tx ::
  "millis \<Rightarrow> string option \<Rightarrow> authed_user \<Rightarrow> bank_body \<Rightarrow> bank_state_row \<Rightarrow> micro \<times> micro \<Rightarrow> bank_state_row dbtx" where
  "bank_limit_tx now ip admin body before balances =
    (let nextLimit = next_limit body (bankLimitMicro before); delta = nextLimit - bankLimitMicro before in
    thenT (throwIf (nextLimit < 0) (bad ''bank_limit_cannot_go_negative'')) (
    thenT (update_bank (\<lambda>b. b\<lparr>bankLimitMicro := nextLimit, bank_updatedBy := Some (ru_id admin), bank_updatedAt := now\<rparr>)) (
    bindT (getT bank_state) (\<lambda>updated.
    thenT (insert_bank_ledger \<lparr>bl_deltaMicro = delta, bl_type = manual_adjust, bl_refType = Some ''admin'',
      bl_refId = None, bl_actorUserId = Some (ru_id admin), bl_memo = Some (bb_memo body)\<rparr>) (
    thenT (insert_audit (audit_entry (ru_id admin) ''riskzilla.bank.limit_update'' ''riskzilla_bank_state'' ''default''
      (rowToDto before balances) (rowToDto updated balances) ip)) (
    returnT updated))))))"

definition put_bank_limit ::
  "millis \<Rightarrow> string option \<Rightarrow> authed_user option \<Rightarrow> bank_body \<Rightarrow> bank_state_row dbtx" where
  "put_bank_limit now ip ru body =
    bindT (liftE (requireRole admin_r ru)) (\<lambda>admin.
    thenT (requireBankAdmin (ru_id admin)) (
    thenT (liftE (parse_bankBody body)) (
    thenT (throwIf ((bb_setMicro body = None) = (bb_deltaMicro body = None)) (bad ''set_or_delta_required'')) (
    bindT (getT bank_state) (\<lambda>before.
    bindT (getT (loadUserBalances USDC)) (\<lambda>balances.
    bank_limit_tx now ip admin body before balances))))))"

text \<open>The rows that stand for money on the operator's accounts.\<close>

definition counts_for_bank :: "bank_ledger_row \<Rightarrow> bool" where
  "counts_for_bank r \<longleftrightarrow> bl_type r \<in> {seed, deposit_credit, withdrawal_debit}
     \<or> (bl_type r = manual_adjust \<and> bl_refType r \<noteq> Some ''ticket'')"

definition bank_ledger_total :: "bank_ledger_row list \<Rightarrow> micro" where
  "bank_ledger_total rs = sum_where counts_for_bank bl_deltaMicro rs"

definition open_ticket_payouts :: "db \<Rightarrow> micro" where
  "open_ticket_payouts s = sum_where (\<lambda>r. t_status r \<in> {accepted, pending_delay} \<and> t_currency r = USDC)
     t_potentialPayoutMicro (tickets s)"

definition recompute_bank :: "millis \<Rightarrow> string option \<Rightarrow> authed_user option \<Rightarrow> bank_state_row dbtx" where
  "recompute_bank now ip ru =
    bindT (liftE (requireRole admin_r ru)) (\<lambda>admin.
    thenT (requireBankAdmin (ru_id admin)) (
    bindT (getT bank_state) (\<lambda>before.
    bindT (getT (loadUserBalances USDC)) (\<lambda>balances.
    bindT (getT open_ticket_payouts) (\<lambda>nextOpen.
    bindT (getT (\<lambda>s. bank_ledger_total (bank_ledger s))) (\<lambda>nextBankRaw.
    thenT (update_bank (\<lambda>b. b\<lparr>openLiabilityMicro := nextOpen, bankLimitMicro := (if nextBankRaw < 0 then 0 else nextBankRaw),
      bank_updatedBy := Some (ru_id admin), bank_updatedAt := now\<rparr>)) (
    bindT (getT bank_state) (\<lambda>updated.
    thenT (insert_audit (audit_entry (ru_id admin) ''riskzilla.bank.recompute'' ''riskzilla_bank_state'' ''default''
      (rowToDto before balances) (rowToDto updated balances) ip)) (
    returnT updated)))))))))"

end
