(* ===== verification/Accounts_Books.thy ===== *)
theory Accounts_Books
  imports Accounts Bank
begin

text \<open>
  The account and bank operations keep the books: opening an account adds empty
  locks, an adjustment moves a balance and its ledger together, and deleting an
  account can only drop wallets that hold no lock, because the rows that hold
  one refuse to lose their user.
\<close>

section \<open>Steps that leave the open entities alone\<close>

lemma books_money_frame:
  assumes ok: "books_ok s" and schema: "schema_ok t"
    and locked: "\<And>k. locked_of k (wallets t) = locked_of k (wallets s)"
    and same: "withdrawals t = withdrawals s" "tickets t = tickets s" "slotzilla_spins t = slotzilla_spins s"
      "openLiabilityMicro (bank_state t) = openLiabilityMicro (bank_state s)"
    and credited: "credited_ids s \<subseteq> credited_ids t"
    and ledger: "set (wallet_ledger t) \<subseteq> insert l (set (wallet_ledger s))" "pred_option (ref_ok t) (ledger_key l)"
  shows "books_ok t"
proof (rule books_okI [OF schema])
  show "locks_ok t" using books_okD(2) [OF ok] locked same(1-3) by (rule locks_ok_frame)
  show "liability_ok t" using books_okD(3) [OF ok] by (simp add: liability_ok_def open_liability_def same)
  show "refs_ok t"
    by (rule refs_ok_add [OF books_okD(4) [OF ok] _ ledger]) (simp add: entities_le_def same credited)
qed

text \<open>A ledger row that refers to no entity; steps that book none use it too.\<close>

abbreviation unbound_row :: "wallet_ledger_row \<Rightarrow> bool" where
  "unbound_row l \<equiv> l_type l = adjustment"

lemma unbound_ref_ok: "unbound_row l \<Longrightarrow> pred_option (ref_ok t) (ledger_key l)"
  by (auto simp: ledger_key_def ref_ok.simps split: option.splits)

lemma unbound_signup [simp]: "unbound_row (signup_bonus_row i)"
  by (simp add: signup_bonus_row_def)

lemma unbound_adjust [simp]: "unbound_row (wallet_adjust_row i cur d a why)"
  by (simp add: wallet_adjust_row_def)

lemma books_same_ledger:
  assumes "books_ok s" "schema_ok t" "\<And>k. locked_of k (wallets t) = locked_of k (wallets s)"
    "withdrawals t = withdrawals s" "tickets t = tickets s" "slotzilla_spins t = slotzilla_spins s"
    "openLiabilityMicro (bank_state t) = openLiabilityMicro (bank_state s)"
    "credited_ids s \<subseteq> credited_ids t" "wallet_ledger t = wallet_ledger s"
  shows "books_ok t"
  using assms(1-8) by (rule books_money_frame) (auto simp: assms(9) intro: unbound_ref_ok [of "signup_bonus_row undefined"])

lemma books_book_unbound:
  assumes "books_ok s" "schema_ok t" "\<And>k. locked_of k (wallets t) = locked_of k (wallets s)"
    "withdrawals t = withdrawals s" "tickets t = tickets s" "slotzilla_spins t = slotzilla_spins s"
    "openLiabilityMicro (bank_state t) = openLiabilityMicro (bank_state s)"
    "deposit_intents t = deposit_intents s" "wallet_ledger t = book_once l (wallet_ledger s)" "unbound_row l"
  shows "books_ok t"
  using assms(1-7)
  by (rule books_money_frame [where l = l]) (auto simp: assms(8,9) dest: book_once_set intro!: unbound_ref_ok assms(10))

lemma locked_of_open_once [simp]: "w_lockedMicro w = 0 \<Longrightarrow> locked_of k (open_once w ws) = locked_of k ws"
  by (simp add: locked_of_def open_once_def)

lemma locked_of_same_update:
  assumes "\<And>w. wallet_key (f w) = wallet_key w \<and> w_lockedMicro (f w) = w_lockedMicro w"
  shows "locked_of k (update_where P f ws) = locked_of k ws"
  unfolding locked_of_def using assms by (subst sum_where_update_same) auto

section \<open>Opening and changing accounts\<close>

lemma schema_account_ops [keeps_intros]:
  "keeps schema_ok (create_user env now ip newId ru cb)"
  "keeps schema_ok (signup_account env now newId tokenId raw sb)"
  "keeps schema_ok (patch_user now ip ru i pb)"
  "keeps schema_ok (put_notes now ip ru i notes)"
  "keeps schema_ok (update_me ru f)"
  "keeps schema_ok (adjust_balance now ip adjustmentId ru i ab)"
  unfolding create_user_def signup_account_def enqueueVerifyEmail_def patch_user_def revoke_sessions_def
    put_notes_def update_me_def adjust_balance_def requireBalanceEditAdmin_def Let_def
  by (intro keeps_intros)+

lemma schema_profile_ops [keeps_intros]:
  "keeps schema_ok (patch_me now ru name country)"
  "keeps schema_ok (put_sport_order now ru order)"
  "keeps schema_ok (put_hidden_sports now ru hidden)"
  unfolding patch_me_def put_sport_order_def put_hidden_sports_def
  by (intro keeps_intros)+

lemma new_wallet_simps [simp]:
  "w_lockedMicro (new_wallet now i cur b) = 0" "wallet_key (new_wallet now i cur b) = (i, cur)"
  "w_balanceMicro (new_wallet now i cur b) = b"
  by (simp_all add: new_wallet_def wallet_key_def)

text \<open>A step that only moves the account tables.\<close>

lemma books_create_user: "keeps books_ok (create_user env now ip newId ru body)"
proof (rule keepsI)
  fix s x t
  assume ok: "books_ok s" and step: "create_user env now ip newId ru body s = Inr (x, t)"
  from ok step have "schema_ok t" by (auto intro: keepsD [OF schema_account_ops(1)] dest: books_okD)
  with step show "books_ok t"
    unfolding create_user_def Let_def
    by (auto simp: step_simps intro!: books_same_ledger [OF ok])
qed

lemma books_signup: "keeps books_ok (signup_account env now newId tokenId raw body)"
proof (rule keepsI)
  fix s x t
  assume ok: "books_ok s" and step: "signup_account env now newId tokenId raw body s = Inr (x, t)"
  from ok step have "schema_ok t" by (auto intro: keepsD [OF schema_account_ops(2)] dest: books_okD)
  with step show "books_ok t"
    unfolding signup_account_def enqueueVerifyEmail_def Let_def
    by (auto simp: step_simps intro!: books_book_unbound [OF ok, where l = "signup_bonus_row newId"])
qed

text \<open>The tables of the books.\<close>

abbreviation same_books :: "db \<Rightarrow> db \<Rightarrow> bool" where
  "same_books s t \<equiv> wallets t = wallets s \<and> wallet_ledger t = wallet_ledger s \<and> withdrawals t = withdrawals s
     \<and> tickets t = tickets s \<and> slotzilla_spins t = slotzilla_spins s \<and> bank_state t = bank_state s
     \<and> deposit_intents t = deposit_intents s"

lemma same_books_ok: "books_ok s \<Longrightarrow> schema_ok t \<Longrightarrow> same_books s t \<Longrightarrow> books_ok t"
  by (rule books_frame) auto

lemma same_books_statements [keeps_intros]:
  "keeps (same_books s) (update_users P1 f1)" "keeps (same_books s) (insert_user r1)"
  "keeps (same_books s) (update_sessions P2 f2)" "keeps (same_books s) (insert_session r2)"
  "keeps (same_books s) (update_verification_tokens P3 f3)" "keeps (same_books s) (insert_verification_token r3)"
  "keeps (same_books s) (update_reset_tokens P4 f4)" "keeps (same_books s) (insert_reset_token r4)"
  "keeps (same_books s) (insert_outbox r5)" "keeps (same_books s) (insert_audit a)"
  by (auto simp: step_simps intro!: keepsI)

lemma books_of_same:
  assumes "keeps schema_ok m" and "\<And>s. keeps (same_books s) m"
  shows "keeps books_ok m"
proof (rule keepsI)
  fix s x t
  assume ok: "books_ok s" and run: "m s = Inr (x, t)"
  from keepsD [OF assms(1) books_okD(1) [OF ok] run] keepsD [OF assms(2) _ run, of s]
  show "books_ok t" by (intro same_books_ok [OF ok]) simp_all
qed

lemma same_books_account_ops [keeps_intros]:
  "keeps (same_books s) (patch_user now ip ru i pb)"
  "keeps (same_books s) (put_notes now ip ru i notes)"
  "keeps (same_books s) (update_me ru f)"
  "keeps (same_books s) (revoke_sessions now P)"
  unfolding patch_user_def revoke_sessions_def put_notes_def update_me_def Let_def
  by (intro keeps_intros)+

lemma same_books_profile_ops [keeps_intros]:
  "keeps (same_books s) (patch_me now ru name country)"
  "keeps (same_books s) (put_sport_order now ru order)"
  "keeps (same_books s) (put_hidden_sports now ru hidden)"
  unfolding patch_me_def put_sport_order_def put_hidden_sports_def
  by (intro keeps_intros)+

lemma books_account_ops [keeps_intros]:
  "keeps books_ok (create_user env now ip newId ru cb)"
  "keeps books_ok (signup_account env now newId tokenId raw sb)"
  "keeps books_ok (patch_user now ip ru i pb)"
  "keeps books_ok (put_notes now ip ru i notes)"
  "keeps books_ok (patch_me now ru name country)"
  "keeps books_ok (put_sport_order now ru order)"
  "keeps books_ok (put_hidden_sports now ru hidden)"
  by (rule books_create_user books_signup | intro books_of_same keeps_intros)+

section \<open>Moving money by hand\<close>

lemma adjust_balance_effect:
  assumes "adjust_balance now ip adjustmentId ru i body s = Inr (x, t)"
  obtains u cur target wallet a where
    "ru = Some u" "ru_role u = admin_r" "parse_adjustBody body = Inr cur"
    "big_signed (ab_deltaMicro body) \<noteq> 0"
    "- MAX_DELTA_MICRO \<le> big_signed (ab_deltaMicro body)" "big_signed (ab_deltaMicro body) \<le> MAX_DELTA_MICRO"
    "select_one (\<lambda>r. u_id r = i) (users s) = Some target"
    "select_one (\<lambda>w. wallet_key w = (i, cur)) (wallets s) = Some wallet"
    "0 \<le> w_balanceMicro wallet + big_signed (ab_deltaMicro body)"
    "w_lockedMicro wallet \<le> w_balanceMicro wallet + big_signed (ab_deltaMicro body)"
    "t = s\<lparr>wallets := update_where (\<lambda>w. wallet_key w = (i, cur))
         (\<lambda>w. w\<lparr>w_balanceMicro := w_balanceMicro wallet + big_signed (ab_deltaMicro body), w_updatedAt := now\<rparr>) (wallets s),
       wallet_ledger := book_once (wallet_adjust_row i cur (big_signed (ab_deltaMicro body)) adjustmentId (ab_reason body))
         (wallet_ledger s),
       admin_audit_log := admin_audit_log s @ [a]\<rparr>"
proof -
  from assms show thesis
    unfolding adjust_balance_def Let_def
    by (clarsimp simp: step_simps not_less) (rule that, (assumption | simp)+)
qed

lemma books_adjust_balance [keeps_intros]: "keeps books_ok (adjust_balance now ip adjustmentId ru i body)"
proof (rule keepsI)
  fix s x t
  assume ok: "books_ok s" and step: "adjust_balance now ip adjustmentId ru i body s = Inr (x, t)"
  from ok step have "schema_ok t" by (auto intro: keepsD [OF schema_account_ops(6)] dest: books_okD)
  with step show "books_ok t"
    by (elim adjust_balance_effect)
       (auto simp: wallet_key_def intro!: books_book_unbound [OF ok] locked_of_same_update)
qed

lemma put_bank_limit_effect:
  assumes "put_bank_limit now ip ru body s = Inr (x, t)"
  obtains u a where
    "ru = Some u" "ru_role u = admin_r" "parse_bankBody body = Inr ()"
    "(bb_setMicro body = None) = (bb_deltaMicro body \<noteq> None)"
    "0 \<le> next_limit body (bankLimitMicro (bank_state s))" "x = bank_state t"
    "t = s\<lparr>bank_state := (bank_state s)\<lparr>bankLimitMicro := next_limit body (bankLimitMicro (bank_state s)),
         bank_updatedBy := Some (ru_id u), bank_updatedAt := now\<rparr>,
       bank_ledger := bank_ledger s @ [\<lparr>bl_deltaMicro = next_limit body (bankLimitMicro (bank_state s))
           - bankLimitMicro (bank_state s), bl_type = manual_adjust, bl_refType = Some ''admin'', bl_refId = None,
         bl_actorUserId = Some (ru_id u), bl_memo = Some (bb_memo body)\<rparr>],
       admin_audit_log := admin_audit_log s @ [a]\<rparr>"
proof -
  from assms show thesis
    unfolding put_bank_limit_def bank_limit_tx_def requireBankAdmin_def Let_def
    by (clarsimp simp: step_simps not_less) (rule that, (assumption | simp)+)
qed

lemma books_put_bank_limit [keeps_intros]: "keeps books_ok (put_bank_limit now ip ru body)"
proof (rule keepsI)
  fix s x t
  assume ok: "books_ok s" and step: "put_bank_limit now ip ru body s = Inr (x, t)"
  have "keeps schema_ok (put_bank_limit now ip ru body)"
    unfolding put_bank_limit_def bank_limit_tx_def requireBankAdmin_def Let_def by (intro keeps_intros)
  with ok step have "schema_ok t" by (auto dest: books_okD intro: keepsD)
  with step show "books_ok t"
    by (elim put_bank_limit_effect) (auto intro!: books_same_ledger [OF ok])
qed

section \<open>Deleting an account\<close>

lemma delete_users_Inr [step_simps]:
  "delete_users i s = Inr (u, t) \<longleftrightarrow> \<not> user_referenced i s \<and> t = forget_user i s"
  by (auto simp: delete_users_def)

text \<open>Rows can be dropped, and columns no constraint reads can change.\<close>

lemma table_ok_filter:
  assumes "table_ok viol uniq rs" and "uniq rs = None \<Longrightarrow> uniq (filter P rs) = None"
  shows "table_ok viol uniq (filter P rs)"
  using assms by (auto simp: table_ok_def list_all_iff)

lemma table_ok_map:
  assumes "table_ok viol uniq rs" and "\<And>r. viol (f r) = viol r" and "uniq (map f rs) = uniq rs"
  shows "table_ok viol uniq (map f rs)"
  using assms by (auto simp: table_ok_def list_all_iff)

lemma distinct_map_filter_partial:
  "distinct (List.map_filter key rs) \<Longrightarrow> distinct (List.map_filter key (filter P rs))"
  by (induction rs) (force simp: map_filter_simps List.map_filter_def split: option.splits)+

lemmas drop_rows = table_ok_filter distinct_map_filter_key distinct_map_filter_partial

lemma filter_tables_ok:
  "table_ok users_viol users_uniq us \<Longrightarrow> table_ok users_viol users_uniq (filter P1 us)"
  "table_ok no_viol sessions_uniq ss \<Longrightarrow> table_ok no_viol sessions_uniq (filter P2 ss)"
  "table_ok (tokens_viol n) (tokens_uniq n) ts \<Longrightarrow> table_ok (tokens_viol n) (tokens_uniq n) (filter P3 ts)"
  "table_ok no_viol outbox_uniq os \<Longrightarrow> table_ok no_viol outbox_uniq (filter P4 os)"
  "table_ok addresses_viol addresses_uniq as \<Longrightarrow> table_ok addresses_viol addresses_uniq (filter P5 as)"
  "table_ok wallets_viol wallets_uniq ws \<Longrightarrow> table_ok wallets_viol wallets_uniq (filter P6 ws)"
  by (erule table_ok_filter,
      simp add: users_uniq_def sessions_uniq_def tokens_uniq_def outbox_uniq_def addresses_uniq_def wallets_uniq_def
        distinct_map_filter_key distinct_map_filter_partial)+

lemma map_tables_ok:
  "table_ok deposit_intents_viol deposit_intents_uniq ds \<Longrightarrow>
     table_ok deposit_intents_viol deposit_intents_uniq (map (\<lambda>r. r\<lparr>di_acknowledgedByUserId := g1 r\<rparr>) ds)"
  "table_ok no_viol unattributed_uniq us \<Longrightarrow>
     table_ok no_viol unattributed_uniq (map (\<lambda>r. r\<lparr>ud_acknowledgedByUserId := g2 r\<rparr>) us)"
  "table_ok games_viol games_uniq gs \<Longrightarrow> table_ok games_viol games_uniq (map (\<lambda>r. r\<lparr>g_pausedBy := g3 r\<rparr>) gs)"
  "table_ok paytables_viol paytables_uniq ps \<Longrightarrow>
     table_ok paytables_viol paytables_uniq (map (\<lambda>r. r\<lparr>pt_updatedBy := g4 r\<rparr>) ps)"
  by (erule table_ok_map, simp add: deposit_intents_viol_def no_viol_def games_viol_def paytables_viol_def,
      simp add: deposit_intents_uniq_def unattributed_uniq_def games_uniq_def paytables_uniq_def uniq_on_def uniq_partial_def
        comp_def List.map_filter_def filter_map)+

lemma schema_forget_user: "schema_ok s \<Longrightarrow> schema_ok (forget_user i s)"
  by (simp add: schema_ok_def forget_user_def filter_tables_ok map_tables_ok bank_viol_def config_viol_def)

lemma no_obligations:
  assumes "\<not> user_referenced i s"
  shows "obligations (i, cur) s = 0"
proof -
  have "filter (\<lambda>r. (wd_userId r, USDC) = (i, cur) \<and> wd_open r) (withdrawals s) = []"
    "filter (\<lambda>r. (t_userId r, t_currency r) = (i, cur) \<and> t_open r) (tickets s) = []"
    "filter (\<lambda>r. (sp_userId r, sp_currency r) = (i, cur) \<and> sp_open r) (slotzilla_spins s) = []"
    using assms by (auto simp: user_referenced_def list_ex_iff filter_empty_conv)
  then show ?thesis
    by (simp add: obligations_def open_withdrawals_def open_stakes_def open_spin_stakes_def sum_where_def)
qed

lemma locked_of_drop:
  "locked_of k (filter (\<lambda>w. w_userId w \<noteq> i) ws) = (if fst k = i then 0 else locked_of k ws)"
  unfolding locked_of_def sum_where_def filter_filter
  by (cases k) (auto simp: wallet_key_def intro!: arg_cong [where f = "\<lambda>xs. sum_list (map w_lockedMicro xs)"] filter_cong)

lemma delete_user_effect:
  assumes "delete_user ip ru i s = Inr (x, t)"
  obtains u existing a where "ru = Some u" "ru_role u = admin_r" "ru_id u \<noteq> i"
    "select_one (\<lambda>r. u_id r = i) (users s) = Some existing" "\<not> financial_history i s" "\<not> user_referenced i s"
    "t = forget_user i (s\<lparr>admin_audit_log := admin_audit_log s @ [a],
       wallets := filter (\<lambda>w. w_userId w \<noteq> i) (wallets s)\<rparr>)"
proof -
  from assms show thesis
    unfolding delete_user_def
    by (clarsimp simp: step_simps user_referenced_def) (rule that, (assumption | simp add: user_referenced_def)+)
qed

lemma forget_user_same [simp]:
  "wallets (forget_user i s) = wallets s" "wallet_ledger (forget_user i s) = wallet_ledger s"
  "withdrawals (forget_user i s) = withdrawals s" "tickets (forget_user i s) = tickets s"
  "slotzilla_spins (forget_user i s) = slotzilla_spins s" "bank_ledger (forget_user i s) = bank_ledger s"
  "openLiabilityMicro (bank_state (forget_user i s)) = openLiabilityMicro (bank_state s)"
  "bankLimitMicro (bank_state (forget_user i s)) = bankLimitMicro (bank_state s)"
  by (simp_all add: forget_user_def)

lemma credited_ids_forget [simp]: "credited_ids (forget_user i s) = credited_ids s"
  by (simp add: forget_user_def ids_where_def filter_map comp_def)

lemma locked_of_deleted:
  assumes "books_ok s" and "\<not> user_referenced i s"
  shows "locked_of k (filter (\<lambda>w. w_userId w \<noteq> i) (wallets s)) = locked_of k (wallets s)"
proof (cases "fst k = i")
  case True
  then have "locked_of k (wallets s) = 0"
    using locks_okD [OF books_okD(2) [OF assms(1)]] no_obligations [OF assms(2)] by (cases k) simp
  then show ?thesis using True by (simp add: locked_of_drop)
qed (simp add: locked_of_drop)

lemma books_delete_user [keeps_intros]: "keeps books_ok (delete_user ip ru i)"
proof (rule keepsI)
  fix s x t
  assume ok: "books_ok s" and step: "delete_user ip ru i s = Inr (x, t)"
  from step show "books_ok t"
  proof (rule delete_user_effect)
    fix u existing a
    assume free: "\<not> user_referenced i s"
      and t: "t = forget_user i (s\<lparr>admin_audit_log := admin_audit_log s @ [a],
       wallets := filter (\<lambda>w. w_userId w \<noteq> i) (wallets s)\<rparr>)"
    have "schema_ok t"
      unfolding t using books_okD(1) [OF ok]
      by (intro schema_forget_user) (simp add: schema_ok_def filter_tables_ok)
    then show ?thesis
      by (rule books_same_ledger [OF ok]) (simp_all add: t locked_of_deleted [OF ok free])
  qed
qed

section \<open>The bank and its ledger\<close>

text \<open>
  The limit is the sum of the rows that count, and a row that stands for a
  deposit or a withdrawal exists only once that has happened.
\<close>

fun bank_ref_ok :: "db \<Rightarrow> bank_ledger_type \<times> string \<times> string \<Rightarrow> bool" where
  "bank_ref_ok s (ty, rt, i) \<longleftrightarrow>
     (ty = deposit_credit \<and> rt = ''deposit_intent'' \<longrightarrow> i \<in> credited_ids s)
   \<and> (ty = withdrawal_debit \<and> rt = ''withdrawal'' \<longrightarrow> i \<in> confirmed_ids s)"

declare bank_ref_ok.simps [simp del]

definition bank_ok :: "db \<Rightarrow> bool" where
  "bank_ok s \<longleftrightarrow> bankLimitMicro (bank_state s) = bank_ledger_total (bank_ledger s)
     \<and> (\<forall>l \<in> set (bank_ledger s). \<forall>k. bank_ledger_key l = Some k \<longrightarrow> bank_ref_ok s k)"

text \<open>A step that moves neither.\<close>

definition bank_idle :: "db \<Rightarrow> db \<Rightarrow> bool" where
  "bank_idle s t \<longleftrightarrow> bankLimitMicro (bank_state t) = bankLimitMicro (bank_state s) \<and> bank_ledger t = bank_ledger s
     \<and> credited_ids s \<subseteq> credited_ids t \<and> confirmed_ids s \<subseteq> confirmed_ids t"

lemma bank_ref_mono:
  "credited_ids s \<subseteq> credited_ids t \<Longrightarrow> confirmed_ids s \<subseteq> confirmed_ids t \<Longrightarrow> bank_ref_ok s k \<Longrightarrow> bank_ref_ok t k"
  by (cases k) (auto simp: bank_ref_ok.simps)

lemma bank_idle_ok: "bank_ok s \<Longrightarrow> bank_idle s t \<Longrightarrow> bank_ok t"
  unfolding bank_ok_def bank_idle_def by (metis bank_ref_mono)

lemma bank_ledger_total_append [simp]:
  "bank_ledger_total (ls @ [l]) = bank_ledger_total ls + (if counts_for_bank l then bl_deltaMicro l else 0)"
  by (simp add: bank_ledger_total_def)

text \<open>Booking a movement that was not booked before.\<close>

lemma bank_ok_book:
  assumes ok: "bank_ok s" and key: "bank_ledger_key l = Some k" "\<not> bank_ref_ok s k" "bank_ref_ok t k"
    and l: "counts_for_bank l"
    and t: "bank_ledger t = bank_book_once l (bank_ledger s)"
      "bankLimitMicro (bank_state t) = bankLimitMicro (bank_state s) + bl_deltaMicro l"
    and mono: "credited_ids s \<subseteq> credited_ids t" "confirmed_ids s \<subseteq> confirmed_ids t"
  shows "bank_ok t"
proof -
  have "\<not> bank_ledger_conflict l (bank_ledger s)"
    using ok key(1,2) by (cases k) (auto simp: bank_ledger_conflict_def list_ex_iff bank_ok_def)
  then have ledger: "bank_ledger t = bank_ledger s @ [l]" by (simp add: t bank_book_once_def)
  show ?thesis
    unfolding bank_ok_def ledger
    using ok l key t(2) bank_ref_mono [OF mono] by (auto simp: bank_ok_def)
qed

lemma bank_put_limit:
  assumes "put_bank_limit now ip ru body s = Inr (x, t)" and "bank_ok s"
  shows "bank_ok t"
  using assms(1)
proof (rule put_bank_limit_effect)
  fix u a
  assume t: "t = s\<lparr>bank_state := (bank_state s)\<lparr>bankLimitMicro := next_limit body (bankLimitMicro (bank_state s)),
         bank_updatedBy := Some (ru_id u), bank_updatedAt := now\<rparr>,
       bank_ledger := bank_ledger s @ [\<lparr>bl_deltaMicro = next_limit body (bankLimitMicro (bank_state s))
           - bankLimitMicro (bank_state s), bl_type = manual_adjust, bl_refType = Some ''admin'', bl_refId = None,
         bl_actorUserId = Some (ru_id u), bl_memo = Some (bb_memo body)\<rparr>],
       admin_audit_log := admin_audit_log s @ [a]\<rparr>"
  have "bank_ref_ok t k = bank_ref_ok s k" for k by (cases k) (simp add: bank_ref_ok.simps t)
  then show ?thesis using assms(2) by (auto simp: bank_ok_def t counts_for_bank_def bank_ledger_key_def)
qed

end
