(* ===== verification/Bank_Ledger.thy ===== *)
theory Bank_Ledger
  imports Accounts_Books
begin

text \<open>
  The payment calls move the bank limit and the bank ledger together: a credited
  deposit and a confirmed withdrawal are the only ones that move either, and
  each is booked once.
\<close>

lemma confirmed_ids_payment:
  assumes "run_payment env now ru c s = Inr (x, t)" and "schema_ok s"
  shows "confirmed_ids s \<subseteq> confirmed_ids t"
  using assms(1)
proof (cases rule: withdrawals_of_payment)
  case (3 i row f)
  then have "f r = f row \<and> wd_status r \<noteq> confirmed" if "r \<in> set (withdrawals s)" "wd_id r = i" for r
    using select_one_unique [OF withdrawals_distinct [OF assms(2)] 3(1) that]
    by (auto simp: wd_moves_def elim: wd_step.cases)
  moreover have "wd_id (f row) = i" using 3(1,3) by (auto simp: wd_moves_def dest: select_one_SomeD)
  ultimately show ?thesis unfolding 3(2) by (intro ids_where_update) simp
qed auto

lemma credited_ids_reject:
  assumes "reject_deposit now ip ru i reason s = Inr (x, t)" and "schema_ok s"
  shows "credited_ids s \<subseteq> credited_ids t"
  using assms(1)
proof (rule reject_deposit_effect)
  fix u row a
  assume row: "select_one (\<lambda>r. di_id r = i) (deposit_intents s) = Some row" "di_status row \<noteq> di_credited"
    and t: "t = s\<lparr>deposit_intents := update_where (\<lambda>r. di_id r = i)
          (\<lambda>r. r\<lparr>di_status := di_rejected, di_failureReason := Some reason,
                 di_rejectedAt := Some now\<rparr>) (deposit_intents s),
       admin_audit_log := admin_audit_log s @ [a]\<rparr>"
  note uniq = select_one_unique [OF deposit_intents_distinct [OF assms(2)] row(1)]
  show ?thesis unfolding t using row(2) by (auto dest: uniq intro!: ids_where_update [THEN subsetD])
qed

text \<open>What the two payments book.\<close>

lemma credit_manual_bank:
  assumes "credit_manual now ip ru i body s = Inr (x, t)"
  obtains b row where
    "select_one (\<lambda>r. di_id r = i) (deposit_intents s) = Some row" "di_status row \<noteq> di_credited"
    "bl_deltaMicro b = big_int (cb_amountMicro body)" "bl_type b = deposit_credit"
    "bl_refType b = Some ''deposit_intent''" "bl_refId b = Some i"
    "bank_ledger t = bank_book_once b (bank_ledger s)"
    "bankLimitMicro (bank_state t) = bankLimitMicro (bank_state s) + big_int (cb_amountMicro body)"
proof -
  have i: "di_id row = i" if "select_one (\<lambda>r. di_id r = i) (deposit_intents s) = Some row" for row
    using that by (auto dest: select_one_SomeD)
  from assms show thesis
    unfolding credit_manual_def Let_def
    by (clarsimp simp: step_simps) (rule that, assumption, assumption, auto dest: i)
qed

lemma mark_confirmed_bank:
  assumes "mark_confirmed now ip ru i h s = Inr (x, t)"
  obtains b row where
    "select_one (\<lambda>r. wd_id r = i) (withdrawals s) = Some row" "wd_status row = submitted"
    "bl_deltaMicro b = - wd_amountMicro row" "bl_type b = withdrawal_debit"
    "bl_refType b = Some ''withdrawal''" "bl_refId b = Some i"
    "bank_ledger t = bank_book_once b (bank_ledger s)"
    "bankLimitMicro (bank_state t) = bankLimitMicro (bank_state s) - wd_amountMicro row"
    "i \<in> confirmed_ids t"
proof -
  have i: "wd_id row = i \<and> row \<in> set (withdrawals s)"
    if "select_one (\<lambda>r. wd_id r = i) (withdrawals s) = Some row" for row
    using that by (auto dest: select_one_SomeD)
  from assms show thesis
    unfolding mark_confirmed_def Let_def
    apply (clarsimp simp: step_simps validateTxHash_def split: if_splits)
    apply (rule that)
    apply assumption
    apply assumption
    apply (auto dest!: i simp: ids_where_def in_set_update_where image_iff)
    done
qed

lemma bank_credit_manual:
  assumes step: "credit_manual now ip ru i body s = Inr (x, t)" and ok: "schema_ok s" "bank_ok s"
  shows "bank_ok t"
proof -
  from step obtain b row where b:
    "select_one (\<lambda>r. di_id r = i) (deposit_intents s) = Some row" "di_status row \<noteq> di_credited"
    "bl_deltaMicro b = big_int (cb_amountMicro body)" "bl_type b = deposit_credit"
    "bl_refType b = Some ''deposit_intent''" "bl_refId b = Some i"
    "bank_ledger t = bank_book_once b (bank_ledger s)"
    "bankLimitMicro (bank_state t) = bankLimitMicro (bank_state s) + big_int (cb_amountMicro body)"
    by (rule credit_manual_bank)
  have eff: "i \<in> credited_ids t \<and> credited_ids s \<subseteq> credited_ids t \<and> withdrawals t = withdrawals s"
    using step
  proof (rule credit_manual_effect)
    fix u row' amount memo b a f
    assume row': "select_one (\<lambda>r. di_id r = i) (deposit_intents s) = Some row'"
      and f: "\<And>r. di_id (f r) = di_id r \<and> di_userId (f r) = di_userId r \<and> di_status (f r) = di_credited
        \<and> di_amountMicro (f r) = Some amount"
      and t: "t = s\<lparr>deposit_intents := update_where (\<lambda>r. di_id r = i) f (deposit_intents s),
       wallets := update_where (\<lambda>w. wallet_key w = (di_userId row', USDC)) (credit_wallet amount now)
         (wallets s),
       wallet_ledger := book_once (deposit_ledger_row row' USDC amount memo) (wallet_ledger s),
       bank_ledger := bank_book_once b (bank_ledger s),
       bank_state := (bank_state s)\<lparr>bankLimitMicro := bankLimitMicro (bank_state s) + amount,
         bank_updatedAt := now\<rparr>,
       admin_audit_log := admin_audit_log s @ [a]\<rparr>"
    have "di_id row' = i" using row' by (auto dest: select_one_SomeD)
    moreover have "di_id row' \<in> credited_ids t"
      by (rule credit_ref_ok [OF row', of t f]) (simp_all add: t f)
    ultimately show ?thesis by (simp add: t f ids_where_update)
  qed
  have "i \<notin> credited_ids s"
    using not_in_ids_where [OF deposit_intents_distinct [OF ok(1)] b(1)] b(2) by simp
  with eff b show ?thesis
    by (intro bank_ok_book [OF ok(2), of b "(deposit_credit, ''deposit_intent'', i)"])
       (simp_all add: bank_ledger_key_def bank_ref_ok.simps counts_for_bank_def)
qed

lemma bank_mark_confirmed:
  assumes step: "mark_confirmed now ip ru i h s = Inr (x, t)" and ok: "schema_ok s" "bank_ok s"
    and mono: "confirmed_ids s \<subseteq> confirmed_ids t"
  shows "bank_ok t"
proof -
  have "deposit_intents t = deposit_intents s" using step by (auto elim: mark_confirmed_effect)
  moreover from step obtain b row where b:
    "select_one (\<lambda>r. wd_id r = i) (withdrawals s) = Some row" "wd_status row = submitted"
    "bl_deltaMicro b = - wd_amountMicro row" "bl_type b = withdrawal_debit"
    "bl_refType b = Some ''withdrawal''" "bl_refId b = Some i"
    "bank_ledger t = bank_book_once b (bank_ledger s)"
    "bankLimitMicro (bank_state t) = bankLimitMicro (bank_state s) - wd_amountMicro row"
    "i \<in> confirmed_ids t"
    by (rule mark_confirmed_bank)
  moreover have "i \<notin> confirmed_ids s"
    using not_in_ids_where [OF withdrawals_distinct [OF ok(1)] b(1)] b(2) by simp
  ultimately show ?thesis
    using mono by (intro bank_ok_book [OF ok(2), of b "(withdrawal_debit, ''withdrawal'', i)"])
       (simp_all add: bank_ledger_key_def bank_ref_ok.simps counts_for_bank_def)
qed

text \<open>Every other payment leaves the bank's limit and its ledger alone.\<close>

lemma released_limit [simp]: "bankLimitMicro (released now cur p b) = bankLimitMicro b"
  by (simp add: released_def)

lemma bank_idle_payment:
  assumes run: "run_payment env now ru c s = Inr (x, t)" and ok: "schema_ok s"
    and "\<And>i b. c \<noteq> CreditManual i b" "\<And>i h. c \<noteq> MarkConfirmed i h"
  shows "bank_idle s t"
proof -
  have "credited_ids s \<subseteq> credited_ids t \<and> bank_ledger t = bank_ledger s
      \<and> bankLimitMicro (bank_state t) = bankLimitMicro (bank_state s)"
  proof (cases c)
    case (RejectDeposit i why)
    then show ?thesis
      using run credited_ids_reject [OF _ ok, of now "pe_ip env" ru i why x t] by (auto elim: reject_deposit_effect)
  next
    case (AcknowledgeDeposit i b)
    with run show ?thesis
      by (auto simp: acknowledge_deposit_def step_simps Let_def intro!: ids_where_same_update [THEN subsetD])
  next
    case (LinkAddress i b)
    with run show ?thesis by (auto simp: step_simps link_address_def Let_def)
  qed (use assms in \<open>auto simp: step_simps unlink_address_def acknowledge_unattributed_def Let_def
      elim!: request_withdrawal_effect cancel_withdrawal_effect approve_withdrawal_effect reject_withdrawal_effect
        mark_submitted_effect mark_failed_effect void_ticket_effect\<close>)
  then show ?thesis using confirmed_ids_payment [OF run ok] by (simp add: bank_idle_def)
qed

lemma bank_payment:
  assumes run: "run_payment env now ru c s = Inr (x, t)" and ok: "schema_ok s" "bank_ok s"
  shows "bank_ok t"
proof (cases "(\<exists>i b. c = CreditManual i b) \<or> (\<exists>i h. c = MarkConfirmed i h)")
  case True
  then show ?thesis
    using run ok confirmed_ids_payment [OF run ok(1)] by (auto intro: bank_credit_manual bank_mark_confirmed)
next
  case False
  then show ?thesis using bank_idle_ok [OF ok(2)] bank_idle_payment [OF run ok(1)] by blast
qed

end
