(* ===== verification/Account_Properties.thy ===== *)
theory Account_Properties
  imports Bank_Ledger Sample
begin

text \<open>
  What the account and bank operations do: money moved by hand and its ledger,
  the signup bonus, deleting an account, blocking one, and recomputing the bank.
\<close>

section \<open>Money moved by hand\<close>

lemma balance_of_wallet:
  assumes "distinct (map wallet_key ws)" and "select_one (\<lambda>w. wallet_key w = k) ws = Some w"
  shows "balance_of k ws = w_balanceMicro w"
  using assms
proof (induction ws)
  case (Cons x ws)
  have "filter (\<lambda>w. wallet_key w = k) ws = []" if "wallet_key x = k"
    using Cons.prems(1) that by (auto simp: filter_empty_conv) (metis image_eqI)
  then show ?case using Cons by (auto simp: balance_of_def sum_where_def select_one_def split: if_splits)
qed (simp add: select_one_def)

lemma drift_adjust:
  assumes ok: "books_ok s" and step: "adjust_balance now ip adjustmentId ru i body s = Inr (x, t)"
    and fresh: "\<And>l. l \<in> set (wallet_ledger s) \<Longrightarrow> l_refId l \<noteq> Some adjustmentId"
  shows "ledger_drift k t = ledger_drift k s"
    and "parse_adjustBody body = Inr cur \<Longrightarrow>
      balance_of (i, cur) (wallets t) = balance_of (i, cur) (wallets s) + big_signed (ab_deltaMicro body)"
proof -
  from step obtain u cur' target wallet a where cur': "parse_adjustBody body = Inr cur'"
    and w: "select_one (\<lambda>w. wallet_key w = (i, cur')) (wallets s) = Some wallet"
    and t: "t = s\<lparr>wallets := update_where (\<lambda>w. wallet_key w = (i, cur'))
         (\<lambda>w. w\<lparr>w_balanceMicro := w_balanceMicro wallet + big_signed (ab_deltaMicro body), w_updatedAt := now\<rparr>) (wallets s),
       wallet_ledger := book_once (wallet_adjust_row i cur' (big_signed (ab_deltaMicro body)) adjustmentId (ab_reason body))
         (wallet_ledger s),
       admin_audit_log := admin_audit_log s @ [a]\<rparr>"
    by (rule adjust_balance_effect)
  let ?d = "big_signed (ab_deltaMicro body)"
  let ?l = "wallet_adjust_row i cur' ?d adjustmentId (ab_reason body)"
  note keys = wallets_distinct [OF books_okD(1) [OF ok]]
  have "balance_of k (wallets t) = balance_of k (wallets s) + (if k = (i, cur') then ?d else 0)" for k
    using sum_where_update_key [OF keys w, of "\<lambda>w. wallet_key w = k" w_balanceMicro] w
    by (auto simp: t balance_of_def wallet_key_def dest: select_one_SomeD)
  moreover have "\<not> ledger_conflict ?l (wallet_ledger s)"
    using fresh by (auto simp: ledger_conflict_def list_ex_iff ledger_key_def wallet_adjust_row_def split: option.splits)
  ultimately show "ledger_drift k t = ledger_drift k s"
    "parse_adjustBody body = Inr cur \<Longrightarrow> balance_of (i, cur) (wallets t) = balance_of (i, cur) (wallets s) + ?d"
    using cur' by (auto simp: t ledger_drift_def ledger_of_book_once wallet_adjust_row_def)
qed

text \<open>C19: an operator's balance adjustment moves the balance and the wallet ledger by exactly the
  same signed amount, at most one million units, never takes the balance below what is locked, and
  moves no other account; the adjustment id is one the ledger has not used.\<close>

theorem adjust_balance_exact:
  assumes "books_ok s" and "adjust_balance now ip adjustmentId ru i body s = Inr (x, t)"
    and "\<And>l. l \<in> set (wallet_ledger s) \<Longrightarrow> l_refId l \<noteq> Some adjustmentId"
    and "parse_adjustBody body = Inr cur"
  shows "balance_of (i, cur) (wallets t) = balance_of (i, cur) (wallets s) + big_signed (ab_deltaMicro body)
    \<and> \<bar>big_signed (ab_deltaMicro body)\<bar> \<le> 1000000000000
    \<and> locked_of (i, cur) (wallets t) \<le> balance_of (i, cur) (wallets t)
    \<and> (\<forall>k. ledger_drift k t = ledger_drift k s)
    \<and> (\<forall>k. k \<noteq> (i, cur) \<longrightarrow> balance_of k (wallets t) = balance_of k (wallets s))"
proof -
  from assms(2) obtain wallet a where
    w: "select_one (\<lambda>w. wallet_key w = (i, cur)) (wallets s) = Some wallet"
    and d: "- MAX_DELTA_MICRO \<le> big_signed (ab_deltaMicro body)" "big_signed (ab_deltaMicro body) \<le> MAX_DELTA_MICRO"
    and t: "wallets t = update_where (\<lambda>w. wallet_key w = (i, cur))
         (\<lambda>w. w\<lparr>w_balanceMicro := w_balanceMicro wallet + big_signed (ab_deltaMicro body), w_updatedAt := now\<rparr>) (wallets s)"
    and le: "w_lockedMicro wallet \<le> w_balanceMicro wallet + big_signed (ab_deltaMicro body)"
    using assms(4) by (elim adjust_balance_effect) auto
  note keys = wallets_distinct [OF books_okD(1) [OF assms(1)]]
  have mem: "wallet \<in> set (wallets s)" "wallet_key wallet = (i, cur)" using w by (auto dest: select_one_SomeD)
  have other: "balance_of k (wallets t) = balance_of k (wallets s)" if "k \<noteq> (i, cur)" for k
    unfolding t balance_of_def
    using sum_where_update_key [OF keys w, of "\<lambda>w. wallet_key w = k" w_balanceMicro] that mem
    by (auto simp: wallet_key_def)
  have "locked_of (i, cur) (wallets t) = w_lockedMicro wallet"
    unfolding t using locked_of_wallet [OF keys mem(1)] mem(2)
    by (subst locked_of_same_update) (auto simp: wallet_key_def)
  moreover have "balance_of (i, cur) (wallets s) = w_balanceMicro wallet"
    by (rule balance_of_wallet [OF keys w])
  ultimately show ?thesis
    using drift_adjust [OF assms(1,2,3)] assms(4) d le other by (auto simp: MAX_DELTA_MICRO_def)
qed

definition sample_adjust :: adjust_body where
  "sample_adjust = \<lparr>ab_currency = ''USDC'', ab_deltaMicro = ''-600'', ab_reason = ''chargeback''\<rparr>"

lemma isl_run: "\<not> isl (m s) \<Longrightarrow> \<exists>x t. m s = Inr (x, t)"
  by (cases "m s") auto

theorem adjust_balance_exact_witness:
  "\<exists>x t. adjust_balance 9 None ''adj1'' (Some sample_op) ''ann'' sample_adjust sample_db = Inr (x, t)
    \<and> balance_of (''ann'', USDC) (wallets t) = 400 \<and> locked_of (''ann'', USDC) (wallets t) \<le> 400"
proof -
  have "\<not> isl (adjust_balance 9 None ''adj1'' (Some sample_op) ''ann'' sample_adjust sample_db)" by code_simp
  then obtain x t where run: "adjust_balance 9 None ''adj1'' (Some sample_op) ''ann'' sample_adjust sample_db = Inr (x, t)"
    by (blast dest: isl_run)
  have "parse_adjustBody sample_adjust = Inr USDC" by code_simp
  moreover have "l_refId l \<noteq> Some ''adj1''" if "l \<in> set (wallet_ledger sample_db)" for l
    using that by (auto simp: sample_defs)
  moreover have "balance_of (''ann'', USDC) (wallets sample_db) = 1000" by code_simp
  moreover have "big_signed (ab_deltaMicro sample_adjust) = - 600" by code_simp
  ultimately show ?thesis using adjust_balance_exact [OF sample_books_ok run] run by fastforce
qed

section \<open>The signup bonus\<close>

lemma signup_account_effect:
  assumes "signup_account env now newId tokenId raw body s = Inr (u, t)"
  obtains "find_account (to_lower (sb_email body)) [user_r] s = None"
    "u = new_user now newId (to_lower (sb_email body)) (ac_hashPassword env (sb_password body))
       (sb_displayName body) (map_option to_upper (sb_countryCode body))"
    "users_uniq (users s @ [u]) = None"
    "users t = users s @ [u]"
    "wallets t = open_once (new_wallet now newId OZ SIGNUP_BONUS_OZ_MICRO) (open_once (new_wallet now newId USDC 0) (wallets s))"
    "wallet_ledger t = book_once (signup_bonus_row newId) (wallet_ledger s)"
    "tickets t = tickets s" "slotzilla_spins t = slotzilla_spins s"
proof -
  from assms show thesis
    unfolding signup_account_def enqueueVerifyEmail_def Let_def
    by (clarsimp simp: step_simps insert_checks_def) (rule that, simp_all)
qed

lemma balance_of_open_once:
  "wallet_key w \<notin> wallet_key ` set ws \<Longrightarrow>
     balance_of k (open_once w ws) = balance_of k ws + (if k = wallet_key w then w_balanceMicro w else 0)"
  by (auto simp: open_once_def balance_of_def list_ex_iff image_iff)

text \<open>Signing up opens exactly one bettor account under the email, with no real money and the
  demo bonus in OZ; the bonus is booked in the ledger, so for every account the ledger stays as far
  from the wallet as it was.  The new id has no wallet and no bonus yet, as a fresh uuid has none.\<close>

theorem signup_funds_account:
  assumes "signup_account env now newId tokenId raw body s = Inr (u, t)"
    and "\<And>w. w \<in> set (wallets s) \<Longrightarrow> w_userId w \<noteq> newId"
    and "\<And>l. l \<in> set (wallet_ledger s) \<Longrightarrow> l_refId l \<noteq> Some newId"
  shows "balance_of (newId, USDC) (wallets t) = 0 \<and> balance_of (newId, OZ) (wallets t) = 1000000000
    \<and> (\<forall>k. ledger_drift k t = ledger_drift k s)
    \<and> count_where (\<lambda>r. u_role r = user_r \<and> to_lower (u_email r) = to_lower (sb_email body)) (users t) = 1
    \<and> u_role u = user_r \<and> u_status u = active"
  using assms(1)
proof (rule signup_account_effect)
  assume free: "find_account (to_lower (sb_email body)) [user_r] s = None"
    and u: "u = new_user now newId (to_lower (sb_email body)) (ac_hashPassword env (sb_password body))
       (sb_displayName body) (map_option to_upper (sb_countryCode body))"
    and t: "users t = users s @ [u]"
      "wallets t = open_once (new_wallet now newId OZ SIGNUP_BONUS_OZ_MICRO) (open_once (new_wallet now newId USDC 0) (wallets s))"
      "wallet_ledger t = book_once (signup_bonus_row newId) (wallet_ledger s)"
      "tickets t = tickets s" "slotzilla_spins t = slotzilla_spins s"
  have none: "(newId, cur) \<notin> wallet_key ` set (wallets s)" for cur
    using assms(2) by (auto simp: wallet_key_def)
  have usdc: "open_once (new_wallet now newId USDC 0) (wallets s) = wallets s @ [new_wallet now newId USDC 0]"
    using none [of USDC] by (auto simp: open_once_def list_ex_iff image_iff)
  have bal: "balance_of k (wallets t) = balance_of k (wallets s) + (if k = (newId, OZ) then SIGNUP_BONUS_OZ_MICRO else 0)" for k
    unfolding t(2) using none by (simp add: balance_of_open_once usdc) (simp add: balance_of_def)
  have zero: "balance_of (newId, cur) (wallets s) = 0" for cur
  proof -
    have "filter (\<lambda>w. wallet_key w = (newId, cur)) (wallets s) = []"
      using none [of cur] by (auto simp: filter_empty_conv image_iff)
    then show ?thesis by (simp add: balance_of_def sum_where_def)
  qed
  have "\<not> ledger_conflict (signup_bonus_row newId) (wallet_ledger s)"
    using assms(3) by (auto simp: ledger_conflict_def list_ex_iff ledger_key_def signup_bonus_row_def split: option.splits)
  then have "ledger_drift k t = ledger_drift k s" for k
    using bal by (simp add: ledger_drift_def t ledger_of_book_once) (auto simp: signup_bonus_row_def)
  moreover have "count_where (\<lambda>r. u_role r = user_r \<and> to_lower (u_email r) = to_lower (sb_email body)) (users s) = 0"
    using free by (auto simp: find_account_def select_one_None_iff count_where_def filter_empty_conv)
  ultimately show ?thesis
    using bal zero by (simp add: t u new_user_def SIGNUP_BONUS_OZ_MICRO_def count_where_def)
qed

definition sample_account_env :: account_env where
  "sample_account_env = \<lparr>ac_isEmail = (\<lambda>t. CHR ''@'' \<in> set t), ac_hashPassword = (\<lambda>t. ''argon2:'' @ t),
     ac_sha256 = (\<lambda>t. take 32 (t @ replicate 32 (CHR ''0''))), ac_baseUrl = ''https://oddzilla.cc''\<rparr>"

definition sample_signup :: signup_body where
  "sample_signup = \<lparr>sb_email = ''Eve@x.io'', sb_password = ''secret-word'', sb_displayName = None,
     sb_countryCode = Some ''cz'', sb_deviceId = None\<rparr>"

theorem signup_funds_account_witness:
  "\<exists>u t. signup_account sample_account_env 9 ''eve'' ''tok'' ''raw'' sample_signup sample_db = Inr (u, t)
    \<and> balance_of (''eve'', OZ) (wallets t) = 1000000000 \<and> u_status u = active"
proof -
  have "\<not> isl (signup_account sample_account_env 9 ''eve'' ''tok'' ''raw'' sample_signup sample_db)" by code_simp
  then obtain u t where run: "signup_account sample_account_env 9 ''eve'' ''tok'' ''raw'' sample_signup sample_db = Inr (u, t)"
    by (blast dest: isl_run)
  have "w_userId w \<noteq> ''eve''" if "w \<in> set (wallets sample_db)" for w using that by (auto simp: sample_defs)
  moreover have "l_refId l \<noteq> Some ''eve''" if "l \<in> set (wallet_ledger sample_db)" for l
    using that by (auto simp: sample_defs)
  ultimately show ?thesis using signup_funds_account [OF run] run by blast
qed

section \<open>Deleting and blocking\<close>






text \<open>An account can have no financial history as the delete route counts it and still be held
  by a foreign key the route does not look at (here a deposit intent); then the caller gets the raw
  database error instead of the announced conflict, and nothing changes.\<close>

theorem delete_user_foreign_key:
  assumes "ru = Some u" "ru_role u = admin_r" "ru_id u \<noteq> i"
    and "select_one (\<lambda>r. u_id r = i) (users s) = Some existing"
    and "\<not> financial_history i s" and "r \<in> set (deposit_intents s)" "di_userId r = i"
  shows "delete_user ip ru i s = Inl (PgError ''23503'' ''users_id_fkey'')"
proof -
  have "list_ex (\<lambda>r. di_userId r = i) (deposit_intents s)" using assms(6,7) by (auto simp: list_ex_iff)
  then show ?thesis
    using assms(1-5) by (simp add: delete_user_def requireRole_def delete_users_def user_referenced_def run_defs
        insert_audit_def delete_wallets_def)
qed

definition sample_debtor_db :: db where
  "sample_debtor_db = sample_db\<lparr>deposit_intents := deposit_intents sample_db @ [(sample_intent ''d3'' ''0x3'' di_pending)\<lparr>di_userId := ''bob''\<rparr>]\<rparr>"

theorem delete_user_foreign_key_witness:
  "\<not> financial_history ''bob'' sample_debtor_db
    \<and> delete_user None (Some sample_op) ''bob'' sample_debtor_db = Inl (PgError ''23503'' ''users_id_fkey'')"
proof
  show hist: "\<not> financial_history ''bob'' sample_debtor_db" by code_simp
  have row: "select_one (\<lambda>r. u_id r = ''bob'') (users sample_debtor_db) = Some (sample_user ''bob'' ''bob@x'' user_r)" by code_simp
  have mem: "(sample_intent ''d3'' ''0x3'' di_pending)\<lparr>di_userId := ''bob''\<rparr> \<in> set (deposit_intents sample_debtor_db)"
    by (simp add: sample_debtor_db_def)
  show "delete_user None (Some sample_op) ''bob'' sample_debtor_db = Inl (PgError ''23503'' ''users_id_fkey'')"
    by (rule delete_user_foreign_key [OF refl _ _ row hist mem]) simp_all
qed

lemma revoke_sessions_Inr [step_simps]:
  "revoke_sessions now P s = Inr (ids, t) \<longleftrightarrow> ids = map se_id (filter P (sessions s))
     \<and> t = s\<lparr>sessions := update_where P (\<lambda>r. r\<lparr>se_revokedAt := Some now\<rparr>) (sessions s)\<rparr>
     \<and> update_checks no_viol sessions_uniq P (\<lambda>r. r\<lparr>se_revokedAt := Some now\<rparr>) (sessions s)"
  by (auto simp: revoke_sessions_def step_simps)

text \<open>The checks of the patch route, and what it writes.\<close>

lemma patch_user_effect:
  assumes "patch_user now ip ru i body s = Inr (ids, t)"
  obtains u existing where "ru = Some u" "ru_role u = admin_r" "i = ru_id u \<Longrightarrow> self_guard body = None"
    "select_one (\<lambda>r. u_id r = i) (users s) = Some existing"
    "users t = update_where (\<lambda>r. u_id r = i) (\<lambda>r. (patched body r)\<lparr>u_updatedAt := now\<rparr>) (users s)"
    "(u_status (patched body existing) = u_status existing \<or> pa_status body = Some active)
       \<and> u_role (patched body existing) = u_role existing \<or>
     ids = map se_id (filter (live_session_of i) (sessions s))
       \<and> sessions t = update_where (live_session_of i) (\<lambda>r. r\<lparr>se_revokedAt := Some now\<rparr>) (sessions s)"
proof -
  have guard: "(case self_guard body of None \<Rightarrow> returnT () | Some e \<Rightarrow> throwIf (i = j) e) s = Inr (y, s')
      \<longleftrightarrow> s' = s \<and> (i = j \<longrightarrow> self_guard body = None)" for j s s' y
    by (auto simp: step_simps split: option.splits)
  have tail: "(if c then revoke_sessions now P else returnT []) s = Inr (x, t) \<longleftrightarrow>
      x = (if c then map se_id (filter P (sessions s)) else [])
      \<and> t = (if c then s\<lparr>sessions := update_where P (\<lambda>r. r\<lparr>se_revokedAt := Some now\<rparr>) (sessions s)\<rparr> else s)
      \<and> (c \<longrightarrow> update_checks no_viol sessions_uniq P (\<lambda>r. r\<lparr>se_revokedAt := Some now\<rparr>) (sessions s))" for c P s x t
    by (auto simp: step_simps)
  from assms show thesis
    unfolding patch_user_def Let_def
    by (clarsimp simp: step_simps guard tail simp del: if_split)
       (rule that, assumption, assumption, blast, assumption, simp, auto)
qed

text \<open>Blocking an account or changing its role ends every session it has: once the call has
  succeeded no live session of the account is left and the ids it hands to the revocation cache are
  exactly the sessions that were live.  On the caller's own account the call never touches the
  stake limit or the bet delay, never blocks and never demotes.\<close>

theorem patch_user_ends_sessions:
  assumes "schema_ok s" and "patch_user now ip ru i body s = Inr (ids, t)"
    and "select_one (\<lambda>r. u_id r = i) (users s) = Some old" "select_one (\<lambda>r. u_id r = i) (users t) = Some new"
  shows "(u_status new \<noteq> u_status old \<and> u_status new \<noteq> active \<or> u_role new \<noteq> u_role old \<longrightarrow>
      filter (live_session_of i) (sessions t) = [] \<and> ids = map se_id (filter (live_session_of i) (sessions s)))
    \<and> (ru = Some u \<and> ru_id u = i \<longrightarrow>
      u_globalLimitMicro new = u_globalLimitMicro old \<and> u_betDelaySeconds new = u_betDelaySeconds old
      \<and> u_status new \<in> {u_status old, active} \<and> u_role new \<in> {u_role old, admin_r})"
  using assms(2)
proof (rule patch_user_effect)
  fix u' existing
  assume ru: "ru = Some u'" and guard: "i = ru_id u' \<Longrightarrow> self_guard body = None"
    and ex: "select_one (\<lambda>r. u_id r = i) (users s) = Some existing"
    and t: "users t = update_where (\<lambda>r. u_id r = i) (\<lambda>r. (patched body r)\<lparr>u_updatedAt := now\<rparr>) (users s)"
    and revoked: "(u_status (patched body existing) = u_status existing \<or> pa_status body = Some active)
       \<and> u_role (patched body existing) = u_role existing \<or>
     ids = map se_id (filter (live_session_of i) (sessions s))
       \<and> sessions t = update_where (live_session_of i) (\<lambda>r. r\<lparr>se_revokedAt := Some now\<rparr>) (sessions s)"
  have old: "existing = old" using ex assms(3) by simp
  have "new \<in> set (users t)" "u_id new = i" using assms(4) by (auto dest: select_one_SomeD)
  then obtain r where "r \<in> set (users s)" "u_id r = i" "new = (patched body r)\<lparr>u_updatedAt := now\<rparr>"
    by (auto simp: t in_set_update_where patched_def split: if_splits)
  moreover have "distinct (map u_id (users s))"
    using assms(1) by (simp add: schema_ok_def table_ok_def users_uniq_def)
  ultimately have new: "new = (patched body old)\<lparr>u_updatedAt := now\<rparr>"
    using select_one_unique [of u_id "users s" i old r] assms(3) by simp
  have none: "filter (live_session_of i) (update_where (live_session_of i) (\<lambda>r. r\<lparr>se_revokedAt := Some now\<rparr>) rs) = []" for rs
    by (induction rs) (simp_all add: live_session_of_def)
  have row: "u_status new = u_status (patched body old)" "u_role new = u_role (patched body old)"
    "u_globalLimitMicro new = u_globalLimitMicro (patched body old)"
    "u_betDelaySeconds new = u_betDelaySeconds (patched body old)" by (simp_all add: new)
  have "pa_status body = Some active \<Longrightarrow> u_status (patched body old) = active" by (simp add: patched_def)
  then have first: "u_status new \<noteq> u_status old \<and> u_status new \<noteq> active \<or> u_role new \<noteq> u_role old \<Longrightarrow>
      filter (live_session_of i) (sessions t) = [] \<and> ids = map se_id (filter (live_session_of i) (sessions s))"
    using revoked unfolding old row by (metis none)
  have "self_guard body = None \<Longrightarrow> u_globalLimitMicro new = u_globalLimitMicro old
      \<and> u_betDelaySeconds new = u_betDelaySeconds old
      \<and> u_status new \<in> {u_status old, active} \<and> u_role new \<in> {u_role old, admin_r}"
    unfolding row by (auto simp: patched_def self_guard_def split: if_splits option.splits)
  then show ?thesis using first guard ru by blast
qed

definition sample_block :: patch_body where
  "sample_block = \<lparr>pa_status = Some blocked, pa_role = None, pa_globalLimitMicro = None, pa_betDelaySeconds = None,
     pa_labels = None\<rparr>"

theorem patch_user_ends_sessions_witness:
  "\<exists>ids t. patch_user 9 None (Some sample_op) ''ann'' sample_block sample_db = Inr (ids, t)
    \<and> ids = [''ses1''] \<and> filter (live_session_of ''ann'') (sessions t) = []"
proof -
  let ?run = "patch_user 9 None (Some sample_op) ''ann'' sample_block sample_db"
  have "(case ?run of Inl e \<Rightarrow> None | Inr (ids, t) \<Rightarrow> map_option u_status (select_one (\<lambda>r. u_id r = ''ann'') (users t)))
      = Some blocked" by code_simp
  then obtain ids t new where run: "?run = Inr (ids, t)"
    and new: "select_one (\<lambda>r. u_id r = ''ann'') (users t) = Some new" "u_status new = blocked"
    by (auto split: sum.splits prod.splits)
  have old: "select_one (\<lambda>r. u_id r = ''ann'') (users sample_db) = Some (sample_user ''ann'' ''ann@x'' user_r)" by code_simp
  have "map se_id (filter (live_session_of ''ann'') (sessions sample_db)) = [''ses1'']" by code_simp
  then show ?thesis
    using patch_user_ends_sessions [OF sample_schema_ok run old new(1), of undefined] new(2) run by (simp add: sample_user_def)
qed

section \<open>The bank limit\<close>

text \<open>The limit editor reads the bank before its transaction and overwrites it there: whatever
  credits and payouts moved the limit in between are undone, while their ledger rows stay, so the limit
  leaves the ledger by exactly that amount.\<close>

theorem bank_limit_overwrites_credit:
  assumes "bank_ok s" and "bank_limit_tx now ip admin body before balances s = Inr (x, t)"
  shows "bankLimitMicro (bank_state t) = next_limit body (bankLimitMicro before)
    \<and> bankLimitMicro (bank_state t) - bank_ledger_total (bank_ledger t)
      = bankLimitMicro before - bankLimitMicro (bank_state s)
    \<and> (bank_ok t \<longrightarrow> bankLimitMicro before = bankLimitMicro (bank_state s))"
proof -
  have "bankLimitMicro (bank_state t) = next_limit body (bankLimitMicro before)
      \<and> bank_ledger_total (bank_ledger t) = bank_ledger_total (bank_ledger s)
        + next_limit body (bankLimitMicro before) - bankLimitMicro before"
    using assms(2) unfolding bank_limit_tx_def Let_def by (clarsimp simp: step_simps counts_for_bank_def)
  then show ?thesis using assms(1) by (auto simp: bank_ok_def)
qed

section \<open>Recomputing the bank\<close>

definition open_spin_exposure :: "db \<Rightarrow> micro" where
  "open_spin_exposure s = sum_where (\<lambda>r. sp_currency r = USDC \<and> sp_open r) sp_exposureMicro (slotzilla_spins s)"

lemma open_liability_split: "open_liability s = open_ticket_payouts s + open_spin_exposure s"
  by (simp add: open_liability_def open_ticket_payouts_def open_spin_exposure_def t_open_def conj_commute insert_commute)

lemma recompute_bank_effect:
  assumes "recompute_bank now ip ru s = Inr (x, t)"
  shows "bankLimitMicro (bank_state t) = max 0 (bank_ledger_total (bank_ledger s))"
    and "openLiabilityMicro (bank_state t) = open_ticket_payouts s" and "open_liability t = open_liability s"
  using assms unfolding recompute_bank_def requireBankAdmin_def
  by (clarsimp simp: step_simps open_liability_def max_def simp del: if_split; simp)+

lemma recompute_limit:
  assumes "books_ok s" and "bank_ok s" and "recompute_bank now ip ru s = Inr (x, t)"
  shows "bankLimitMicro (bank_state t) = bankLimitMicro (bank_state s)"
  using books_okD(1) [OF assms(1)] assms(2) recompute_bank_effect(1) [OF assms(3)]
  by (auto simp: schema_ok_def bank_viol_def bank_ok_def)

text \<open>Recomputing the bank of a database whose bank is in step with its ledger leaves the limit
  where it was, but the open liability it writes covers the open tickets only: it falls short of what
  the running counter held by the exposure of the open USDC spins.\<close>

theorem recompute_forgets_spins:
  assumes "books_ok s" and "bank_ok s" and "recompute_bank now ip ru s = Inr (x, t)"
  shows "bankLimitMicro (bank_state t) = bankLimitMicro (bank_state s)
    \<and> openLiabilityMicro (bank_state t) = openLiabilityMicro (bank_state s) - open_spin_exposure s
    \<and> (liability_ok t \<longleftrightarrow> open_spin_exposure s = 0)"
  using recompute_limit [OF assms] recompute_bank_effect(2,3) [OF assms(3)] books_okD(3) [OF assms(1)]
  by (auto simp: open_liability_split liability_ok_def)

lemma sample_bank_ok: "bank_ok sample_db"
proof -
  have "bankLimitMicro (bank_state sample_db) = bank_ledger_total (bank_ledger sample_db)" by code_simp
  then show ?thesis
    by (auto simp: bank_ok_def sample_defs bank_ledger_key_def bank_ref_ok.simps ids_where_def)
qed

text \<open>An operator adds 500 to a limit that a credit of 40 raised since it was read.\<close>

definition sample_delta :: bank_body where
  "sample_delta = \<lparr>bb_setMicro = None, bb_deltaMicro = Some ''500'', bb_memo = ''top-up''\<rparr>"

definition sample_stale_bank :: bank_state_row where
  "sample_stale_bank = (bank_state sample_db)\<lparr>bankLimitMicro := bankLimitMicro (bank_state sample_db) - 40\<rparr>"

theorem bank_limit_overwrites_credit_witness:
  "\<exists>x t. bank_limit_tx 9 None sample_op sample_delta sample_stale_bank (0, 0) sample_db = Inr (x, t)
    \<and> bankLimitMicro (bank_state t) - bank_ledger_total (bank_ledger t) = - 40 \<and> \<not> bank_ok t"
proof -
  have "\<not> isl (bank_limit_tx 9 None sample_op sample_delta sample_stale_bank (0, 0) sample_db)" by code_simp
  then obtain x t where run: "bank_limit_tx 9 None sample_op sample_delta sample_stale_bank (0, 0) sample_db = Inr (x, t)"
    by (blast dest: isl_run)
  show ?thesis
    using bank_limit_overwrites_credit [OF sample_bank_ok run] run by (auto simp: sample_stale_bank_def)
qed

theorem recompute_forgets_spins_witness:
  "\<exists>x t. recompute_bank 9 None (Some sample_op) sample_db = Inr (x, t)
    \<and> openLiabilityMicro (bank_state t) = 120 \<and> \<not> liability_ok t"
proof -
  have "\<not> isl (recompute_bank 9 None (Some sample_op) sample_db)" by code_simp
  then obtain x t where run: "recompute_bank 9 None (Some sample_op) sample_db = Inr (x, t)" by (blast dest: isl_run)
  have "open_spin_exposure sample_db = 80" "openLiabilityMicro (bank_state sample_db) = 200" by code_simp+
  then show ?thesis using recompute_forgets_spins [OF sample_books_ok sample_bank_ok run] run by auto
qed

end
