(* ===== verification/Redis.thy ===== *)
theory Redis
  imports Accounts
begin

text \<open>
  The part of Redis the authentication and placement code uses: text values,
  counters and the cached result of a rotation under five families of keys, with
  expiry in milliseconds.  A key that has expired reads as absent.  The client code relies
  on the laws of the locale \<open>expiring_store\<close>.
\<close>

section \<open>Keys and values\<close>

record issued_tokens =
  it_userId :: uuid
  it_role :: user_role
  it_accessToken :: string
  it_accessExpiresAt :: millis
  it_refreshTokenRaw :: string
  it_refreshExpiresAt :: millis
  it_sessionId :: uuid

text \<open>A refresh-token hash stands for its hexadecimal text.\<close>

datatype redis_key =
    SESSION_STATUS_KEY uuid
  | rotationCacheKey string
  | rotationLockKey string
  | loginFailKey account_namespace string
  | intentUsedKey string

datatype redis_value = RText string | RCount int | RTokens issued_tokens

type_synonym redis = "redis_key \<Rightarrow> (redis_value \<times> millis option) option"

fun show_namespace :: "account_namespace \<Rightarrow> string" where
  "show_namespace bettor_ns = ''bettor''"
| "show_namespace admin_ns = ''admin''"

fun redis_name :: "redis_key \<Rightarrow> string" where
  "redis_name (SESSION_STATUS_KEY sid) = ''session:status:'' @ sid"
| "redis_name (rotationCacheKey h) = ''auth:refresh_rotate:'' @ h"
| "redis_name (rotationLockKey h) = ''auth:refresh_lock:'' @ h"
| "redis_name (loginFailKey ns email) = ''auth:login_fail:'' @ show_namespace ns @ '':'' @ email"
| "redis_name (intentUsedKey nonce) = ''bet:intent:used:'' @ nonce"

text \<open>The families never collide, whatever the email or the id contains.\<close>

lemma redis_name_inj: "redis_name k = redis_name k' \<longleftrightarrow> k = k'"
proof
  assume eq: "redis_name k = redis_name k'"
  have ns: "show_namespace n @ CHR '':'' # e = show_namespace n' @ CHR '':'' # e' \<longleftrightarrow> n = n' \<and> e = e'" for n n' e e'
    by (cases n; cases n') simp_all
  show "k = k'" using eq by (cases k; cases k') (simp_all add: ns)
qed simp

section \<open>Commands\<close>

definition redis_get :: "millis \<Rightarrow> redis_key \<Rightarrow> redis \<Rightarrow> redis_value option" where
  "redis_get now k r = (case r k of
     None \<Rightarrow> None
   | Some (v, None) \<Rightarrow> Some v
   | Some (v, Some e) \<Rightarrow> if e \<le> now then None else Some v)"

definition redis_set :: "redis_key \<Rightarrow> redis_value \<Rightarrow> millis option \<Rightarrow> redis \<Rightarrow> redis" where
  "redis_set k v e r = r(k \<mapsto> (v, e))"

definition redis_del :: "redis_key \<Rightarrow> redis \<Rightarrow> redis" where
  "redis_del k r = r(k := None)"

text \<open>\<^verbatim>\<open>SET k v PX ttl NX\<close> answers OK only when the key is absent.\<close>

definition redis_setnx :: "millis \<Rightarrow> redis_key \<Rightarrow> redis_value \<Rightarrow> millis \<Rightarrow> redis \<Rightarrow> redis option" where
  "redis_setnx now k v e r = (if redis_get now k r = None then Some (redis_set k v (Some e) r) else None)"

text \<open>\<^verbatim>\<open>INCR\<close> keeps the expiry of a key that exists and fails on a value that is no number.\<close>

definition redis_incr :: "millis \<Rightarrow> redis_key \<Rightarrow> redis \<Rightarrow> (int \<times> redis) option" where
  "redis_incr now k r = (case redis_get now k r of
     None \<Rightarrow> Some (1, redis_set k (RCount 1) None r)
   | Some (RCount n) \<Rightarrow> Some (n + 1, redis_set k (RCount (n + 1)) (case r k of None \<Rightarrow> None | Some (_, e) \<Rightarrow> e) r)
   | Some _ \<Rightarrow> None)"

definition redis_expire :: "millis \<Rightarrow> redis_key \<Rightarrow> millis \<Rightarrow> redis \<Rightarrow> redis" where
  "redis_expire now k e r = (case redis_get now k r of None \<Rightarrow> r | Some v \<Rightarrow> redis_set k v (Some e) r)"

text \<open>\<^verbatim>\<open>RELEASE_LOCK_LUA\<close>: delete the key only while it holds the given token.\<close>

definition release_lock :: "millis \<Rightarrow> redis_key \<Rightarrow> string \<Rightarrow> redis \<Rightarrow> redis" where
  "release_lock now k token r = (if redis_get now k r = Some (RText token) then redis_del k r else r)"

section \<open>Laws\<close>

locale expiring_store =
  fixes get :: "int \<Rightarrow> 'k \<Rightarrow> 's \<Rightarrow> 'v option"
    and put :: "'k \<Rightarrow> 'v \<Rightarrow> int option \<Rightarrow> 's \<Rightarrow> 's"
    and del :: "'k \<Rightarrow> 's \<Rightarrow> 's"
  assumes get_put_same: "get now k (put k v (Some e) s) = (if e \<le> now then None else Some v)"
    and get_put_other: "k \<noteq> k' \<Longrightarrow> get now k (put k' v e' s) = get now k s"
    and get_del_same: "get now k (del k s) = None"
    and get_del_other: "k \<noteq> k' \<Longrightarrow> get now k (del k' s) = get now k s"
    and get_absent_stays: "get now k s = None \<Longrightarrow> now \<le> now' \<Longrightarrow> get now' k s = None"
begin

lemma put_all_other: "k \<notin> key ` set xs \<Longrightarrow> get now k (fold (\<lambda>x. put (key x) v (Some e)) xs s) = get now k s"
  by (induction xs arbitrary: s) (auto simp: get_put_other)

lemma put_all_member:
  "k \<in> key ` set xs \<Longrightarrow> get now k (fold (\<lambda>x. put (key x) v (Some e)) xs s) = (if e \<le> now then None else Some v)"
proof (induction xs arbitrary: s)
  case (Cons x xs)
  show ?case
  proof (cases "k \<in> key ` set xs")
    case True
    then show ?thesis using Cons.IH by simp
  next
    case False
    then have "k = key x" using Cons.prems by simp
    then show ?thesis using put_all_other [OF False] by (simp add: get_put_same)
  qed
qed simp

text \<open>A value that was put is there until it expires, even after writes to other keys.\<close>

lemma put_survives: "k \<noteq> k' \<Longrightarrow> now < e \<Longrightarrow> get now k (put k' v' e' (put k v (Some e) s)) = Some v"
  by (simp add: get_put_other get_put_same)

end

lemma redis_set_get: "redis_get now k (redis_set k v e r) = (case e of None \<Rightarrow> Some v | Some t \<Rightarrow> if t \<le> now then None else Some v)"
  by (simp add: redis_get_def redis_set_def split: option.splits)

interpretation redis_store: expiring_store redis_get redis_set redis_del
  by unfold_locales (auto simp: redis_get_def redis_set_def redis_del_def split: option.splits if_splits)

declare redis_store.get_put_other [simp] redis_store.get_del_other [simp] redis_store.get_del_same [simp]
  redis_set_get [simp]

lemma release_lock_other [simp]: "k \<noteq> k' \<Longrightarrow> redis_get now k (release_lock now' k' token r) = redis_get now k r"
  by (simp add: release_lock_def)

end
