(* ===== verification/Sessions.thy ===== *)
theory Sessions
  imports Redis Sample
begin

text \<open>
  modules/auth/service.ts, modules/auth/routes.ts, the preHandler of
  plugins/auth.ts and the password change of modules/users/routes.ts: sessions
  with rotating refresh tokens, the login throttle, email verification and
  password reset.  The state is the database next to Redis.  A refresh runs in
  two steps, because another request can run between its lookup and its
  transaction; the preHandler likewise between its reads and its cache write.
\<close>

section \<open>The world\<close>

record world =
  wo_db :: db
  wo_redis :: redis

text \<open>Password verification and token signing are library code; Redis may be down during a call.\<close>

record auth_env =
  ae_account :: account_env
  ae_verifyPassword :: "string \<Rightarrow> string \<Rightarrow> bool"
  ae_signAccessToken :: "uuid \<Rightarrow> user_role \<Rightarrow> uuid \<Rightarrow> millis \<Rightarrow> string"
  ae_verifyAccessToken :: "millis \<Rightarrow> string \<Rightarrow> (uuid \<times> user_role \<times> uuid option) option"
  ae_jwtAccessTtlSeconds :: int
  ae_refreshTtlDays :: int
  ae_redisUp :: bool

text \<open>The random values a call draws.\<close>

record fresh =
  fr_sessionId :: uuid
  fr_familyId :: uuid
  fr_refreshRaw :: string
  fr_lockToken :: string

record client_ctx =
  cx_ip :: "string option"
  cx_userAgent :: "string option"
  cx_deviceId :: "string option"

definition on_db :: "'a dbtx \<Rightarrow> (world, 'a) call" where
  "on_db m w = (case m (wo_db w) of Inl e \<Rightarrow> (Inl e, w) | Inr (a, t) \<Rightarrow> (Inr a, w\<lparr>wo_db := t\<rparr>))"

text \<open>A Redis command whose failure is swallowed, and a read with the answer it falls back to.\<close>

definition on_redis :: "auth_env \<Rightarrow> (redis \<Rightarrow> redis) \<Rightarrow> (world, unit) call" where
  "on_redis env f w = (Inr (), if ae_redisUp env then w\<lparr>wo_redis := f (wo_redis w)\<rparr> else w)"

definition ask_redis :: "auth_env \<Rightarrow> (redis \<Rightarrow> 'a) \<Rightarrow> 'a \<Rightarrow> (world, 'a) call" where
  "ask_redis env f dflt w = (Inr (if ae_redisUp env then f (wo_redis w) else dflt), w)"

definition throwUnless :: "bool \<Rightarrow> failure \<Rightarrow> (world, unit) call" where
  "throwUnless c e = (if c then returnC () else throwC e)"

definition unauthorized :: "string \<Rightarrow> failure" where
  "unauthorized c = UnauthorizedError c c"

definition hashRefreshToken :: "auth_env \<Rightarrow> string \<Rightarrow> string" where
  "hashRefreshToken env raw = ac_sha256 (ae_account env) raw"

section \<open>Revocation cache\<close>

definition revoked_ttl_ms :: "auth_env \<Rightarrow> millis" where
  "revoked_ttl_ms env = max 60 (ae_jwtAccessTtlSeconds env + 60) * 1000"

definition cacheRevoked :: "auth_env \<Rightarrow> millis \<Rightarrow> uuid list \<Rightarrow> (world, unit) call" where
  "cacheRevoked env now sids = on_redis env
     (fold (\<lambda>sid. redis_set (SESSION_STATUS_KEY sid) (RText ''revoked'') (Some (now + revoked_ttl_ms env))) sids)"

section \<open>Issuing tokens\<close>

definition issueTokensWith ::
  "auth_env \<Rightarrow> millis \<Rightarrow> fresh \<Rightarrow> uuid \<Rightarrow> user_role \<Rightarrow> client_ctx \<Rightarrow> (uuid \<times> uuid) option \<Rightarrow> issued_tokens dbtx" where
  "issueTokensWith env now fr userId role ctx parent =
    (let refreshExpiresAt = now + ae_refreshTtlDays env * 24 * 60 * 60 * 1000;
         familyId = (case parent of None \<Rightarrow> fr_familyId fr | Some (f, _) \<Rightarrow> f);
         parentSessionId = map_option snd parent in
    thenT (insert_session \<lparr>se_id = fr_sessionId fr, se_userId = userId,
      se_refreshTokenHash = hashRefreshToken env (fr_refreshRaw fr), se_deviceId = cx_deviceId ctx,
      se_userAgent = cx_userAgent ctx, se_ipInet = cx_ip ctx, se_expiresAt = refreshExpiresAt,
      se_revokedAt = None, se_familyId = familyId, se_parentSessionId = parentSessionId\<rparr>) (
    returnT \<lparr>it_userId = userId, it_role = role,
      it_accessToken = ae_signAccessToken env userId role (fr_sessionId fr) now,
      it_accessExpiresAt = now + ae_jwtAccessTtlSeconds env * 1000,
      it_refreshTokenRaw = fr_refreshRaw fr, it_refreshExpiresAt = refreshExpiresAt,
      it_sessionId = fr_sessionId fr\<rparr>))"

definition signup ::
  "auth_env \<Rightarrow> millis \<Rightarrow> fresh \<Rightarrow> uuid \<Rightarrow> uuid \<Rightarrow> string \<Rightarrow> account_namespace \<Rightarrow> client_ctx \<Rightarrow> signup_body \<Rightarrow>
   (world, users_row \<times> issued_tokens) call" where
  "signup env now fr newId tokenId rawToken ns ctx body =
    bindC (throwUnless (ns = bettor_ns) (unauthorized ''signup_disabled_here'')) (\<lambda>_.
    bindC (on_db (liftE (parse_signupBody (ae_account env) body))) (\<lambda>_.
    bindC (on_db (signup_account (ae_account env) now newId tokenId rawToken body)) (\<lambda>user.
    bindC (on_db (issueTokensWith env now fr (u_id user) (u_role user) (ctx\<lparr>cx_deviceId := sb_deviceId body\<rparr>) None)) (\<lambda>tokens.
    returnC (user, tokens)))))"

section \<open>Logging in\<close>

definition LOGIN_FAIL_THRESHOLD :: int where "LOGIN_FAIL_THRESHOLD = 10"
definition LOGIN_FAIL_WINDOW_SECONDS :: int where "LOGIN_FAIL_WINDOW_SECONDS = 15 * 60"

definition isLoginRateLimited :: "auth_env \<Rightarrow> millis \<Rightarrow> string \<Rightarrow> account_namespace \<Rightarrow> (world, bool) call" where
  "isLoginRateLimited env now emailLower ns =
    ask_redis env (\<lambda>r. case redis_get now (loginFailKey ns emailLower) r of
        Some (RCount n) \<Rightarrow> n > LOGIN_FAIL_THRESHOLD | _ \<Rightarrow> False) False"

definition recordLoginFailure :: "auth_env \<Rightarrow> millis \<Rightarrow> string \<Rightarrow> account_namespace \<Rightarrow> (world, unit) call" where
  "recordLoginFailure env now emailLower ns = on_redis env (\<lambda>r.
    case redis_incr now (loginFailKey ns emailLower) r of
      None \<Rightarrow> r
    | Some (n, r') \<Rightarrow> if n = 1 then redis_expire now (loginFailKey ns emailLower) (now + LOGIN_FAIL_WINDOW_SECONDS * 1000) r' else r')"

definition clearLoginFailures :: "auth_env \<Rightarrow> string \<Rightarrow> account_namespace \<Rightarrow> (world, unit) call" where
  "clearLoginFailures env emailLower ns = on_redis env (redis_del (loginFailKey ns emailLower))"

definition parse_loginBody :: "account_env \<Rightarrow> string \<Rightarrow> string \<Rightarrow> string option \<Rightarrow> failure + unit" where
  "parse_loginBody env email password deviceId =
    (if \<not> ac_isEmail env email \<or> length email > 320 then Inl (ZodError ''email'')
     else if \<not> str_between 1 256 password then Inl (ZodError ''password'')
     else if \<not> opt_between 0 64 deviceId then Inl (ZodError ''deviceId'')
     else Inr ())"

definition login ::
  "auth_env \<Rightarrow> millis \<Rightarrow> fresh \<Rightarrow> client_ctx \<Rightarrow> account_namespace \<Rightarrow> string \<Rightarrow> string \<Rightarrow>
   (world, users_row \<times> issued_tokens) call" where
  "login env now fr ctx ns email password =
    bindC (on_db (liftE (parse_loginBody (ae_account env) email password (cx_deviceId ctx)))) (\<lambda>_.
    let lowerEmail = to_lower email in
    bindC (isLoginRateLimited env now lowerEmail ns) (\<lambda>limited.
    if limited then throwC (unauthorized ''too_many_login_attempts'')
    else
      bindC (on_db (getT (find_account lowerEmail (rolesForNamespace ns)))) (\<lambda>found.
      case found of
        None \<Rightarrow> bindC (recordLoginFailure env now lowerEmail ns) (\<lambda>_. throwC (unauthorized ''invalid_credentials''))
      | Some user \<Rightarrow>
          if \<not> ae_verifyPassword env (u_passwordHash user) password
          then bindC (recordLoginFailure env now lowerEmail ns) (\<lambda>_. throwC (unauthorized ''invalid_credentials''))
          else if u_status user = blocked then throwC (unauthorized ''account_blocked'')
          else
            bindC (clearLoginFailures env lowerEmail ns) (\<lambda>_.
            bindC (on_db (update_users (\<lambda>r. u_id r = u_id user) (\<lambda>r. r\<lparr>u_lastLoginAt := Some now\<rparr>))) (\<lambda>_.
            bindC (on_db (issueTokensWith env now fr (u_id user) (u_role user) ctx None)) (\<lambda>tokens.
            returnC (user, tokens)))))))"

section \<open>Rotating a refresh token\<close>

definition REFRESH_GRACE_SECONDS :: int where "REFRESH_GRACE_SECONDS = 10"
definition REFRESH_LOCK_TTL_MS :: millis where "REFRESH_LOCK_TTL_MS = 5000"
definition REFRESH_LOCK_POLL_DEADLINE_MS :: millis where "REFRESH_LOCK_POLL_DEADLINE_MS = 2500"
definition REFRESH_LOCK_POLL_INTERVAL_MS :: millis where "REFRESH_LOCK_POLL_INTERVAL_MS = 50"

definition readRotationCache :: "auth_env \<Rightarrow> millis \<Rightarrow> string \<Rightarrow> (world, issued_tokens option) call" where
  "readRotationCache env now hash = ask_redis env (\<lambda>r.
     case redis_get now (rotationCacheKey hash) r of Some (RTokens t) \<Rightarrow> Some t | _ \<Rightarrow> None) None"

definition writeRotationCache :: "auth_env \<Rightarrow> millis \<Rightarrow> string \<Rightarrow> issued_tokens \<Rightarrow> (world, unit) call" where
  "writeRotationCache env now hash tokens = on_redis env
     (redis_set (rotationCacheKey hash) (RTokens tokens) (Some (now + REFRESH_GRACE_SECONDS * 1000)))"

definition acquire_lock :: "auth_env \<Rightarrow> millis \<Rightarrow> string \<Rightarrow> string \<Rightarrow> (world, bool) call" where
  "acquire_lock env now hash token w =
    (case redis_setnx now (rotationLockKey hash) (RText token) (now + REFRESH_LOCK_TTL_MS) (wo_redis w) of
       Some r \<Rightarrow> if ae_redisUp env then (Inr True, w\<lparr>wo_redis := r\<rparr>) else (Inr False, w)
     | None \<Rightarrow> (Inr False, w))"

definition free_lock :: "auth_env \<Rightarrow> millis \<Rightarrow> string \<Rightarrow> string \<Rightarrow> (world, unit) call" where
  "free_lock env now hash token = on_redis env (release_lock now (rotationLockKey hash) token)"

text \<open>The \<^verbatim>\<open>finally\<close> of the rotation: the lock is freed whatever the outcome.\<close>

definition finally_free :: "auth_env \<Rightarrow> millis \<Rightarrow> string \<Rightarrow> string \<Rightarrow> (world, 'a) call \<Rightarrow> (world, 'a) call" where
  "finally_free env now hash token m w = (case m w of (r, v) \<Rightarrow> (r, snd (free_lock env now hash token v)))"

text \<open>A rotation between its lookup and its transaction: it holds the lock and has read the rows.\<close>

record rotation =
  ro_hash :: string
  ro_lockToken :: string
  ro_session :: sessions_row
  ro_user :: users_row

datatype refresh_phase = Reuse issued_tokens | Waiting | Rotate rotation

definition live_in_family :: "uuid \<Rightarrow> sessions_row \<Rightarrow> bool" where
  "live_in_family fam r \<longleftrightarrow> se_familyId r = fam \<and> se_revokedAt r = None"

definition refresh_lookup :: "auth_env \<Rightarrow> millis \<Rightarrow> string \<Rightarrow> string \<Rightarrow> (world, refresh_phase) call" where
  "refresh_lookup env now lockToken hash =
    bindC (readRotationCache env now hash) (\<lambda>postLockCached.
    case postLockCached of
      Some t \<Rightarrow> returnC (Reuse t)
    | None \<Rightarrow>
        bindC (on_db (getT (\<lambda>s. select_one (\<lambda>r. se_refreshTokenHash r = hash) (sessions s)))) (\<lambda>found.
        case found of
          None \<Rightarrow> throwC (unauthorized ''invalid_refresh'')
        | Some session \<Rightarrow>
            if se_revokedAt session \<noteq> None
            then
              bindC (on_db (revoke_sessions now (live_in_family (se_familyId session)))) (\<lambda>family.
              bindC (cacheRevoked env now family) (\<lambda>_.
              throwC (unauthorized ''refresh_replayed'')))
            else if se_expiresAt session \<le> now then throwC (unauthorized ''refresh_expired'')
            else
              bindC (on_db (getT (\<lambda>s. select_one (\<lambda>r. u_id r = se_userId session) (users s)))) (\<lambda>owner.
              case owner of
                None \<Rightarrow> throwC (unauthorized ''account_unavailable'')
              | Some user \<Rightarrow>
                  if u_status user = blocked then throwC (unauthorized ''account_unavailable'')
                  else returnC (Rotate \<lparr>ro_hash = hash, ro_lockToken = lockToken, ro_session = session, ro_user = user\<rparr>))))"

definition refresh_begin :: "auth_env \<Rightarrow> millis \<Rightarrow> string \<Rightarrow> string \<Rightarrow> (world, refresh_phase) call" where
  "refresh_begin env now lockToken rawRefreshToken =
    (let hash = hashRefreshToken env rawRefreshToken in
    bindC (readRotationCache env now hash) (\<lambda>preCached.
    case preCached of
      Some t \<Rightarrow> returnC (Reuse t)
    | None \<Rightarrow>
        bindC (acquire_lock env now hash lockToken) (\<lambda>acquired.
        if \<not> acquired then returnC Waiting
        else (\<lambda>w. case refresh_lookup env now lockToken hash w of
            (Inr (Rotate p), v) \<Rightarrow> (Inr (Rotate p), v)
          | (r, v) \<Rightarrow> (r, snd (free_lock env now hash lockToken v))))))"

text \<open>One turn of the waiting loop: the deadline is looked at, then after the pause the cache is read.\<close>

definition refresh_poll :: "auth_env \<Rightarrow> millis \<Rightarrow> millis \<Rightarrow> millis \<Rightarrow> string \<Rightarrow> (world, issued_tokens option) call" where
  "refresh_poll env started checkedAt now rawRefreshToken =
    (if checkedAt < started + REFRESH_LOCK_POLL_DEADLINE_MS
     then readRotationCache env now (hashRefreshToken env rawRefreshToken)
     else throwC (unauthorized ''refresh_busy''))"

text \<open>
  The waiting loop.  The timer fires at the interval or later, by \<open>late\<close> in each turn, and finds
  the world as the other requests have left it by then.
\<close>

function refresh_wait ::
  "auth_env \<Rightarrow> (nat \<Rightarrow> nat) \<Rightarrow> (millis \<Rightarrow> world) \<Rightarrow> millis \<Rightarrow> string \<Rightarrow> nat \<Rightarrow> millis \<Rightarrow> failure + issued_tokens" where
  "refresh_wait env late seen started raw turn checkedAt =
    (let now = checkedAt + REFRESH_LOCK_POLL_INTERVAL_MS + int (late turn) in
     case fst (refresh_poll env started checkedAt now raw (seen now)) of
       Inl e \<Rightarrow> Inl e
     | Inr (Some racy) \<Rightarrow> Inr racy
     | Inr None \<Rightarrow> refresh_wait env late seen started raw (Suc turn) now)"
  by pat_completeness auto
termination
  by (relation "measure (\<lambda>(env, late, seen, started, raw, turn, checkedAt). nat (started + REFRESH_LOCK_POLL_DEADLINE_MS - checkedAt))")
     (auto simp: refresh_poll_def throwC_def REFRESH_LOCK_POLL_INTERVAL_MS_def split: if_splits)

definition rotate_tx :: "auth_env \<Rightarrow> millis \<Rightarrow> fresh \<Rightarrow> client_ctx \<Rightarrow> rotation \<Rightarrow> issued_tokens dbtx" where
  "rotate_tx env now fr ctx p =
    thenT (update_sessions (\<lambda>r. se_id r = se_id (ro_session p)) (\<lambda>r. r\<lparr>se_revokedAt := Some now\<rparr>)) (
    issueTokensWith env now fr (u_id (ro_user p)) (u_role (ro_user p)) ctx
      (Some (se_familyId (ro_session p), se_id (ro_session p))))"

definition refresh_commit :: "auth_env \<Rightarrow> millis \<Rightarrow> fresh \<Rightarrow> client_ctx \<Rightarrow> rotation \<Rightarrow> (world, issued_tokens) call" where
  "refresh_commit env now fr ctx p = finally_free env now (ro_hash p) (ro_lockToken p)
    (bindC (on_db (rotate_tx env now fr ctx p)) (\<lambda>result.
     bindC (cacheRevoked env now [se_id (ro_session p)]) (\<lambda>_.
     bindC (writeRotationCache env now (ro_hash p) result) (\<lambda>_.
     returnC result))))"

text \<open>A refresh nothing interrupts; the route also needs the cookie and the account.\<close>

definition refresh :: "auth_env \<Rightarrow> millis \<Rightarrow> fresh \<Rightarrow> client_ctx \<Rightarrow> string \<Rightarrow> (world, issued_tokens) call" where
  "refresh env now fr ctx raw =
    bindC (refresh_begin env now (fr_lockToken fr) raw) (\<lambda>phase.
    case phase of
      Reuse t \<Rightarrow> returnC t
    | Waiting \<Rightarrow> throwC (unauthorized ''refresh_busy'')
    | Rotate p \<Rightarrow> refresh_commit env now fr ctx p)"

definition post_refresh :: "auth_env \<Rightarrow> millis \<Rightarrow> fresh \<Rightarrow> client_ctx \<Rightarrow> string option \<Rightarrow> (world, users_row \<times> issued_tokens) call" where
  "post_refresh env now fr ctx cookie = (case cookie of
     None \<Rightarrow> throwC (unauthorized ''no_refresh_cookie'')
   | Some raw \<Rightarrow>
       if raw = [] then throwC (unauthorized ''no_refresh_cookie'')
       else
         bindC (refresh env now fr (ctx\<lparr>cx_deviceId := None\<rparr>) raw) (\<lambda>tokens.
         bindC (on_db (getT (\<lambda>s. select_one (\<lambda>r. u_id r = it_userId tokens) (users s)))) (\<lambda>me.
         case me of None \<Rightarrow> throwC (UnauthorizedError ''Unauthorized'' ''unauthorized'') | Some u \<Rightarrow> returnC (u, tokens))))"

section \<open>Ending sessions\<close>

definition logout :: "auth_env \<Rightarrow> millis \<Rightarrow> uuid option \<Rightarrow> (world, unit) call" where
  "logout env now sessionId = (case sessionId of
     None \<Rightarrow> returnC ()
   | Some sid \<Rightarrow>
       if sid = [] then returnC ()
       else
         bindC (on_db (update_sessions (\<lambda>r. se_id r = sid) (\<lambda>r. r\<lparr>se_revokedAt := Some now\<rparr>))) (\<lambda>_.
         cacheRevoked env now [sid]))"

definition revokeAllSessions :: "auth_env \<Rightarrow> millis \<Rightarrow> uuid \<Rightarrow> (world, unit) call" where
  "revokeAllSessions env now userId =
    bindC (on_db (revoke_sessions now (live_session_of userId))) (\<lambda>ids.
    cacheRevoked env now ids)"

text \<open>The operator's block or role change, with the cache it primes after the commit.\<close>

definition patch_user_route ::
  "auth_env \<Rightarrow> millis \<Rightarrow> string option \<Rightarrow> authed_user option \<Rightarrow> uuid \<Rightarrow> patch_body \<Rightarrow> (world, uuid list) call" where
  "patch_user_route env now ip ru i body =
    bindC (on_db (patch_user now ip ru i body)) (\<lambda>ids.
    bindC (cacheRevoked env now ids) (\<lambda>_.
    returnC ids))"

section \<open>The own password\<close>

definition change_password ::
  "auth_env \<Rightarrow> millis \<Rightarrow> authed_user option \<Rightarrow> string \<Rightarrow> string \<Rightarrow> (world, unit) call" where
  "change_password env now ru currentPassword newPassword =
    bindC (on_db (liftE (requireAuth ru))) (\<lambda>u.
    bindC (throwUnless (str_between 1 256 currentPassword) (ZodError ''currentPassword'')) (\<lambda>_.
    bindC (throwUnless (str_between 8 256 newPassword) (ZodError ''newPassword'')) (\<lambda>_.
    bindC (on_db (bindT (getT (\<lambda>s. select_one (\<lambda>r. u_id r = ru_id u) (users s)))
      (someOr (NotFoundError ''Not found'' ''not_found'')))) (\<lambda>user.
    bindC (throwUnless (ae_verifyPassword env (u_passwordHash user) currentPassword)
      (unauthorized ''invalid_current_password'')) (\<lambda>_.
    bindC (on_db (
      thenT (update_users (\<lambda>r. u_id r = ru_id u)
        (\<lambda>r. r\<lparr>u_passwordHash := ac_hashPassword (ae_account env) newPassword, u_updatedAt := now\<rparr>)) (
      revoke_sessions now (live_session_of (ru_id u))))) (\<lambda>ids.
    cacheRevoked env now ids))))))"

section \<open>Tokens sent by mail\<close>

definition live_token :: "millis \<Rightarrow> mail_token_row option \<Rightarrow> failure + mail_token_row" where
  "live_token now found = (case found of
     None \<Rightarrow> Inl (bad ''invalid_token'')
   | Some row \<Rightarrow>
       if mt_usedAt row \<noteq> None then Inl (bad ''token_already_used'')
       else if mt_expiresAt row \<le> now then Inl (bad ''token_expired'')
       else Inr row)"

definition other_outstanding :: "mail_token_row \<Rightarrow> mail_token_row \<Rightarrow> bool" where
  "other_outstanding tokenRow r \<longleftrightarrow> mt_userId r = mt_userId tokenRow \<and> mt_usedAt r = None \<and> mt_id r \<noteq> mt_id tokenRow"

definition use_token :: "millis \<Rightarrow> mail_token_row \<Rightarrow> mail_token_row" where
  "use_token now r = r\<lparr>mt_usedAt := Some now\<rparr>"

definition consumeEmailVerificationToken :: "auth_env \<Rightarrow> millis \<Rightarrow> string \<Rightarrow> users_row dbtx" where
  "consumeEmailVerificationToken env now rawToken =
    thenT (throwIf (\<not> str_between 16 128 rawToken) (ZodError ''token'')) (
    bindT (getT (\<lambda>s. select_one (\<lambda>r. mt_tokenHash r = ac_sha256 (ae_account env) rawToken) (email_verification_tokens s))) (\<lambda>found.
    bindT (liftE (live_token now found)) (\<lambda>tokenRow.
    thenT (update_verification_tokens (\<lambda>r. mt_id r = mt_id tokenRow) (use_token now)) (
    thenT (update_verification_tokens (other_outstanding tokenRow) (use_token now)) (
    thenT (update_users (\<lambda>r. u_id r = mt_userId tokenRow \<and> u_emailVerifiedAt r = None) (\<lambda>r. r\<lparr>u_emailVerifiedAt := Some now\<rparr>)) (
    bindT (getT (\<lambda>s. select_one (\<lambda>r. u_id r = mt_userId tokenRow) (users s))) (
    someOr (bad ''user_missing''))))))))"

text \<open>Outside a transaction the token and the mail are two statements.\<close>

definition resendVerificationEmail ::
  "auth_env \<Rightarrow> millis \<Rightarrow> uuid \<Rightarrow> string \<Rightarrow> authed_user option \<Rightarrow> (world, bool) call" where
  "resendVerificationEmail env now tokenId raw ru =
    bindC (on_db (liftE (requireAuth ru))) (\<lambda>u.
    bindC (on_db (getT (\<lambda>s. select_one (\<lambda>r. u_id r = ru_id u) (users s)))) (\<lambda>found.
    case found of
      None \<Rightarrow> returnC False
    | Some user \<Rightarrow>
        if u_emailVerifiedAt user \<noteq> None then returnC False
        else
          bindC (on_db (insert_verification_token (verify_token_row (ae_account env) now tokenId raw user))) (\<lambda>_.
          bindC (on_db (insert_outbox (verify_mail (ae_account env) tokenId raw user))) (\<lambda>_.
          returnC True))))"

definition enqueuePasswordReset ::
  "auth_env \<Rightarrow> millis \<Rightarrow> string option \<Rightarrow> uuid \<Rightarrow> string \<Rightarrow> users_row \<Rightarrow> (world, unit) call" where
  "enqueuePasswordReset env now requestedIp tokenId raw user =
    bindC (on_db (insert_reset_token (reset_token_row (ae_account env) now requestedIp tokenId raw user))) (\<lambda>_.
    on_db (insert_outbox (reset_mail (ae_account env) requestedIp tokenId raw user)))"

definition requestPasswordReset ::
  "auth_env \<Rightarrow> millis \<Rightarrow> uuid \<Rightarrow> string \<Rightarrow> account_namespace \<Rightarrow> string option \<Rightarrow> string \<Rightarrow> (world, unit) call" where
  "requestPasswordReset env now tokenId raw ns requestedIp email =
    bindC (throwUnless (ac_isEmail (ae_account env) email \<and> length email \<le> 320) (ZodError ''email'')) (\<lambda>_.
    bindC (on_db (getT (find_account (to_lower email) (rolesForNamespace ns)))) (\<lambda>found.
    case found of
      None \<Rightarrow> returnC ()
    | Some user \<Rightarrow>
        if u_status user = blocked then returnC ()
        else enqueuePasswordReset env now requestedIp tokenId raw user))"

definition reset_tx :: "auth_env \<Rightarrow> millis \<Rightarrow> string \<Rightarrow> string \<Rightarrow> uuid dbtx" where
  "reset_tx env now rawToken newPassword =
    bindT (getT (\<lambda>s. select_one (\<lambda>r. mt_tokenHash r = ac_sha256 (ae_account env) rawToken) (password_reset_tokens s))) (\<lambda>found.
    bindT (liftE (live_token now found)) (\<lambda>tokenRow.
    thenT (update_reset_tokens (\<lambda>r. mt_id r = mt_id tokenRow) (use_token now)) (
    thenT (update_reset_tokens (other_outstanding tokenRow) (use_token now)) (
    thenT (update_users (\<lambda>r. u_id r = mt_userId tokenRow)
      (\<lambda>r. r\<lparr>u_passwordHash := ac_hashPassword (ae_account env) newPassword, u_updatedAt := now\<rparr>)) (
    returnT (mt_userId tokenRow))))))"

definition consumePasswordResetToken :: "auth_env \<Rightarrow> millis \<Rightarrow> string \<Rightarrow> string \<Rightarrow> (world, uuid) call" where
  "consumePasswordResetToken env now rawToken newPassword =
    bindC (throwUnless (str_between 16 128 rawToken) (ZodError ''token'')) (\<lambda>_.
    bindC (throwUnless (str_between 8 256 newPassword) (ZodError ''newPassword'')) (\<lambda>_.
    bindC (on_db (reset_tx env now rawToken newPassword)) (\<lambda>userId.
    bindC (revokeAllSessions env now userId) (\<lambda>_.
    returnC userId))))"

section \<open>Who a request is from\<close>

definition SESSION_STATUS_TTL_SECONDS :: int where "SESSION_STATUS_TTL_SECONDS = 60"

datatype auth_phase =
    Anonymous
  | Known authed_user "uuid option"
  | Unsure authed_user uuid string

text \<open>Up to the cache write; a Redis failure here is not caught.\<close>

definition preHandler_read :: "auth_env \<Rightarrow> millis \<Rightarrow> string option \<Rightarrow> (world, auth_phase) call" where
  "preHandler_read env now cookie w = (case cookie of
     None \<Rightarrow> (Inr Anonymous, w)
   | Some token \<Rightarrow> (case (if token = [] then None else ae_verifyAccessToken env now token) of
       None \<Rightarrow> (Inr Anonymous, w)
     | Some (sub, role, sid) \<Rightarrow>
         let user = \<lparr>ru_id = sub, ru_role = role\<rparr> in
         (case (case sid of Some [] \<Rightarrow> None | _ \<Rightarrow> sid) of
            None \<Rightarrow> (Inr (Known user sid), w)
          | Some session \<Rightarrow>
              if \<not> ae_redisUp env then (Inl (InternalError ''redis''), w)
              else (case redis_get now (SESSION_STATUS_KEY session) (wo_redis w) of
                  Some (RText st) \<Rightarrow> (Inr (if st = ''active'' then Known user sid else Anonymous), w)
                | Some _ \<Rightarrow> (Inr Anonymous, w)
                | None \<Rightarrow>
                    (Inr (Unsure user session (case select_one (\<lambda>r. se_id r = session) (sessions (wo_db w)) of
                        Some row \<Rightarrow> if se_revokedAt row = None then ''active'' else ''revoked''
                      | None \<Rightarrow> ''revoked'')), w)))))"

definition preHandler_write :: "auth_env \<Rightarrow> millis \<Rightarrow> auth_phase \<Rightarrow> (world, (authed_user \<times> uuid option) option) call" where
  "preHandler_write env now phase w = (case phase of
     Anonymous \<Rightarrow> (Inr None, w)
   | Known user sid \<Rightarrow> (Inr (Some (user, sid)), w)
   | Unsure user session status \<Rightarrow>
       if \<not> ae_redisUp env then (Inl (InternalError ''redis''), w)
       else (Inr (if status = ''active'' then Some (user, Some session) else None),
         w\<lparr>wo_redis := redis_set (SESSION_STATUS_KEY session) (RText status)
           (Some (now + SESSION_STATUS_TTL_SECONDS * 1000)) (wo_redis w)\<rparr>))"

definition preHandler :: "auth_env \<Rightarrow> millis \<Rightarrow> string option \<Rightarrow> (world, (authed_user \<times> uuid option) option) call" where
  "preHandler env now cookie = bindC (preHandler_read env now cookie) (preHandler_write env now)"

end
