(* ===== verification/Session_Families.thy ===== *)
theory Session_Families
  imports Sessions
begin

text \<open>
  The sessions as a transition system: every authentication call, the two halves
  of a refresh with other calls between them, and the passing of time.  A
  refresh is assumed to commit while its lock lives; then a family of sessions
  never has two live members.
\<close>

section \<open>Calls that only end sessions\<close>

datatype auth_call =
    Logout "uuid option"
  | RevokeAllSessions uuid
  | PatchUserRoute "string option" uuid patch_body
  | ChangePassword string string
  | ConsumeVerification string
  | ResendVerification uuid string
  | RequestReset uuid string account_namespace "string option" string
  | ConsumeReset string string
  | Authenticate "string option"
  | Poll millis millis string

fun run_auth :: "auth_env \<Rightarrow> millis \<Rightarrow> authed_user option \<Rightarrow> auth_call \<Rightarrow> (world, unit) call" where
  "run_auth env now ru (Logout sid) = logout env now sid"
| "run_auth env now ru (RevokeAllSessions userId) = revokeAllSessions env now userId"
| "run_auth env now ru (PatchUserRoute ip i body) = unitC (patch_user_route env now ip ru i body)"
| "run_auth env now ru (ChangePassword old new) = change_password env now ru old new"
| "run_auth env now ru (ConsumeVerification raw) = unitC (on_db (consumeEmailVerificationToken env now raw))"
| "run_auth env now ru (ResendVerification i raw) = unitC (resendVerificationEmail env now i raw ru)"
| "run_auth env now ru (RequestReset i raw ns ip email) = requestPasswordReset env now i raw ns ip email"
| "run_auth env now ru (ConsumeReset raw new) = unitC (consumePasswordResetToken env now raw new)"
| "run_auth env now ru (Authenticate cookie) = unitC (preHandler env now cookie)"
| "run_auth env now ru (Poll started checkedAt raw) = unitC (refresh_poll env started checkedAt now raw)"

text \<open>Sessions keep their id, token and family, and a revoked one stays revoked.\<close>

definition ends_row :: "sessions_row \<Rightarrow> sessions_row \<Rightarrow> bool" where
  "ends_row r q \<longleftrightarrow> se_id q = se_id r \<and> se_refreshTokenHash q = se_refreshTokenHash r
     \<and> se_familyId q = se_familyId r \<and> (se_revokedAt q = None \<longrightarrow> se_revokedAt r = None)"

abbreviation only_ends :: "sessions_row list \<Rightarrow> sessions_row list \<Rightarrow> bool" where
  "only_ends \<equiv> list_all2 ends_row"

lemma only_ends_refl [simp]: "only_ends ss ss"
  by (rule list.rel_refl) (simp add: ends_row_def)

lemma only_ends_trans: "only_ends ss ts \<Longrightarrow> only_ends ts us \<Longrightarrow> only_ends ss us"
  by (rule list_all2_trans [of ends_row ends_row]) (auto simp: ends_row_def)

lemma only_ends_update: "only_ends ss (update_where P (\<lambda>r. r\<lparr>se_revokedAt := Some now\<rparr>) ss)"
  by (induction ss) (simp_all add: ends_row_def)

definition calm :: "(world, 'a) call \<Rightarrow> bool" where
  "calm m \<longleftrightarrow> (\<forall>w. only_ends (sessions (wo_db w)) (sessions (wo_db (snd (m w))))
     \<and> (\<forall>h. wo_redis (snd (m w)) (rotationLockKey h) = wo_redis w (rotationLockKey h)))"

named_theorems calm_intros \<open>calls that end sessions at most\<close>

lemma calm_bindC [calm_intros]: "calm m \<Longrightarrow> (\<And>a. calm (f a)) \<Longrightarrow> calm (bindC m f)"
  unfolding calm_def bindC_def
  by (auto split: prod.splits sum.splits) (metis only_ends_trans snd_conv)+

lemma calm_pure [calm_intros]:
  "calm (returnC a)" "calm (throwC e)" "calm (throwUnless c e)" "calm (ask_redis env g d)"
  by (simp_all add: calm_def returnC_def throwC_def throwUnless_def ask_redis_def)

lemma calm_unitC [calm_intros]: "calm m \<Longrightarrow> calm (unitC m)"
  by (simp add: calm_def)

lemma calm_if [calm_intros]: "calm m \<Longrightarrow> calm n \<Longrightarrow> calm (if c then m else n)"
  by simp

lemma calm_case_option [calm_intros]:
  "calm m \<Longrightarrow> (\<And>a. calm (f a)) \<Longrightarrow> calm (case x of None \<Rightarrow> m | Some a \<Rightarrow> f a)"
  by (cases x) simp_all

text \<open>Transactions that leave the sessions alone, or end some.\<close>

definition calmT :: "'a dbtx \<Rightarrow> bool" where
  "calmT m \<longleftrightarrow> (\<forall>s a t. m s = Inr (a, t) \<longrightarrow> only_ends (sessions s) (sessions t))"

lemma calm_on_db [calm_intros]: "calmT m \<Longrightarrow> calm (on_db m)"
  by (auto simp: calm_def calmT_def on_db_def split: sum.splits prod.splits)

lemma calmT_bindT [calm_intros]: "calmT m \<Longrightarrow> (\<And>a. calmT (f a)) \<Longrightarrow> calmT (bindT m f)"
  unfolding calmT_def by (auto simp: step_simps) (metis only_ends_trans)

lemma calmT_thenT [calm_intros]: "calmT m \<Longrightarrow> calmT k \<Longrightarrow> calmT (thenT m k)"
  unfolding thenT_def by (intro calm_intros)

lemma calmT_case_option [calm_intros]:
  "calmT m \<Longrightarrow> (\<And>a. calmT (f a)) \<Longrightarrow> calmT (case x of None \<Rightarrow> m | Some a \<Rightarrow> f a)"
  by (cases x) simp_all

lemma calmT_if [calm_intros]: "calmT m \<Longrightarrow> calmT n \<Longrightarrow> calmT (if c then m else n)"
  by simp

lemma calmT_pure [calm_intros]:
  "calmT (returnT a)" "calmT (throwT e)" "calmT (getT g)" "calmT (throwIf c e)" "calmT (someOr e x)" "calmT (liftE y)"
  by (auto simp: calmT_def step_simps)

lemma calmT_statements [calm_intros]:
  "calmT (update_users P1 f1)" "calmT (insert_user r1)" "calmT (insert_wallet_once r6)" "calmT (insert_ledger_once r7)"
  "calmT (update_verification_tokens P3 f3)" "calmT (insert_verification_token r3)"
  "calmT (update_reset_tokens P4 f4)" "calmT (insert_reset_token r4)" "calmT (insert_outbox r5)" "calmT (insert_audit a)"
  "calmT (update_sessions P2 (\<lambda>r. r\<lparr>se_revokedAt := Some now\<rparr>))"
  by (auto simp: calmT_def step_simps only_ends_update)

lemma calmT_ops [calm_intros]:
  "calmT (revoke_sessions now P)" "calmT (patch_user now ip ru i body)" "calmT (reset_tx env now raw new)"
  "calmT (consumeEmailVerificationToken env now raw)" "calmT (signup_account aenv now newId tokenId raw sb)"
  unfolding revoke_sessions_def patch_user_def reset_tx_def consumeEmailVerificationToken_def
    signup_account_def enqueueVerifyEmail_def Let_def
  by (intro calm_intros)+

lemma fold_set_status_lock [simp]:
  "fold (\<lambda>sid. redis_set (SESSION_STATUS_KEY sid) v e) sids r (rotationLockKey h) = r (rotationLockKey h)"
  by (induction sids arbitrary: r) (simp_all add: redis_set_def)

lemma calm_cacheRevoked [calm_intros]: "calm (cacheRevoked env now sids)"
  by (simp add: calm_def cacheRevoked_def on_redis_def)

lemma calm_preHandler [calm_intros]: "calm (preHandler env now cookie)"
proof -
  have "calm (preHandler_read env now cookie)"
    by (auto simp: calm_def preHandler_read_def Let_def split: option.splits list.splits redis_value.splits prod.splits)
  moreover have "calm (preHandler_write env now ph)" for ph
    by (auto simp: calm_def preHandler_write_def redis_set_def split: auth_phase.splits)
  ultimately show ?thesis unfolding preHandler_def by (intro calm_intros)
qed

lemma calm_login_parts [calm_intros]:
  "calm (isLoginRateLimited env now email ns)" "calm (recordLoginFailure env now email ns)"
  "calm (clearLoginFailures env email ns)" "calm (readRotationCache env now hash)"
  "calm (writeRotationCache env now hash tokens)"
  by (auto simp: calm_def isLoginRateLimited_def ask_redis_def recordLoginFailure_def on_redis_def clearLoginFailures_def
      readRotationCache_def writeRotationCache_def redis_incr_def redis_expire_def redis_set_def redis_del_def
      split: option.splits redis_value.splits)

lemma calm_session_ops [calm_intros]:
  "calm (logout env now sid)" "calm (revokeAllSessions env now userId)" "calm (patch_user_route env now ip ru i body)"
  "calm (change_password env now ru old new)"
  unfolding logout_def revokeAllSessions_def patch_user_route_def change_password_def
  by (intro calm_intros)+

lemma calm_mail_ops [calm_intros]:
  "calm (resendVerificationEmail env now i raw ru)" "calm (requestPasswordReset env now i raw ns ip email)"
  "calm (consumePasswordResetToken env now raw new)" "calm (refresh_poll env started checkedAt now raw)"
  unfolding resendVerificationEmail_def requestPasswordReset_def enqueuePasswordReset_def
    consumePasswordResetToken_def refresh_poll_def
  by (intro calm_intros)+

lemma calm_run_auth: "calm (run_auth env now ru c)"
  by (cases c) (simp_all add: calm_intros)

section \<open>Opening a session\<close>

lemma issueTokensWith_Inr [step_simps]:
  "issueTokensWith env now fr userId role ctx parent s = Inr (tokens, t) \<longleftrightarrow>
    (\<exists>row. t = s\<lparr>sessions := sessions s @ [row]\<rparr> \<and> insert_checks no_viol sessions_uniq row (sessions s)
      \<and> row = \<lparr>se_id = fr_sessionId fr, se_userId = userId,
          se_refreshTokenHash = hashRefreshToken env (fr_refreshRaw fr), se_deviceId = cx_deviceId ctx,
          se_userAgent = cx_userAgent ctx, se_ipInet = cx_ip ctx,
          se_expiresAt = now + ae_refreshTtlDays env * 24 * 60 * 60 * 1000, se_revokedAt = None,
          se_familyId = (case parent of None \<Rightarrow> fr_familyId fr | Some (f, _) \<Rightarrow> f),
          se_parentSessionId = map_option snd parent\<rparr>)
    \<and> tokens = \<lparr>it_userId = userId, it_role = role,
        it_accessToken = ae_signAccessToken env userId role (fr_sessionId fr) now,
        it_accessExpiresAt = now + ae_jwtAccessTtlSeconds env * 1000, it_refreshTokenRaw = fr_refreshRaw fr,
        it_refreshExpiresAt = now + ae_refreshTtlDays env * 24 * 60 * 60 * 1000, it_sessionId = fr_sessionId fr\<rparr>"
  by (auto simp: issueTokensWith_def Let_def step_simps)

text \<open>A login, whatever its outcome, ends no session and adds at most one live one, in the new family.\<close>

definition opens :: "uuid \<Rightarrow> (world, 'a) call \<Rightarrow> bool" where
  "opens fam m \<longleftrightarrow> (\<forall>w. \<exists>mid. only_ends (sessions (wo_db w)) mid
     \<and> (\<forall>h. wo_redis (snd (m w)) (rotationLockKey h) = wo_redis w (rotationLockKey h))
     \<and> (sessions (wo_db (snd (m w))) = mid \<or> (\<exists>row. sessions (wo_db (snd (m w))) = mid @ [row]
         \<and> insert_checks no_viol sessions_uniq row mid \<and> se_familyId row = fam)))"

lemma calm_opens: "calm m \<Longrightarrow> opens fam m"
  unfolding calm_def opens_def by blast

lemma opens_bindC:
  assumes "calm m" and "\<And>a. opens fam (f a)"
  shows "opens fam (bindC m f)"
  unfolding opens_def
proof
  fix w
  obtain r v where mw: "m w = (r, v)" by (cases "m w")
  have v: "only_ends (sessions (wo_db w)) (sessions (wo_db v))"
    "\<And>h. wo_redis v (rotationLockKey h) = wo_redis w (rotationLockKey h)"
    using assms(1) mw unfolding calm_def by (metis snd_conv)+
  let ?n = "bindC m f w"
  show "\<exists>mid. only_ends (sessions (wo_db w)) mid
      \<and> (\<forall>h. wo_redis (snd ?n) (rotationLockKey h) = wo_redis w (rotationLockKey h))
      \<and> (sessions (wo_db (snd ?n)) = mid \<or> (\<exists>row. sessions (wo_db (snd ?n)) = mid @ [row]
         \<and> insert_checks no_viol sessions_uniq row mid \<and> se_familyId row = fam))"
  proof (cases r)
    case (Inl e)
    then show ?thesis using v by (auto simp: bindC_def mw)
  next
    case (Inr a)
    from assms(2) [of a, unfolded opens_def, rule_format, of v] obtain mid where
      "only_ends (sessions (wo_db v)) mid"
      "\<And>h. wo_redis (snd (f a v)) (rotationLockKey h) = wo_redis v (rotationLockKey h)"
      "sessions (wo_db (snd (f a v))) = mid \<or> (\<exists>row. sessions (wo_db (snd (f a v))) = mid @ [row]
         \<and> insert_checks no_viol sessions_uniq row mid \<and> se_familyId row = fam)" by blast
    then show ?thesis
      using v only_ends_trans by (intro exI [of _ mid]) (auto simp: bindC_def mw Inr)
  qed
qed

lemma opens_issue: "opens (fr_familyId fr) (bindC (on_db (issueTokensWith env now fr u role ctx None)) (\<lambda>t. returnC (g t)))"
  unfolding opens_def
proof
  fix w
  show "\<exists>mid. only_ends (sessions (wo_db w)) mid
      \<and> (\<forall>h. wo_redis (snd (bindC (on_db (issueTokensWith env now fr u role ctx None)) (\<lambda>t. returnC (g t)) w)) (rotationLockKey h)
          = wo_redis w (rotationLockKey h))
      \<and> (sessions (wo_db (snd (bindC (on_db (issueTokensWith env now fr u role ctx None)) (\<lambda>t. returnC (g t)) w))) = mid
        \<or> (\<exists>row. sessions (wo_db (snd (bindC (on_db (issueTokensWith env now fr u role ctx None)) (\<lambda>t. returnC (g t)) w))) = mid @ [row]
         \<and> insert_checks no_viol sessions_uniq row mid \<and> se_familyId row = fr_familyId fr))"
  proof (cases "issueTokensWith env now fr u role ctx None (wo_db w)")
    case (Inl e)
    then show ?thesis by (intro exI [of _ "sessions (wo_db w)"]) (simp add: bindC_def on_db_def)
  next
    case (Inr x)
    then obtain t s where x: "issueTokensWith env now fr u role ctx None (wo_db w) = Inr (t, s)" by (cases x) auto
    then have "\<exists>row. sessions s = sessions (wo_db w) @ [row]
        \<and> insert_checks no_viol sessions_uniq row (sessions (wo_db w)) \<and> se_familyId row = fr_familyId fr"
      by (clarsimp simp: issueTokensWith_Inr)
    then show ?thesis by (intro exI [of _ "sessions (wo_db w)"]) (simp add: bindC_def on_db_def x returnC_def)
  qed
qed

lemma opens_cases:
  "opens fam m \<Longrightarrow> opens fam n \<Longrightarrow> opens fam (if c then m else n)"
  "opens fam m \<Longrightarrow> (\<And>a. opens fam (f a)) \<Longrightarrow> opens fam (case x of None \<Rightarrow> m | Some a \<Rightarrow> f a)"
  "opens fam (throwC e)"
  by (simp_all add: calm_opens calm_intros split: option.splits)

lemma opens_login: "opens (fr_familyId fr) (login env now fr ctx ns email password)"
  unfolding login_def Let_def by (intro opens_cases opens_bindC opens_issue calm_intros)

lemma opens_signup: "opens (fr_familyId fr) (signup env now fr newId tokenId raw ns ctx body)"
  unfolding signup_def by (intro opens_bindC opens_issue calm_intros)

section \<open>The system\<close>

text \<open>The world, the rotations between lookup and transaction with the time they took their lock, and the clock.\<close>

record auth_system =
  sy_world :: world
  sy_pending :: "(rotation \<times> millis) list"
  sy_now :: millis

fun begun :: "millis \<Rightarrow> failure + refresh_phase \<Rightarrow> (rotation \<times> millis) list" where
  "begun now (Inr (Rotate p)) = [(p, now)]"
| "begun now _ = []"

text \<open>A new login starts in a family no session has yet, as a fresh uuid is.\<close>

definition fresh_family :: "uuid \<Rightarrow> world \<Rightarrow> bool" where
  "fresh_family fam w \<longleftrightarrow> (\<forall>r \<in> set (sessions (wo_db w)). se_familyId r \<noteq> fam)"

inductive auth_step :: "auth_system \<Rightarrow> auth_system \<Rightarrow> bool" where
  tick: "sy_now y \<le> now \<Longrightarrow> (\<And>p start. (p, start) \<in> set (sy_pending y) \<Longrightarrow> now < start + REFRESH_LOCK_TTL_MS) \<Longrightarrow>
    auth_step y (y\<lparr>sy_now := now\<rparr>)"
| call: "run_auth env (sy_now y) ru c (sy_world y) = (r, w) \<Longrightarrow> auth_step y (y\<lparr>sy_world := w\<rparr>)"
| enter: "fresh_family (fr_familyId fr) (sy_world y) \<Longrightarrow>
    login env (sy_now y) fr ctx ns email password (sy_world y) = (r, w) \<Longrightarrow> auth_step y (y\<lparr>sy_world := w\<rparr>)"
| register: "fresh_family (fr_familyId fr) (sy_world y) \<Longrightarrow>
    signup env (sy_now y) fr newId tokenId raw ns ctx body (sy_world y) = (r, w) \<Longrightarrow> auth_step y (y\<lparr>sy_world := w\<rparr>)"
| rotate: "refresh_begin env (sy_now y) lockToken raw (sy_world y) = (r, w) \<Longrightarrow>
    auth_step y (y\<lparr>sy_world := w, sy_pending := begun (sy_now y) r @ sy_pending y\<rparr>)"
| finish: "sy_pending y = before @ (p, start) # after \<Longrightarrow>
    refresh_commit env (sy_now y) fr ctx p (sy_world y) = (r, w) \<Longrightarrow>
    auth_step y (y\<lparr>sy_world := w, sy_pending := before @ after\<rparr>)"

definition live_ids :: "uuid \<Rightarrow> sessions_row list \<Rightarrow> uuid set" where
  "live_ids fam rs = ids_where se_id (live_in_family fam) rs"

definition single_live :: "sessions_row list \<Rightarrow> bool" where
  "single_live rs \<longleftrightarrow> (\<forall>fam i j. i \<in> live_ids fam rs \<longrightarrow> j \<in> live_ids fam rs \<longrightarrow> i = j)"

definition pending_ok :: "redis \<Rightarrow> millis \<Rightarrow> sessions_row list \<Rightarrow> rotation \<times> millis \<Rightarrow> bool" where
  "pending_ok r now rs q \<longleftrightarrow> (case q of (p, start) \<Rightarrow>
     (\<exists>row \<in> set rs. se_id row = se_id (ro_session p) \<and> se_familyId row = se_familyId (ro_session p)
        \<and> se_refreshTokenHash row = ro_hash p)
   \<and> live_ids (se_familyId (ro_session p)) rs \<subseteq> {se_id (ro_session p)}
   \<and> now < start + REFRESH_LOCK_TTL_MS
   \<and> r (rotationLockKey (ro_hash p)) = Some (RText (ro_lockToken p), Some (start + REFRESH_LOCK_TTL_MS)))"

abbreviation pending_family :: "rotation \<times> millis \<Rightarrow> uuid" where
  "pending_family q \<equiv> se_familyId (ro_session (fst q))"

definition families_ok :: "auth_system \<Rightarrow> bool" where
  "families_ok y \<longleftrightarrow>
     (let rs = sessions (wo_db (sy_world y)) in
      table_ok no_viol sessions_uniq rs \<and> single_live rs
      \<and> list_all (pending_ok (wo_redis (sy_world y)) (sy_now y) rs) (sy_pending y)
      \<and> distinct (map pending_family (sy_pending y)))"

section \<open>Invariant\<close>

lemma live_ids_append [simp]: "live_ids fam (rs @ [row]) = live_ids fam rs \<union> (if live_in_family fam row then {se_id row} else {})"
  by (auto simp: live_ids_def ids_where_def)

lemma live_ids_ends: "only_ends ss ts \<Longrightarrow> live_ids fam ts \<subseteq> live_ids fam ss"
  by (induction rule: list_all2_induct) (auto simp: live_ids_def ids_where_def ends_row_def live_in_family_def)

lemma live_ids_revoke:
  "live_ids fam (update_where (\<lambda>r. se_id r = i) (\<lambda>r. r\<lparr>se_revokedAt := Some now\<rparr>) rs) = live_ids fam rs - {i}"
  unfolding live_ids_def ids_where_def by (induction rs) (auto simp: live_in_family_def)

lemma ends_keys:
  assumes "only_ends ss ts"
  shows "map se_id ts = map se_id ss" "map se_refreshTokenHash ts = map se_refreshTokenHash ss"
    "map se_familyId ts = map se_familyId ss"
  using assms by (induction rule: list_all2_induct) (simp_all add: ends_row_def)

lemma ends_table: "only_ends ss ts \<Longrightarrow> table_ok no_viol sessions_uniq ss \<Longrightarrow> table_ok no_viol sessions_uniq ts"
  by (simp add: table_ok_def no_viol_def list_all_iff sessions_uniq_def ends_keys)

lemma ends_row_exists:
  "only_ends ss ts \<Longrightarrow> r \<in> set ss \<Longrightarrow> \<exists>q \<in> set ts. se_id q = se_id r \<and> se_familyId q = se_familyId r
     \<and> se_refreshTokenHash q = se_refreshTokenHash r"
  by (induction rule: list_all2_induct) (auto simp: ends_row_def)

lemma single_live_sub: "single_live ss \<Longrightarrow> (\<And>fam. live_ids fam ts \<subseteq> live_ids fam ss) \<Longrightarrow> single_live ts"
  unfolding single_live_def by blast

lemma pending_ok_ends:
  assumes "pending_ok r now ss q" and "only_ends ss ts"
    and "r' (rotationLockKey (ro_hash (fst q))) = r (rotationLockKey (ro_hash (fst q)))"
  shows "pending_ok r' now ts q"
proof -
  obtain p start where q: "q = (p, start)" by (cases q)
  from assms(1) obtain row where "row \<in> set ss" "se_id row = se_id (ro_session p)"
      "se_familyId row = se_familyId (ro_session p)" "se_refreshTokenHash row = ro_hash p"
    by (auto simp: q pending_ok_def)
  with ends_row_exists [OF assms(2)] have "\<exists>row \<in> set ts. se_id row = se_id (ro_session p)
      \<and> se_familyId row = se_familyId (ro_session p) \<and> se_refreshTokenHash row = ro_hash p" by metis
  then show ?thesis using assms(1,3) live_ids_ends [OF assms(2)] by (auto simp: q pending_ok_def)
qed

text \<open>Another session appears in a family no pending rotation is about.\<close>

lemma pending_ok_append:
  assumes "pending_ok r now rs q" and "se_familyId row \<noteq> pending_family q"
  shows "pending_ok r now (rs @ [row]) q"
  using assms by (auto simp: pending_ok_def live_in_family_def split: prod.splits)

lemma pending_lock_held:
  assumes "pending_ok r now rs (p, start)"
  shows "redis_get now (rotationLockKey (ro_hash p)) r = Some (RText (ro_lockToken p))"
  using assms by (auto simp: pending_ok_def redis_get_def)

lemma families_okI:
  assumes "table_ok no_viol sessions_uniq (sessions (wo_db w))" "single_live (sessions (wo_db w))"
    and "\<And>q. q \<in> set ps \<Longrightarrow> pending_ok (wo_redis w) now (sessions (wo_db w)) q"
    and "distinct (map pending_family ps)"
  shows "families_ok (y\<lparr>sy_world := w, sy_pending := ps, sy_now := now\<rparr>)"
  using assms by (simp add: families_ok_def list_all_iff)

lemma families_okD:
  assumes "families_ok y"
  shows "table_ok no_viol sessions_uniq (sessions (wo_db (sy_world y)))" "single_live (sessions (wo_db (sy_world y)))"
    and "\<And>q. q \<in> set (sy_pending y) \<Longrightarrow> pending_ok (wo_redis (sy_world y)) (sy_now y) (sessions (wo_db (sy_world y))) q"
    and "distinct (map pending_family (sy_pending y))"
  using assms by (simp_all add: families_ok_def list_all_iff Let_def)

lemma families_open:
  assumes ok: "families_ok y" and fam: "fresh_family fam (sy_world y)" and m: "opens fam m" "m (sy_world y) = (r, w)"
  shows "families_ok (y\<lparr>sy_world := w\<rparr>)"
proof -
  let ?ss = "sessions (wo_db (sy_world y))" and ?ts = "sessions (wo_db w)"
  from m obtain mid where mid: "only_ends ?ss mid"
    and locks: "\<And>h. wo_redis w (rotationLockKey h) = wo_redis (sy_world y) (rotationLockKey h)"
    and ts: "?ts = mid \<or> (\<exists>row. ?ts = mid @ [row] \<and> insert_checks no_viol sessions_uniq row mid \<and> se_familyId row = fam)"
    unfolding opens_def by (metis snd_conv)
  note table = ends_table [OF mid families_okD(1) [OF ok]]
  note single = single_live_sub [OF families_okD(2) [OF ok] live_ids_ends [OF mid]]
  have none: "live_ids fam mid = {}"
    using fam live_ids_ends [OF mid, of fam]
    by (auto simp: fresh_family_def live_ids_def ids_where_def live_in_family_def)
  have pend: "pending_ok (wo_redis w) (sy_now y) mid q \<and> fam \<noteq> pending_family q" if "q \<in> set (sy_pending y)" for q
  proof
    show "pending_ok (wo_redis w) (sy_now y) mid q"
      by (rule pending_ok_ends [OF families_okD(3) [OF ok that] mid]) (rule locks)
    show "fam \<noteq> pending_family q"
      using families_okD(3) [OF ok that] fam by (auto simp: fresh_family_def pending_ok_def split: prod.splits)
  qed
  from ts have "table_ok no_viol sessions_uniq ?ts \<and> single_live ?ts
      \<and> (\<forall>q \<in> set (sy_pending y). pending_ok (wo_redis w) (sy_now y) ?ts q)"
  proof
    assume "?ts = mid"
    then show ?thesis using table single pend by simp
  next
    assume "\<exists>row. ?ts = mid @ [row] \<and> insert_checks no_viol sessions_uniq row mid \<and> se_familyId row = fam"
    then obtain row where row: "?ts = mid @ [row]" "insert_checks no_viol sessions_uniq row mid" "se_familyId row = fam"
      by blast
    have "table_ok no_viol sessions_uniq (mid @ [row])"
      using table row(2) by (simp add: table_ok_def insert_checks_def)
    moreover have "single_live (mid @ [row])"
      using single none row(3) unfolding single_live_def by (auto simp: live_in_family_def)
    ultimately show ?thesis using pend row by (auto intro!: pending_ok_append)
  qed
  then show ?thesis using families_okD(4) [OF ok] families_okI [of w "sy_pending y" "sy_now y" y] by simp
qed

lemma families_calm:
  assumes ok: "families_ok y" and ends: "only_ends (sessions (wo_db (sy_world y))) (sessions (wo_db w))"
    and locks: "\<And>q. q \<in> set (sy_pending y) \<Longrightarrow>
      wo_redis w (rotationLockKey (ro_hash (fst q))) = wo_redis (sy_world y) (rotationLockKey (ro_hash (fst q)))"
  shows "families_ok (y\<lparr>sy_world := w\<rparr>)"
proof -
  have "families_ok (y\<lparr>sy_world := w, sy_pending := sy_pending y, sy_now := sy_now y\<rparr>)"
  proof (rule families_okI)
    show "pending_ok (wo_redis w) (sy_now y) (sessions (wo_db w)) q" if "q \<in> set (sy_pending y)" for q
      using families_okD(3) [OF ok that] ends locks [OF that] by (rule pending_ok_ends)
    show "single_live (sessions (wo_db w))"
      using families_okD(2) [OF ok] live_ids_ends [OF ends] by (rule single_live_sub)
  qed (use families_okD(1,4) [OF ok] ends_table [OF ends] in simp_all)
  then show ?thesis by simp
qed

text \<open>The first half of a refresh: it starts a rotation of a live session nobody else rotates, or ends sessions at most.\<close>

lemma refresh_lookup_cases:
  assumes "refresh_lookup env now lockToken hash w = (r, v)"
  shows "only_ends (sessions (wo_db w)) (sessions (wo_db v))"
    and "\<And>h. wo_redis v (rotationLockKey h) = wo_redis w (rotationLockKey h)"
    and "r = Inr (Rotate p) \<Longrightarrow> v = w \<and> ro_hash p = hash \<and> ro_lockToken p = lockToken
      \<and> select_one (\<lambda>r. se_refreshTokenHash r = hash) (sessions (wo_db w)) = Some (ro_session p)
      \<and> se_revokedAt (ro_session p) = None"
proof -
  have "calm (refresh_lookup env now lockToken hash)"
    unfolding refresh_lookup_def by (intro calm_intros)
  then show "only_ends (sessions (wo_db w)) (sessions (wo_db v))"
    "\<And>h. wo_redis v (rotationLockKey h) = wo_redis w (rotationLockKey h)"
    using assms unfolding calm_def by (metis snd_conv)+
  show "v = w \<and> ro_hash p = hash \<and> ro_lockToken p = lockToken
      \<and> select_one (\<lambda>r. se_refreshTokenHash r = hash) (sessions (wo_db w)) = Some (ro_session p)
      \<and> se_revokedAt (ro_session p) = None" if "r = Inr (Rotate p)"
    using assms that unfolding refresh_lookup_def
    by (auto simp: step_simps readRotationCache_def ask_redis_def on_db_def getT_def split: option.splits if_splits)
qed

lemma free_lock_snd:
  "wo_db (snd (free_lock env now hash token v)) = wo_db v"
  "h \<noteq> hash \<Longrightarrow> wo_redis (snd (free_lock env now hash token v)) (rotationLockKey h) = wo_redis v (rotationLockKey h)"
  by (simp_all add: free_lock_def on_redis_def release_lock_def redis_del_def)

lemma refresh_begin_cases:
  assumes "refresh_begin env now lockToken raw w = (r, v)"
  obtains (ended) "begun now r = []" "only_ends (sessions (wo_db w)) (sessions (wo_db v))"
      "\<And>h. redis_get now (rotationLockKey h) (wo_redis w) \<noteq> None \<Longrightarrow>
        wo_redis v (rotationLockKey h) = wo_redis w (rotationLockKey h)"
  | (rotating) p where "r = Inr (Rotate p)" "wo_db v = wo_db w"
      "redis_get now (rotationLockKey (ro_hash p)) (wo_redis w) = None"
      "wo_redis v = (wo_redis w)(rotationLockKey (ro_hash p) \<mapsto> (RText (ro_lockToken p), Some (now + REFRESH_LOCK_TTL_MS)))"
      "select_one (\<lambda>r. se_refreshTokenHash r = ro_hash p) (sessions (wo_db w)) = Some (ro_session p)"
      "se_revokedAt (ro_session p) = None"
proof -
  let ?hash = "hashRefreshToken env raw"
  let ?u = "w\<lparr>wo_redis := (wo_redis w)(rotationLockKey ?hash \<mapsto> (RText lockToken, Some (now + REFRESH_LOCK_TTL_MS)))\<rparr>"
  consider (idle) "v = w" "begun now r = []"
    | (locked) "redis_get now (rotationLockKey ?hash) (wo_redis w) = None"
      "(case refresh_lookup env now lockToken ?hash ?u of (Inr (Rotate p), v) \<Rightarrow> (Inr (Rotate p), v)
          | (r, v) \<Rightarrow> (r, snd (free_lock env now ?hash lockToken v))) = (r, v)"
    using assms unfolding refresh_begin_def Let_def
    by (auto simp: bindC_def readRotationCache_def ask_redis_def acquire_lock_def redis_setnx_def redis_set_def
        returnC_def split: option.splits if_splits)
  then show thesis
  proof cases
    case idle
    then show thesis by (intro ended) simp_all
  next
    case locked
    obtain r' v' where look: "refresh_lookup env now lockToken ?hash ?u = (r', v')"
      by (cases "refresh_lookup env now lockToken ?hash ?u")
    note look_facts = refresh_lookup_cases [OF look]
    show thesis
    proof (cases "\<exists>p. r' = Inr (Rotate p)")
      case True
      then obtain p where "r' = Inr (Rotate p)" by blast
      then show thesis using locked look look_facts(3) [of p] by (intro rotating [of p]) auto
    next
      case False
      then have v: "v = snd (free_lock env now ?hash lockToken v')" "r = r'"
        using locked(2) look by (auto split: sum.splits refresh_phase.splits)
      show thesis
      proof (rule ended)
        show "begun now r = []" using False v(2) by (cases "(now, r)" rule: begun.cases) auto
        show "only_ends (sessions (wo_db w)) (sessions (wo_db v))" using look_facts(1) by (simp add: v free_lock_snd)
        show "wo_redis v (rotationLockKey h) = wo_redis w (rotationLockKey h)"
          if "redis_get now (rotationLockKey h) (wo_redis w) \<noteq> None" for h
        proof -
          have "h \<noteq> ?hash" using that locked(1) by auto
          then show ?thesis using look_facts(2) [of h] by (simp add: v free_lock_snd)
        qed
      qed
    qed
  qed
qed

lemma distinct_sessions:
  assumes "table_ok no_viol sessions_uniq rs"
  shows "distinct (map se_id rs)" "distinct (map se_refreshTokenHash rs)"
  using assms by (simp_all add: table_ok_def sessions_uniq_def)

lemma families_rotate:
  assumes ok: "families_ok y" and run: "refresh_begin env (sy_now y) lockToken raw (sy_world y) = (r, w)"
  shows "families_ok (y\<lparr>sy_world := w, sy_pending := begun (sy_now y) r @ sy_pending y\<rparr>)"
  using run
proof (cases rule: refresh_begin_cases)
  case ended
  have "wo_redis w (rotationLockKey (ro_hash (fst q))) = wo_redis (sy_world y) (rotationLockKey (ro_hash (fst q)))"
    if "q \<in> set (sy_pending y)" for q
    using pending_lock_held families_okD(3) [OF ok that] by (intro ended(3)) (cases q, fastforce)
  then have "families_ok (y\<lparr>sy_world := w\<rparr>)" using ended(2) by (intro families_calm [OF ok])
  then show ?thesis by (simp add: ended(1))
next
  case (rotating p)
  let ?rs = "sessions (wo_db (sy_world y))" and ?fam = "se_familyId (ro_session p)"
  note keys = distinct_sessions [OF families_okD(1) [OF ok]]
  have row: "ro_session p \<in> set ?rs" "se_refreshTokenHash (ro_session p) = ro_hash p"
    using rotating(5) by (auto dest: select_one_SomeD)
  have "se_id (ro_session p) \<in> live_ids ?fam ?rs"
    using row rotating(6) by (auto simp: live_ids_def ids_where_def live_in_family_def)
  then have live: "live_ids ?fam ?rs \<subseteq> {se_id (ro_session p)}"
    using families_okD(2) [OF ok] unfolding single_live_def by blast
  have other: "ro_hash (fst q) \<noteq> ro_hash p \<and> pending_family q \<noteq> ?fam" if q: "q \<in> set (sy_pending y)" for q
  proof -
    obtain p' start where q': "q = (p', start)" by (cases q)
    have pq: "pending_ok (wo_redis (sy_world y)) (sy_now y) ?rs (p', start)" using families_okD(3) [OF ok q] by (simp add: q')
    then have hash: "ro_hash p' \<noteq> ro_hash p" using pending_lock_held [OF pq] rotating(3) by auto
    from pq obtain row' where row': "row' \<in> set ?rs" "se_id row' = se_id (ro_session p')"
      "se_refreshTokenHash row' = ro_hash p'" and sub: "live_ids (se_familyId (ro_session p')) ?rs \<subseteq> {se_id (ro_session p')}"
      by (auto simp: pending_ok_def)
    have "se_familyId (ro_session p') \<noteq> ?fam"
    proof
      assume "se_familyId (ro_session p') = ?fam"
      then have "se_id (ro_session p) = se_id (ro_session p')"
        using sub \<open>se_id (ro_session p) \<in> live_ids ?fam ?rs\<close> by auto
      then have "row' = ro_session p" using distinct_key_inj [OF keys(1)] row(1) row'(1,2) by metis
      then show False using row(2) row'(3) hash by simp
    qed
    then show ?thesis using hash by (simp add: q')
  qed
  have "families_ok (y\<lparr>sy_world := w, sy_pending := (p, sy_now y) # sy_pending y, sy_now := sy_now y\<rparr>)"
  proof (rule families_okI)
    show "pending_ok (wo_redis w) (sy_now y) (sessions (wo_db w)) q" if "q \<in> set ((p, sy_now y) # sy_pending y)" for q
    proof (cases "q = (p, sy_now y)")
      case True
      then show ?thesis
        using row live by (auto simp: pending_ok_def rotating(2,4) REFRESH_LOCK_TTL_MS_def)
    next
      case False
      then have q: "q \<in> set (sy_pending y)" using that by simp
      show ?thesis
        by (rule pending_ok_ends [OF families_okD(3) [OF ok q]]) (simp_all add: rotating(2,4) other [OF q])
    qed
    show "distinct (map pending_family ((p, sy_now y) # sy_pending y))"
      using families_okD(4) [OF ok] other by (simp add: image_iff) metis
  qed (use families_okD(1,2) [OF ok] rotating(2) in simp_all)
  then show ?thesis by (simp add: rotating(1))
qed

text \<open>The second half: the old session ends and one opens in the same family, or nothing but the lock changes.\<close>

lemma refresh_commit_cases:
  assumes "refresh_commit env now fr ctx p w = (r, v)"
  obtains (failed) e where "r = Inl e" "wo_db v = wo_db w"
    "\<And>h. h \<noteq> ro_hash p \<Longrightarrow> wo_redis v (rotationLockKey h) = wo_redis w (rotationLockKey h)"
  | (rotated) row tokens where "r = Inr tokens" "it_sessionId tokens = se_id row" "se_id row = fr_sessionId fr"
      "se_familyId row = se_familyId (ro_session p)" "se_revokedAt row = None" "se_userId row = u_id (ro_user p)"
      "sessions (wo_db v) = update_where (\<lambda>r. se_id r = se_id (ro_session p)) (\<lambda>r. r\<lparr>se_revokedAt := Some now\<rparr>)
         (sessions (wo_db w)) @ [row]"
      "insert_checks no_viol sessions_uniq row
        (update_where (\<lambda>r. se_id r = se_id (ro_session p)) (\<lambda>r. r\<lparr>se_revokedAt := Some now\<rparr>) (sessions (wo_db w)))"
      "\<And>h. h \<noteq> ro_hash p \<Longrightarrow> wo_redis v (rotationLockKey h) = wo_redis w (rotationLockKey h)"
proof (cases "rotate_tx env now fr ctx p (wo_db w)")
  case (Inl e)
  then have "r = Inl e \<and> v = snd (free_lock env now (ro_hash p) (ro_lockToken p) w)"
    using assms by (auto simp: refresh_commit_def finally_free_def bindC_def on_db_def)
  then show thesis by (intro failed [of e]) (simp_all add: free_lock_snd)
next
  case (Inr x)
  then obtain tokens t where x: "rotate_tx env now fr ctx p (wo_db w) = Inr (tokens, t)" by (cases x) auto
  then have r: "r = Inr tokens" and v: "wo_db v = t"
    "\<And>h. h \<noteq> ro_hash p \<Longrightarrow> wo_redis v (rotationLockKey h) = wo_redis w (rotationLockKey h)"
    using assms
    by (auto simp: refresh_commit_def finally_free_def bindC_def on_db_def returnC_def free_lock_snd cacheRevoked_def
        writeRotationCache_def on_redis_def redis_set_def split: if_splits)
  let ?rs = "update_where (\<lambda>r. se_id r = se_id (ro_session p)) (\<lambda>r. r\<lparr>se_revokedAt := Some now\<rparr>) (sessions (wo_db w))"
  from x have "\<exists>row. sessions t = ?rs @ [row] \<and> insert_checks no_viol sessions_uniq row ?rs \<and> se_id row = fr_sessionId fr
      \<and> se_familyId row = se_familyId (ro_session p) \<and> se_revokedAt row = None \<and> se_userId row = u_id (ro_user p)
      \<and> it_sessionId tokens = se_id row"
    unfolding rotate_tx_def by (clarsimp simp: step_simps)
  then show thesis by (elim exE conjE) (rule rotated, simp_all add: r v)
qed

lemma families_finish:
  assumes ok: "families_ok y" and pend: "sy_pending y = before @ (p, start) # after"
    and run: "refresh_commit env (sy_now y) fr ctx p (sy_world y) = (r, w)"
  shows "families_ok (y\<lparr>sy_world := w, sy_pending := before @ after\<rparr>)"
proof -
  let ?rs = "sessions (wo_db (sy_world y))" and ?fam = "se_familyId (ro_session p)"
  let ?mid = "update_where (\<lambda>r. se_id r = se_id (ro_session p)) (\<lambda>r. r\<lparr>se_revokedAt := Some (sy_now y)\<rparr>) ?rs"
  have mid: "only_ends ?rs ?mid" by (rule only_ends_update)
  have pp: "pending_ok (wo_redis (sy_world y)) (sy_now y) ?rs (p, start)" using families_okD(3) [OF ok] pend by simp
  have "live_ids ?fam ?rs \<subseteq> {se_id (ro_session p)}" using pp by (simp add: pending_ok_def)
  then have gone: "live_ids ?fam ?mid = {}"
    by (auto simp: live_ids_revoke)
  have dist: "distinct (map pending_family (before @ after))" and fresh: "?fam \<notin> pending_family ` set (before @ after)"
    using families_okD(4) [OF ok] by (auto simp: pend)
  have other: "pending_family q \<noteq> ?fam" if "q \<in> set (before @ after)" for q
    using that fresh by (metis image_eqI)
  have pq: "pending_ok (wo_redis (sy_world y)) (sy_now y) ?rs q" if "q \<in> set (before @ after)" for q
    using families_okD(3) [OF ok] that by (simp add: pend)
  have hash: "ro_hash (fst q) \<noteq> ro_hash p" if q: "q \<in> set (before @ after)" for q
  proof
    assume eq: "ro_hash (fst q) = ro_hash p"
    obtain row row' where rows: "row \<in> set ?rs" "se_refreshTokenHash row = ro_hash p" "se_familyId row = ?fam"
      "row' \<in> set ?rs" "se_refreshTokenHash row' = ro_hash (fst q)" "se_familyId row' = pending_family q"
      using pp pq [OF q] by (auto simp: pending_ok_def split: prod.splits)
    then have "row' = row" using distinct_key_inj [OF distinct_sessions(2) [OF families_okD(1) [OF ok]]] eq by metis
    then show False using rows other [OF q] by simp
  qed
  from run show ?thesis
  proof (cases rule: refresh_commit_cases)
    case (failed e)
    have "families_ok (y\<lparr>sy_world := w, sy_pending := before @ after, sy_now := sy_now y\<rparr>)"
    proof (rule families_okI)
      show "pending_ok (wo_redis w) (sy_now y) (sessions (wo_db w)) q" if "q \<in> set (before @ after)" for q
        by (rule pending_ok_ends [OF pq [OF that]]) (simp_all add: failed hash [OF that])
    qed (use families_okD(1,2) [OF ok] dist failed(2) in simp_all)
    then show ?thesis by simp
  next
    case (rotated row tokens)
    have "families_ok (y\<lparr>sy_world := w, sy_pending := before @ after, sy_now := sy_now y\<rparr>)"
    proof (rule families_okI)
      show "table_ok no_viol sessions_uniq (sessions (wo_db w))"
        using ends_table [OF mid families_okD(1) [OF ok]] rotated(8)
        unfolding rotated(7) by (simp add: table_ok_def insert_checks_def)
      show "single_live (sessions (wo_db w))"
        using single_live_sub [OF families_okD(2) [OF ok] live_ids_ends [OF mid]] gone rotated(4)
        unfolding rotated(7) single_live_def by (auto simp: live_in_family_def)
      show "pending_ok (wo_redis w) (sy_now y) (sessions (wo_db w)) q" if "q \<in> set (before @ after)" for q
        unfolding rotated(7)
        by (rule pending_ok_append, rule pending_ok_ends [OF pq [OF that] mid])
           (use rotated(4,9) hash [OF that] other [OF that] in auto)
    qed (rule dist)
    then show ?thesis by simp
  qed
qed

lemma families_step:
  assumes "auth_step y z" and ok: "families_ok y"
  shows "families_ok z"
  using assms(1)
proof cases
  case (tick now)
  have "pending_ok (wo_redis (sy_world y)) now (sessions (wo_db (sy_world y))) q" if "q \<in> set (sy_pending y)" for q
    using families_okD(3) [OF ok that] tick(3) that by (cases q) (simp add: pending_ok_def)
  then have "families_ok (y\<lparr>sy_world := sy_world y, sy_pending := sy_pending y, sy_now := now\<rparr>)"
    by (intro families_okI families_okD(1,2,4) [OF ok])
  then show ?thesis using tick(1) by simp
next
  case (call env ru c r w)
  have "only_ends (sessions (wo_db (sy_world y))) (sessions (wo_db w))
      \<and> (\<forall>h. wo_redis w (rotationLockKey h) = wo_redis (sy_world y) (rotationLockKey h))"
    using calm_run_auth [of env "sy_now y" ru c] call(2) unfolding calm_def by (metis snd_conv)
  then show ?thesis unfolding call(1) by (intro families_calm [OF ok]) simp_all
next
  case (enter fr env ctx ns email password r w)
  show ?thesis unfolding enter(1) by (rule families_open [OF ok enter(2) opens_login enter(3)])
next
  case (register fr env newId tokenId raw ns ctx body r w)
  show ?thesis unfolding register(1) by (rule families_open [OF ok register(2) opens_signup register(3)])
next
  case (rotate env lockToken raw r w)
  show ?thesis unfolding rotate(1) by (rule families_rotate [OF ok rotate(2)])
next
  case (finish before p start after env fr ctx r w)
  show ?thesis unfolding finish(1) by (rule families_finish [OF ok finish(2,3)])
qed

inductive auth_reachable :: "auth_system \<Rightarrow> auth_system \<Rightarrow> bool" for y0 where
  start: "auth_reachable y0 y0"
| step: "auth_reachable y0 y \<Longrightarrow> auth_step y z \<Longrightarrow> auth_reachable y0 z"

lemma families_reachable: "auth_reachable y0 y \<Longrightarrow> families_ok y0 \<Longrightarrow> families_ok y"
  by (induction rule: auth_reachable.induct) (auto intro: families_step)

end
