(* ===== verification/Session_Properties.thy ===== *)
theory Session_Properties
  imports Session_Families
begin

text \<open>
  What the authentication code promises of sessions and credentials, and the two
  windows in which a revocation is overtaken by a request already on its way.
\<close>

section \<open>Families\<close>

text \<open>C6: whatever logins, refreshes, logouts, resets and operator actions are interleaved, as long as
  each rotation commits while its lock lives, a family of sessions has at most one live session.\<close>

theorem one_live_session_per_family:
  assumes "families_ok y0" and "auth_reachable y0 y"
    and "r \<in> set (sessions (wo_db (sy_world y)))" "q \<in> set (sessions (wo_db (sy_world y)))"
    and "se_familyId r = se_familyId q" "se_revokedAt r = None" "se_revokedAt q = None"
  shows "r = q"
proof -
  note ok = families_reachable [OF assms(2,1)]
  let ?ids = "live_ids (se_familyId q) (sessions (wo_db (sy_world y)))"
  have "se_id r \<in> ?ids" "se_id q \<in> ?ids"
    using assms(3-7) by (auto simp: live_ids_def ids_where_def live_in_family_def)
  then have "se_id r = se_id q" using families_okD(2) [OF ok] unfolding single_live_def by blast
  then show ?thesis
    by (rule distinct_key_inj [OF distinct_sessions(1) [OF families_okD(1) [OF ok]] assms(3,4)])
qed

definition sample_auth_env :: auth_env where
  "sample_auth_env = \<lparr>ae_account = \<lparr>ac_isEmail = (\<lambda>t. CHR ''@'' \<in> set t), ac_hashPassword = (\<lambda>t. ''hash-of-'' @ t),
       ac_sha256 = (\<lambda>t. t), ac_baseUrl = ''https://oddzilla.cc''\<rparr>,
     ae_verifyPassword = (\<lambda>h t. h = ''hash-of-'' @ t), ae_signAccessToken = (\<lambda>u r sid now. sid),
     ae_verifyAccessToken = (\<lambda>now t. Some (''ann'', user_r, Some t)),
     ae_jwtAccessTtlSeconds = 900, ae_refreshTtlDays = 30, ae_redisUp = True\<rparr>"

definition sample_world :: world where
  "sample_world = \<lparr>wo_db = sample_db, wo_redis = (\<lambda>_. None)\<rparr>"

definition sample_fresh :: fresh where
  "sample_fresh = \<lparr>fr_sessionId = ''ses2'', fr_familyId = ''fam2'', fr_refreshRaw = ''r2'', fr_lockToken = ''lock1''\<rparr>"

definition sample_client :: client_ctx where
  "sample_client = \<lparr>cx_ip = None, cx_userAgent = None, cx_deviceId = None\<rparr>"

definition sample_rotation :: rotation where
  "sample_rotation = \<lparr>ro_hash = ''r1'', ro_lockToken = ''lock1'', ro_session = sample_session,
     ro_user = sample_user ''ann'' ''ann@x'' user_r\<rparr>"

definition sample_system :: auth_system where
  "sample_system = \<lparr>sy_world = sample_world, sy_pending = [], sy_now = 100\<rparr>"

lemma sample_families: "families_ok sample_system"
proof -
  have "table_ok no_viol sessions_uniq (sessions sample_db)" using sample_schema_ok by (simp add: schema_ok_def)
  then show ?thesis
    by (simp add: families_ok_def sample_system_def sample_world_def)
       (auto simp: sample_defs single_live_def live_ids_def ids_where_def live_in_family_def)
qed

lemma sample_rows:
  "select_one (\<lambda>r. se_refreshTokenHash r = ''r1'') (sessions sample_db) = Some sample_session"
  "select_one (\<lambda>r. u_id r = ''ann'') (users sample_db) = Some (sample_user ''ann'' ''ann@x'' user_r)"
  "se_revokedAt sample_session = None" "se_expiresAt sample_session = 1000000" "se_userId sample_session = ''ann''"
  "se_id sample_session = ''ses1''" "se_familyId sample_session = ''fam1''" "u_status (sample_user i e r) = active"
  by (code_simp, code_simp, simp_all add: sample_session_def sample_user_def)

lemma sample_env_simps [simp]:
  "ae_redisUp sample_auth_env" "hashRefreshToken sample_auth_env raw = raw" "ae_jwtAccessTtlSeconds sample_auth_env = 900"
  "ae_verifyAccessToken sample_auth_env = (\<lambda>now t. Some (''ann'', user_r, Some t))"
  by (simp_all add: sample_auth_env_def hashRefreshToken_def)

lemma sample_world_simps [simp]: "wo_db sample_world = sample_db" "wo_redis sample_world = (\<lambda>_. None)"
  by (simp_all add: sample_world_def)

definition sample_locked :: world where
  "sample_locked = sample_world\<lparr>wo_redis := [rotationLockKey ''r1'' \<mapsto> (RText ''lock1'', Some 5100)]\<rparr>"

lemma sample_locked_simps [simp]:
  "wo_db sample_locked = sample_db" "wo_redis sample_locked = [rotationLockKey ''r1'' \<mapsto> (RText ''lock1'', Some 5100)]"
  by (simp_all add: sample_locked_def)

lemma sample_begin: "refresh_begin sample_auth_env 100 ''lock1'' ''r1'' sample_world = (Inr (Rotate sample_rotation), sample_locked)"
  by (simp add: Let_def refresh_begin_def refresh_lookup_def readRotationCache_def ask_redis_def acquire_lock_def
      redis_setnx_def redis_get_def redis_set_def bindC_def returnC_def on_db_def getT_def
      sample_locked_def sample_rotation_def sample_rows REFRESH_LOCK_TTL_MS_def)

theorem one_live_session_per_family_witness:
  "\<exists>y. auth_reachable sample_system y \<and> sy_pending y = [(sample_rotation, 100)]
    \<and> (\<forall>r q. r \<in> set (sessions (wo_db (sy_world y))) \<and> q \<in> set (sessions (wo_db (sy_world y)))
        \<and> se_familyId r = se_familyId q \<and> se_revokedAt r = None \<and> se_revokedAt q = None \<longrightarrow> r = q)"
proof -
  have "auth_step sample_system (sample_system\<lparr>sy_world := sample_locked, sy_pending := begun 100 (Inr (Rotate sample_rotation)) @ []\<rparr>)"
    using auth_step.rotate [of sample_auth_env sample_system "''lock1''" "''r1''"] sample_begin by (simp add: sample_system_def)
  then have "auth_reachable sample_system (sample_system\<lparr>sy_world := sample_locked, sy_pending := [(sample_rotation, 100)]\<rparr>)"
    by (auto intro: auth_reachable.intros)
  then show ?thesis using one_live_session_per_family [OF sample_families] by (intro exI conjI) auto
qed

section \<open>Replays\<close>

lemma revoke_sessions_ok:
  assumes "table_ok no_viol sessions_uniq (sessions s)"
  shows "revoke_sessions now P s = Inr (map se_id (filter P (sessions s)),
    s\<lparr>sessions := update_where P (\<lambda>r. r\<lparr>se_revokedAt := Some now\<rparr>) (sessions s)\<rparr>)"
proof -
  note t = ends_table [OF only_ends_update assms, of P now]
  have "update_sessions P (\<lambda>r. r\<lparr>se_revokedAt := Some now\<rparr>) s
      = Inr ((), s\<lparr>sessions := update_where P (\<lambda>r. r\<lparr>se_revokedAt := Some now\<rparr>) (sessions s)\<rparr>)"
    unfolding update_sessions_Inr using t by (auto simp: update_checks_def table_ok_def no_viol_def)
  then show ?thesis by (simp add: revoke_sessions_def run_defs)
qed

lemma live_ids_burn: "live_ids fam (update_where (live_in_family fam) (\<lambda>r. r\<lparr>se_revokedAt := Some now\<rparr>) rs) = {}"
  unfolding live_ids_def ids_where_def by (induction rs) (auto simp: live_in_family_def)

lemma live_ids_burn_other:
  "fam' \<noteq> fam \<Longrightarrow> live_ids fam' (update_where (live_in_family fam) (\<lambda>r. r\<lparr>se_revokedAt := Some now\<rparr>) rs) = live_ids fam' rs"
  unfolding live_ids_def ids_where_def by (induction rs) (auto simp: live_in_family_def)

text \<open>C18: presenting a refresh token that was already rotated or revoked, once its grace entry is gone,
  is answered with \<open>refresh_replayed\<close> and ends every session of its family and no other, in the
  database and in the cache the next request consults.\<close>

theorem replay_burns_family:
  fixes env :: auth_env and raw :: string
  defines "h \<equiv> hashRefreshToken env raw"
  assumes "table_ok no_viol sessions_uniq (sessions (wo_db w))" and "ae_redisUp env"
    and "redis_get now (rotationCacheKey h) (wo_redis w) = None" "redis_get now (rotationLockKey h) (wo_redis w) = None"
    and "select_one (\<lambda>r. se_refreshTokenHash r = h) (sessions (wo_db w)) = Some session" "se_revokedAt session \<noteq> None"
  shows "\<exists>v. refresh env now fr ctx raw w = (Inl (unauthorized ''refresh_replayed''), v)
    \<and> live_ids (se_familyId session) (sessions (wo_db v)) = {}
    \<and> (\<forall>fam. fam \<noteq> se_familyId session \<longrightarrow> live_ids fam (sessions (wo_db v)) = live_ids fam (sessions (wo_db w)))
    \<and> (\<forall>sid t. sid \<in> live_ids (se_familyId session) (sessions (wo_db w)) \<longrightarrow> t < now + revoked_ttl_ms env \<longrightarrow>
        redis_get t (SESSION_STATUS_KEY sid) (wo_redis v) = Some (RText ''revoked''))"
proof -
  let ?P = "live_in_family (se_familyId session)"
  let ?ids = "map se_id (filter ?P (sessions (wo_db w)))"
  let ?r0 = "(wo_redis w)(rotationLockKey h \<mapsto> (RText (fr_lockToken fr), Some (now + REFRESH_LOCK_TTL_MS)))"
  let ?r1 = "fold (\<lambda>sid. redis_set (SESSION_STATUS_KEY sid) (RText ''revoked'') (Some (now + revoked_ttl_ms env))) ?ids ?r0"
  let ?v = "w\<lparr>wo_db := (wo_db w)\<lparr>sessions := update_where ?P (\<lambda>r. r\<lparr>se_revokedAt := Some now\<rparr>) (sessions (wo_db w))\<rparr>,
      wo_redis := release_lock now (rotationLockKey h) (fr_lockToken fr) ?r1\<rparr>"
  have cache: "redis_get now (rotationCacheKey h) ?r0 = None" using assms(4) by (simp add: redis_get_def)
  have "refresh env now fr ctx raw w = (Inl (unauthorized ''refresh_replayed''), ?v)"
    using assms(3-7) cache revoke_sessions_ok [OF assms(2)]
    by (simp add: Let_def refresh_def refresh_begin_def refresh_lookup_def readRotationCache_def ask_redis_def acquire_lock_def
        redis_setnx_def redis_set_def bindC_def returnC_def throwC_def on_db_def getT_def cacheRevoked_def on_redis_def
        free_lock_def h_def [symmetric])
  moreover have "redis_get t (SESSION_STATUS_KEY sid) ?r1 = Some (RText ''revoked'')"
    if "sid \<in> live_ids (se_familyId session) (sessions (wo_db w))" "t < now + revoked_ttl_ms env" for sid t
    using that by (subst redis_store.put_all_member) (auto simp: live_ids_def ids_where_def)
  ultimately show ?thesis by (intro exI [of _ ?v]) (simp add: live_ids_burn live_ids_burn_other)
qed

text \<open>The sample database after the bettor's session was rotated away.\<close>

definition sample_rotated_db :: db where
  "sample_rotated_db = sample_db\<lparr>sessions := [sample_session\<lparr>se_revokedAt := Some 50\<rparr>,
     sample_session\<lparr>se_id := ''ses2'', se_refreshTokenHash := ''r2'', se_parentSessionId := Some ''ses1''\<rparr>]\<rparr>"

definition sample_rotated :: world where
  "sample_rotated = \<lparr>wo_db = sample_rotated_db, wo_redis = (\<lambda>_. None)\<rparr>"

theorem replay_burns_family_witness:
  "\<exists>v. refresh sample_auth_env 100 sample_fresh sample_client ''r1'' sample_rotated = (Inl (unauthorized ''refresh_replayed''), v)
    \<and> live_ids ''fam1'' (sessions (wo_db v)) = {}
    \<and> redis_get 200 (SESSION_STATUS_KEY ''ses2'') (wo_redis v) = Some (RText ''revoked'')"
proof -
  have "table_ok no_viol sessions_uniq (sessions (wo_db sample_rotated))" by code_simp
  moreover have "select_one (\<lambda>r. se_refreshTokenHash r = ''r1'') (sessions (wo_db sample_rotated))
      = Some (sample_session\<lparr>se_revokedAt := Some 50\<rparr>)" by code_simp
  moreover have "''ses2'' \<in> live_ids ''fam1'' (sessions (wo_db sample_rotated))"
    by (simp add: sample_rotated_def sample_rotated_db_def live_ids_def ids_where_def live_in_family_def sample_rows)
  moreover have "redis_get 100 k (wo_redis sample_rotated) = None" for k by (simp add: sample_rotated_def redis_get_def)
  ultimately obtain v where
    "refresh sample_auth_env 100 sample_fresh sample_client ''r1'' sample_rotated = (Inl (unauthorized ''refresh_replayed''), v)"
    "live_ids ''fam1'' (sessions (wo_db v)) = {}"
    "\<And>t. t < 100 + revoked_ttl_ms sample_auth_env \<Longrightarrow> redis_get t (SESSION_STATUS_KEY ''ses2'') (wo_redis v) = Some (RText ''revoked'')"
    using replay_burns_family [of sample_rotated sample_auth_env 100 "''r1''" "sample_session\<lparr>se_revokedAt := Some 50\<rparr>"
        sample_fresh sample_client] by (auto simp: sample_rows)
  then show ?thesis by (intro exI [of _ v]) (simp add: revoked_ttl_ms_def)
qed

text \<open>For ten seconds after a rotation the old token still answers, with the very tokens the
  rotation issued and without any further change, so tabs that refresh together stay together.\<close>

theorem grace_returns_same_tokens:
  assumes "refresh_commit env now fr ctx p w = (Inr tokens, v)" and "ae_redisUp env" "ae_redisUp env'"
    and "hashRefreshToken env' raw = ro_hash p" and "now \<le> now'" "now' < now + 10000"
  shows "refresh env' now' fr' ctx' raw v = (Inr tokens, v)"
proof -
  obtain t where tx: "rotate_tx env now fr ctx p (wo_db w) = Inr (tokens, t)"
    using assms(1) by (auto simp: refresh_commit_def finally_free_def bindC_def on_db_def returnC_def cacheRevoked_def
        writeRotationCache_def on_redis_def split: sum.splits prod.splits)
  then have "redis_get now' (rotationCacheKey (ro_hash p)) (wo_redis v) = Some (RTokens tokens)"
    using assms(1,2,6)
    by (auto simp: refresh_commit_def finally_free_def bindC_def on_db_def returnC_def cacheRevoked_def
        writeRotationCache_def on_redis_def free_lock_def REFRESH_GRACE_SECONDS_def)
  then show ?thesis
    using assms(3,4) by (simp add: refresh_def refresh_begin_def Let_def readRotationCache_def ask_redis_def bindC_def returnC_def)
qed

section \<open>Waiting for another tab\<close>

primrec poll_time :: "(nat \<Rightarrow> nat) \<Rightarrow> millis \<Rightarrow> nat \<Rightarrow> millis" where
  "poll_time late t 0 = t"
| "poll_time late t (Suc n) = poll_time late t n + REFRESH_LOCK_POLL_INTERVAL_MS + int (late n)"

lemma poll_time_ge: "t + 50 * int n \<le> poll_time late t n"
  by (induction n) (auto simp: REFRESH_LOCK_POLL_INTERVAL_MS_def)

abbreviation published :: "auth_env \<Rightarrow> (millis \<Rightarrow> world) \<Rightarrow> string \<Rightarrow> millis \<Rightarrow> issued_tokens option" where
  "published env seen raw t \<equiv> projr (fst (readRotationCache env t (hashRefreshToken env raw) (seen t)))"

declare refresh_wait.simps [simp del]

lemma refresh_wait_turn:
  "refresh_wait env late seen started raw n (poll_time late started n) =
    (if poll_time late started n < started + 2500
     then (case published env seen raw (poll_time late started (Suc n)) of
         Some t \<Rightarrow> Inr t
       | None \<Rightarrow> refresh_wait env late seen started raw (Suc n) (poll_time late started (Suc n)))
     else Inl (unauthorized ''refresh_busy''))"
  by (subst refresh_wait.simps)
     (simp add: Let_def refresh_poll_def throwC_def readRotationCache_def ask_redis_def REFRESH_LOCK_POLL_DEADLINE_MS_def
      split: option.split)

lemma refresh_wait_from:
  assumes "n + k = 50"
  shows "\<exists>m. n \<le> m \<and> m \<le> 50 \<and> (\<forall>i. n < i \<and> i \<le> m \<longrightarrow> published env seen raw (poll_time late started i) = None)
    \<and> (let r = refresh_wait env late seen started raw n (poll_time late started n) in
        (started + 2500 \<le> poll_time late started m \<and> r = Inl (unauthorized ''refresh_busy''))
      \<or> (m < 50 \<and> poll_time late started m < started + 2500
          \<and> (\<exists>t. published env seen raw (poll_time late started (Suc m)) = Some t \<and> r = Inr t)))"
  using assms
proof (induction k arbitrary: n)
  case 0
  then have "started + 2500 \<le> poll_time late started n" using poll_time_ge [of started n late] by simp
  then show ?case using 0 by (intro exI [of _ n]) (auto simp: refresh_wait_turn)
next
  case (Suc k)
  show ?case
  proof (cases "poll_time late started n < started + 2500 \<and> published env seen raw (poll_time late started (Suc n)) = None")
    case True
    then have step: "refresh_wait env late seen started raw n (poll_time late started n)
        = refresh_wait env late seen started raw (Suc n) (poll_time late started (Suc n))"
      by (subst refresh_wait_turn) simp
    obtain m where m: "Suc n \<le> m" "m \<le> 50"
      "\<forall>i. Suc n < i \<and> i \<le> m \<longrightarrow> published env seen raw (poll_time late started i) = None"
      "let r = refresh_wait env late seen started raw (Suc n) (poll_time late started (Suc n)) in
        (started + 2500 \<le> poll_time late started m \<and> r = Inl (unauthorized ''refresh_busy''))
      \<or> (m < 50 \<and> poll_time late started m < started + 2500
          \<and> (\<exists>t. published env seen raw (poll_time late started (Suc m)) = Some t \<and> r = Inr t))"
      using Suc.IH [of "Suc n"] Suc.prems by auto
    moreover have "published env seen raw (poll_time late started i) = None" if "n < i" "i \<le> m" for i
      using that m(3) True by (cases "i = Suc n") auto
    ultimately show ?thesis unfolding step by (intro exI [of _ m]) auto
  next
    case False
    then show ?thesis using Suc.prems by (intro exI [of _ n]) (auto simp: refresh_wait_turn Let_def)
  qed
qed

text \<open>C33: a refresh that finds its token locked by another one ends after at most fifty looks at the
  cache, however late its timer fires: it answers with the first result it sees published, and with
  \<open>refresh_busy\<close> only when the deadline of 2.5 seconds has passed and no look found one.\<close>

theorem refresh_wait_ends:
  "\<exists>n \<le> 50. list_all (\<lambda>i. published env seen raw (poll_time late started (Suc i)) = None) [0..<n]
    \<and> (if started + 2500 \<le> poll_time late started n
       then refresh_wait env late seen started raw 0 started = Inl (unauthorized ''refresh_busy'')
       else \<exists>t. published env seen raw (poll_time late started (Suc n)) = Some t
         \<and> refresh_wait env late seen started raw 0 started = Inr t)"
proof -
  obtain m where "m \<le> 50" "\<forall>i. 0 < i \<and> i \<le> m \<longrightarrow> published env seen raw (poll_time late started i) = None"
    "let r = refresh_wait env late seen started raw 0 (poll_time late started 0) in
      (started + 2500 \<le> poll_time late started m \<and> r = Inl (unauthorized ''refresh_busy''))
    \<or> (m < 50 \<and> poll_time late started m < started + 2500
        \<and> (\<exists>t. published env seen raw (poll_time late started (Suc m)) = Some t \<and> r = Inr t))"
    using refresh_wait_from [of 0 50, where env = env and seen = seen and raw = raw and late = late and started = started]
    by auto
  then show ?thesis by (intro exI [of _ m]) (auto simp: Let_def list_all_iff simp del: poll_time.simps(2))
qed

section \<open>Revocation\<close>

lemma revoked_rows:
  "list_all (\<lambda>r. se_id r = sid \<longrightarrow> se_revokedAt r = Some now)
     (update_where (\<lambda>r. se_id r = sid) (\<lambda>r. r\<lparr>se_revokedAt := Some now\<rparr>) rs)"
  by (induction rs) simp_all



theorem grace_returns_same_tokens_witness:
  "\<exists>tokens v. refresh_commit sample_auth_env 110 sample_fresh sample_client sample_rotation sample_locked = (Inr tokens, v)
    \<and> refresh sample_auth_env 9000 sample_fresh sample_client ''r1'' v = (Inr tokens, v)"
proof -
  let ?run = "refresh_commit sample_auth_env 110 sample_fresh sample_client sample_rotation sample_locked"
  have "\<not> isl (fst ?run)" by code_simp
  then obtain tokens v where run: "?run = (Inr tokens, v)" by (cases ?run; cases "fst ?run") auto
  have "hashRefreshToken sample_auth_env ''r1'' = ro_hash sample_rotation" by (simp add: sample_rotation_def)
  then show ?thesis using grace_returns_same_tokens [OF run, of sample_auth_env "''r1''" 9000] run by auto
qed

section \<open>Overtaken revocations\<close>

text \<open>C39: a refresh that has looked up its session before a revocation of all sessions, and commits
  after it, leaves the account with a live session: the rotation revokes and inserts by id without
  looking at the session again.\<close>

theorem rotation_survives_revocation:
  assumes "refresh_begin env t1 lockToken raw w0 = (Inr (Rotate p), w1)"
    and "revokeAllSessions env t2 (u_id (ro_user p)) w1 = (Inr (), w2)"
    and "refresh_commit env t3 fr ctx p w2 = (Inr tokens, w3)"
  shows "filter (live_session_of (u_id (ro_user p))) (sessions (wo_db w2)) = []
    \<and> (\<exists>row \<in> set (sessions (wo_db w3)). live_session_of (u_id (ro_user p)) row
        \<and> se_id row = it_sessionId tokens \<and> se_familyId row = se_familyId (ro_session p))"
proof
  have "list_all (\<lambda>r. \<not> live_session_of u r)
      (update_where (live_session_of u) (\<lambda>r. r\<lparr>se_revokedAt := Some t2\<rparr>) rs)" for u rs
    by (induction rs) (simp_all add: live_session_of_def)
  moreover have "sessions (wo_db w2) = update_where (live_session_of (u_id (ro_user p)))
      (\<lambda>r. r\<lparr>se_revokedAt := Some t2\<rparr>) (sessions (wo_db w1))"
    using assms(2) unfolding revokeAllSessions_def revoke_sessions_def
    by (auto simp: bindC_def on_db_def cacheRevoked_def on_redis_def step_simps split: sum.splits prod.splits)
  ultimately show "filter (live_session_of (u_id (ro_user p))) (sessions (wo_db w2)) = []"
    by (simp add: filter_empty_conv list_all_iff)
  from assms(3) show "\<exists>row \<in> set (sessions (wo_db w3)). live_session_of (u_id (ro_user p)) row
        \<and> se_id row = it_sessionId tokens \<and> se_familyId row = se_familyId (ro_session p)"
    by (cases rule: refresh_commit_cases) (auto simp: live_session_of_def)
qed

theorem rotation_survives_revocation_witness:
  "\<exists>w2 tokens w3. revokeAllSessions sample_auth_env 105 ''ann'' sample_locked = (Inr (), w2)
    \<and> refresh_commit sample_auth_env 110 sample_fresh sample_client sample_rotation w2 = (Inr tokens, w3)
    \<and> (\<exists>row \<in> set (sessions (wo_db w3)). live_session_of ''ann'' row)"
proof -
  let ?rev = "revokeAllSessions sample_auth_env 105 ''ann'' sample_locked"
  let ?run = "refresh_commit sample_auth_env 110 sample_fresh sample_client sample_rotation (snd ?rev)"
  have "fst ?rev = Inr ()" "\<not> isl (fst ?run)" by code_simp+
  then obtain tokens w3 where rev: "?rev = (Inr (), snd ?rev)" and run: "?run = (Inr tokens, w3)"
    by (cases ?rev; cases ?run; cases "fst ?run") auto
  have ann: "u_id (ro_user sample_rotation) = ''ann''" by (simp add: sample_rotation_def sample_user_def)
  show ?thesis
    using rotation_survives_revocation [OF sample_begin, unfolded ann, OF rev run] rev run by blast
qed

text \<open>C40: the preHandler reads the session as active, the session is logged out, and the preHandler then
  stores its stale verdict over the revocation: for the next minute the logged-out session
  authenticates, although its row is revoked.\<close>

theorem stale_verdict_revives_session:
  assumes "preHandler_read env t1 (Some token) w1 = (Inr (Unsure user sid ''active''), w1)"
    and "logout env t2 (Some sid) w1 = (Inr (), w2)"
    and "preHandler_write env t3 (Unsure user sid ''active'') w2 = (Inr (Some (user, Some sid)), w3)"
    and "t < t3 + 60000" and "ae_verifyAccessToken env t token = ae_verifyAccessToken env t1 token"
  shows "preHandler env t (Some token) w3 = (Inr (Some (user, Some sid)), w3)
    \<and> list_all (\<lambda>r. se_id r = sid \<longrightarrow> se_revokedAt r = Some t2) (sessions (wo_db w3))"
proof
  from assms(1) have tok: "token \<noteq> []" "ae_verifyAccessToken env t1 token = Some (ru_id user, ru_role user, Some sid)"
      "sid \<noteq> []" "ae_redisUp env"
    by (auto simp: preHandler_read_def Let_def split: option.splits if_splits list.splits redis_value.splits)
  have "redis_get t (SESSION_STATUS_KEY sid) (wo_redis w3) = Some (RText ''active'')"
    using assms(3,4) tok(4) by (auto simp: preHandler_write_def SESSION_STATUS_TTL_SECONDS_def)
  then show "preHandler env t (Some token) w3 = (Inr (Some (user, Some sid)), w3)"
    using tok assms(5)
    by (cases sid) (simp_all add: preHandler_def preHandler_read_def preHandler_write_def bindC_def Let_def)
  have "sessions (wo_db w3) = update_where (\<lambda>r. se_id r = sid) (\<lambda>r. r\<lparr>se_revokedAt := Some t2\<rparr>) (sessions (wo_db w1))"
    using assms(2,3) tok(3,4) unfolding logout_def
    by (auto simp: bindC_def on_db_def cacheRevoked_def on_redis_def preHandler_write_def step_simps split: sum.splits prod.splits)
  then show "list_all (\<lambda>r. se_id r = sid \<longrightarrow> se_revokedAt r = Some t2) (sessions (wo_db w3))"
    by (simp add: revoked_rows)
qed

theorem stale_verdict_revives_session_witness:
  "\<exists>w2 w3. logout sample_auth_env 101 (Some ''ses1'') sample_world = (Inr (), w2)
    \<and> preHandler_write sample_auth_env 102 (Unsure sample_ann ''ses1'' ''active'') w2 = (Inr (Some (sample_ann, Some ''ses1'')), w3)
    \<and> preHandler sample_auth_env 103 (Some ''ses1'') w3 = (Inr (Some (sample_ann, Some ''ses1'')), w3)
    \<and> list_all (\<lambda>r. se_id r = ''ses1'' \<longrightarrow> se_revokedAt r = Some 101) (sessions (wo_db w3))"
proof -
  let ?out = "logout sample_auth_env 101 (Some ''ses1'') sample_world"
  have "select_one (\<lambda>r. se_id r = ''ses1'') (sessions sample_db) = Some sample_session" by code_simp
  then have read: "preHandler_read sample_auth_env 100 (Some ''ses1'') sample_world
      = (Inr (Unsure sample_ann ''ses1'' ''active''), sample_world)"
    by (simp add: preHandler_read_def redis_get_def sample_rows sample_ann_def)
  have "fst ?out = Inr ()" by code_simp
  then obtain w2 where out: "?out = (Inr (), w2)" by (cases ?out) auto
  obtain w3 where wr: "preHandler_write sample_auth_env 102 (Unsure sample_ann ''ses1'' ''active'') w2
      = (Inr (Some (sample_ann, Some ''ses1'')), w3)" by (simp add: preHandler_write_def)
  have "preHandler sample_auth_env 103 (Some ''ses1'') w3 = (Inr (Some (sample_ann, Some ''ses1'')), w3)
      \<and> list_all (\<lambda>r. se_id r = ''ses1'' \<longrightarrow> se_revokedAt r = Some 101) (sessions (wo_db w3))"
    by (rule stale_verdict_revives_session [OF read out wr]) simp_all
  then show ?thesis using out wr by blast
qed

section \<open>Credentials\<close>

lemma used_tokens:
  "list_all (\<lambda>r. mt_userId r = mt_userId row \<longrightarrow> mt_usedAt r \<noteq> None)
     (update_where (other_outstanding row) (use_token now) (update_where (\<lambda>r. mt_id r = mt_id row) (use_token now) rs))"
  by (induction rs) (auto simp: other_outstanding_def use_token_def)

lemma reset_tx_effect:
  assumes "reset_tx env now raw new s = Inr (u, t)"
  obtains row where "select_one (\<lambda>r. mt_tokenHash r = ac_sha256 (ae_account env) raw) (password_reset_tokens s) = Some row"
    "mt_userId row = u" "mt_usedAt row = None" "now < mt_expiresAt row"
    "password_reset_tokens t = update_where (other_outstanding row) (use_token now)
       (update_where (\<lambda>r. mt_id r = mt_id row) (use_token now) (password_reset_tokens s))"
    "users t = update_where (\<lambda>r. u_id r = u)
       (\<lambda>r. r\<lparr>u_passwordHash := ac_hashPassword (ae_account env) new, u_updatedAt := now\<rparr>) (users s)"
    "sessions t = sessions s"
proof -
  from assms show thesis
    unfolding reset_tx_def
    by (clarsimp simp: step_simps live_token_def split: option.splits if_splits) (rule that, simp_all)
qed

lemma select_one_hash_update:
  assumes "\<And>r. mt_tokenHash (f r) = mt_tokenHash r"
  shows "select_one (\<lambda>r. mt_tokenHash r = h) (update_where P f rs)
    = map_option (\<lambda>r. if P r then f r else r) (select_one (\<lambda>r. mt_tokenHash r = h) rs)"
  using assms by (induction rs) (auto simp: select_one_def)

text \<open>C27: a password reset with a mailed token sets the new password, ends every session of the account
  and uses up every reset link the account has, so no link, this one included, works a second time.\<close>

theorem reset_token_single_use:
  assumes "consumePasswordResetToken env now raw new w = (Inr u, v)"
  shows "list_all (\<lambda>r. mt_userId r = u \<longrightarrow> mt_usedAt r \<noteq> None) (password_reset_tokens (wo_db v))
    \<and> list_all (\<lambda>r. u_id r = u \<longrightarrow> u_passwordHash r = ac_hashPassword (ae_account env) new) (users (wo_db v))
    \<and> filter (live_session_of u) (sessions (wo_db v)) = []
    \<and> fst (consumePasswordResetToken env later raw other v) \<in> {Inl (bad ''token_already_used''), Inl (ZodError ''newPassword'')}"
proof -
  from assms obtain s1 where len: "str_between 16 128 raw" "str_between 8 256 new"
    and tx: "reset_tx env now raw new (wo_db w) = Inr (u, s1)"
    and v: "wo_db v = s1\<lparr>sessions := update_where (live_session_of u) (\<lambda>r. r\<lparr>se_revokedAt := Some now\<rparr>) (sessions s1)\<rparr>"
    unfolding consumePasswordResetToken_def revokeAllSessions_def revoke_sessions_def
    by (auto simp: bindC_def throwUnless_def on_db_def throwC_def returnC_def cacheRevoked_def on_redis_def step_simps
        split: if_splits sum.splits prod.splits)
  from tx show ?thesis
  proof (rule reset_tx_effect)
    fix row
    assume row: "select_one (\<lambda>r. mt_tokenHash r = ac_sha256 (ae_account env) raw) (password_reset_tokens (wo_db w)) = Some row"
      "mt_userId row = u"
      and tokens: "password_reset_tokens s1 = update_where (other_outstanding row) (use_token now)
         (update_where (\<lambda>r. mt_id r = mt_id row) (use_token now) (password_reset_tokens (wo_db w)))"
      and us: "users s1 = update_where (\<lambda>r. u_id r = u)
         (\<lambda>r. r\<lparr>u_passwordHash := ac_hashPassword (ae_account env) new, u_updatedAt := now\<rparr>) (users (wo_db w))"
    have hash: "mt_tokenHash (use_token now r) = mt_tokenHash r" for r by (simp add: use_token_def)
    have found: "select_one (\<lambda>r. mt_tokenHash r = ac_sha256 (ae_account env) raw) (password_reset_tokens s1) = Some (use_token now row)"
      unfolding tokens by (simp add: select_one_hash_update hash row(1) other_outstanding_def) (simp add: use_token_def)
    have "list_all (\<lambda>r. u_id r = u \<longrightarrow> u_passwordHash r = P) (update_where (\<lambda>r. u_id r = u)
       (\<lambda>r. r\<lparr>u_passwordHash := P, u_updatedAt := now\<rparr>) rs)" for P rs
      by (induction rs) simp_all
    moreover have "filter (live_session_of u) (update_where (live_session_of u) (\<lambda>r. r\<lparr>se_revokedAt := Some now\<rparr>) rs) = []" for rs
      by (induction rs) (simp_all add: live_session_of_def)
    moreover have "fst (consumePasswordResetToken env later raw other v)
        \<in> {Inl (bad ''token_already_used''), Inl (ZodError ''newPassword'')}"
      using found by (auto simp: consumePasswordResetToken_def bindC_def throwUnless_def on_db_def throwC_def returnC_def v
          reset_tx_def run_defs live_token_def use_token_def len)
    ultimately show ?thesis
      using used_tokens [of row now "password_reset_tokens (wo_db w)"] by (simp add: v us tokens row(2))
  qed
qed

definition sample_reset_world :: world where
  "sample_reset_world = sample_world\<lparr>wo_db := sample_db\<lparr>password_reset_tokens :=
     [\<lparr>mt_id = ''rt1'', mt_userId = ''ann'', mt_tokenHash = ''0123456789abcdef0123456789abcdef'', mt_expiresAt = 500,
       mt_usedAt = None, mt_requestedIp = None\<rparr>]\<rparr>\<rparr>"

theorem reset_token_single_use_witness:
  "\<exists>v. consumePasswordResetToken sample_auth_env 100 ''0123456789abcdef0123456789abcdef'' ''new-password'' sample_reset_world = (Inr ''ann'', v)
    \<and> filter (live_session_of ''ann'') (sessions (wo_db v)) = []
    \<and> list_all (\<lambda>r. u_id r = ''ann'' \<longrightarrow> u_passwordHash r = ''hash-of-new-password'') (users (wo_db v))"
proof -
  let ?run = "consumePasswordResetToken sample_auth_env 100 ''0123456789abcdef0123456789abcdef'' ''new-password'' sample_reset_world"
  have "fst ?run = Inr ''ann''" by code_simp
  then obtain v where run: "?run = (Inr ''ann'', v)" by (cases ?run) auto
  have "ac_hashPassword (ae_account sample_auth_env) ''new-password'' = ''hash-of-new-password''" by code_simp
  then show ?thesis using reset_token_single_use [OF run] run by auto
qed

lemma on_db_Inr: "on_db m w = (Inr a, v) \<longleftrightarrow> (\<exists>t. m (wo_db w) = Inr (a, t) \<and> v = w\<lparr>wo_db := t\<rparr>)"
  by (auto simp: on_db_def split: sum.splits prod.splits)

lemma ask_redis_Inr: "ask_redis env f d w = (Inr a, v) \<longleftrightarrow> v = w \<and> a = (if ae_redisUp env then f (wo_redis w) else d)"
  by (auto simp: ask_redis_def)

lemma on_redis_Inr:
  "on_redis env f w = (Inr a, v) \<longleftrightarrow> v = (if ae_redisUp env then w\<lparr>wo_redis := f (wo_redis w)\<rparr> else w)"
  by (auto simp: on_redis_def)

text \<open>C28: a login that succeeds found an account of the namespace of the host it came to, with the given
  email in any case, the right password and not blocked, and the session it opens belongs to it.\<close>

theorem login_is_authentic:
  assumes "login env now fr ctx ns email password w = (Inr (user, tokens), v)"
  shows "user \<in> set (users (wo_db w)) \<and> to_lower (u_email user) = to_lower email \<and> u_role user \<in> set (rolesForNamespace ns)
    \<and> ae_verifyPassword env (u_passwordHash user) password \<and> u_status user \<noteq> blocked
    \<and> it_userId tokens = u_id user \<and> it_role tokens = u_role user
    \<and> (\<exists>row \<in> set (sessions (wo_db v)). se_id row = it_sessionId tokens \<and> live_session_of (u_id user) row
        \<and> se_refreshTokenHash row = hashRefreshToken env (it_refreshTokenRaw tokens))"
proof -
  have found: "find_account (to_lower email) (rolesForNamespace ns) (wo_db w) = Some user
    \<and> ae_verifyPassword env (u_passwordHash user) password \<and> u_status user \<noteq> blocked
    \<and> (\<exists>s t. issueTokensWith env now fr (u_id user) (u_role user) ctx None s = Inr (tokens, t) \<and> wo_db v = t)"
    using assms unfolding login_def Let_def isLoginRateLimited_def recordLoginFailure_def clearLoginFailures_def
    by (auto simp: bindC_Inr on_db_Inr ask_redis_Inr on_redis_Inr pureC_eq liftE_Inr getT_Inr
        split: if_splits option.splits)
  then have find: "find_account (to_lower email) (rolesForNamespace ns) (wo_db w) = Some user" by simp
  have "user \<in> set (users (wo_db w)) \<and> to_lower (u_email user) = to_lower email \<and> u_role user \<in> set (rolesForNamespace ns)"
    using find by (auto simp: find_account_def dest!: select_one_SomeD)
  then show ?thesis using found by (auto simp: issueTokensWith_Inr live_session_of_def)
qed

theorem login_is_authentic_witness:
  "\<exists>user tokens v. login sample_auth_env 100 sample_fresh sample_client bettor_ns ''Ann@X'' ''ann'' sample_world = (Inr (user, tokens), v)
    \<and> u_role user = user_r \<and> it_userId tokens = u_id user"
proof -
  let ?run = "login sample_auth_env 100 sample_fresh sample_client bettor_ns ''Ann@X'' ''ann'' sample_world"
  have "\<not> isl (fst ?run)" by code_simp
  then obtain user tokens v where run: "?run = (Inr (user, tokens), v)" by (cases ?run; cases "fst ?run") auto
  then show ?thesis using login_is_authentic [OF run] by auto
qed

section \<open>The login throttle\<close>

text \<open>The failures counted against an email in a namespace.\<close>

definition failures :: "millis \<Rightarrow> account_namespace \<Rightarrow> string \<Rightarrow> world \<Rightarrow> int" where
  "failures now ns email w = (case redis_get now (loginFailKey ns (to_lower email)) (wo_redis w) of
     Some (RCount n) \<Rightarrow> n | _ \<Rightarrow> 0)"

definition failing_login :: "auth_env \<Rightarrow> millis \<Rightarrow> account_namespace \<Rightarrow> string \<Rightarrow> string \<Rightarrow> world \<Rightarrow> bool" where
  "failing_login env now ns email password w \<longleftrightarrow>
     parse_loginBody (ae_account env) email password None = Inr () \<and> ae_redisUp env
   \<and> (case find_account (to_lower email) (rolesForNamespace ns) (wo_db w) of
        None \<Rightarrow> True | Some user \<Rightarrow> \<not> ae_verifyPassword env (u_passwordHash user) password)"

text \<open>The throttle counts failures per email and namespace in a window that the first failure opens
  and later ones do not extend; ten counted failures still leave an eleventh guess to be checked, and
  only then is every further attempt refused unexamined, the right password included.\<close>

theorem login_throttle:
  assumes "failing_login env now ns email password w" and "cx_deviceId ctx = None"
    and "wo_redis w (loginFailKey ns (to_lower email)) = Some (RCount n, Some e)" "now < e" "0 < n"
  shows "(n \<le> 10 \<longrightarrow> (\<exists>v. login env now fr ctx ns email password w = (Inl (unauthorized ''invalid_credentials''), v)
        \<and> failures now ns email v = n + 1
        \<and> wo_redis v (loginFailKey ns (to_lower email)) = Some (RCount (n + 1), Some e) \<and> wo_db v = wo_db w))
    \<and> (n > 10 \<longrightarrow> parse_loginBody (ae_account env) email right None = Inr () \<longrightarrow>
        login env now fr ctx ns email right w = (Inl (unauthorized ''too_many_login_attempts''), w))"
proof -
  let ?k = "loginFailKey ns (to_lower email)"
  have get: "redis_get now ?k (wo_redis w) = Some (RCount n)" using assms(3,4) by (simp add: redis_get_def)
  let ?v = "w\<lparr>wo_redis := redis_set ?k (RCount (n + 1)) (Some e) (wo_redis w)\<rparr>"
  have "login env now fr ctx ns email password w = (Inl (unauthorized ''invalid_credentials''), ?v)" if "n \<le> 10"
    using assms(1-3,5) get that
    by (auto simp: failing_login_def login_def Let_def bindC_def on_db_def liftE_def returnT_def isLoginRateLimited_def ask_redis_def
        LOGIN_FAIL_THRESHOLD_def getT_def recordLoginFailure_def on_redis_def redis_incr_def throwC_def split: option.splits)
  moreover have "failures now ns email ?v = n + 1" using assms(4) by (simp add: failures_def)
  ultimately have "n \<le> 10 \<longrightarrow> (\<exists>v. login env now fr ctx ns email password w = (Inl (unauthorized ''invalid_credentials''), v)
        \<and> failures now ns email v = n + 1 \<and> wo_redis v ?k = Some (RCount (n + 1), Some e) \<and> wo_db v = wo_db w)"
    by (intro impI exI [of _ ?v]) (simp add: redis_set_def)
  moreover have "login env now fr ctx ns email right w = (Inl (unauthorized ''too_many_login_attempts''), w)"
    if "n > 10" "parse_loginBody (ae_account env) email right None = Inr ()"
    using assms(1,2) get that
    by (simp add: failing_login_def login_def Let_def bindC_def on_db_def liftE_def returnT_def isLoginRateLimited_def ask_redis_def
        LOGIN_FAIL_THRESHOLD_def throwC_def)
  ultimately show ?thesis by blast
qed

theorem login_throttle_witness:
  "\<exists>v. login sample_auth_env 100 sample_fresh sample_client bettor_ns ''ann@x'' ''guess''
        (sample_world\<lparr>wo_redis := [loginFailKey bettor_ns ''ann@x'' \<mapsto> (RCount 10, Some 900)]\<rparr>)
      = (Inl (unauthorized ''invalid_credentials''), v) \<and> failures 100 bettor_ns ''ann@x'' v = 11"
proof -
  let ?w = "sample_world\<lparr>wo_redis := [loginFailKey bettor_ns ''ann@x'' \<mapsto> (RCount 10, Some 900)]\<rparr>"
  have "failing_login sample_auth_env 100 bettor_ns ''ann@x'' ''guess'' ?w" by code_simp
  moreover have "wo_redis ?w (loginFailKey bettor_ns (to_lower ''ann@x'')) = Some (RCount 10, Some 900)" by code_simp
  ultimately show ?thesis
    using login_throttle [of sample_auth_env 100 bettor_ns "''ann@x''" "''guess''" ?w sample_client 10 900 sample_fresh]
    by (auto simp: sample_client_def)
qed

end
