(* ===== verification/Bet_Intent.thy ===== *)
theory Bet_Intent
  imports Sessions Bot_Controls "HOL-Library.List_Lexorder" "HOL-Library.Char_ord"
begin

text \<open>
  modules/bets/intent.ts and the intent gate of modules/bets/routes.ts: the
  signed placement intents, their checks, and the single use of a token's nonce
  in Redis.  HMAC, SHA-256, base64url and JSON are parameters; what the checks
  rely on is stated where it is used.
\<close>

section \<open>Claims and tokens\<close>

definition BET_INTENT_VERSION :: int where
  "BET_INTENT_VERSION = 1"

record intent_claims =
  ic_u :: uuid
  ic_s :: string
  ic_t :: millis
  ic_n :: string

record intent_env =
  ie_hmac :: "string \<Rightarrow> string \<Rightarrow> string"
  ie_sha256hex :: "string \<Rightarrow> string"
  ie_b64url :: "string \<Rightarrow> string"
  ie_unb64url :: "string \<Rightarrow> string"
  ie_stringify :: "json \<Rightarrow> string"
  ie_parse :: "string \<Rightarrow> json option"

definition deriveIntentKey :: "intent_env \<Rightarrow> string \<Rightarrow> string" where
  "deriveIntentKey env jwtSecret = ie_hmac env jwtSecret ''oddzilla-bet-intent-v1''"

text \<open>A selection is the text of its market id and its outcome id.\<close>

definition selection_key :: "string \<times> string \<Rightarrow> string" where
  "selection_key s = fst s @ '':'' @ snd s"

definition selection_text :: "(string \<times> string) list \<Rightarrow> string" where
  "selection_text selections = join_with ''|'' (sort (array_from_set (map selection_key selections)))"

definition selectionSetHash :: "intent_env \<Rightarrow> (string \<times> string) list \<Rightarrow> string" where
  "selectionSetHash env selections = ie_sha256hex env (selection_text selections)"

definition newIntentClaims :: "intent_env \<Rightarrow> uuid \<Rightarrow> (string \<times> string) list \<Rightarrow> millis \<Rightarrow> string \<Rightarrow> intent_claims" where
  "newIntentClaims env userId selections nowMs nonce =
     \<lparr>ic_u = userId, ic_s = selectionSetHash env selections, ic_t = nowMs, ic_n = nonce\<rparr>"

definition claims_json :: "intent_claims \<Rightarrow> json" where
  "claims_json c = JObj [(''v'', JNum BET_INTENT_VERSION), (''u'', JStr (ic_u c)), (''s'', JStr (ic_s c)),
     (''t'', JNum (ic_t c)), (''n'', JStr (ic_n c))]"

definition signIntent :: "intent_env \<Rightarrow> intent_claims \<Rightarrow> string \<Rightarrow> string" where
  "signIntent env claims key =
    (let body = ie_b64url env (ie_stringify env (claims_json claims));
         mac = ie_b64url env (ie_hmac env key body) in
     body @ ''.'' @ mac)"

section \<open>Verification\<close>

definition is_hex_of :: "nat \<Rightarrow> string \<Rightarrow> bool" where
  "is_hex_of n s \<longleftrightarrow> length s = n \<and> list_all (\<lambda>c. is_digit c \<or> CHR ''a'' \<le> c \<and> c \<le> CHR ''f'') s"

text \<open>The shape of the claims; an issue time with a fraction, which the service never signs, is no claim.\<close>

definition read_claims :: "json \<Rightarrow> intent_claims option" where
  "read_claims parsed = (case parsed of
     JObj kvs \<Rightarrow>
       if map_of kvs ''v'' \<noteq> Some (JNum BET_INTENT_VERSION) then None
       else (case (map_of kvs ''u'', map_of kvs ''s'', map_of kvs ''t'', map_of kvs ''n'') of
         (Some (JStr u), Some (JStr s), Some (JNum t), Some (JStr n)) \<Rightarrow>
           if length u = 0 \<or> length u > 64 then None
           else if \<not> is_hex_of 64 s then None
           else if \<not> is_hex_of 24 n then None
           else Some \<lparr>ic_u = u, ic_s = s, ic_t = t, ic_n = n\<rparr>
       | _ \<Rightarrow> None)
   | _ \<Rightarrow> None)"

definition verifyIntent :: "intent_env \<Rightarrow> string \<Rightarrow> string \<Rightarrow> intent_claims option" where
  "verifyIntent env token key =
    (if length token < 16 \<or> length token > 2048 then None
     else let body = takeWhile (\<lambda>c. c \<noteq> CHR ''.'') token; rest = dropWhile (\<lambda>c. c \<noteq> CHR ''.'') token in
       if rest = [] \<or> body = [] \<or> tl rest = [] then None
       else if ie_unb64url env (tl rest) \<noteq> ie_hmac env key body then None
       else Option.bind (ie_parse env (ie_unb64url env body)) read_claims)"

datatype intent_check = intent_ok intent_claims | intent_bad string "intent_claims option"

definition MAX_FUTURE_SKEW_MS :: millis where
  "MAX_FUTURE_SKEW_MS = 30000"

definition checkIntent ::
  "intent_env \<Rightarrow> string \<Rightarrow> string \<Rightarrow> uuid \<Rightarrow> (string \<times> string) list \<Rightarrow> millis \<Rightarrow> millis \<Rightarrow> millis \<Rightarrow> intent_check" where
  "checkIntent env token key userId selections nowMs ttlMs minHumanMs =
    (case verifyIntent env token key of
       None \<Rightarrow> intent_bad ''intent_invalid'' None
     | Some claims \<Rightarrow>
         if ic_u claims \<noteq> userId then intent_bad ''intent_invalid'' None
         else if ic_s claims \<noteq> selectionSetHash env selections then intent_bad ''intent_selection_mismatch'' (Some claims)
         else let age = nowMs - ic_t claims in
           if age < - MAX_FUTURE_SKEW_MS then intent_bad ''intent_invalid'' None
           else if age > ttlMs then intent_bad ''intent_expired'' (Some claims)
           else if age < minHumanMs then intent_bad ''intent_too_fast'' (Some claims)
           else intent_ok claims)"

section \<open>The gate of a placement\<close>

definition consumeIntentNonce :: "bool \<Rightarrow> millis \<Rightarrow> string \<Rightarrow> string \<Rightarrow> int \<Rightarrow> (world, unit) call" where
  "consumeIntentNonce redisUp now nonce idempotencyKey ttlSeconds w =
    (if \<not> redisUp then (Inr (), w)
     else case redis_setnx now (intentUsedKey nonce) (RText idempotencyKey) (now + (ttlSeconds + 60) * 1000) (wo_redis w) of
       Some r \<Rightarrow> (Inr (), w\<lparr>wo_redis := r\<rparr>)
     | None \<Rightarrow>
         if redis_get now (intentUsedKey nonce) (wo_redis w) = Some (RText idempotencyKey) then (Inr (), w)
         else (Inl (bad ''intent_replayed''), w))"

text \<open>The gate answers with the time the quote was issued, when a genuine token says so.\<close>

definition intent_gate ::
  "intent_env \<Rightarrow> string \<Rightarrow> bool \<Rightarrow> millis \<Rightarrow> uuid \<Rightarrow> bot_controls_row \<Rightarrow> string option \<Rightarrow> string \<Rightarrow> (string \<times> string) list \<Rightarrow>
   (world, millis option) call" where
  "intent_gate env key redisUp now userId controls token idempotencyKey selections =
    (case token of
       None \<Rightarrow> if bc_intentRequired controls then throwC (bad ''intent_required'') else returnC None
     | Some t \<Rightarrow>
         (case checkIntent env t key userId selections now (bc_intentTtlSeconds controls * 1000) (bc_minHumanMs controls) of
            intent_ok claims \<Rightarrow>
              if bc_intentRequired controls
              then bindC (consumeIntentNonce redisUp now (ic_n claims) idempotencyKey (bc_intentTtlSeconds controls))
                     (\<lambda>_. returnC (Some (ic_t claims)))
              else returnC (Some (ic_t claims))
          | intent_bad reason claims \<Rightarrow>
              if bc_intentRequired controls then throwC (bad reason) else returnC (map_option ic_t claims)))"

record bet_intent_response =
  ir_token :: string
  ir_issuedAt :: millis
  ir_expiresAt :: millis
  ir_minHumanMs :: millis
  ir_required :: bool

definition parse_intentBody :: "(string \<times> string) list \<Rightarrow> failure + unit" where
  "parse_intentBody selections =
    (if selections = [] \<or> length selections > 30 then Inl (ZodError ''selections'')
     else if \<not> list_all (\<lambda>(marketId, outcomeId). is_digits marketId \<and> str_between 1 64 outcomeId) selections
       then Inl (ZodError ''selections'')
     else Inr ())"

definition post_intent ::
  "intent_env \<Rightarrow> string \<Rightarrow> millis \<Rightarrow> string \<Rightarrow> authed_user option \<Rightarrow> (string \<times> string) list \<Rightarrow> bet_intent_response dbtx" where
  "post_intent env key now nonce ru selections =
    bindT (liftE (requireAuth ru)) (\<lambda>u.
    thenT (liftE (parse_intentBody selections)) (
    bindT loadBotControls (\<lambda>controls.
    returnT \<lparr>ir_token = signIntent env (newIntentClaims env (ru_id u) selections now nonce) key, ir_issuedAt = now,
      ir_expiresAt = now + bc_intentTtlSeconds controls * 1000, ir_minHumanMs = bc_minHumanMs controls,
      ir_required = bc_intentRequired controls\<rparr>)))"

section \<open>The selection set\<close>

lemma selection_text_set:
  "set (map selection_key xs) = set (map selection_key ys) \<Longrightarrow> selection_text xs = selection_text ys"
proof -
  assume eq: "set (map selection_key xs) = set (map selection_key ys)"
  have "sort (array_from_set (map selection_key xs)) = sort (array_from_set (map selection_key ys))"
    by (rule sorted_distinct_set_unique) (use eq in simp_all)
  then show ?thesis by (simp add: selection_text_def)
qed

lemma join_with_Cons: "join_with sep (x # xs) = (if xs = [] then x else x @ sep @ join_with sep xs)"
  by (cases xs) simp_all

lemma split_at: "c \<notin> set a \<Longrightarrow> c \<notin> set b \<Longrightarrow> a @ c # u = b @ c # v \<longleftrightarrow> a = b \<and> u = v"
proof (induction a arbitrary: b)
  case Nil
  then show ?case by (cases b) auto
next
  case (Cons x a)
  then show ?case by (cases b) auto
qed

lemma join_with_inj:
  assumes "list_all (\<lambda>x. c \<notin> set x \<and> x \<noteq> []) xs" "list_all (\<lambda>x. c \<notin> set x \<and> x \<noteq> []) ys" "join_with [c] xs = join_with [c] ys"
  shows "xs = ys"
  using assms
proof (induction xs arbitrary: ys)
  case Nil
  then show ?case by (cases ys) (auto simp: join_with_Cons split: if_splits)
next
  case (Cons x xs)
  then obtain y ys' where ys: "ys = y # ys'" by (cases ys) (auto simp: join_with_Cons split: if_splits)
  have free: "c \<notin> set x" "c \<notin> set y" using Cons.prems ys by auto
  have none: "c \<notin> set a \<Longrightarrow> a \<noteq> b @ c # v" for a b v by auto
  show ?case
    using Cons.prems Cons.IH [of ys'] split_at [OF free] none [OF free(1)] none [OF free(2)] unfolding ys
    by (auto simp: join_with_Cons split: if_splits dest: sym)
qed

text \<open>Selections as the routes admit them, with no bar in an outcome id.\<close>

definition plain_selections :: "(string \<times> string) list \<Rightarrow> bool" where
  "plain_selections xs \<longleftrightarrow> list_all (\<lambda>(m, o'). is_digits m \<and> CHR ''|'' \<notin> set o') xs"

lemma digits_free: "is_digits m \<Longrightarrow> CHR '':'' \<notin> set m \<and> CHR ''|'' \<notin> set m \<and> m \<noteq> []"
  by (auto simp: is_digits_def list_all_iff is_digit_def)

lemma selection_key_inj:
  assumes "is_digits m" "is_digits m'" "selection_key (m, o') = selection_key (m', p')"
  shows "(m, o') = (m', p')"
proof -
  have "CHR '':'' \<notin> set m" "CHR '':'' \<notin> set m'" using assms(1,2) digits_free by blast+
  then show ?thesis using assms(3) split_at [of "CHR '':''" m m'] by (simp add: selection_key_def)
qed

lemma selection_text_pins:
  assumes "plain_selections xs" "plain_selections ys" "selection_text xs = selection_text ys"
  shows "set xs = set ys"
proof -
  have bar: "list_all (\<lambda>x. CHR ''|'' \<notin> set x \<and> x \<noteq> []) (sort (array_from_set (map selection_key zs)))" if "plain_selections zs" for zs
    using that digits_free by (fastforce simp: plain_selections_def list_all_iff selection_key_def)
  have "set (sort (array_from_set (map selection_key xs))) = set (sort (array_from_set (map selection_key ys)))"
    using join_with_inj [OF bar [OF assms(1)] bar [OF assms(2)]] assms(3) unfolding selection_text_def by simp
  then have keys: "selection_key ` set xs = selection_key ` set ys" by simp
  have dig: "is_digits (fst s)" if "s \<in> set xs \<union> set ys" for s
    using that assms(1,2) by (auto simp: plain_selections_def list_all_iff)
  have "inj_on selection_key (set xs \<union> set ys)"
    using selection_key_inj dig by (intro inj_onI) (metis prod.collapse)
  then show ?thesis using keys inj_on_image_eq_iff [of selection_key "set xs \<union> set ys" "set xs" "set ys"] by blast
qed

section \<open>What a verdict says\<close>

lemma checkIntent_okD:
  "checkIntent env token key userId sels now ttl minHuman = intent_ok c \<Longrightarrow>
   verifyIntent env token key = Some c \<and> ic_u c = userId \<and> ic_s c = selectionSetHash env sels
   \<and> - MAX_FUTURE_SKEW_MS \<le> now - ic_t c \<and> now - ic_t c \<le> ttl \<and> minHuman \<le> now - ic_t c"
  by (auto simp: checkIntent_def Let_def split: option.splits if_splits)

lemma gate_okD:
  assumes "fst (intent_gate env key up now userId ctl (Some token) idem sels w) = Inr q" and "bc_intentRequired ctl"
  obtains c where "checkIntent env token key userId sels now (bc_intentTtlSeconds ctl * 1000) (bc_minHumanMs ctl) = intent_ok c"
    "fst (consumeIntentNonce up now (ic_n c) idem (bc_intentTtlSeconds ctl) w) = Inr ()"
    "snd (intent_gate env key up now userId ctl (Some token) idem sels w) = snd (consumeIntentNonce up now (ic_n c) idem (bc_intentTtlSeconds ctl) w)"
proof (cases "checkIntent env token key userId sels now (bc_intentTtlSeconds ctl * 1000) (bc_minHumanMs ctl)")
  case (intent_ok c)
  show thesis
    using assms by (intro that [OF intent_ok]) (auto simp: intent_gate_def intent_ok bindC_def returnC_def split: sum.splits prod.splits)
next
  case (intent_bad r c)
  then show thesis using assms by (simp add: intent_gate_def throwC_def)
qed

end
