(* ===== verification/Boost_Pricing.thy ===== *)
theory Boost_Pricing
  imports Odds
begin

text \<open>
  packages/types/src/netwinstable.ts: the price of a boosted market.  A
  market-wide boost lowers the key of the whole book, keeping the ratios of the
  net winnings, by bisection; a selection boost takes its share out of one
  outcome alone.  All numbers are JavaScript numbers.
\<close>

section \<open>The key of a book\<close>

definition usable_odds :: "jsnum \<Rightarrow> bool" where
  "usable_odds o' \<longleftrightarrow> js_isFinite o' \<and> js_lt (Fin 1) o'"

definition bookKey :: "jsnum list \<Rightarrow> jsnum" where
  "bookKey odds = foldl (\<lambda>s o'. if usable_odds o' then js_add s (js_div (Fin 1) o') else s) (Fin 0) odds"

definition keyAt :: "jsnum list \<Rightarrow> jsnum \<Rightarrow> jsnum" where
  "keyAt c alpha = foldl (\<lambda>s ci. js_add s (js_div (Fin 1) (js_add (Fin 1) (js_mul alpha ci)))) (Fin 0) c"

section \<open>Solving for the key\<close>

text \<open>
  The two bracketing loops, with a bound on their turns: doubling from 2 passes
  \<open>1e9\<close> within thirty turns, halving from 0.5 falls to \<open>1e-9\<close> within thirty.
\<close>

fun widen_up :: "(jsnum \<Rightarrow> jsnum) \<Rightarrow> jsnum \<Rightarrow> nat \<Rightarrow> jsnum \<Rightarrow> jsnum" where
  "widen_up key keyTarget 0 hi = hi"
| "widen_up key keyTarget (Suc n) hi =
    (if js_lt keyTarget (key hi) \<and> js_lt hi (Fin 1000000000) then widen_up key keyTarget n (js_mul hi (Fin 2)) else hi)"

fun widen_down :: "(jsnum \<Rightarrow> jsnum) \<Rightarrow> jsnum \<Rightarrow> nat \<Rightarrow> jsnum \<Rightarrow> jsnum" where
  "widen_down key keyTarget 0 lo = lo"
| "widen_down key keyTarget (Suc n) lo =
    (if js_lt (key lo) keyTarget \<and> js_lt (js_fin (1 / 10 ^ 9)) lo
     then widen_down key keyTarget n (js_mul lo (js_fin (1 / 2))) else lo)"

definition midpoint :: "jsnum \<Rightarrow> jsnum \<Rightarrow> jsnum" where
  "midpoint lo hi = js_mul (js_fin (1 / 2)) (js_add lo hi)"

fun bisect :: "(jsnum \<Rightarrow> jsnum) \<Rightarrow> jsnum \<Rightarrow> nat \<Rightarrow> jsnum \<Rightarrow> jsnum \<Rightarrow> jsnum \<times> jsnum" where
  "bisect key keyTarget 0 lo hi = (lo, hi)"
| "bisect key keyTarget (Suc n) lo hi =
    (let mid = midpoint lo hi;
         (lo', hi') = (if js_lt keyTarget (key mid) then (mid, hi) else (lo, mid)) in
     if js_lt (js_sub hi' lo') (js_fin (1 / 10 ^ 12)) then (lo', hi') else bisect key keyTarget n lo' hi')"

definition solve_alpha :: "jsnum list \<Rightarrow> jsnum \<Rightarrow> jsnum" where
  "solve_alpha c keyTarget =
    (let (lo, hi) = (if js_lt keyTarget (keyAt c (Fin 1))
           then (Fin 1, widen_up (keyAt c) keyTarget 30 (Fin 2))
           else (widen_down (keyAt c) keyTarget 30 (js_fin (1 / 2)), Fin 1));
         (lo', hi') = bisect (keyAt c) keyTarget 80 lo hi in
     midpoint lo' hi')"

definition applyNetwinstableKey :: "jsnum list \<Rightarrow> jsnum \<Rightarrow> jsnum list" where
  "applyNetwinstableKey oddsOriginal keyTarget =
    (let orig = filter usable_odds oddsOriginal; m = length orig in
     if m = 0 then oddsOriginal
     else if \<not> js_isFinite keyTarget \<or> js_le keyTarget (Fin 0) \<or> js_le (js_int (int m)) keyTarget then oddsOriginal
     else let c = map (\<lambda>o'. js_sub o' (Fin 1)) orig in
       if js_lt (js_abs (js_sub (keyAt c (Fin 1)) keyTarget)) (js_fin (1 / 10 ^ 9)) then oddsOriginal
       else let alpha = solve_alpha c keyTarget in
         map (\<lambda>o'. if usable_odds o' then js_add (Fin 1) (js_mul alpha (js_sub o' (Fin 1))) else o') oddsOriginal)"

section \<open>Boosts\<close>

record market_boost =
  nb_adjustedOdds :: "jsnum list"
  nb_effectiveKeyDelta :: jsnum
  nb_keyOriginal :: jsnum
  nb_keyAdjusted :: jsnum

definition boostMarketKey :: "jsnum list \<Rightarrow> jsnum \<Rightarrow> market_boost" where
  "boostMarketKey oddsOriginal keyDeltaPct =
    (let keyOriginal = bookKey oddsOriginal;
         requested = js_sub keyOriginal (js_div keyDeltaPct (Fin 100));
         keyTarget = js_max requested (Fin 1) in
     if js_le keyOriginal (Fin 1) \<or> js_le keyOriginal keyTarget
     then \<lparr>nb_adjustedOdds = oddsOriginal, nb_effectiveKeyDelta = Fin 0, nb_keyOriginal = keyOriginal,
           nb_keyAdjusted = keyOriginal\<rparr>
     else \<lparr>nb_adjustedOdds = applyNetwinstableKey oddsOriginal keyTarget,
           nb_effectiveKeyDelta = js_sub keyOriginal keyTarget, nb_keyOriginal = keyOriginal,
           nb_keyAdjusted = keyTarget\<rparr>)"

definition SELECTION_BOOST_MAX_PROB_SHARE :: jsnum where
  "SELECTION_BOOST_MAX_PROB_SHARE = js_fin (1 / 2)"

record selection_boost = market_boost +
  ns_effectiveDeltas :: "jsnum list"

text \<open>What one outcome may give at most; 0 when it gives nothing.\<close>

definition selection_cap :: "jsnum \<Rightarrow> jsnum \<Rightarrow> jsnum" where
  "selection_cap o' pct =
    (if \<not> usable_odds o' then Fin 0
     else if \<not> js_isFinite pct \<or> js_le pct (Fin 0) then Fin 0
     else let cap = js_min (js_div pct (Fin 100)) (js_mul (js_div (Fin 1) o') SELECTION_BOOST_MAX_PROB_SHARE) in
       if js_lt (Fin 0) cap then cap else Fin 0)"

text \<open>The new price of one outcome and the key it gave, for its cap and the common scale.\<close>

definition shave :: "jsnum \<Rightarrow> jsnum \<Rightarrow> jsnum \<Rightarrow> jsnum \<times> jsnum" where
  "shave scale o' cap =
    (if js_le cap (Fin 0) then (o', Fin 0)
     else let delta = js_mul cap scale; p = js_sub (js_div (Fin 1) o') delta in
       if \<not> js_lt (Fin 0) delta \<or> \<not> js_lt (Fin 0) p then (o', Fin 0) else (js_div (Fin 1) p, delta))"

definition js_sum :: "jsnum list \<Rightarrow> jsnum" where
  "js_sum xs = foldl js_add (Fin 0) xs"

definition boostSelectionKeys :: "jsnum list \<Rightarrow> jsnum list \<Rightarrow> selection_boost" where
  "boostSelectionKeys oddsOriginal keyDeltaPctByIndex =
    (let keyOriginal = bookKey oddsOriginal;
         noop = \<lparr>nb_adjustedOdds = oddsOriginal, nb_effectiveKeyDelta = Fin 0, nb_keyOriginal = keyOriginal,
           nb_keyAdjusted = keyOriginal, ns_effectiveDeltas = map (\<lambda>_. Fin 0) oddsOriginal\<rparr>;
         headroom = js_sub keyOriginal (Fin 1) in
     if \<not> js_lt (Fin 0) headroom then noop
     else let caps = map2 selection_cap oddsOriginal keyDeltaPctByIndex; totalRequested = js_sum caps in
       if \<not> js_lt (Fin 0) totalRequested then noop
       else let scale = (if js_lt headroom totalRequested then js_div headroom totalRequested else Fin 1);
                cells = map2 (shave scale) oddsOriginal caps; applied = js_sum (map snd cells) in
         if \<not> js_lt (Fin 0) applied then noop
         else \<lparr>nb_adjustedOdds = map fst cells, nb_effectiveKeyDelta = applied, nb_keyOriginal = keyOriginal,
               nb_keyAdjusted = js_sub keyOriginal applied, ns_effectiveDeltas = map snd cells\<rparr>)"

section \<open>Quoting a market\<close>

definition formatBoostedOdds :: "jsnum \<Rightarrow> string" where
  "formatBoostedOdds n = (if \<not> js_isFinite n then ''0.00''
     else js_toFixed 2 (js_div (js_floor (js_mul n (Fin 100))) (Fin 100)))"

definition isQuotableOutcomeOdds :: "jsnum \<Rightarrow> bool" where
  "isQuotableOutcomeOdds odds \<longleftrightarrow> js_isFinite odds \<and> js_le (Fin 1) odds"

record boost_quote_rule =
  bq_ruleId :: uuid
  bq_boostPct :: jsnum
  bq_endsAt :: "millis option"

record boost_quote_cell =
  qc_outcomeId :: string
  qc_ruleId :: uuid
  qc_boostPct :: jsnum
  qc_endsAt :: "millis option"
  qc_originalOdds :: string
  qc_boostedOdds :: string

definition quote_cell :: "boost_quote_rule \<Rightarrow> string \<Rightarrow> jsnum \<Rightarrow> jsnum \<Rightarrow> boost_quote_cell" where
  "quote_cell rule outcomeId published adjusted =
    \<lparr>qc_outcomeId = outcomeId, qc_ruleId = bq_ruleId rule, qc_boostPct = bq_boostPct rule, qc_endsAt = bq_endsAt rule,
     qc_originalOdds = formatBoostedOdds published, qc_boostedOdds = formatBoostedOdds adjusted\<rparr>"

definition moved :: "boost_quote_cell \<Rightarrow> bool" where
  "moved c \<longleftrightarrow> qc_boostedOdds c \<noteq> qc_originalOdds c"

text \<open>The selection rules of a market are an association list: its keys are what the map holds.\<close>

definition quoteMarketBoost ::
  "(string \<times> jsnum) list \<Rightarrow> boost_quote_rule option \<Rightarrow> (string \<times> boost_quote_rule) list \<Rightarrow> boost_quote_cell list" where
  "quoteMarketBoost outcomes marketWide selections =
    (if selections \<noteq> [] then
       let adjusted = boostSelectionKeys (map snd outcomes)
             (map (\<lambda>(oid, _). case map_of selections oid of Some r \<Rightarrow> bq_boostPct r | None \<Rightarrow> Fin 0) outcomes) in
       if js_le (nb_effectiveKeyDelta adjusted) (Fin 0) then []
       else List.map_filter (\<lambda>((oid, published), (price, delta)).
           case map_of selections oid of
             None \<Rightarrow> None
           | Some rule \<Rightarrow>
               if js_le delta (Fin 0) then None
               else let cell = quote_cell rule oid published price in if moved cell then Some cell else None)
         (zip outcomes (zip (nb_adjustedOdds adjusted) (ns_effectiveDeltas adjusted)))
     else case marketWide of
       None \<Rightarrow> []
     | Some rule \<Rightarrow>
         if length outcomes < 2 then []
         else let adjusted = boostMarketKey (map snd outcomes) (bq_boostPct rule) in
           if js_le (nb_effectiveKeyDelta adjusted) (Fin 0) then []
           else let cells = map (\<lambda>((oid, published), price). quote_cell rule oid published price)
                      (zip outcomes (nb_adjustedOdds adjusted)) in
             if list_all (\<lambda>c. \<not> moved c) cells then [] else cells)"

end
