(* ===== verification/Boost_Bounds.thy ===== *)
theory Boost_Bounds
  imports Boost_Pricing
begin

text \<open>
  What a boost does to a price, in binary64: a market-wide boost never lowers a
  price of the book, a selection boost at most doubles its price, and the
  bracketing loops end by themselves.
\<close>

section \<open>Exact steps\<close>

lemma rnd64_pred:
  assumes "rnd64 x = x" and "1 \<le> x" and "x \<le> 2 ^ 53"
  shows "rnd64 (x - 1) = x - 1"
proof (cases "x = 1 \<or> x = 2 ^ 53")
  case True
  then show ?thesis using dbl.rnd_int [of 0] dbl.rnd_int [of "2 ^ 53 - 1"] by auto
next
  case False
  then have x: "1 < x" "x < 2 ^ 53" using assms by auto
  let ?e = "exponent x" and ?y = "x - 1"
  have b: "pow2 ?e \<le> x" "x < pow2 (?e + 1)" using exponent_bounds [of x] x by auto
  have "pow2 0 < pow2 (?e + 1)" "pow2 ?e < pow2 53" using b x pow2_nat [of 53] by simp_all
  then have e: "0 \<le> ?e" "?e \<le> 52" unfolding pow2_less_iff by simp_all
  have ulp: "ulp x = pow2 (?e - 52)" using e by (simp add: ulp_def max_def)
  define k where "k = round_half_even (x / ulp x)"
  have k: "x = of_int k * ulp x" using assms(1) x by (simp add: rnd64_def rnd_pos_def k_def)
  have one: "1 = of_int (2 ^ nat (52 - ?e)) * ulp x"
    using e pow2_add [of "52 - ?e" "?e - 52"] by (simp add: ulp pow2_def [of "52 - ?e"])
  define n where "n = k - 2 ^ nat (52 - ?e)"
  have y: "?y = of_int n * ulp x" using k one by (simp add: n_def left_diff_distrib)
  have pos: "0 < ?y" using x by simp
  then have "0 < n" using y ulp_pos [of x] by (auto simp: zero_less_mult_iff)
  then have "ulp x \<le> ?y" unfolding y using mult_right_mono [of 1 "of_int n" "ulp x"] by simp
  then have "pow2 (?e - 52) < pow2 (exponent ?y + 1)" using exponent_bounds(2) [OF pos] by (simp add: ulp)
  then have lo: "?e - 52 \<le> exponent ?y" by (simp add: pow2_less_iff)
  have hi: "exponent ?y \<le> ?e" using exponent_mono [OF pos, of x] by simp
  have uy: "ulp ?y = pow2 (exponent ?y - 52)" using lo e by (simp add: ulp_def max_def)
  have split: "pow2 (?e - 52) = pow2 (?e - exponent ?y) * pow2 (exponent ?y - 52)"
    by (simp flip: pow2_add)
  have int: "pow2 (?e - exponent ?y) = of_int (2 ^ nat (?e - exponent ?y))" using hi by (simp add: pow2_def)
  have "ulp x = of_int (2 ^ nat (?e - exponent ?y)) * ulp ?y" unfolding ulp uy split int ..
  then have "?y = of_int n * (of_int (2 ^ nat (?e - exponent ?y)) * ulp ?y)" using y by argo
  then have "?y = of_int (n * 2 ^ nat (?e - exponent ?y)) * ulp ?y" by (simp only: of_int_mult mult.assoc)
  then have "rnd_pos ?y = ?y" by (rule rnd_pos_exact [OF pos])
  then show ?thesis using pos by (simp add: rnd64_def)
qed

lemma rnd64_half [simp]: "rnd64 (1 / 2) = 1 / 2"
proof -
  have half: "pow2 (- 1) = 1 / 2" by (simp add: pow2_def)
  show ?thesis using rnd_pos_pow2 [of "- 1", unfolded half] by (simp add: rnd64_def)
qed

lemma js_half [simp]: "js_fin (1 / 2) = Fin (1 / 2)"
  by (subst js_fin_53) simp_all

text \<open>A price: a double above 1 that a NUMERIC(10, 4) column can hold.\<close>

definition price :: "rat \<Rightarrow> bool" where
  "price x \<longleftrightarrow> rnd64 x = x \<and> 1 \<le> x \<and> x \<le> 2 ^ 20"

lemma priceD: "price x \<Longrightarrow> rnd64 x = x" "price x \<Longrightarrow> 1 \<le> x" "price x \<Longrightarrow> x \<le> 2 ^ 20"
  by (simp_all add: price_def)

lemma price_excess: "price x \<Longrightarrow> js_sub (Fin x) (Fin 1) = Fin (x - 1)"
  using rnd64_pred [of x] by (simp add: price_def js_sub_def js_fin_53)

lemma price_restored:
  assumes "price x"
  shows "js_add (Fin 1) (js_mul (Fin 1) (Fin (x - 1))) = Fin x"
  using assms rnd64_pred [of x] by (simp add: price_def js_fin_53)

section \<open>A larger factor, a higher price\<close>

lemma rnd64_ge_1: "1 \<le> x \<Longrightarrow> 1 \<le> rnd64 x"
  using dbl.rnd_ge_int [of 1 x] by simp

lemma netwin_raises:
  assumes "price x" and "1 \<le> a" and "a \<le> 2 ^ 30"
  shows "\<exists>y. js_add (Fin 1) (js_mul (Fin a) (js_sub (Fin x) (Fin 1))) = Fin y \<and> x \<le> y \<and> y \<le> 2 ^ 52"
proof -
  note p = priceD [OF assms(1)]
  let ?m = "a * (x - 1)"
  have m: "x - 1 \<le> ?m" "?m \<le> 2 ^ 50"
  proof -
    show "x - 1 \<le> ?m" using mult_right_mono [of 1 a "x - 1"] assms(2) p by simp
    have "?m \<le> 2 ^ 30 * 2 ^ 20" using assms p by (intro mult_mono) auto
    then show "?m \<le> 2 ^ 50" by simp
  qed
  have lo: "x - 1 \<le> rnd64 ?m" using dbl.rnd_mono [OF m(1)] rnd64_pred [of x] p by simp
  have hi: "rnd64 ?m \<le> 2 ^ 50" using dbl.rnd_le_int [of ?m "2 ^ 50"] m by simp
  have mul: "js_mul (Fin a) (js_sub (Fin x) (Fin 1)) = Fin (rnd64 ?m)"
    unfolding price_excess [OF assms(1)] using m p by (simp add: js_fin_53)
  have add: "js_add (Fin 1) (Fin (rnd64 ?m)) = Fin (rnd64 (1 + rnd64 ?m))" using lo hi p by (simp add: js_fin_53)
  have "x \<le> rnd64 (1 + rnd64 ?m)" using dbl.rnd_mono [of x "1 + rnd64 ?m"] lo p by simp
  moreover have "rnd64 (1 + rnd64 ?m) \<le> 2 ^ 52" using dbl.rnd_le_int [of "1 + rnd64 ?m" "2 ^ 52"] hi by simp
  ultimately show ?thesis unfolding mul add by blast
qed

section \<open>The solver stays at or above 1\<close>

definition factor :: "jsnum \<Rightarrow> bool" where
  "factor a \<longleftrightarrow> (\<exists>x. a = Fin x \<and> 1 \<le> x \<and> x \<le> 2 ^ 30)"

lemma factorI: "1 \<le> x \<Longrightarrow> x \<le> 2 ^ 30 \<Longrightarrow> factor (Fin x)"
  by (simp add: factor_def)

lemma factor_midpoint:
  assumes "factor lo" and "factor hi"
  shows "factor (midpoint lo hi)"
proof -
  obtain x y where xy: "lo = Fin x" "hi = Fin y" "1 \<le> x" "1 \<le> y" "x \<le> 2 ^ 30" "y \<le> 2 ^ 30"
    using assms by (auto simp: factor_def)
  have s: "2 \<le> rnd64 (x + y)" "rnd64 (x + y) \<le> 2 ^ 31"
    using xy dbl.rnd_ge_int [of 2 "x + y"] dbl.rnd_le_int [of "x + y" "2 ^ 31"] by auto
  have h: "1 \<le> rnd64 (rnd64 (x + y) / 2)" "rnd64 (rnd64 (x + y) / 2) \<le> 2 ^ 30"
    using s dbl.rnd_ge_int [of 1 "rnd64 (x + y) / 2"] dbl.rnd_le_int [of "rnd64 (x + y) / 2" "2 ^ 30"] by auto
  have "midpoint lo hi = Fin (rnd64 (rnd64 (x + y) / 2))"
    using xy s by (simp add: midpoint_def js_fin_53)
  then show ?thesis using h by (simp add: factorI)
qed

lemma factor_bisect:
  assumes "factor lo" and "factor hi" and "bisect key t n lo hi = (lo', hi')"
  shows "factor lo' \<and> factor hi'"
  using assms
proof (induction n arbitrary: lo hi)
  case (Suc n)
  note mid = factor_midpoint [OF Suc.prems(1,2)]
  show ?case
    using Suc.prems mid Suc.IH [OF mid Suc.prems(2)] Suc.IH [OF Suc.prems(1) mid]
    by (auto simp: Let_def split: if_splits)
qed simp

lemma double_up: "k < 30 \<Longrightarrow> js_fin (2 ^ k * 2) = Fin (2 ^ Suc k)"
proof -
  assume "k < 30"
  then have "(2 :: int) ^ Suc k \<le> 2 ^ 53" by (intro power_increasing) auto
  then have "js_fin (of_int (2 ^ Suc k)) = Fin (of_int (2 ^ Suc k))" by (intro js_fin_int) simp
  then show ?thesis by (simp add: mult.commute)
qed

lemma pow_less_1e9: "(2 :: rat) ^ k < 1000000000 \<Longrightarrow> k < 30"
proof (rule ccontr)
  assume less: "(2 :: rat) ^ k < 1000000000" and "\<not> k < 30"
  then have "(2 :: rat) ^ 30 \<le> 2 ^ k" by (intro power_increasing) auto
  with less show False by simp
qed

lemma widen_up_power:
  assumes "k \<le> 30"
  shows "\<exists>j \<le> 30. k \<le> j \<and> widen_up key t n (Fin (2 ^ k)) = Fin (2 ^ j)"
  using assms
proof (induction n arbitrary: k)
  case (Suc n)
  show ?case
  proof (cases "js_lt t (key (Fin (2 ^ k))) \<and> (2 :: rat) ^ k < 1000000000")
    case True
    then have "k < 30" using pow_less_1e9 by blast
    then show ?thesis using True Suc.IH [of "Suc k"] by (auto simp: double_up simp del: power_Suc intro: Suc_leD)
  qed (use Suc.prems in auto)
qed auto

text \<open>The bound on the turns is never what ends the doubling.\<close>

lemma widen_up_turns: "30 \<le> k + n \<Longrightarrow> widen_up key t (n + m) (Fin (2 ^ k)) = widen_up key t n (Fin (2 ^ k))"
proof (induction n arbitrary: k)
  case 0
  then have "\<not> (2 :: rat) ^ k < 1000000000" using pow_less_1e9 [of k] by auto
  then show ?case by (cases m) auto
next
  case (Suc n)
  then show ?case using pow_less_1e9 [of k] by (auto simp: double_up simp del: power_Suc)
qed

lemma solve_alpha_factor:
  assumes "js_lt t (keyAt c (Fin 1))"
  shows "factor (solve_alpha c t)"
proof -
  obtain j where j: "j \<le> 30" "1 \<le> j" "widen_up (keyAt c) t 30 (Fin 2) = Fin (2 ^ j)"
    using widen_up_power [of 1 "keyAt c" t 30] by auto
  have "(1 :: rat) \<le> 2 ^ j" "(2 :: rat) ^ j \<le> 2 ^ 30"
    using power_increasing [OF j(1), of "2 :: rat"] by simp_all
  then have "factor (Fin (2 ^ j))" "factor (Fin 1)" by (auto intro: factorI)
  moreover obtain lo hi where lh: "bisect (keyAt c) t 80 (Fin 1) (Fin (2 ^ j)) = (lo, hi)" by (cases "bisect (keyAt c) t 80 (Fin 1) (Fin (2 ^ j))")
  ultimately show ?thesis
    using factor_bisect [OF _ _ lh] factor_midpoint assms by (auto simp: solve_alpha_def j(3) lh)
qed

section \<open>A market-wide boost\<close>

lemma usable_price: "price x \<Longrightarrow> usable_odds (Fin x) \<longleftrightarrow> x \<noteq> 1"
  by (auto simp: usable_odds_def price_def)

lemma bookKey_filter: "bookKey odds = foldl (\<lambda>s o'. js_add s (js_div (Fin 1) o')) (Fin 0) (filter usable_odds odds)"
proof -
  have "foldl (\<lambda>s o'. if usable_odds o' then js_add s (js_div (Fin 1) o') else s) z odds
      = foldl (\<lambda>s o'. js_add s (js_div (Fin 1) o')) z (filter usable_odds odds)" for z
    by (induction odds arbitrary: z) auto
  then show ?thesis by (simp add: bookKey_def)
qed

text \<open>At factor 1 the solver starts from the key of the book itself.\<close>

lemma keyAt_original:
  assumes "list_all price xs"
  shows "keyAt (map (\<lambda>o'. js_sub o' (Fin 1)) (filter usable_odds (map Fin xs))) (Fin 1) = bookKey (map Fin xs)"
proof -
  have "foldl (\<lambda>s ci. js_add s (js_div (Fin 1) (js_add (Fin 1) (js_mul (Fin 1) ci)))) z
        (map (\<lambda>o'. js_sub o' (Fin 1)) (filter usable_odds (map Fin xs)))
      = foldl (\<lambda>s o'. js_add s (js_div (Fin 1) o')) z (filter usable_odds (map Fin xs))" for z
    using assms
  proof (induction xs arbitrary: z)
    case (Cons x xs)
    then have "price x" by simp
    note step = price_excess [OF this] price_restored [OF this]
    show ?case using Cons by (cases "usable_odds (Fin x)") (simp_all del: js_add.simps js_mul.simps add: step)
  qed simp
  then show ?thesis by (simp add: keyAt_def bookKey_filter)
qed

lemma netwinstable_raises:
  assumes "list_all price xs" and "js_lt t (bookKey (map Fin xs))"
  shows "\<exists>ys. applyNetwinstableKey (map Fin xs) t = map Fin ys \<and> list_all2 (\<lambda>x y. x \<le> y \<and> y \<le> 2 ^ 52) xs ys"
proof -
  let ?c = "map (\<lambda>o'. js_sub o' (Fin 1)) (filter usable_odds (map Fin xs))"
  have same: "list_all2 (\<lambda>x y. x \<le> y \<and> y \<le> 2 ^ 52) xs xs"
    using assms(1) by (induction xs) (auto simp: price_def)
  have "js_lt t (keyAt ?c (Fin 1))" using assms by (simp add: keyAt_original)
  then obtain a where a: "solve_alpha ?c t = Fin a" "1 \<le> a" "a \<le> 2 ^ 30"
    using solve_alpha_factor [of t ?c] by (auto simp: factor_def)
  have "\<exists>ys. map (\<lambda>o'. if usable_odds o' then js_add (Fin 1) (js_mul (Fin a) (js_sub o' (Fin 1))) else o') (map Fin xs)
      = map Fin ys \<and> list_all2 (\<lambda>x y. x \<le> y \<and> y \<le> 2 ^ 52) xs ys"
    using assms(1)
  proof (induction xs)
    case (Cons x xs)
    then obtain ys where ys: "map (\<lambda>o'. if usable_odds o' then js_add (Fin 1) (js_mul (Fin a) (js_sub o' (Fin 1))) else o') (map Fin xs)
        = map Fin ys" "list_all2 (\<lambda>x y. x \<le> y \<and> y \<le> 2 ^ 52) xs ys" by auto
    have x: "price x" using Cons.prems by simp
    obtain y where y: "(if usable_odds (Fin x) then js_add (Fin 1) (js_mul (Fin a) (js_sub (Fin x) (Fin 1))) else Fin x) = Fin y"
      "x \<le> y" "y \<le> 2 ^ 52"
      using netwin_raises [OF x a(2,3)] priceD [OF x] by (cases "usable_odds (Fin x)") auto
    then show ?case using ys by (intro exI [of _ "y # ys"]) simp
  qed simp
  then show ?thesis using same a(1) by (auto simp: applyNetwinstableKey_def Let_def)
qed

section \<open>Two decimals\<close>

definition cents :: "rat \<Rightarrow> nat" where
  "cents x = nat \<lfloor>rnd64 (x * 100)\<rfloor>"

lemma cents_mono: "x \<le> y \<Longrightarrow> cents x \<le> cents y"
  unfolding cents_def by (intro nat_mono floor_mono dbl.rnd_mono) simp

lemma format_cents:
  assumes "0 \<le> x" and "x \<le> 2 ^ 42"
  shows "formatBoostedOdds (Fin x) = show_scaled 2 (cents x)"
proof -
  have r: "0 \<le> rnd64 (x * 100)" "rnd64 (x * 100) \<le> 2 ^ 49"
    using assms dbl.rnd_nonneg [of "x * 100"] dbl.rnd_le_int [of "x * 100" "2 ^ 49"] by auto
  define k where "k = \<lfloor>rnd64 (x * 100)\<rfloor>"
  have k: "0 \<le> k" "k \<le> 2 ^ 49" using r by (auto simp: k_def floor_le_iff)
  have kr: "0 \<le> (of_int k :: rat)" "(of_int k :: rat) \<le> 2 ^ 49"
    using k of_int_le_iff [where ?'a = rat, of k "2 ^ 49"] by simp_all
  let ?q = "of_int k / 100 :: rat"
  have err: "\<bar>rnd64 ?q - ?q\<bar> \<le> ?q / 2 ^ 53"
  proof (cases "k = 0")
    case False
    then have "1 \<le> (of_int k :: rat)" using k by simp
    moreover have "pow2 (- 1022) \<le> pow2 (- 7)" by (rule pow2_mono) simp
    moreover have "pow2 (- 7) = 1 / 128" by (simp add: pow2_def)
    ultimately have "pow2 (- 1022) \<le> \<bar>?q\<bar>" by simp
    then show ?thesis using dbl.rnd_error [of ?q] kr by simp
  qed (simp add: dbl.rnd_0)
  have "?q / 2 ^ 53 < 1 / 200" using kr by simp
  then have "\<bar>rnd64 ?q * 100 - of_int k\<bar> < 1 / 2" using err by linarith
  then have "\<lfloor>rnd64 ?q * 100 + 1 / 2\<rfloor> = k" by (intro floor_unique) linarith+
  moreover have "0 \<le> rnd64 ?q" using kr by (intro dbl.rnd_nonneg) simp
  ultimately have "js_toFixed 2 (Fin (rnd64 ?q)) = show_scaled 2 (nat k)" by (simp add: js_toFixed_def)
  moreover have "js_fin ?q = Fin (rnd64 ?q)" using kr by (intro js_fin_53) simp
  moreover have "js_fin (x * 100) = Fin (rnd64 (x * 100))" using assms by (intro js_fin_53) simp
  ultimately show ?thesis using r(1) by (simp add: formatBoostedOdds_def cents_def k_def)
qed

definition nonneg :: "jsnum \<Rightarrow> bool" where
  "nonneg z \<longleftrightarrow> z = PosInf \<or> (\<exists>r \<ge> 0. z = Fin r)"

lemma nonneg_js_fin: "0 \<le> x \<Longrightarrow> nonneg (js_fin x)"
  using dbl.rnd_nonneg [of x] js_overflow_large by (auto simp: js_fin_def nonneg_def Let_def)

lemma nonneg_js_add: "nonneg a \<Longrightarrow> nonneg b \<Longrightarrow> nonneg (js_add a b)"
  by (auto simp: nonneg_def [of a] nonneg_def [of b] nonneg_js_fin) (auto simp: nonneg_def)

lemma nonneg_bookKey:
  assumes "list_all price xs"
  shows "nonneg (bookKey (map Fin xs))"
proof -
  have "nonneg z \<Longrightarrow> nonneg (foldl (\<lambda>s o'. if usable_odds o' then js_add s (js_div (Fin 1) o') else s) z (map Fin xs))" for z
    using assms
  proof (induction xs arbitrary: z)
    case (Cons x xs)
    then have "0 < x" by (simp add: price_def)
    then have "nonneg (js_div (Fin 1) (Fin x))" by (simp add: nonneg_js_fin)
    then show ?case using Cons by (simp add: nonneg_js_add)
  qed simp
  then show ?thesis by (simp add: bookKey_def nonneg_def [of "Fin 0"])
qed

lemma market_key_raises:
  assumes "list_all price xs"
  shows "\<exists>ys. nb_adjustedOdds (boostMarketKey (map Fin xs) pct) = map Fin ys
    \<and> list_all2 (\<lambda>x y. x \<le> y \<and> y \<le> 2 ^ 52) xs ys"
proof -
  let ?k = "bookKey (map Fin xs)" and ?t = "js_max (js_sub (bookKey (map Fin xs)) (js_div pct (Fin 100))) (Fin 1)"
  have same: "list_all2 (\<lambda>x y. x \<le> y \<and> y \<le> 2 ^ 52) xs xs"
    using assms by (induction xs) (auto simp: price_def)
  show ?thesis
  proof (cases "js_le ?k (Fin 1) \<or> js_le ?k ?t \<or> \<not> js_isFinite ?t")
    case True
    then show ?thesis using same by (auto simp: boostMarketKey_def applyNetwinstableKey_def Let_def)
  next
    case False
    then have "js_lt ?t ?k" using nonneg_bookKey [OF assms]
      by (cases ?t; cases ?k) (auto simp: js_le_def nonneg_def)
    then show ?thesis using netwinstable_raises [OF assms] False by (simp add: boostMarketKey_def Let_def)
  qed
qed

lemma market_cell_bounds:
  assumes "list_all (\<lambda>(oid, x). price x) outcomes"
    and "cell \<in> set (quoteMarketBoost (map (\<lambda>(oid, x). (oid, Fin x)) outcomes) (Some rule) [])"
  shows "\<exists>oid x y. (oid, x) \<in> set outcomes \<and> cell = quote_cell rule oid (Fin x) (Fin y) \<and> x \<le> y
    \<and> qc_originalOdds cell = show_scaled 2 (cents x)
    \<and> (y \<le> 2 ^ 42 \<longrightarrow> qc_boostedOdds cell = show_scaled 2 (cents y) \<and> cents x \<le> cents y)"
proof -
  let ?outs = "map (\<lambda>(oid, x). (oid, Fin x)) outcomes" and ?xs = "map snd outcomes"
  have odds: "map snd ?outs = map Fin ?xs" by (induction outcomes) auto
  have prices: "list_all price ?xs" using assms(1) by (induction outcomes) auto
  obtain ys where ys: "nb_adjustedOdds (boostMarketKey (map Fin ?xs) (bq_boostPct rule)) = map Fin ys"
    "list_all2 (\<lambda>x y. x \<le> y \<and> y \<le> 2 ^ 52) ?xs ys"
    using market_key_raises [OF prices] by blast
  have "cell \<in> set (map (\<lambda>((oid, published), price). quote_cell rule oid published price) (zip outs (map Fin ys)))"
    if "map snd outs = map Fin ?xs" "cell \<in> set (quoteMarketBoost outs (Some rule) [])" for outs
    using that ys(1) by (auto simp: quoteMarketBoost_def Let_def split: if_splits)
  from this [OF odds assms(2)] obtain i where i: "i < length outcomes" "i < length ys"
    "cell = quote_cell rule (fst (outcomes ! i)) (Fin (snd (outcomes ! i))) (Fin (ys ! i))"
    by (auto simp: in_set_conv_nth split: prod.splits)
  let ?x = "snd (outcomes ! i)"
  have le: "?x \<le> ys ! i" using list_all2_nthD [OF ys(2), of i] i by simp
  have "price ?x" using prices i(1) by (simp add: list_all_length)
  then have "0 \<le> ?x" "?x \<le> 2 ^ 42" by (auto simp: price_def)
  then show ?thesis
    using i le format_cents [of ?x] format_cents [of "ys ! i"] cents_mono [OF le]
    by (intro exI [of _ "fst (outcomes ! i)"] exI [of _ ?x] exI [of _ "ys ! i"]) (auto simp: quote_cell_def)
qed

text \<open>A market-wide boost never lowers a price of its market: the book it computes has every price at
  least as high as the published one, and every cell the market quotes shows the rule, the published price
  and, to the last of its two decimals, a price no lower than it.\<close>

theorem market_boost_never_lowers:
  assumes "list_all (\<lambda>(oid, x). price x) outcomes"
  shows "(\<exists>ys. nb_adjustedOdds (boostMarketKey (map (Fin \<circ> snd) outcomes) (bq_boostPct rule)) = map Fin ys
      \<and> list_all2 (\<le>) (map snd outcomes) ys)
    \<and> list_all (\<lambda>cell. \<exists>oid x y. (oid, x) \<in> set outcomes \<and> cell = quote_cell rule oid (Fin x) (Fin y) \<and> x \<le> y
        \<and> qc_originalOdds cell = show_scaled 2 (cents x)
        \<and> (2 ^ 42 < y \<or> qc_boostedOdds cell = show_scaled 2 (cents y) \<and> cents x \<le> cents y))
      (quoteMarketBoost (map (\<lambda>(oid, x). (oid, Fin x)) outcomes) (Some rule) [])"
proof
  have "list_all price (map snd outcomes)" using assms by (induction outcomes) auto
  from market_key_raises [OF this, of "bq_boostPct rule"] show "\<exists>ys. nb_adjustedOdds (boostMarketKey (map (Fin \<circ> snd) outcomes) (bq_boostPct rule)) = map Fin ys
      \<and> list_all2 (\<le>) (map snd outcomes) ys"
    unfolding map_map [symmetric] by (fast elim: list_all2_mono)
next
  show "list_all (\<lambda>cell. \<exists>oid x y. (oid, x) \<in> set outcomes \<and> cell = quote_cell rule oid (Fin x) (Fin y) \<and> x \<le> y
        \<and> qc_originalOdds cell = show_scaled 2 (cents x)
        \<and> (2 ^ 42 < y \<or> qc_boostedOdds cell = show_scaled 2 (cents y) \<and> cents x \<le> cents y))
      (quoteMarketBoost (map (\<lambda>(oid, x). (oid, Fin x)) outcomes) (Some rule) [])"
    unfolding list_all_iff using market_cell_bounds [OF assms] not_le by meson
qed

theorem market_boost_never_lowers_witness:
  "list_all (\<lambda>(oid, x). price x) [(''1'', 2), (''2'', 4), (''3'', 2)]
    \<and> (\<exists>ys. nb_adjustedOdds (boostMarketKey [Fin 2, Fin 4, Fin 2] (Fin 10)) = map Fin ys \<and> list_all2 (\<le>) [2, 4, 2] ys)"
proof -
  have "list_all (\<lambda>(oid, x). price x) [(''1'', 2), (''2'', 4), (''3'', 2)]" unfolding price_def by code_simp
  then show ?thesis
    using market_boost_never_lowers [of "[(''1'', 2), (''2'', 4), (''3'', 2)]" "\<lparr>bq_ruleId = [], bq_boostPct = Fin 10, bq_endsAt = None\<rparr>"]
    by simp
qed

section \<open>A selection boost\<close>

text \<open>One part in \<open>2\<^sup>5\<^sup>3\<close>, the error of one rounding.\<close>

abbreviation eps :: rat where
  "eps \<equiv> 1 / 2 ^ 53"

lemma rnd64_rel:
  assumes "1 / 2 ^ 30 \<le> x"
  shows "x * (1 - eps) \<le> rnd64 x" and "rnd64 x \<le> x * (1 + eps)"
proof -
  have "pow2 (- 1022) \<le> pow2 (- 30)" by (rule pow2_mono) simp
  then have "pow2 (- 1022) \<le> \<bar>x\<bar>" using assms by (simp add: pow2_def [of "- 30"])
  moreover have "0 < x" using assms by (rule less_le_trans [rotated]) simp
  ultimately have "\<bar>rnd64 x - x\<bar> \<le> x / 2 ^ 53" using dbl.rnd_error [of x] by simp
  moreover have "\<bar>r - x\<bar> \<le> e \<Longrightarrow> x - e \<le> r \<and> r \<le> x + e" for r e :: rat by linarith
  ultimately have "x - x / 2 ^ 53 \<le> rnd64 x" "rnd64 x \<le> x + x / 2 ^ 53" by blast+
  moreover have "x * (1 - eps) = x - x / 2 ^ 53" "x * (1 + eps) = x + x / 2 ^ 53" by (simp_all add: algebra_simps)
  ultimately show "x * (1 - eps) \<le> rnd64 x" and "rnd64 x \<le> x * (1 + eps)" by metis+
qed

lemma js_inverse:
  assumes "price x"
  shows "js_div (Fin 1) (Fin x) = Fin (rnd64 (1 / x))"
proof -
  have "1 \<le> x" using assms by (simp add: price_def)
  then have "0 \<le> 1 / x" "1 / x \<le> 1" by (simp_all add: divide_le_eq)
  then have "\<bar>1 / x\<bar> \<le> 2 ^ 53" by simp
  then show ?thesis using \<open>1 \<le> x\<close> by (simp add: js_fin_53)
qed

lemma selection_cap_bounds:
  assumes "price x" and "selection_cap (Fin x) pct \<noteq> Fin 0"
  shows "x \<noteq> 1" and "\<exists>k. selection_cap (Fin x) pct = Fin k \<and> 0 < k \<and> rnd64 k = k \<and> k \<le> rnd64 (rnd64 (1 / x) / 2)"
proof -
  have x: "1 \<le> x" "x \<le> 2 ^ 20" using assms(1) by (simp_all add: price_def)
  show ne: "x \<noteq> 1" using assms by (auto simp: selection_cap_def usable_odds_def)
  have q: "js_div (Fin 1) (Fin x) = Fin (rnd64 (1 / x))" by (rule js_inverse [OF assms(1)])
  have q1: "0 \<le> rnd64 (1 / x)" "rnd64 (1 / x) \<le> 1"
    using x dbl.rnd_nonneg [of "1 / x"] dbl.rnd_le_int [of "1 / x" 1] by auto
  then have h: "js_mul (js_div (Fin 1) (Fin x)) SELECTION_BOOST_MAX_PROB_SHARE = Fin (rnd64 (rnd64 (1 / x) / 2))"
    unfolding q by (simp add: SELECTION_BOOST_MAX_PROB_SHARE_def js_fin_53)
  obtain c where c: "pct = Fin c" "0 < c"
    using assms(2) by (cases pct) (auto simp: selection_cap_def js_le_def split: if_splits)
  have div: "js_div pct (Fin 100) = js_fin (c / 100)" by (simp add: c)
  show "\<exists>k. selection_cap (Fin x) pct = Fin k \<and> 0 < k \<and> rnd64 k = k \<and> k \<le> rnd64 (rnd64 (1 / x) / 2)"
    using assms(2) unfolding selection_cap_def h div Let_def
    by (auto simp: js_min_def js_fin_def Let_def dbl.rnd_idem split: if_splits)
qed

text \<open>The numbers a boosted selection goes through: \<open>q\<close> its probability, \<open>d\<close> what it gives, \<open>p\<close> what is left.\<close>

lemma shave_numbers:
  assumes x: "price x" and k: "0 < k" "rnd64 k = k" "k \<le> rnd64 (rnd64 (1 / x) / 2)" and s: "0 \<le> s" "s \<le> 1"
  defines "q \<equiv> rnd64 (1 / x)" and "d \<equiv> rnd64 (k * s)" and "p \<equiv> rnd64 (rnd64 (1 / x) - rnd64 (k * s))"
  shows "0 \<le> d" "d \<le> 1" "0 \<le> q" "q \<le> 1" "1 - eps \<le> q * x" "q * x \<le> 1 + eps" "q / 2 * (1 - eps) ^ 2 \<le> p" "p \<le> q" "1 / 2 ^ 23 \<le> p"
proof -
  have xb: "1 \<le> x" "x \<le> 2 ^ 20" using x by (simp_all add: price_def)
  have inv: "1 / 2 ^ 20 \<le> 1 / x" using xb by (intro divide_left_mono) auto
  then have qr: "1 / x * (1 - eps) \<le> q" "q \<le> 1 / x * (1 + eps)" using rnd64_rel [of "1 / x"] unfolding q_def by auto
  show qx: "1 - eps \<le> q * x" "q * x \<le> 1 + eps"
    using mult_right_mono [OF qr(1), of x] mult_right_mono [OF qr(2), of x] xb by simp_all
  have "1 / 2 ^ 20 * (1 - eps) \<le> 1 / x * (1 - eps)" using inv by (intro mult_right_mono) auto
  then have qlo: "1 / 2 ^ 21 \<le> q" using qr(1) by simp
  then show "0 \<le> q" by (rule order_trans [rotated]) simp
  show "q \<le> 1" unfolding q_def using dbl.rnd_le_int [of "1 / x" 1] xb by simp
  have "k * s \<le> k * 1" using k(1) s by (intro mult_left_mono) auto
  then have dk: "d \<le> k" using dbl.rnd_mono [of "k * s" k] k(2) by (simp add: d_def)
  show d0: "0 \<le> d" unfolding d_def using k s by (intro dbl.rnd_nonneg) simp
  have h: "rnd64 (q / 2) \<le> q / 2 * (1 + eps)" using rnd64_rel [of "q / 2"] qlo by simp
  have dh: "d \<le> q / 2 * (1 + eps)" using dk k(3) h by (simp add: q_def)
  have "q / 2 * (1 + eps) \<le> 1" using \<open>q \<le> 1\<close> by simp
  then show "d \<le> 1" using dh by linarith
  have left: "q / 2 * (1 - eps) \<le> q - d" using dh by (simp add: algebra_simps)
  have "1 / 2 ^ 22 * (1 - eps) \<le> q / 2 * (1 - eps)" using qlo by (intro mult_right_mono) auto
  then have "1 / 2 ^ 30 \<le> q - d" using left by simp
  then have pl: "(q - d) * (1 - eps) \<le> p" using rnd64_rel(1) [of "q - d"] by (simp add: p_def q_def d_def)
  have "q / 2 * (1 - eps) * (1 - eps) \<le> (q - d) * (1 - eps)" using left by (intro mult_right_mono) auto
  then show pq: "q / 2 * (1 - eps) ^ 2 \<le> p" using pl by (simp add: power2_eq_square mult.assoc)
  have "1 / 2 ^ 22 * (1 - eps) ^ 2 \<le> q / 2 * (1 - eps) ^ 2" using qlo by (intro mult_right_mono) auto
  moreover have "1 / 2 ^ 23 \<le> (1 / 2 ^ 22 * (1 - eps) ^ 2 :: rat)" by (simp add: power2_eq_square)
  ultimately show "1 / 2 ^ 23 \<le> p" using pq by linarith
  show "p \<le> q" using dbl.rnd_mono [of "q - d" q] d0 dbl.rnd_idem [of "1 / x"] by (simp add: p_def q_def d_def)
qed

lemma shave_bounds:
  assumes x: "price x" and s: "0 \<le> s" "s \<le> 1" and cap: "cap = selection_cap (Fin x) pct"
  shows "\<exists>y d. shave (Fin s) (Fin x) cap = (Fin y, Fin d) \<and> x * (1 - 4 * eps) \<le> y \<and> y \<le> 2 * x * (1 + 8 * eps)"
proof -
  have xb: "1 \<le> x" "x \<le> 2 ^ 20" using x by (simp_all add: price_def)
  have same: "x * (1 - 4 * eps) \<le> x" "x \<le> 2 * x * (1 + 8 * eps)" using xb by (simp_all add: algebra_simps)
  show ?thesis
  proof (cases "cap = Fin 0")
    case True
    then show ?thesis using same by (auto simp: shave_def js_le_def)
  next
    case False
    then obtain k where k: "cap = Fin k" "0 < k" "rnd64 k = k" "k \<le> rnd64 (rnd64 (1 / x) / 2)"
      using selection_cap_bounds [OF x] unfolding cap by blast
    let ?q = "rnd64 (1 / x)" and ?d = "rnd64 (k * s)"
    let ?p = "rnd64 (?q - ?d)"
    note n = shave_numbers [OF x k(2-) s]
    have "k \<le> 1" using k(4) dbl.rnd_le_int [of "?q / 2" 1] n(4) by simp
    then have "k * s \<le> 1" using k(2) s mult_mono [of k 1 s 1] by simp
    then have d: "js_mul cap (Fin s) = Fin ?d" using k s by (simp add: js_fin_53)
    have q: "js_div (Fin 1) (Fin x) = Fin ?q" by (rule js_inverse [OF x])
    have p: "js_sub (Fin ?q) (Fin ?d) = Fin ?p" using n(1-4) by (simp add: js_sub_def js_fin_53)
    have inv: "1 / ?p \<le> 2 ^ 23" "1 \<le> 1 / ?p" using n(4,8,9) by (simp_all add: divide_le_eq le_divide_eq)
    let ?y = "rnd64 (1 / ?p)"
    have y: "js_div (Fin 1) (Fin ?p) = Fin ?y" using inv n(9) by (simp add: js_fin_53)
    have py: "?y * ?p \<le> 1 + eps" "1 - eps \<le> ?y * ?p"
      using rnd64_rel [of "1 / ?p"] inv n(9) mult_right_mono [of "?y" "1 / ?p * (1 + eps)" ?p]
        mult_right_mono [of "1 / ?p * (1 - eps)" ?y ?p] by simp_all
    have y0: "0 \<le> ?y" using inv by (intro dbl.rnd_nonneg) linarith
    have up: "?y \<le> 2 * x * (1 + 8 * eps)"
    proof -
      have "?y * ((1 - eps) * ((1 - eps) ^ 2 / 2)) \<le> ?y * (?q * x * ((1 - eps) ^ 2 / 2))"
        using n(5) y0 by (intro mult_left_mono mult_right_mono) auto
      also have "\<dots> = ?y * (?q / 2 * (1 - eps) ^ 2) * x" by simp
      also have "\<dots> \<le> ?y * ?p * x" using n(7) y0 xb by (intro mult_left_mono mult_right_mono) auto
      also have "\<dots> \<le> (1 + eps) * x" using py xb by (intro mult_right_mono) auto
      finally show ?thesis using xb by (simp add: field_simps power2_eq_square)
    qed
    have lo: "x * (1 - 4 * eps) \<le> ?y"
    proof -
      have "(1 - eps) * x \<le> ?y * ?p * x" using py(2) xb by (intro mult_right_mono) auto
      also have "\<dots> \<le> ?y * ?q * x" using n(8) y0 xb by (intro mult_left_mono mult_right_mono) auto
      also have "\<dots> \<le> ?y * (1 + eps)" using mult_left_mono [OF n(6) y0] by (simp add: mult.assoc)
      finally show ?thesis using xb by (simp add: field_simps)
    qed
    have "\<exists>z e. shave (Fin s) (Fin x) cap = (Fin z, Fin e) \<and> z \<in> {x, ?y}"
      unfolding shave_def Let_def d q p y by simp
    then show ?thesis using same up lo by auto
  qed
qed

text \<open>The common scale is a share of what was asked for.\<close>

definition share :: "jsnum \<Rightarrow> bool" where
  "share z \<longleftrightarrow> (\<exists>s. z = Fin s \<and> 0 \<le> s \<and> s \<le> 1)"

lemma share_scale:
  assumes "js_lt (Fin 0) h" and "js_lt h t"
  shows "share (js_div h t)"
proof (cases t)
  case (Fin y)
  then obtain x where h: "h = Fin x" "0 < x" "x < y" using assms by (cases h) auto
  then have q: "0 \<le> x / y" "x / y \<le> 1" by (simp_all add: divide_le_eq)
  then have "\<bar>x / y\<bar> \<le> 2 ^ 53" by simp
  then have "js_div h t = Fin (rnd64 (x / y))" using Fin h by (simp add: js_fin_53)
  then show ?thesis using q dbl.rnd_nonneg [of "x / y"] dbl.rnd_le_int [of "x / y" 1]
    by (simp add: share_def)
next
  case PosInf
  then obtain x where "h = Fin x" using assms by (cases h) auto
  then show ?thesis using PosInf by (simp add: share_def)
next
  case NegInf
  then show ?thesis using assms by (cases h) auto
next
  case NaN
  then show ?thesis using assms by (cases h) auto
qed

lemma selection_keys_bounds:
  assumes "list_all price xs" and "length pcts = length xs"
  shows "\<exists>ys. nb_adjustedOdds (boostSelectionKeys (map Fin xs) pcts) = map Fin ys
    \<and> list_all2 (\<lambda>x y. x * (1 - 4 * eps) \<le> y \<and> y \<le> 2 * x * (1 + 8 * eps)) xs ys"
proof -
  let ?ok = "\<lambda>x y. x * (1 - 4 * eps) \<le> y \<and> y \<le> 2 * x * (1 + 8 * eps)"
  have "x * (1 - 4 * eps) \<le> x \<and> x \<le> 2 * x * (1 + 8 * eps)" if "price x" for x
    using priceD [OF that] by (simp add: algebra_simps)
  then have same: "list_all2 ?ok xs xs" using assms(1) by (induction xs) auto
  have cells: "\<exists>ys. map fst (map2 (shave scale) (map Fin xs) (map2 selection_cap (map Fin xs) pcts)) = map Fin ys \<and> list_all2 ?ok xs ys"
    if "share scale" for scale
    using assms(2,1)
  proof (induction pcts xs rule: list_induct2)
    case (Cons pct pcts x xs)
    then obtain ys where ys: "map fst (map2 (shave scale) (map Fin xs) (map2 selection_cap (map Fin xs) pcts)) = map Fin ys"
      "list_all2 ?ok xs ys" by auto
    obtain s where s: "scale = Fin s" "0 \<le> s" "s \<le> 1" using \<open>share scale\<close> by (auto simp: share_def)
    have "price x" using Cons.prems by simp
    then obtain y d where "shave scale (Fin x) (selection_cap (Fin x) pct) = (Fin y, Fin d)" "?ok x y"
      using shave_bounds [OF _ s(2,3) refl, of x pct] unfolding s(1) by blast
    then show ?case using ys by (intro exI [of _ "y # ys"]) simp
  qed simp
  have one: "share (Fin 1)" by (simp add: share_def)
  show ?thesis using same cells [OF one] cells [OF share_scale]
    by (auto simp: boostSelectionKeys_def Let_def)
qed

text \<open>Two decimals of a price between these bounds.\<close>

lemma cents_bounds:
  assumes "1 \<le> x" and "x \<le> 2 ^ 20" and lo: "x * (1 - 4 * eps) \<le> y" and hi: "y \<le> 2 * x * (1 + 8 * eps)"
  shows "cents x \<le> cents y + 1" and "cents y \<le> 2 * cents x + 2" and "0 \<le> y" and "y \<le> 2 ^ 42"
proof -
  have half: "1 / 2 \<le> x * (1 - 4 * eps)" and top: "2 * x * (1 + 8 * eps) \<le> 2 ^ 22" using assms(1,2) by simp_all
  have y: "1 / 2 \<le> y" "y \<le> 2 ^ 22" using half top lo hi by linarith+
  then show "0 \<le> y" "y \<le> 2 ^ 42" by simp_all
  have rx: "x * 100 - 1 / 2 ^ 20 \<le> rnd64 (x * 100)" "rnd64 (x * 100) \<le> x * 100 + 1 / 2 ^ 20"
    using rnd64_rel [of "x * 100"] assms(1,2) by simp_all
  have ry: "y * 100 - 1 / 2 ^ 20 \<le> rnd64 (y * 100)" "rnd64 (y * 100) \<le> y * 100 + 1 / 2 ^ 20"
    using rnd64_rel [of "y * 100"] y by simp_all
  have xy: "x - 1 / 2 ^ 20 \<le> y" "y \<le> 2 * x + 1 / 2 ^ 20" using lo hi assms(1,2) by simp_all
  define a b where "a = \<lfloor>rnd64 (x * 100)\<rfloor>" and "b = \<lfloor>rnd64 (y * 100)\<rfloor>"
  have a: "of_int a \<le> rnd64 (x * 100)" "rnd64 (x * 100) < of_int a + 1"
    and b: "of_int b \<le> rnd64 (y * 100)" "rnd64 (y * 100) < of_int b + 1"
    unfolding a_def b_def by linarith+
  have "(of_int a :: rat) < of_int (b + 2)" "(of_int b :: rat) < of_int (2 * a + 3)"
    using a b rx ry xy by (simp_all add: of_int_add)
  then have "a < b + 2" "b < 2 * a + 3" unfolding of_int_less_iff by simp_all
  moreover have "0 \<le> a" "0 \<le> b" using rx(1) ry(1) assms(1) y by (simp_all add: a_def b_def)
  ultimately show "cents x \<le> cents y + 1" "cents y \<le> 2 * cents x + 2" unfolding cents_def a_def [symmetric] b_def [symmetric]
    by simp_all
qed

lemma selection_cell_bounds:
  assumes "list_all (\<lambda>(oid, x). price x) outcomes"
    and "cell \<in> set (quoteMarketBoost (map (\<lambda>(oid, x). (oid, Fin x)) outcomes) wide selections)"
    and "selections \<noteq> []"
  shows "\<exists>oid x m rule. (oid, x) \<in> set outcomes \<and> map_of selections oid = Some rule \<and> qc_outcomeId cell = oid
    \<and> qc_ruleId cell = bq_ruleId rule \<and> qc_originalOdds cell = show_scaled 2 (cents x) \<and> qc_boostedOdds cell = show_scaled 2 m
    \<and> cents x \<le> m + 1 \<and> m \<le> 2 * cents x + 2"
proof -
  let ?outs = "map (\<lambda>(oid, x). (oid, Fin x)) outcomes" and ?xs = "map snd outcomes"
  let ?pcts = "map (\<lambda>(oid, _). case map_of selections oid of Some r \<Rightarrow> bq_boostPct r | None \<Rightarrow> Fin 0) ?outs"
  have odds: "map snd ?outs = map Fin ?xs" by (induction outcomes) auto
  have prices: "list_all price ?xs" using assms(1) by (induction outcomes) auto
  obtain ys where ys: "nb_adjustedOdds (boostSelectionKeys (map Fin ?xs) ?pcts) = map Fin ys"
    "list_all2 (\<lambda>x y. x * (1 - 4 * eps) \<le> y \<and> y \<le> 2 * x * (1 + 8 * eps)) ?xs ys"
    using selection_keys_bounds [OF prices, of ?pcts] by auto
  obtain i rule where i: "i < length outcomes" "i < length ys" "map_of selections (fst (outcomes ! i)) = Some rule"
    "cell = quote_cell rule (fst (outcomes ! i)) (Fin (snd (outcomes ! i))) (Fin (ys ! i))"
  proof -
    have "\<exists>z \<in> set (zip ?outs (zip (map Fin ys) ds)). case z of ((oid, published), (adjusted, delta)) \<Rightarrow>
        \<exists>rule. map_of selections oid = Some rule \<and> cell = quote_cell rule oid published adjusted"
      if "ds = ns_effectiveDeltas (boostSelectionKeys (map Fin ?xs) ?pcts)" for ds
      using assms(2) unfolding quoteMarketBoost_def Let_def odds ys(1) that [symmetric] if_P [OF assms(3)]
      by (auto simp: List.map_filter_def split: option.splits if_splits) force+
    then show thesis using that by (fastforce simp: in_set_conv_nth split: prod.splits)
  qed
  let ?x = "snd (outcomes ! i)"
  have x: "1 \<le> ?x" "?x \<le> 2 ^ 20" using prices i(1) by (auto simp: list_all_length price_def)
  have "?x * (1 - 4 * eps) \<le> ys ! i \<and> ys ! i \<le> 2 * ?x * (1 + 8 * eps)" using list_all2_nthD [OF ys(2), of i] i by simp
  note bounds = cents_bounds [OF x this [THEN conjunct1] this [THEN conjunct2]]
  show ?thesis
    using i bounds format_cents [of ?x] format_cents [of "ys ! i"] x
    by (intro exI [of _ "fst (outcomes ! i)"] exI [of _ ?x] exI [of _ "cents (ys ! i)"] exI [of _ rule]) (simp add: quote_cell_def)
qed

text \<open>A selection boost at most doubles the price it raises: whatever percentage the rules ask for, every cell it
  quotes shows a price no higher than twice the published one plus two in the last decimal, and no lower than the
  published one less one in the last decimal.\<close>

theorem selection_boost_at_most_doubles:
  assumes "list_all (\<lambda>(oid, x). price x) outcomes"
    and "cell \<in> set (quoteMarketBoost (map (\<lambda>(oid, x). (oid, Fin x)) outcomes) wide selections)"
    and "selections \<noteq> []"
  shows "\<exists>oid x m rule. (oid, x) \<in> set outcomes \<and> map_of selections oid = Some rule \<and> qc_outcomeId cell = oid
    \<and> qc_ruleId cell = bq_ruleId rule \<and> qc_originalOdds cell = show_scaled 2 (cents x) \<and> qc_boostedOdds cell = show_scaled 2 m
    \<and> cents x \<le> m + 1 \<and> m \<le> 2 * cents x + 2"
  using selection_cell_bounds [OF assms] .

theorem selection_boost_at_most_doubles_witness:
  "\<exists>cell. quoteMarketBoost [(''1'', Fin 2), (''2'', Fin 4), (''3'', Fin 2)] None [(''2'', \<lparr>bq_ruleId = ''r'', bq_boostPct = Fin 50, bq_endsAt = None\<rparr>)] = [cell]
    \<and> qc_boostedOdds cell = ''8.00''
    \<and> (\<exists>m. qc_boostedOdds cell = show_scaled 2 m \<and> m \<le> 2 * cents 4 + 2)"
proof -
  let ?sel = "[(''2'', \<lparr>bq_ruleId = ''r'', bq_boostPct = Fin 50, bq_endsAt = None\<rparr>)]"
  define cell where "cell = \<lparr>qc_outcomeId = ''2'', qc_ruleId = ''r'', qc_boostPct = Fin 50, qc_endsAt = None,
     qc_originalOdds = ''4.00'', qc_boostedOdds = ''8.00''\<rparr>"
  have ok: "list_all (\<lambda>(oid, x). price x) [(''1'', 2), (''2'', 4), (''3'', 2)]" unfolding price_def by code_simp
  have q: "quoteMarketBoost [(''1'', Fin 2), (''2'', Fin 4), (''3'', Fin 2)] None ?sel = [cell]" unfolding cell_def by code_simp
  then show ?thesis
    using selection_boost_at_most_doubles [OF ok, of cell None ?sel] by (auto simp: cell_def)
qed

end
