(* ===== verification/Boosted_Odds.thy ===== *)
theory Boosted_Odds
  imports Boost_Bounds Catalog
begin

text \<open>
  lib/boosted-odds.ts, its types (packages/types/src/boosted-odds.ts) and the
  read route of modules/boosted-odds/routes.ts: the operator's boost rules, who
  may see them, which of them prices a market, and the re-validation of a
  boosted leg at placement.  The rules are read fresh at every call.
\<close>

section \<open>Team-shaped markets\<close>

definition TEAM_SHAPED_PROVIDER_MARKET_IDS :: "int list" where
  "TEAM_SHAPED_PROVIDER_MARKET_IDS = [1, 4]"

definition FONBET_PMID_BASE :: int where
  "FONBET_PMID_BASE = 1000000"

definition isTeamShapedMarket :: "int \<Rightarrow> string list \<Rightarrow> bool" where
  "isTeamShapedMarket providerMarketId outcomeIds \<longleftrightarrow>
    (if providerMarketId \<in> set TEAM_SHAPED_PROVIDER_MARKET_IDS then True
     else if providerMarketId < FONBET_PMID_BASE then False
     else ''1'' \<in> set outcomeIds \<and> ''2'' \<in> set outcomeIds)"

definition CUSTOM_BOOST_PLACEMENT_TOLERANCE :: jsnum where
  "CUSTOM_BOOST_PLACEMENT_TOLERANCE = js_fin (1 / 100)"

definition CUSTOM_BOOST_DEFAULT_RISK_SCORE :: jsnum where
  "CUSTOM_BOOST_DEFAULT_RISK_SCORE = Fin 1"

section \<open>Rules\<close>

record boost_rule =
  br_id :: uuid
  br_scope :: boost_scope
  br_sportId :: "int option"
  br_tournamentId :: "int option"
  br_matchId :: "int option"
  br_competitorId :: "int option"
  br_marketId :: "int option"
  br_outcomeId :: "string option"
  br_boostPct :: jsnum
  br_startsAt :: "millis option"
  br_endsAt :: "millis option"
  br_minRiskScore :: "jsnum option"
  br_teamOnly :: bool

record boost_context =
  bx_matchId :: int
  bx_tournamentId :: int
  bx_sportId :: int
  bx_homeCompetitorId :: "int option"
  bx_awayCompetitorId :: "int option"

definition rowToRule :: "boosted_odds_row \<Rightarrow> boost_rule" where
  "rowToRule r = \<lparr>br_id = bo_id r, br_scope = bo_scope r, br_sportId = bo_sportId r, br_tournamentId = bo_tournamentId r,
     br_matchId = bo_matchId r, br_competitorId = bo_competitorId r, br_marketId = bo_marketId r,
     br_outcomeId = bo_outcomeId r, br_boostPct = js_Number (bo_boostPct r), br_startsAt = bo_startsAt r,
     br_endsAt = bo_endsAt r, br_minRiskScore = map_option js_Number (bo_minRiskScore r),
     br_teamOnly = (bo_competitorMarkets r = ''team_only'')\<rparr>"

definition isTeamOnlyRule :: "boost_rule \<Rightarrow> bool" where
  "isTeamOnlyRule rule \<longleftrightarrow> br_scope rule = bsc_competitor \<and> br_teamOnly rule"

definition teamOutcomeForRule :: "boost_rule \<Rightarrow> int option \<Rightarrow> int option \<Rightarrow> string option" where
  "teamOutcomeForRule rule homeCompetitorId awayCompetitorId =
    (if \<not> isTeamOnlyRule rule \<or> br_competitorId rule = None then None
     else if homeCompetitorId = br_competitorId rule then Some ''1''
     else if awayCompetitorId = br_competitorId rule then Some ''2''
     else None)"

definition toQuoteRule :: "boost_rule \<Rightarrow> boost_quote_rule" where
  "toQuoteRule rule = \<lparr>bq_ruleId = br_id rule, bq_boostPct = br_boostPct rule, bq_endsAt = br_endsAt rule\<rparr>"

text \<open>The two spellings of the scheduling window: the SQL predicate and its in-memory twin.\<close>

definition boostWindowIsOpen :: "millis \<Rightarrow> boosted_odds_row \<Rightarrow> bool" where
  "boostWindowIsOpen now r \<longleftrightarrow> (case bo_startsAt r of None \<Rightarrow> True | Some t \<Rightarrow> t \<le> now)
     \<and> (case bo_endsAt r of None \<Rightarrow> True | Some t \<Rightarrow> t > now)"

definition ruleWindowIsOpen :: "millis \<Rightarrow> boost_rule \<Rightarrow> bool" where
  "ruleWindowIsOpen now rule \<longleftrightarrow>
    (if (case br_startsAt rule of Some t \<Rightarrow> t > now | None \<Rightarrow> False) then False
     else if (case br_endsAt rule of Some t \<Rightarrow> t \<le> now | None \<Rightarrow> False) then False
     else True)"

definition passesRiskGate :: "boost_rule \<Rightarrow> jsnum \<Rightarrow> bool" where
  "passesRiskGate rule riskScore = (case br_minRiskScore rule of None \<Rightarrow> True | Some m \<Rightarrow> js_le m riskScore)"

definition loadViewerRiskScore :: "db \<Rightarrow> uuid option \<Rightarrow> jsnum" where
  "loadViewerRiskScore s userId = (case userId of
     None \<Rightarrow> CUSTOM_BOOST_DEFAULT_RISK_SCORE
   | Some u \<Rightarrow>
       let n = (case select_one (\<lambda>r. u_id r = u) (users s) of Some r \<Rightarrow> js_Number (u_riskScore r) | None \<Rightarrow> NaN) in
       if js_isFinite n then n else CUSTOM_BOOST_DEFAULT_RISK_SCORE)"

section \<open>The rules of one match\<close>

definition ids_of :: "boost_context \<Rightarrow> int list" where
  "ids_of ctx = (case bx_homeCompetitorId ctx of Some i \<Rightarrow> [i] | None \<Rightarrow> [])
     @ (case bx_awayCompetitorId ctx of Some i \<Rightarrow> [i] | None \<Rightarrow> [])"

definition in_opt :: "'a list \<Rightarrow> 'a option \<Rightarrow> bool" where
  "in_opt xs a \<longleftrightarrow> (case a of None \<Rightarrow> False | Some x \<Rightarrow> x \<in> set xs)"

definition row_covers_match :: "catalog \<Rightarrow> boost_context \<Rightarrow> boosted_odds_row \<Rightarrow> bool" where
  "row_covers_match c ctx r = (case bo_scope r of
     bsc_sport \<Rightarrow> bo_sportId r = Some (bx_sportId ctx)
   | bsc_tournament \<Rightarrow> bo_tournamentId r = Some (bx_tournamentId ctx)
   | bsc_match \<Rightarrow> bo_matchId r = Some (bx_matchId ctx)
   | bsc_competitor \<Rightarrow> in_opt (ids_of ctx) (bo_competitorId r)
   | _ \<Rightarrow> in_opt (map mk_id (filter (\<lambda>mk. mk_matchId mk = bx_matchId ctx) (markets c))) (bo_marketId r))"

definition loadBoostRulesForMatch :: "catalog \<Rightarrow> millis \<Rightarrow> boost_context \<Rightarrow> boost_rule list" where
  "loadBoostRulesForMatch c now ctx =
     map rowToRule (filter (\<lambda>r. boostWindowIsOpen now r \<and> row_covers_match c ctx r) (boosted_odds_config c))"

record wide_rules =
  wr_match :: "boost_rule option"
  wr_competitor :: "boost_rule option"
  wr_tournament :: "boost_rule option"
  wr_sport :: "boost_rule option"

definition no_wide :: wide_rules where
  "no_wide = \<lparr>wr_match = None, wr_competitor = None, wr_tournament = None, wr_sport = None\<rparr>"

text \<open>The higher percentage of two rules, the earlier one of equals.\<close>

definition better :: "boost_rule option \<Rightarrow> boost_rule \<Rightarrow> boost_rule option" where
  "better best r = (case best of None \<Rightarrow> Some r
     | Some b \<Rightarrow> if js_lt (br_boostPct b) (br_boostPct r) then Some r else best)"

fun wide_rule :: "wide_rules \<Rightarrow> boost_rule option" where
  "wide_rule w = first_some [wr_match w, wr_competitor w, wr_tournament w, wr_sport w]"

fun resolve_from :: "wide_rules \<Rightarrow> boost_rule list \<Rightarrow> int \<Rightarrow> boost_rule option" where
  "resolve_from w [] marketId = wide_rule w"
| "resolve_from w (r # rules) marketId = (case br_scope r of
     bsc_market \<Rightarrow> if br_marketId r = Some marketId then Some r else resolve_from w rules marketId
   | bsc_match \<Rightarrow> resolve_from (w\<lparr>wr_match := Some r\<rparr>) rules marketId
   | bsc_competitor \<Rightarrow> resolve_from (w\<lparr>wr_competitor := better (wr_competitor w) r\<rparr>) rules marketId
   | bsc_tournament \<Rightarrow> resolve_from (w\<lparr>wr_tournament := Some r\<rparr>) rules marketId
   | bsc_sport \<Rightarrow> resolve_from (w\<lparr>wr_sport := Some r\<rparr>) rules marketId
   | bsc_outcome \<Rightarrow> resolve_from w rules marketId)"

definition resolveBoostForMarket :: "boost_rule list \<Rightarrow> int \<Rightarrow> boost_rule option" where
  "resolveBoostForMarket rules marketId = resolve_from no_wide rules marketId"

section \<open>The rules of many matches\<close>

definition row_in_batch :: "boost_context list \<Rightarrow> int list \<Rightarrow> boosted_odds_row \<Rightarrow> bool" where
  "row_in_batch contexts marketIds r = (case bo_scope r of
     bsc_sport \<Rightarrow> in_opt (map bx_sportId contexts) (bo_sportId r)
   | bsc_tournament \<Rightarrow> in_opt (map bx_tournamentId contexts) (bo_tournamentId r)
   | bsc_match \<Rightarrow> in_opt (map bx_matchId contexts) (bo_matchId r)
   | bsc_competitor \<Rightarrow> in_opt (concat (map ids_of contexts)) (bo_competitorId r)
   | _ \<Rightarrow> in_opt marketIds (bo_marketId r))"

text \<open>The maps the batch builds: a later rule takes the place of an earlier one with its key.\<close>

record boost_index =
  ix_bySport :: "int \<rightharpoonup> boost_rule"
  ix_byTournament :: "int \<rightharpoonup> boost_rule"
  ix_byMatch :: "int \<rightharpoonup> boost_rule"
  ix_byCompetitor :: "int \<rightharpoonup> boost_rule"
  ix_byMarket :: "int \<rightharpoonup> boost_rule"
  ix_selections :: "int \<rightharpoonup> (string \<times> boost_rule) list"

definition empty_index :: boost_index where
  "empty_index = \<lparr>ix_bySport = Map.empty, ix_byTournament = Map.empty, ix_byMatch = Map.empty,
     ix_byCompetitor = Map.empty, ix_byMarket = Map.empty, ix_selections = Map.empty\<rparr>"

definition put_opt :: "int option \<Rightarrow> boost_rule \<Rightarrow> (int \<rightharpoonup> boost_rule) \<Rightarrow> (int \<rightharpoonup> boost_rule)" where
  "put_opt k r m = (case k of None \<Rightarrow> m | Some i \<Rightarrow> m(i \<mapsto> r))"

text \<open>\<^verbatim>\<open>Map.prototype.set\<close>: a key keeps its place.\<close>

fun map_set :: "'k \<Rightarrow> 'v \<Rightarrow> ('k \<times> 'v) list \<Rightarrow> ('k \<times> 'v) list" where
  "map_set k v [] = [(k, v)]"
| "map_set k v ((k', v') # m) = (if k' = k then (k, v) # m else (k', v') # map_set k v m)"

definition index_rule :: "boost_index \<Rightarrow> boost_rule \<Rightarrow> boost_index" where
  "index_rule ix r = (case br_scope r of
     bsc_sport \<Rightarrow> ix\<lparr>ix_bySport := put_opt (br_sportId r) r (ix_bySport ix)\<rparr>
   | bsc_tournament \<Rightarrow> ix\<lparr>ix_byTournament := put_opt (br_tournamentId r) r (ix_byTournament ix)\<rparr>
   | bsc_match \<Rightarrow> ix\<lparr>ix_byMatch := put_opt (br_matchId r) r (ix_byMatch ix)\<rparr>
   | bsc_competitor \<Rightarrow> ix\<lparr>ix_byCompetitor := put_opt (br_competitorId r) r (ix_byCompetitor ix)\<rparr>
   | bsc_market \<Rightarrow> ix\<lparr>ix_byMarket := put_opt (br_marketId r) r (ix_byMarket ix)\<rparr>
   | bsc_outcome \<Rightarrow> (case (br_marketId r, br_outcomeId r) of
         (Some i, Some oid) \<Rightarrow> ix\<lparr>ix_selections := (ix_selections ix)(i \<mapsto>
             map_set oid r (case ix_selections ix i of None \<Rightarrow> [] | Some m \<Rightarrow> m))\<rparr>
       | _ \<Rightarrow> ix))"

definition loadBoostRulesForMatches ::
  "catalog \<Rightarrow> millis \<Rightarrow> boost_context list \<Rightarrow> int list \<Rightarrow> jsnum \<Rightarrow> boost_index" where
  "loadBoostRulesForMatches c now contexts marketIds riskScore =
    (if contexts = [] then empty_index
     else foldl index_rule empty_index
       (filter (\<lambda>r. passesRiskGate r riskScore)
         (map rowToRule (filter (\<lambda>r. boostWindowIsOpen now r \<and> row_in_batch contexts marketIds r) (boosted_odds_config c)))))"

definition team_only_step ::
  "boost_index \<Rightarrow> boost_context \<Rightarrow> (string \<times> boost_rule) list \<Rightarrow> (string \<times> boost_rule) list \<Rightarrow> int option \<Rightarrow>
   (string \<times> boost_rule) list" where
  "team_only_step ix ctx explicit teamOnly i = (case Option.bind i (ix_byCompetitor ix) of
     None \<Rightarrow> teamOnly
   | Some r \<Rightarrow> if \<not> isTeamOnlyRule r then teamOnly
       else case teamOutcomeForRule r (bx_homeCompetitorId ctx) (bx_awayCompetitorId ctx) of
         None \<Rightarrow> teamOnly
       | Some oid \<Rightarrow> if map_of explicit oid \<noteq> None then teamOnly else map_set oid r teamOnly)"

definition competitor_step :: "boost_index \<Rightarrow> boost_rule option \<Rightarrow> int option \<Rightarrow> boost_rule option" where
  "competitor_step ix best i = (case Option.bind i (ix_byCompetitor ix) of
     None \<Rightarrow> best
   | Some r \<Rightarrow> if isTeamOnlyRule r then best else better best r)"

text \<open>The resolver of a batch: the market-wide rule and the selection rules of one market.  An empty map and no
  map at all price alike.\<close>

definition resolve ::
  "boost_index \<Rightarrow> boost_context \<Rightarrow> int \<Rightarrow> int \<Rightarrow> string list \<Rightarrow> boost_rule option \<times> (string \<times> boost_rule) list" where
  "resolve ix ctx marketId providerMarketId outcomeIds =
    (let explicit = (case ix_selections ix marketId of None \<Rightarrow> [] | Some m \<Rightarrow> m);
         ids = [bx_homeCompetitorId ctx, bx_awayCompetitorId ctx];
         teamOnly = (if isTeamShapedMarket providerMarketId outcomeIds
           then foldl (team_only_step ix ctx explicit) [] ids else []);
         merged = foldl (\<lambda>m (oid, r). map_set oid r m) explicit teamOnly;
         marketWide = first_some [ix_byMarket ix marketId, ix_byMatch ix (bx_matchId ctx),
           foldl (competitor_step ix) None ids, ix_byTournament ix (bx_tournamentId ctx),
           ix_bySport ix (bx_sportId ctx)] in
     (marketWide, merged))"

section \<open>Placement\<close>

definition quoteBoostedMarket ::
  "boost_rule option \<Rightarrow> (string \<times> jsnum) list \<Rightarrow> (string \<times> boost_rule) list \<Rightarrow> boost_quote_cell list option" where
  "quoteBoostedMarket rule outcomes selections =
    (let cells = quoteMarketBoost outcomes (map_option toQuoteRule rule)
           (map (\<lambda>(oid, r). (oid, toQuoteRule r)) selections) in
     if cells \<noteq> [] then Some cells else None)"

definition priced_outcome :: "market_outcomes_row \<Rightarrow> (string \<times> jsnum) option" where
  "priced_outcome o' = (case mo_publishedOdds o' of
     Some t \<Rightarrow> if mo_active o' then Some (mo_outcomeId o', js_Number t) else None
   | None \<Rightarrow> None)"

definition loadQuotableOutcomes :: "catalog \<Rightarrow> int \<Rightarrow> (string \<times> jsnum) list" where
  "loadQuotableOutcomes c marketId =
     filter (\<lambda>(oid, odds). isQuotableOutcomeOdds odds)
       (List.map_filter priced_outcome (filter (\<lambda>o'. mo_marketId o' = marketId) (market_outcomes c)))"

definition loadSelectionRules :: "catalog \<Rightarrow> millis \<Rightarrow> int \<Rightarrow> jsnum \<Rightarrow> (string \<times> boost_rule) list" where
  "loadSelectionRules c now marketId riskScore =
    foldl (\<lambda>m row. let rule = rowToRule row in case br_outcomeId rule of
        None \<Rightarrow> m
      | Some oid \<Rightarrow> if passesRiskGate rule riskScore then map_set oid rule m else m) []
      (filter (\<lambda>r. bo_scope r = bsc_outcome \<and> bo_marketId r = Some marketId \<and> boostWindowIsOpen now r)
        (boosted_odds_config c))"

definition loadSelectionBoostedMarketIds :: "catalog \<Rightarrow> millis \<Rightarrow> int list \<Rightarrow> jsnum \<Rightarrow> int set" where
  "loadSelectionBoostedMarketIds c now marketIds riskScore =
    (if marketIds = [] then {}
     else set (List.map_filter bo_marketId
       (filter (\<lambda>r. bo_scope r = bsc_outcome \<and> in_opt marketIds (bo_marketId r) \<and> boostWindowIsOpen now r
          \<and> \<not> (case bo_minRiskScore r of None \<Rightarrow> False | Some t \<Rightarrow> js_lt riskScore (js_Number t))) (boosted_odds_config c))))"

text \<open>The market of the leg through the inner joins up to the category.\<close>

definition boost_market :: "catalog \<Rightarrow> int \<Rightarrow> (markets_row \<times> boost_context) option" where
  "boost_market c i =
    Option.bind (select_one (\<lambda>mk. mk_id mk = i) (markets c)) (\<lambda>mk.
    Option.bind (select_one (\<lambda>m. m_id m = mk_matchId mk) (matches c)) (\<lambda>m.
    Option.bind (select_one (\<lambda>t. tn_id t = m_tournamentId m) (tournaments c)) (\<lambda>t.
    Option.bind (select_one (\<lambda>g. cat_id g = tn_categoryId t) (categories c)) (\<lambda>g.
    Some (mk, \<lparr>bx_matchId = m_id m, bx_tournamentId = m_tournamentId m, bx_sportId = cat_sportId g,
      bx_homeCompetitorId = m_homeCompetitorId m, bx_awayCompetitorId = m_awayCompetitorId m\<rparr>)))))"

definition rule_covers :: "boost_rule \<Rightarrow> int \<Rightarrow> boost_context \<Rightarrow> string \<Rightarrow> bool" where
  "rule_covers rule marketId ctx outcomeId = (case br_scope rule of
     bsc_outcome \<Rightarrow> br_marketId rule = Some marketId \<and> br_outcomeId rule = Some outcomeId
   | bsc_market \<Rightarrow> br_marketId rule = Some marketId
   | bsc_match \<Rightarrow> br_matchId rule = Some (bx_matchId ctx)
   | bsc_competitor \<Rightarrow> br_competitorId rule \<noteq> None
       \<and> (br_competitorId rule = bx_homeCompetitorId ctx \<or> br_competitorId rule = bx_awayCompetitorId ctx)
   | bsc_tournament \<Rightarrow> br_tournamentId rule = Some (bx_tournamentId ctx)
   | bsc_sport \<Rightarrow> br_sportId rule = Some (bx_sportId ctx))"

record boost_claim =
  cl_ruleId :: uuid
  cl_marketId :: int
  cl_outcomeId :: string
  cl_quotedOdds :: string
  cl_riskScore :: jsnum

definition not_applicable :: string where
  "not_applicable = ''boosted_odds_not_applicable''"

text \<open>The price of a claim once its rule is known to cover the market.\<close>

definition price_claim ::
  "boost_rule \<Rightarrow> (string \<times> jsnum) list \<Rightarrow> (string \<times> boost_rule) list \<Rightarrow> string option \<Rightarrow> boost_claim \<Rightarrow> string + string \<times> uuid" where
  "price_claim rule priced selections teamOnlyOutcomeId a =
    (let pricedAsSelection = (br_scope rule = bsc_outcome \<or> isTeamOnlyRule rule);
         effective = (if pricedAsSelection
           then if br_scope rule = bsc_outcome then selections else (case teamOnlyOutcomeId of Some oid \<Rightarrow> [(oid, rule)] | None \<Rightarrow> [])
           else []) in
     case quoteBoostedMarket (if pricedAsSelection then None else Some rule) priced effective of
       None \<Rightarrow> Inl not_applicable
     | Some cells \<Rightarrow>
         (case select_one (\<lambda>q. qc_outcomeId q = cl_outcomeId a) cells of
            None \<Rightarrow> Inl not_applicable
          | Some snap \<Rightarrow>
              if qc_ruleId snap \<noteq> br_id rule then Inl not_applicable
              else let quoted = js_parseFloat (cl_quotedOdds a); auth = js_parseFloat (qc_boostedOdds snap) in
                if \<not> js_isFinite quoted \<or> \<not> js_isFinite auth then Inl ''boosted_odds_drift''
                else if js_lt CUSTOM_BOOST_PLACEMENT_TOLERANCE (js_abs (js_sub quoted auth)) then Inl ''boosted_odds_drift''
                else Inr (qc_boostedOdds snap, br_id rule)))"

definition validateCustomBoostForBet :: "catalog \<Rightarrow> millis \<Rightarrow> boost_claim \<Rightarrow> string + string \<times> uuid" where
  "validateCustomBoostForBet c now a =
    (case select_one (\<lambda>r. bo_id r = cl_ruleId a) (boosted_odds_config c) of
       None \<Rightarrow> Inl ''boosted_odds_unknown_rule''
     | Some row \<Rightarrow>
         let rule = rowToRule row in
         if \<not> ruleWindowIsOpen now rule
         then Inl (if (case br_startsAt rule of Some t \<Rightarrow> t > now | None \<Rightarrow> False)
                   then ''boosted_odds_not_started'' else ''boosted_odds_rule_expired'')
         else if \<not> passesRiskGate rule (cl_riskScore a) then Inl ''boosted_odds_not_eligible''
         else case boost_market c (cl_marketId a) of
           None \<Rightarrow> Inl not_applicable
         | Some (market, ctx) \<Rightarrow>
             if \<not> rule_covers rule (mk_id market) ctx (cl_outcomeId a) then Inl not_applicable
             else let priced = loadQuotableOutcomes c (cl_marketId a);
                      teamOnlyOutcomeId = teamOutcomeForRule rule (bx_homeCompetitorId ctx) (bx_awayCompetitorId ctx) in
               if isTeamOnlyRule rule \<and> (\<not> isTeamShapedMarket (mk_providerMarketId market) (map fst priced)
                    \<or> teamOnlyOutcomeId = None \<or> teamOnlyOutcomeId \<noteq> Some (cl_outcomeId a))
               then Inl not_applicable
               else let selections = loadSelectionRules c now (cl_marketId a) (cl_riskScore a) in
                 if \<not> (br_scope rule = bsc_outcome \<or> isTeamOnlyRule rule) \<and> selections \<noteq> [] then Inl not_applicable
                 else if isTeamOnlyRule rule \<and> map_of selections (cl_outcomeId a) \<noteq> None then Inl not_applicable
                 else price_claim rule priced selections teamOnlyOutcomeId a)"

section \<open>The rules of a match page\<close>

record boost_entry =
  en_ruleId :: uuid
  en_marketId :: int
  en_outcomeId :: "string option"
  en_boostPct :: jsnum
  en_endsAt :: "millis option"

record match_wide_rule =
  mw_ruleId :: uuid
  mw_boostPct :: jsnum
  mw_endsAt :: "millis option"
  mw_teamOutcomeId :: "string option"

record boosted_odds_response =
  ro_entries :: "boost_entry list"
  ro_selections :: "boost_entry list"
  ro_matchWide :: "match_wide_rule option"

definition no_boosts :: boosted_odds_response where
  "no_boosts = \<lparr>ro_entries = [], ro_selections = [], ro_matchWide = None\<rparr>"

definition entry_of :: "boost_rule \<Rightarrow> boost_entry option" where
  "entry_of r = map_option (\<lambda>i. \<lparr>en_ruleId = br_id r, en_marketId = i, en_outcomeId = br_outcomeId r,
     en_boostPct = br_boostPct r, en_endsAt = br_endsAt r\<rparr>) (br_marketId r)"

record page_rules = wide_rules +
  pg_teamOnly :: "(boost_rule \<times> string) option"

definition page_step :: "boost_context \<Rightarrow> page_rules \<Rightarrow> boost_rule \<Rightarrow> page_rules" where
  "page_step ctx p r = (case br_scope r of
     bsc_match \<Rightarrow> p\<lparr>wr_match := Some r\<rparr>
   | bsc_competitor \<Rightarrow>
       if isTeamOnlyRule r then
         (case teamOutcomeForRule r (bx_homeCompetitorId ctx) (bx_awayCompetitorId ctx) of
            None \<Rightarrow> p
          | Some oid \<Rightarrow> (case pg_teamOnly p of
              None \<Rightarrow> p\<lparr>pg_teamOnly := Some (r, oid)\<rparr>
            | Some (b, _) \<Rightarrow> if js_lt (br_boostPct b) (br_boostPct r) then p\<lparr>pg_teamOnly := Some (r, oid)\<rparr> else p))
       else p\<lparr>wr_competitor := better (wr_competitor p) r\<rparr>
   | bsc_tournament \<Rightarrow> p\<lparr>wr_tournament := Some r\<rparr>
   | bsc_sport \<Rightarrow> p\<lparr>wr_sport := Some r\<rparr>
   | _ \<Rightarrow> p)"

definition match_page :: "boost_context \<Rightarrow> boost_rule list \<Rightarrow> boosted_odds_response" where
  "match_page ctx eligible =
    (let p = foldl (page_step ctx) \<lparr>wr_match = None, wr_competitor = None, wr_tournament = None, wr_sport = None, pg_teamOnly = None\<rparr> eligible;
         selections = List.map_filter entry_of (filter (\<lambda>r. br_scope r = bsc_outcome) eligible);
         entries = List.map_filter entry_of (filter (\<lambda>r. br_scope r = bsc_market) eligible);
         wide = (case pg_teamOnly p of
             Some (r, oid) \<Rightarrow> Some (r, Some oid)
           | None \<Rightarrow> map_option (\<lambda>r. (r, None)) (first_some [wr_match p, wr_competitor p, wr_tournament p, wr_sport p])) in
     \<lparr>ro_entries = filter (\<lambda>e. en_marketId e \<notin> set (map en_marketId selections)) entries,
      ro_selections = selections,
      ro_matchWide = map_option (\<lambda>(r, oid). \<lparr>mw_ruleId = br_id r, mw_boostPct = br_boostPct r, mw_endsAt = br_endsAt r,
        mw_teamOutcomeId = oid\<rparr>) wide\<rparr>)"

definition get_boosted_odds :: "catalog \<Rightarrow> db \<Rightarrow> millis \<Rightarrow> uuid option \<Rightarrow> int \<Rightarrow> boosted_odds_response" where
  "get_boosted_odds c s now userId matchId =
    (case select_one (\<lambda>m. m_id m = matchId) (matches c) of
       None \<Rightarrow> no_boosts
     | Some m \<Rightarrow>
         (case Option.bind (select_one (\<lambda>t. tn_id t = m_tournamentId m) (tournaments c))
                 (\<lambda>t. select_one (\<lambda>g. cat_id g = tn_categoryId t) (categories c)) of
            None \<Rightarrow> no_boosts
          | Some g \<Rightarrow>
              if m_status m \<noteq> ms_not_started \<and> m_status m \<noteq> ms_live then no_boosts
              else let ctx = \<lparr>bx_matchId = m_id m, bx_tournamentId = m_tournamentId m, bx_sportId = cat_sportId g,
                       bx_homeCompetitorId = m_homeCompetitorId m, bx_awayCompetitorId = m_awayCompetitorId m\<rparr>;
                     eligible = filter (\<lambda>r. passesRiskGate r (loadViewerRiskScore s userId)) (loadBoostRulesForMatch c now ctx) in
                if eligible = [] then no_boosts else match_page ctx eligible))"

end
