(* ===== verification/Market_Naming.thy ===== *)
theory Market_Naming
  imports Accounts
begin

text \<open>
  lib/market-naming.ts for English templates and no profile maps, which is how
  the flash-offer engine calls it: the substitution of specifiers into a market
  or outcome template, the rewriting of a team number into the team's name, and
  the fallback labels of the two sides.  Characters are code points below 256, so the two
  Cyrillic team-number rules and the other locales' tables have nothing to match.
\<close>

section \<open>Placeholders\<close>

definition is_key_char :: "char \<Rightarrow> bool" where
  "is_key_char c \<longleftrightarrow> is_digit c \<or> c = CHR ''_'' \<or> (let n = of_char c :: nat in 97 \<le> n \<and> n \<le> 122 \<or> 65 \<le> n \<and> n \<le> 90)"

text \<open>The placeholder a text starts with after its opening brace: the key and what follows.\<close>

definition placeholder_at :: "string \<Rightarrow> (string \<times> string) option" where
  "placeholder_at cs = (let key = takeWhile is_key_char cs; rest = dropWhile is_key_char cs in
     if key \<noteq> [] \<and> rest \<noteq> [] \<and> hd rest = CHR ''}'' then Some (key, tl rest) else None)"

lemma placeholder_at_shorter: "placeholder_at cs = Some (key, rest) \<Longrightarrow> length rest < length cs"
proof -
  assume "placeholder_at cs = Some (key, rest)"
  then have "dropWhile is_key_char cs \<noteq> []" "rest = tl (dropWhile is_key_char cs)"
    by (auto simp: placeholder_at_def Let_def split: if_splits)
  then show ?thesis using length_dropWhile_le [of is_key_char cs] by (cases "dropWhile is_key_char cs") auto
qed

function replace_keys :: "(string \<Rightarrow> string) \<Rightarrow> string \<Rightarrow> string" where
  "replace_keys f [] = []"
| "replace_keys f (c # cs) =
    (if c = CHR ''{'' then
       (case placeholder_at cs of
          Some (key, rest) \<Rightarrow> f key @ replace_keys f rest
        | None \<Rightarrow> c # replace_keys f cs)
     else c # replace_keys f cs)"
  by pat_completeness auto
termination
  by (relation "measure (length \<circ> snd)") (auto dest!: placeholder_at_shorter)

text \<open>\<^verbatim>\<open>PLACEHOLDER_RE.test\<close>\<close>

fun has_placeholder :: "string \<Rightarrow> bool" where
  "has_placeholder [] = False"
| "has_placeholder (c # cs) = (c = CHR ''{'' \<and> placeholder_at cs \<noteq> None \<or> has_placeholder cs)"

section \<open>White space and case\<close>

definition is_newline :: "char \<Rightarrow> bool" where
  "is_newline c \<longleftrightarrow> (let n = of_char c :: nat in n = 10 \<or> n = 13)"

text \<open>\<^verbatim>\<open>.replace(/\s{2,}/g, " ")\<close>\<close>

function collapse_spaces :: "string \<Rightarrow> string" where
  "collapse_spaces [] = []"
| "collapse_spaces (c # cs) =
    (if js_space c \<and> cs \<noteq> [] \<and> js_space (hd cs) then CHR '' '' # collapse_spaces (dropWhile js_space cs)
     else c # collapse_spaces cs)"
  by pat_completeness auto
termination
  by (relation "measure length") (auto simp: less_Suc_eq_le length_dropWhile_le)

text \<open>\<^verbatim>\<open>.replace(/\s-\s$/, "")\<close>\<close>

definition drop_dash :: "string \<Rightarrow> string" where
  "drop_dash s = (case rev s of
     c # d # e # t \<Rightarrow> if js_space c \<and> d = CHR ''-'' \<and> js_space e then rev t else s
   | _ \<Rightarrow> s)"

function split_on :: "char \<Rightarrow> string \<Rightarrow> string list" where
  "split_on sep s = (let w = takeWhile (\<lambda>c. c \<noteq> sep) s; r = dropWhile (\<lambda>c. c \<noteq> sep) s in
     if r = [] then [w] else w # split_on sep (tl r))"
  by pat_completeness auto
termination
proof (relation "measure (length \<circ> snd)")
  fix sep and s w r :: string
  assume r: "r = dropWhile (\<lambda>c. c \<noteq> sep) s" and "r \<noteq> []"
  then have "length (tl r) < length r" by simp
  also have "length r \<le> length s" unfolding r by (rule length_dropWhile_le)
  finally show "((sep, tl r), (sep, s)) \<in> measure (length \<circ> snd)" by simp
qed simp

definition humaniseSnakeCase :: "string \<Rightarrow> string" where
  "humaniseSnakeCase v = join_with '' '' (map (\<lambda>w. upper_char (hd w) # tl w) (filter (\<lambda>w. w \<noteq> []) (split_on (CHR ''_'') v)))"

section \<open>Substitution\<close>

record team_names =
  tm_homeTeam :: string
  tm_awayTeam :: string

definition SPORT_SIDE_LABELS_EN :: "(string \<times> string) list" where
  "SPORT_SIDE_LABELS_EN = [(''counter_terrorist'', ''Counter-Terrorist''), (''terrorist'', ''Terrorist''),
     (''attacker'', ''Attacker''), (''defender'', ''Defender'')]"

definition render_key :: "(string \<times> string) list \<Rightarrow> team_names \<Rightarrow> string \<Rightarrow> string" where
  "render_key specs teams key = (case map_of specs key of
     None \<Rightarrow> ''{'' @ key @ ''}''
   | Some v \<Rightarrow>
       if key = ''side'' \<and> v = ''home'' then tm_homeTeam teams
       else if key = ''side'' \<and> v = ''away'' then tm_awayTeam teams
       else if key = ''sport_side''
         then (case map_of SPORT_SIDE_LABELS_EN v of Some l \<Rightarrow> l | None \<Rightarrow> humaniseSnakeCase v)
       else v)"

definition substituteCore :: "string \<Rightarrow> (string \<times> string) list \<Rightarrow> team_names \<Rightarrow> string" where
  "substituteCore template specs teams =
    (let cleaned = js_trim (drop_dash (collapse_spaces (replace_keys (render_key specs teams) template))) in
     js_trim (collapse_spaces cleaned))"

section \<open>Team numbers\<close>

definition strip_prefix_ci :: "string \<Rightarrow> string \<Rightarrow> string option" where
  "strip_prefix_ci p s = (if to_lower (take (length p) s) = p then Some (drop (length p) s) else None)"

definition team_digit :: "string \<Rightarrow> (char \<times> string) option" where
  "team_digit s = (case s of c # t \<Rightarrow> if c = CHR ''1'' \<or> c = CHR ''2'' then Some (c, t) else None | [] \<Rightarrow> None)"

text \<open>\<^verbatim>\<open>\s+(.+)$\<close>, and the text it captures without the blanks around it.\<close>

definition spaced_rest :: "string \<Rightarrow> string option" where
  "spaced_rest s = (let ws = takeWhile js_space s; r = dropWhile js_space s in
     if ws = [] then None
     else if r = [] then (if length ws \<ge> 2 \<and> \<not> is_newline (last ws) then Some [] else None)
     else if list_ex is_newline r then None else Some (js_trim r))"

definition is_word_char :: "char \<Rightarrow> bool" where
  "is_word_char c \<longleftrightarrow> is_key_char c"

text \<open>The rules that can match: \<^verbatim>\<open>Team 1 x\<close>, \<^verbatim>\<open>Team Totals-1 x\<close>, \<^verbatim>\<open>1 to win\<close> and \<^verbatim>\<open>%1 x\<close>; each answers the number of the team
  and the text around its name.\<close>

definition rule_team :: "string \<Rightarrow> (char \<times> (string \<Rightarrow> string)) option" where
  "rule_team base = Option.bind (strip_prefix_ci ''team '' base) (\<lambda>s. Option.bind (team_digit s) (\<lambda>(d, t).
     map_option (\<lambda>r. (d, \<lambda>team. team @ '' '' @ r)) (spaced_rest t)))"

definition rule_totals :: "string \<Rightarrow> (char \<times> (string \<Rightarrow> string)) option" where
  "rule_totals base = Option.bind (strip_prefix_ci ''team totals-'' base) (\<lambda>s. Option.bind (team_digit s) (\<lambda>(d, t).
     let r = dropWhile js_space t in
     if (t \<noteq> [] \<and> is_word_char (hd t)) \<or> list_ex is_newline r then None else Some (d, \<lambda>team. team @ '' totals '' @ js_trim r)))"

definition rule_to_win :: "string \<Rightarrow> (char \<times> (string \<Rightarrow> string)) option" where
  "rule_to_win base = Option.bind (team_digit base) (\<lambda>(d, t).
     if to_lower t = '' to win'' then Some (d, \<lambda>team. team @ '' to win'') else None)"

definition rule_percent :: "string \<Rightarrow> (char \<times> (string \<Rightarrow> string)) option" where
  "rule_percent base = (case base of
     c # s \<Rightarrow> if c = CHR ''%'' then Option.bind (team_digit s) (\<lambda>(d, t).
         map_option (\<lambda>r. (d, \<lambda>team. team @ '' '' @ r)) (spaced_rest t)) else None
   | [] \<Rightarrow> None)"

text \<open>The part of a label up to the first colon and blank, when something precedes it.\<close>

fun find_colon :: "string \<Rightarrow> nat \<Rightarrow> nat option" where
  "find_colon (c # d # cs) i = (if c = CHR '':'' \<and> d = CHR '' '' then Some i else find_colon (d # cs) (Suc i))"
| "find_colon _ i = None"

definition label_split :: "string \<Rightarrow> string \<times> string" where
  "label_split label = (case find_colon label 0 of
     Some i \<Rightarrow> if i > 0 then (take (i + 2) label, drop (i + 2) label) else ([], label)
   | None \<Rightarrow> ([], label))"

definition applyTeamNumberLabel :: "string \<Rightarrow> team_names \<Rightarrow> string" where
  "applyTeamNumberLabel label teams =
    (let (prefix, base) = label_split label in
     case first_some [rule_team base, rule_totals base, rule_to_win base, rule_percent base] of
       None \<Rightarrow> label
     | Some (d, build) \<Rightarrow>
         let team = (if d = CHR ''1'' then tm_homeTeam teams else tm_awayTeam teams) in
         if team = [] then label else js_trim (prefix @ build team))"

definition substituteTemplate :: "string \<Rightarrow> (string \<times> string) list \<Rightarrow> team_names \<Rightarrow> string" where
  "substituteTemplate template specs teams = applyTeamNumberLabel (substituteCore template specs teams) teams"

section \<open>Outcome labels\<close>

definition side_word :: "string \<Rightarrow> (string \<times> string) option" where
  "side_word s = (if take 4 s \<in> {''home'', ''away'', ''draw''} then Some (take 4 s, drop 4 s) else None)"

lemma side_word_shorter: "side_word s = Some (w, r) \<Longrightarrow> length r < length s"
proof -
  assume "side_word s = Some (w, r)"
  then have "s \<noteq> []" "r = drop 4 s" by (auto simp: side_word_def split: if_splits)
  then show ?thesis by simp
qed

text \<open>The separators and sides that follow a first side.\<close>

function side_chain :: "string \<Rightarrow> string list option" where
  "side_chain s = (if s = [] then Some []
     else case dropWhile js_space s of
       [] \<Rightarrow> None
     | c # s' \<Rightarrow> if c = CHR ''/'' \<or> c = CHR ''&'' \<or> c = CHR '',''
         then (case side_word (dropWhile js_space s') of
             None \<Rightarrow> None
           | Some (w, r) \<Rightarrow> map_option (\<lambda>ts. [c] # w # ts) (side_chain r))
         else None)"
  by pat_completeness auto
termination
proof (relation "measure length")
  fix s s' r w :: string and c y
  assume s: "dropWhile js_space s = c # s'" and y: "side_word (dropWhile js_space s') = Some y" "(w, r) = y"
  have "length r < length (dropWhile js_space s')" using y side_word_shorter by (cases y) auto
  also have "\<dots> \<le> length s'" by (rule length_dropWhile_le)
  also have "\<dots> \<le> length s" using length_dropWhile_le [of js_space s] s by simp
  finally show "(r, s) \<in> measure length" by simp
qed simp

definition sides_of :: "string \<Rightarrow> string list option" where
  "sides_of lower = Option.bind (side_word lower) (\<lambda>(w, r). if r = [] then None else map_option (\<lambda>ts. w # ts) (side_chain r))"

definition renderOutcomeLabel :: "string \<Rightarrow> (string \<times> string) list \<Rightarrow> team_names \<Rightarrow> string" where
  "renderOutcomeLabel template specs teams =
    (let sub = substituteCore template specs teams; lower = to_lower (js_trim sub) in
     if lower = ''home'' then tm_homeTeam teams
     else if lower = ''away'' then tm_awayTeam teams
     else if lower = ''draw'' then ''Draw''
     else if lower = ''under'' then ''Under''
     else if lower = ''over'' then ''Over''
     else case sides_of lower of
       Some ts \<Rightarrow> join_with '' '' (map (\<lambda>t. if t = ''home'' then tm_homeTeam teams else if t = ''away'' then tm_awayTeam teams
         else if t = ''draw'' then ''Draw'' else t) ts)
     | None \<Rightarrow> sub)"

section \<open>A missing specifier stays visible\<close>

definition braced :: "string \<Rightarrow> string" where
  "braced key = CHR ''{'' # key @ ''}''"

lemma placeholder_in_append: "has_placeholder s \<Longrightarrow> has_placeholder (t @ s)"
  by (induction t) auto

lemma braced_placeholder: "key \<noteq> [] \<Longrightarrow> list_all is_key_char key \<Longrightarrow> has_placeholder (braced key @ s)"
proof -
  assume k: "key \<noteq> []" "list_all is_key_char key"
  have "\<not> is_key_char (CHR ''}'')" by code_simp
  then show ?thesis using k by (auto simp: braced_def placeholder_at_def Let_def list_all_iff takeWhile_append2 dropWhile_append2)
qed

text \<open>The keys of a template, in the order the substitution meets them.\<close>

function template_keys :: "string \<Rightarrow> string list" where
  "template_keys [] = []"
| "template_keys (c # cs) =
    (if c = CHR ''{'' then (case placeholder_at cs of Some (key, rest) \<Rightarrow> key # template_keys rest | None \<Rightarrow> template_keys cs)
     else template_keys cs)"
  by pat_completeness auto
termination
  by (relation "measure length") (auto dest!: placeholder_at_shorter)

lemma missing_key_visible:
  assumes "key \<in> set (template_keys template)" and "map_of specs key = None"
  shows "has_placeholder (replace_keys (render_key specs teams) template)"
  using assms
proof (induction template rule: template_keys.induct)
  case (2 c cs)
  show ?case
  proof (cases "c = CHR ''{'' \<and> placeholder_at cs \<noteq> None")
    case True
    then obtain k rest where k: "placeholder_at cs = Some (k, rest)" by auto
    then have key: "k \<noteq> []" "list_all is_key_char k"
      by (auto simp: placeholder_at_def Let_def list_all_iff dest: set_takeWhileD split: if_splits)
    show ?thesis
    proof (cases "key = k")
      case True
      then have "render_key specs teams k = braced k" using "2.prems" by (simp add: render_key_def braced_def)
      then show ?thesis using k \<open>c = CHR ''{'' \<and> placeholder_at cs \<noteq> None\<close> braced_placeholder [OF key] by simp
    next
      case False
      then show ?thesis using "2.IH" k True "2.prems" by (auto intro: placeholder_in_append)
    qed
  next
    case False
    then show ?thesis using "2.IH" "2.prems" by (cases "placeholder_at cs") auto
  qed
qed simp

end
