(* ===== verification/Flash_Offers.thy ===== *)
theory Flash_Offers
  imports Boosted_Odds Market_Naming
begin

text \<open>
  modules/zillaflash/engine.ts: the rotating flash offers.  The engine's module
  variables are one record; a pass over them reads the catalog, or fails to
  (\<open>None\<close>).  The random draws of a pass, an offer id and a pick for every slot, are an
  argument.  A pass runs at one instant and is not interrupted here; the two
  halves of filling a slot, between which another pass can run, are separate
  definitions.
\<close>

section \<open>State\<close>

datatype flash_kind = flash_prematch | flash_live

record flash_slot =
  fs_offerId :: uuid
  fs_kind :: flash_kind
  fs_matchId :: int
  fs_marketId :: int
  fs_outcomeId :: string
  fs_startedAt :: millis
  fs_expiresAt :: millis

record pool_candidate =
  pq_matchId :: int
  pq_marketId :: int
  pq_providerMarketId :: int
  pq_sportId :: int
  pq_status :: match_status
  pq_riskTier :: int

record kind_config =
  kc_ttlMs :: millis
  kc_keyDeltaPct :: jsnum
  kc_minTier :: int
  kc_maxTier :: int

record config_snapshot =
  cf_enabled :: bool
  cf_prematch :: kind_config
  cf_live :: kind_config

fun cf_byKind :: "config_snapshot \<Rightarrow> flash_kind \<Rightarrow> kind_config" where
  "cf_byKind cfg flash_prematch = cf_prematch cfg"
| "cf_byKind cfg flash_live = cf_live cfg"

record snapshot_cell =
  sc_outcomeId :: string
  sc_outcomeLabel :: string
  sc_originalOdds :: string
  sc_boostedOdds :: string

record flash_offer =
  fo_id :: uuid
  fo_kind :: flash_kind
  fo_matchId :: string
  fo_homeTeam :: string
  fo_awayTeam :: string
  fo_sportSlug :: string
  fo_sportName :: string
  fo_marketId :: string
  fo_providerMarketId :: int
  fo_marketLabel :: string
  fo_outcomeId :: string
  fo_outcomeLabel :: string
  fo_originalOdds :: string
  fo_boostedOdds :: string
  fo_marketSnapshot :: "snapshot_cell list"
  fo_startedAt :: millis
  fo_expiresAt :: millis
  fo_serverNow :: millis

record flash_response =
  fp_prematch :: "flash_offer list"
  fp_live :: "flash_offer list"
  fp_empty :: bool

record flash_engine =
  fe_prematch :: "flash_slot option list"
  fe_live :: "flash_slot option list"
  fe_offerById :: "uuid \<rightharpoonup> flash_slot"
  fe_poolPrematch :: "pool_candidate list"
  fe_poolLive :: "pool_candidate list"
  fe_poolFetchedAt :: millis
  fe_config :: config_snapshot
  fe_configFetchedAt :: millis
  fe_snapshot :: "(millis \<times> flash_response) option"

definition ZILLAFLASH_SLOTS_PER_KIND :: nat where "ZILLAFLASH_SLOTS_PER_KIND = 2"
definition ZILLAFLASH_KEY_DELTA_PCT :: jsnum where "ZILLAFLASH_KEY_DELTA_PCT = Fin 3"
definition POOL_REFRESH_MS :: millis where "POOL_REFRESH_MS = 30000"
definition CONFIG_CACHE_MS :: millis where "CONFIG_CACHE_MS = 5000"
definition SNAPSHOT_TTL_MS :: millis where "SNAPSHOT_TTL_MS = 1000"

definition ZILLAFLASH_PLACEMENT_TOLERANCE :: jsnum where
  "ZILLAFLASH_PLACEMENT_TOLERANCE = js_fin (1 / 100)"

fun ZILLAFLASH_TTL_MS :: "flash_kind \<Rightarrow> millis" where
  "ZILLAFLASH_TTL_MS flash_prematch = 60000"
| "ZILLAFLASH_TTL_MS flash_live = 15000"

definition default_kind :: "flash_kind \<Rightarrow> kind_config" where
  "default_kind k = \<lparr>kc_ttlMs = ZILLAFLASH_TTL_MS k, kc_keyDeltaPct = ZILLAFLASH_KEY_DELTA_PCT, kc_minTier = 1, kc_maxTier = 3\<rparr>"

definition boot_engine :: flash_engine where
  "boot_engine = \<lparr>fe_prematch = replicate ZILLAFLASH_SLOTS_PER_KIND None, fe_live = replicate ZILLAFLASH_SLOTS_PER_KIND None,
     fe_offerById = Map.empty, fe_poolPrematch = [], fe_poolLive = [], fe_poolFetchedAt = 0,
     fe_config = \<lparr>cf_enabled = True, cf_prematch = default_kind flash_prematch, cf_live = default_kind flash_live\<rparr>,
     fe_configFetchedAt = 0, fe_snapshot = None\<rparr>"

fun slots_of :: "flash_engine \<Rightarrow> flash_kind \<Rightarrow> flash_slot option list" where
  "slots_of e flash_prematch = fe_prematch e"
| "slots_of e flash_live = fe_live e"

fun pool_of :: "flash_engine \<Rightarrow> flash_kind \<Rightarrow> pool_candidate list" where
  "pool_of e flash_prematch = fe_poolPrematch e"
| "pool_of e flash_live = fe_poolLive e"

fun put_slot :: "flash_kind \<Rightarrow> nat \<Rightarrow> flash_slot option \<Rightarrow> flash_engine \<Rightarrow> flash_engine" where
  "put_slot flash_prematch i v e = e\<lparr>fe_prematch := (fe_prematch e)[i := v]\<rparr>"
| "put_slot flash_live i v e = e\<lparr>fe_live := (fe_live e)[i := v]\<rparr>"

definition forget_offer :: "flash_slot option \<Rightarrow> flash_engine \<Rightarrow> flash_engine" where
  "forget_offer s e = (case s of None \<Rightarrow> e | Some x \<Rightarrow> e\<lparr>fe_offerById := (fe_offerById e)(fs_offerId x := None)\<rparr>)"

section \<open>Configuration and pool\<close>

definition flash_config_of_row :: "zillaflash_config_row \<Rightarrow> config_snapshot" where
  "flash_config_of_row r = \<lparr>cf_enabled = zf_enabled r,
     cf_prematch = \<lparr>kc_ttlMs = zf_prematchTtlSeconds r * 1000, kc_keyDeltaPct = js_Number (zf_prematchKeyDeltaPct r),
       kc_minTier = zf_prematchMinTier r, kc_maxTier = zf_prematchMaxTier r\<rparr>,
     cf_live = \<lparr>kc_ttlMs = zf_liveTtlSeconds r * 1000, kc_keyDeltaPct = js_Number (zf_liveKeyDeltaPct r),
       kc_minTier = zf_liveMinTier r, kc_maxTier = zf_liveMaxTier r\<rparr>\<rparr>"

definition loadFlashConfig :: "catalog option \<Rightarrow> millis \<Rightarrow> flash_engine \<Rightarrow> flash_engine" where
  "loadFlashConfig c now e =
    (if now - fe_configFetchedAt e < CONFIG_CACHE_MS then e
     else (case Option.bind c zillaflash_config of
         Some row \<Rightarrow> e\<lparr>fe_config := flash_config_of_row row\<rparr>
       | None \<Rightarrow> e)\<lparr>fe_configFetchedAt := now\<rparr>)"

text \<open>The rows of the pool query: a market of a top list, open, on a match that has not started or is live.\<close>

definition pool_row :: "catalog \<Rightarrow> matches_row \<times> markets_row \<Rightarrow> pool_candidate option" where
  "pool_row c p = (case p of (m, mk) \<Rightarrow>
    Option.bind (select_one (\<lambda>t. tn_id t = m_tournamentId m) (tournaments c)) (\<lambda>t.
    Option.bind (select_one (\<lambda>g. cat_id g = tn_categoryId t) (categories c)) (\<lambda>g.
    Option.bind (select_one (\<lambda>s. sport_id s = cat_sportId g) (sports c)) (\<lambda>s.
    Option.bind (tn_riskTier t) (\<lambda>tier.
      if mk_matchId mk = m_id m \<and> 1 \<le> tier \<and> tier \<le> 32 \<and> sport_active s
         \<and> (m_status m = ms_not_started \<or> m_status m = ms_live) \<and> mk_status mk = 1
         \<and> list_ex (\<lambda>d. do_sportId d = sport_id s \<and> do_scope d = ''top'' \<and> do_providerMarketId d = mk_providerMarketId mk)
             (fe_market_display_order c)
      then Some \<lparr>pq_matchId = m_id m, pq_marketId = mk_id mk, pq_providerMarketId = mk_providerMarketId mk,
        pq_sportId = sport_id s, pq_status = m_status m, pq_riskTier = tier\<rparr>
      else None)))))"

definition pool_rows :: "catalog \<Rightarrow> pool_candidate list" where
  "pool_rows c = take 500 (List.map_filter (pool_row c) (List.product (matches c) (markets c)))"

definition refreshPool :: "catalog \<Rightarrow> millis \<Rightarrow> flash_engine \<Rightarrow> flash_engine" where
  "refreshPool c now e = e\<lparr>fe_poolLive := filter (\<lambda>q. pq_status q = ms_live) (pool_rows c),
     fe_poolPrematch := filter (\<lambda>q. pq_status q = ms_not_started) (pool_rows c), fe_poolFetchedAt := now\<rparr>"

section \<open>Picking an offer\<close>

text \<open>Outcome id, raw name and price of the active priced outcomes of a market.\<close>

definition loadMarketOutcomes :: "catalog \<Rightarrow> int \<Rightarrow> (string \<times> string \<times> jsnum) list" where
  "loadMarketOutcomes c marketId = List.map_filter (\<lambda>r. case mo_publishedOdds r of
       Some t \<Rightarrow> if mo_active r then Some (mo_outcomeId r, mo_name r, js_Number t) else None
     | None \<Rightarrow> None) (filter (\<lambda>r. mo_marketId r = marketId) (market_outcomes c))"

definition boostable :: "string \<times> string \<times> jsnum \<Rightarrow> bool" where
  "boostable x = js_lt (Fin 1) (snd (snd x))"

text \<open>The first of the lowest prices, the head of the stable sort.\<close>

fun lowest :: "string \<times> string \<times> jsnum \<Rightarrow> (string \<times> string \<times> jsnum) list \<Rightarrow> string \<times> string \<times> jsnum" where
  "lowest best [] = best"
| "lowest best (x # xs) = lowest (if js_lt (snd (snd x)) (snd (snd best)) then x else best) xs"

definition in_tier_window :: "kind_config \<Rightarrow> pool_candidate \<Rightarrow> bool" where
  "in_tier_window cfg q \<longleftrightarrow> kc_minTier cfg \<le> pq_riskTier q \<and> pq_riskTier q \<le> kc_maxTier cfg"

definition pickReplacement ::
  "catalog option \<Rightarrow> millis \<Rightarrow> flash_kind \<Rightarrow> kind_config \<Rightarrow> uuid \<times> nat \<Rightarrow> flash_engine \<Rightarrow> flash_slot option" where
  "pickReplacement c now kind cfg draw e =
    (let pool = filter (in_tier_window cfg) (pool_of e kind) in
     if pool = [] then None
     else let used = map fs_matchId (List.map_filter id (slots_of e kind));
              available = filter (\<lambda>q. pq_matchId q \<notin> set used) pool;
              from = (if available \<noteq> [] then available else pool);
              candidate = from ! (snd draw mod length from) in
       Option.bind c (\<lambda>cat.
         let outcomes = filter boostable (loadMarketOutcomes cat (pq_marketId candidate)) in
         if length outcomes < 2 then None
         else Some \<lparr>fs_offerId = fst draw, fs_kind = kind, fs_matchId = pq_matchId candidate, fs_marketId = pq_marketId candidate,
           fs_outcomeId = fst (lowest (hd outcomes) (tl outcomes)), fs_startedAt = now, fs_expiresAt = now + kc_ttlMs cfg\<rparr>))"

section \<open>Hydration\<close>

record match_meta =
  mt_teams :: team_names
  mt_sportSlug :: string
  mt_sportName :: string
  mt_providerMarketId :: int
  mt_marketLabel :: string
  mt_specifiers :: "(string \<times> string) list"
  mt_variant :: string

definition loadMatchMeta :: "catalog \<Rightarrow> int \<Rightarrow> int \<Rightarrow> match_meta option" where
  "loadMatchMeta c matchId marketId =
    Option.bind (select_one (\<lambda>m. m_id m = matchId) (matches c)) (\<lambda>m.
    Option.bind (select_one (\<lambda>t. tn_id t = m_tournamentId m) (tournaments c)) (\<lambda>t.
    Option.bind (select_one (\<lambda>g. cat_id g = tn_categoryId t) (categories c)) (\<lambda>g.
    Option.bind (select_one (\<lambda>s. sport_id s = cat_sportId g) (sports c)) (\<lambda>s.
    Option.bind (select_one (\<lambda>mk. mk_id mk = marketId) (markets c)) (\<lambda>mk.
      let specifiers = mk_specifiersJson mk;
          variant = (case map_of specifiers ''variant'' of Some v \<Rightarrow> v | None \<Rightarrow> []);
          rows = filter (\<lambda>d. md_providerMarketId d = mk_providerMarketId mk \<and> md_language d = ''en'') (market_descriptions c);
          template = (case first_some [select_one (\<lambda>d. md_variant d = variant) rows, select_one (\<lambda>d. md_variant d = []) rows] of
              Some d \<Rightarrow> md_nameTemplate d | None \<Rightarrow> ''Market #'' @ show_int (mk_providerMarketId mk));
          teams = \<lparr>tm_homeTeam = m_homeTeam m, tm_awayTeam = m_awayTeam m\<rparr> in
      Some \<lparr>mt_teams = teams, mt_sportSlug = sport_slug s, mt_sportName = sport_name s,
        mt_providerMarketId = mk_providerMarketId mk, mt_marketLabel = substituteTemplate template specifiers teams,
        mt_specifiers = specifiers, mt_variant = variant\<rparr>)))))"

definition loadOutcomeDescriptions :: "catalog \<Rightarrow> match_meta \<Rightarrow> string \<rightharpoonup> string" where
  "loadOutcomeDescriptions c meta =
    (let rows = filter (\<lambda>d. od_providerMarketId d = mt_providerMarketId meta \<and> od_language d = ''en'') (outcome_descriptions c);
         own = foldl (\<lambda>m d. if od_variant d = mt_variant meta then m(od_outcomeId d \<mapsto> od_nameTemplate d) else m) Map.empty rows in
     foldl (\<lambda>m d. if od_variant d = [] \<and> m (od_outcomeId d) = None then m(od_outcomeId d \<mapsto> od_nameTemplate d) else m) own rows)"

definition resolveOutcomeLabel :: "match_meta \<Rightarrow> string \<Rightarrow> string \<Rightarrow> string option \<Rightarrow> string" where
  "resolveOutcomeLabel meta outcomeId rawName template =
    (if rawName \<noteq> [] then rawName
     else let rendered = (case template of Some t \<Rightarrow> if t = [] then [] else renderOutcomeLabel t (mt_specifiers meta) (mt_teams meta) | None \<Rightarrow> []) in
       if rendered \<noteq> [] then rendered
       else if outcomeId = ''1'' then tm_homeTeam (mt_teams meta)
       else if outcomeId = ''2'' then tm_awayTeam (mt_teams meta)
       else if outcomeId = ''3'' then ''Draw''
       else outcomeId)"

text \<open>The price rendering of this module is that of \<^verbatim>\<open>formatBoostedOdds\<close>.\<close>

definition fmtOdds :: "jsnum \<Rightarrow> string" where
  "fmtOdds n = (if \<not> js_isFinite n then ''0.00'' else js_toFixed 2 (js_div (js_floor (js_mul n (Fin 100))) (Fin 100)))"

fun index_of :: "string \<Rightarrow> (string \<times> 'a) list \<Rightarrow> nat option" where
  "index_of k [] = None"
| "index_of k ((k', v) # xs) = (if k' = k then Some 0 else map_option Suc (index_of k xs))"

definition hydrateOffer :: "catalog \<Rightarrow> millis \<Rightarrow> flash_slot \<Rightarrow> jsnum \<Rightarrow> flash_offer option" where
  "hydrateOffer c now slot keyDeltaPct =
    Option.bind (loadMatchMeta c (fs_matchId slot) (fs_marketId slot)) (\<lambda>meta.
      let outcomes = loadMarketOutcomes c (fs_marketId slot) in
      Option.bind (index_of (fs_outcomeId slot) outcomes) (\<lambda>i.
        if \<not> boostable (outcomes ! i) then None
        else
          let adjusted = nb_adjustedOdds (boostMarketKey (map (snd \<circ> snd) outcomes) keyDeltaPct);
              originalOddsStr = fmtOdds (snd (snd (outcomes ! i)));
              boostedOddsStr = fmtOdds (adjusted ! i) in
          if boostedOddsStr = originalOddsStr then None
          else
            let templates = loadOutcomeDescriptions c meta;
                labels = map (\<lambda>(oid, rawName, _). resolveOutcomeLabel meta oid rawName (templates oid)) outcomes in
            if has_placeholder (mt_marketLabel meta) \<or> list_ex has_placeholder labels then None
            else Some \<lparr>fo_id = fs_offerId slot, fo_kind = fs_kind slot, fo_matchId = show_int (fs_matchId slot),
              fo_homeTeam = tm_homeTeam (mt_teams meta), fo_awayTeam = tm_awayTeam (mt_teams meta),
              fo_sportSlug = mt_sportSlug meta, fo_sportName = mt_sportName meta, fo_marketId = show_int (fs_marketId slot),
              fo_providerMarketId = mt_providerMarketId meta, fo_marketLabel = mt_marketLabel meta,
              fo_outcomeId = fs_outcomeId slot, fo_outcomeLabel = labels ! i, fo_originalOdds = originalOddsStr,
              fo_boostedOdds = boostedOddsStr,
              fo_marketSnapshot = map (\<lambda>((oid, _, odds), label, adj). \<lparr>sc_outcomeId = oid, sc_outcomeLabel = label,
                sc_originalOdds = fmtOdds odds, sc_boostedOdds = fmtOdds adj\<rparr>) (zip outcomes (zip labels adjusted)),
              fo_startedAt = fs_startedAt slot, fo_expiresAt = fs_expiresAt slot, fo_serverNow = now\<rparr>))"

section \<open>Rotation\<close>

text \<open>A slot is cleared: its offer is forgotten and the slot set to null.\<close>

definition clear_slot :: "flash_kind \<Rightarrow> nat \<Rightarrow> flash_engine \<Rightarrow> flash_engine" where
  "clear_slot kind i e = put_slot kind i None (forget_offer (slots_of e kind ! i) e)"

definition still_eligible :: "flash_engine \<Rightarrow> flash_kind \<Rightarrow> kind_config \<Rightarrow> flash_slot \<Rightarrow> bool" where
  "still_eligible e kind cfg s \<longleftrightarrow>
     list_ex (\<lambda>q. pq_matchId q = fs_matchId s \<and> pq_marketId q = fs_marketId s \<and> in_tier_window cfg q) (pool_of e kind)"

definition drop_ineligible :: "flash_kind \<Rightarrow> kind_config \<Rightarrow> nat \<Rightarrow> flash_engine \<Rightarrow> flash_engine" where
  "drop_ineligible kind cfg i e = (case slots_of e kind ! i of
     None \<Rightarrow> e
   | Some s \<Rightarrow> if still_eligible e kind cfg s then e else clear_slot kind i e)"

definition offerIsHydratable :: "millis \<Rightarrow> flash_slot \<Rightarrow> bool" where
  "offerIsHydratable now s \<longleftrightarrow> fs_expiresAt s > now"

text \<open>Filling a slot up to the query for its market, and from its answer.\<close>

definition fill_begin :: "flash_kind \<Rightarrow> nat \<Rightarrow> flash_engine \<Rightarrow> flash_engine" where
  "fill_begin kind i e = forget_offer (slots_of e kind ! i) e"

definition fill_end :: "flash_kind \<Rightarrow> nat \<Rightarrow> flash_slot option \<Rightarrow> flash_engine \<Rightarrow> flash_engine" where
  "fill_end kind i next e = (case next of
     Some s \<Rightarrow> (put_slot kind i (Some s) e)\<lparr>fe_offerById := (fe_offerById e)(fs_offerId s \<mapsto> s)\<rparr>
   | None \<Rightarrow> put_slot kind i None e)"

definition needs_fill :: "millis \<Rightarrow> flash_kind \<Rightarrow> nat \<Rightarrow> flash_engine \<Rightarrow> bool" where
  "needs_fill now kind i e = (case slots_of e kind ! i of None \<Rightarrow> True | Some s \<Rightarrow> \<not> offerIsHydratable now s)"

definition fill_slot ::
  "catalog option \<Rightarrow> millis \<Rightarrow> flash_kind \<Rightarrow> kind_config \<Rightarrow> (flash_kind \<Rightarrow> nat \<Rightarrow> uuid \<times> nat) \<Rightarrow> nat \<Rightarrow> flash_engine \<Rightarrow> flash_engine" where
  "fill_slot c now kind cfg draws i e =
    (if \<not> needs_fill now kind i e then e
     else let e' = fill_begin kind i e in fill_end kind i (pickReplacement c now kind cfg (draws kind i) e') e')"

definition rotate_kind ::
  "catalog option \<Rightarrow> millis \<Rightarrow> (flash_kind \<Rightarrow> nat \<Rightarrow> uuid \<times> nat) \<Rightarrow> flash_kind \<Rightarrow> flash_engine \<Rightarrow> flash_engine" where
  "rotate_kind c now draws kind e =
    (let cfg = cf_byKind (fe_config e) kind; is = [0..<length (slots_of e kind)] in
     fold (fill_slot c now kind cfg draws) is (fold (drop_ineligible kind cfg) is e))"

definition clear_kind :: "flash_kind \<Rightarrow> flash_engine \<Rightarrow> flash_engine" where
  "clear_kind kind e = fold (clear_slot kind) [0..<length (slots_of e kind)] e"

definition rotate_offers :: "catalog option \<Rightarrow> millis \<Rightarrow> (flash_kind \<Rightarrow> nat \<Rightarrow> uuid \<times> nat) \<Rightarrow> flash_engine \<Rightarrow> flash_engine" where
  "rotate_offers c now draws e0 =
    (let e = loadFlashConfig c now e0 in
     if \<not> cf_enabled (fe_config e) then clear_kind flash_live (clear_kind flash_prematch e)
     else let e' = (if now - fe_poolFetchedAt e > POOL_REFRESH_MS then (case c of Some cat \<Rightarrow> refreshPool cat now e | None \<Rightarrow> e) else e) in
       rotate_kind c now draws flash_live (rotate_kind c now draws flash_prematch e'))"

section \<open>The offers\<close>

definition hydrate_slot :: "catalog \<Rightarrow> millis \<Rightarrow> flash_kind \<Rightarrow> nat \<Rightarrow> flash_offer list \<times> flash_engine \<Rightarrow> flash_offer list \<times> flash_engine" where
  "hydrate_slot c now kind i p = (case p of (offers, e) \<Rightarrow> (case slots_of e kind ! i of
     None \<Rightarrow> (offers, e)
   | Some s \<Rightarrow> (case hydrateOffer c now s (kc_keyDeltaPct (cf_byKind (fe_config e) kind)) of
       Some offer \<Rightarrow> (offers @ [offer], e)
     | None \<Rightarrow> (offers, clear_slot kind i e))))"

definition hydrate_kind :: "catalog \<Rightarrow> millis \<Rightarrow> flash_kind \<Rightarrow> flash_engine \<Rightarrow> flash_offer list \<times> flash_engine" where
  "hydrate_kind c now kind e = fold (hydrate_slot c now kind) [0..<length (slots_of e kind)] ([], e)"

definition buildActiveOffers ::
  "catalog \<Rightarrow> millis \<Rightarrow> (flash_kind \<Rightarrow> nat \<Rightarrow> uuid \<times> nat) \<Rightarrow> flash_engine \<Rightarrow> flash_response \<times> flash_engine" where
  "buildActiveOffers c now draws e0 =
    (let e1 = (if fe_poolFetchedAt e0 = 0 then refreshPool c now e0 else e0);
         e2 = loadFlashConfig (Some c) now (rotate_offers (Some c) now draws e1);
         (prematch, e3) = hydrate_kind c now flash_prematch e2;
         (live, e4) = hydrate_kind c now flash_live e3 in
     (\<lparr>fp_prematch = prematch, fp_live = live, fp_empty = (prematch = [] \<and> live = [])\<rparr>, e4))"

definition getActiveOffers ::
  "catalog \<Rightarrow> millis \<Rightarrow> (flash_kind \<Rightarrow> nat \<Rightarrow> uuid \<times> nat) \<Rightarrow> flash_engine \<Rightarrow> flash_response \<times> flash_engine" where
  "getActiveOffers c now draws e =
    (case fe_snapshot e of
       Some (taken, value) \<Rightarrow> if now - taken < SNAPSHOT_TTL_MS then (value, e)
         else let (value', e') = buildActiveOffers c now draws e in (value', e'\<lparr>fe_snapshot := Some (now, value')\<rparr>)
     | None \<Rightarrow> let (value', e') = buildActiveOffers c now draws e in (value', e'\<lparr>fe_snapshot := Some (now, value')\<rparr>))"

section \<open>Placement\<close>

record flash_claim =
  fc_offerId :: uuid
  fc_marketId :: string
  fc_outcomeId :: string
  fc_quotedOdds :: string

text \<open>The price of the outcome, or the reason of the refusal.\<close>

definition snapshot_price :: "flash_offer \<Rightarrow> flash_claim \<Rightarrow> string + string" where
  "snapshot_price offer a = (case select_one (\<lambda>s. sc_outcomeId s = fc_outcomeId a) (fo_marketSnapshot offer) of
     None \<Rightarrow> Inl ''zillaflash_outcome_changed''
   | Some snap \<Rightarrow>
       let quoted = js_parseFloat (fc_quotedOdds a); auth = js_parseFloat (sc_boostedOdds snap) in
       if \<not> js_isFinite quoted \<or> \<not> js_isFinite auth then Inl ''zillaflash_odds_drift''
       else if js_lt ZILLAFLASH_PLACEMENT_TOLERANCE (js_abs (js_sub quoted auth)) then Inl ''zillaflash_odds_drift''
       else Inr (sc_boostedOdds snap))"

definition validateOfferForBet :: "catalog \<Rightarrow> millis \<Rightarrow> flash_claim \<Rightarrow> flash_engine \<Rightarrow> (string + string \<times> flash_kind) \<times> flash_engine" where
  "validateOfferForBet c now a e = (case fe_offerById e (fc_offerId a) of
     None \<Rightarrow> (Inl ''zillaflash_unknown_offer'', e)
   | Some slot \<Rightarrow>
       if fs_expiresAt slot \<le> now then (Inl ''zillaflash_offer_expired'', e)
       else if show_int (fs_marketId slot) \<noteq> fc_marketId a then (Inl ''zillaflash_outcome_changed'', e)
       else let e' = loadFlashConfig (Some c) now e in
         (case hydrateOffer c now slot (kc_keyDeltaPct (cf_byKind (fe_config e') (fs_kind slot))) of
            None \<Rightarrow> (Inl ''zillaflash_outcome_changed'', e')
          | Some offer \<Rightarrow> (map_sum id (\<lambda>odds. (odds, fs_kind slot)) (snapshot_price offer a), e')))"

end
