(* ===== verification/Bets_Route.thy ===== *)
theory Bets_Route
  imports Bets_Books Bet_Intent Flash_Offers
begin

text \<open>
  POST /bets of modules/bets/routes.ts: what a body must look like, the intent
  gate, the re-validation of every promoted leg against the flash engine and the
  boost rules, the visibility of promotions to the bettor, and the placement
  itself.  The UUID test of the schema library is a parameter.  The engagement
  nudge after a placement is not modelled: it writes none of these tables and its
  errors are dropped.
\<close>

section \<open>State and parameters\<close>

record site =
  si_world :: world
  si_flash :: flash_engine

record route_env =
  rt_bet :: bet_env
  rt_intent :: intent_env
  rt_jwtSecret :: string
  rt_redisUp :: bool
  rt_isUuid :: "string \<Rightarrow> bool"

record place_body =
  pb_request :: place_request
  pb_intentToken :: "string option"

definition zoom :: "('s \<Rightarrow> 't) \<Rightarrow> ('t \<Rightarrow> 's \<Rightarrow> 's) \<Rightarrow> ('t, 'a) call \<Rightarrow> ('s, 'a) call" where
  "zoom get put m s = (case m (get s) of (a, t) \<Rightarrow> (a, put t s))"

abbreviation on_world :: "(world, 'a) call \<Rightarrow> (site, 'a) call" where
  "on_world \<equiv> zoom si_world (\<lambda>w st. st\<lparr>si_world := w\<rparr>)"

abbreviation on_flash :: "(flash_engine, 'a) call \<Rightarrow> (site, 'a) call" where
  "on_flash \<equiv> zoom si_flash (\<lambda>e st. st\<lparr>si_flash := e\<rparr>)"

abbreviation on_tables :: "(db, 'a) call \<Rightarrow> (site, 'a) call" where
  "on_tables \<equiv> zoom (\<lambda>st. wo_db (si_world st)) (\<lambda>d st. st\<lparr>si_world := (si_world st)\<lparr>wo_db := d\<rparr>\<rparr>)"

definition eitherC :: "failure + 'a \<Rightarrow> ('s, 'a) call" where
  "eitherC r s = (r, s)"

section \<open>The body\<close>

text \<open>The regular expression \<^verbatim>\<open>/^\d+(\.\d+)?$/\<close>.\<close>

definition is_price :: "string \<Rightarrow> bool" where
  "is_price s = (let rest = dropWhile is_digit s in
     takeWhile is_digit s \<noteq> [] \<and> (rest = [] \<or> hd rest = CHR ''.'' \<and> is_digits (tl rest)))"

text \<open>A field that may be absent.\<close>

definition optional :: "('a \<Rightarrow> bool) \<Rightarrow> 'a option \<Rightarrow> bool" where
  "optional p x = (case x of None \<Rightarrow> True | Some v \<Rightarrow> p v)"

definition selection_shape :: "(string \<Rightarrow> bool) \<Rightarrow> bet_selection \<Rightarrow> bool" where
  "selection_shape isUuid s \<longleftrightarrow> is_digits (bs_marketId s) \<and> str_between 1 64 (bs_outcomeId s) \<and> is_price (bs_odds s)
     \<and> optional isUuid (bs_zillaFlashOfferId s) \<and> optional isUuid (bs_boostedOddsRuleId s)"

definition builder_shape :: "bet_builder_block \<Rightarrow> bool" where
  "builder_shape b \<longleftrightarrow> str_between 1 128 (bb_sessionId b) \<and> bb_expectedOddsX10000 b > 0
     \<and> bb_selectionIds b \<noteq> [] \<and> length (bb_selectionIds b) \<le> 20 \<and> list_all (str_between 3 256) (bb_selectionIds b)"

definition parse_placeBody :: "(string \<Rightarrow> bool) \<Rightarrow> place_body \<Rightarrow> failure + unit" where
  "parse_placeBody isUuid body =
    (let r = pb_request body in
     if \<not> is_digits (pr_stakeMicro r) then Inl (ZodError ''stakeMicro'')
     else if \<not> str_between 8 64 (pr_idempotencyKey r) then Inl (ZodError ''idempotencyKey'')
     else if \<not> optional (\<lambda>c. isCurrency c \<noteq> None) (pr_currency r) then Inl (ZodError ''currency'')
     else if pr_betType r = Some system then Inl (ZodError ''betType'')
     else if pr_selections r = [] \<or> length (pr_selections r) > 30 \<or> \<not> list_all (selection_shape isUuid) (pr_selections r)
       then Inl (ZodError ''selections'')
     else if \<not> optional builder_shape (pr_betBuilder r) then Inl (ZodError ''betBuilder'')
     else if \<not> opt_between 16 2048 (pb_intentToken body) then Inl (ZodError ''intentToken'')
     else Inr ())"

section \<open>Promoted legs\<close>

definition flash_claim_of :: "bet_selection \<Rightarrow> uuid \<Rightarrow> flash_claim" where
  "flash_claim_of s offerId = \<lparr>fc_offerId = offerId, fc_marketId = bs_marketId s, fc_outcomeId = bs_outcomeId s, fc_quotedOdds = bs_odds s\<rparr>"

text \<open>The legs with the engine's prices, whether one of the offers is live, and the markets of the offers.\<close>

fun flash_legs :: "catalog \<Rightarrow> millis \<Rightarrow> bet_selection list \<Rightarrow> (flash_engine, bet_selection list \<times> bool \<times> int list) call" where
  "flash_legs c now [] = returnC ([], False, [])"
| "flash_legs c now (s # ss) = (case bs_zillaFlashOfferId s of
     None \<Rightarrow> bindC (flash_legs c now ss) (\<lambda>(sels, isLive, ids). returnC (s # sels, isLive, ids))
   | Some offerId \<Rightarrow>
       bindC (\<lambda>e. apfst (map_sum bad id) (validateOfferForBet c now (flash_claim_of s offerId) e)) (\<lambda>(odds, kind).
       bindC (flash_legs c now ss) (\<lambda>(sels, isLive, ids).
       returnC (s\<lparr>bs_odds := odds\<rparr> # sels, kind = flash_live \<or> isLive, big_int (bs_marketId s) # ids))))"

definition boost_claim_of :: "bet_selection \<Rightarrow> uuid \<Rightarrow> jsnum \<Rightarrow> boost_claim" where
  "boost_claim_of s ruleId riskScore = \<lparr>cl_ruleId = ruleId, cl_marketId = big_int (bs_marketId s), cl_outcomeId = bs_outcomeId s,
     cl_quotedOdds = bs_odds s, cl_riskScore = riskScore\<rparr>"

definition boost_leg :: "catalog \<Rightarrow> millis \<Rightarrow> jsnum \<Rightarrow> bet_selection \<Rightarrow> failure + bet_selection" where
  "boost_leg c now riskScore s = (case bs_boostedOddsRuleId s of
     None \<Rightarrow> Inr s
   | Some ruleId \<Rightarrow>
       if bs_zillaFlashOfferId s \<noteq> None then Inr (s\<lparr>bs_boostedOddsRuleId := None\<rparr>)
       else (case validateCustomBoostForBet c now (boost_claim_of s ruleId riskScore) of
         Inl reason \<Rightarrow> Inl (bad reason)
       | Inr (odds, _) \<Rightarrow> Inr (s\<lparr>bs_odds := odds\<rparr>)))"

fun boost_legs :: "catalog \<Rightarrow> millis \<Rightarrow> jsnum \<Rightarrow> bet_selection list \<Rightarrow> failure + bet_selection list" where
  "boost_legs c now riskScore [] = Inr []"
| "boost_legs c now riskScore (s # ss) = (case boost_leg c now riskScore s of
     Inl e \<Rightarrow> Inl e
   | Inr s' \<Rightarrow> map_sum id ((#) s') (boost_legs c now riskScore ss))"

definition custom_boosts :: "catalog \<Rightarrow> millis \<Rightarrow> uuid \<Rightarrow> bet_selection list \<Rightarrow> db \<Rightarrow> failure + bet_selection list" where
  "custom_boosts c now userId sels d =
    (if list_ex (\<lambda>s. bs_boostedOddsRuleId s \<noteq> None \<and> bs_zillaFlashOfferId s = None) sels
     then boost_legs c now (loadViewerRiskScore d (Some userId)) sels
     else Inr sels)"

text \<open>Some offer's market is hidden from the bettor; a market without its match, tournament or category is skipped.\<close>

definition flash_hidden :: "catalog \<Rightarrow> uuid \<Rightarrow> int list \<Rightarrow> bool" where
  "flash_hidden c userId ids = (let cascades = loadPromoVisibilityCascades c userId in
     \<not> cs_empty (cascades zillaflash) \<and> list_ex (\<lambda>i. case find_market c i of
        None \<Rightarrow> False
      | Some meta \<Rightarrow> \<not> resolveVisible cascades zillaflash (Some (mi_matchId meta)) (Some (mi_tournamentId meta)) (Some (mi_sportId meta))) ids)"

section \<open>The handler\<close>

definition leg_ids :: "bet_selection \<Rightarrow> string \<times> string" where
  "leg_ids s = (bs_marketId s, bs_outcomeId s)"

definition route_intent :: "route_env \<Rightarrow> millis \<Rightarrow> uuid \<Rightarrow> place_body \<Rightarrow> (world, millis option) call" where
  "route_intent env now userId body =
    bindC (on_db loadBotControls) (\<lambda>controls.
    intent_gate (rt_intent env) (deriveIntentKey (rt_intent env) (rt_jwtSecret env)) (rt_redisUp env) now userId controls
      (pb_intentToken body) (pr_idempotencyKey (pb_request body)) (map leg_ids (pr_selections (pb_request body))))"

definition place_ctx :: "uuid \<Rightarrow> string option \<Rightarrow> string option \<Rightarrow> bool \<Rightarrow> millis option \<Rightarrow> place_context" where
  "place_ctx userId ip userAgent isLive issued = \<lparr>pc_userId = userId, pc_ip = ip, pc_userAgent = userAgent,
     pc_zillaFlashLiveBoost = isLive, pc_quoteIssuedAtMs = issued\<rparr>"

definition post_bets ::
  "route_env \<Rightarrow> millis \<Rightarrow> uuid \<Rightarrow> authed_user option \<Rightarrow> string option \<Rightarrow> string option \<Rightarrow> place_body \<Rightarrow> (site, tickets_row \<times> bool) call" where
  "post_bets env now newId ru ip userAgent body =
    (let c = be_catalog (rt_bet env); request = pb_request body in
     bindC (eitherC (requireAuth ru)) (\<lambda>u.
     bindC (eitherC (parse_placeBody (rt_isUuid env) body)) (\<lambda>_.
     bindC (on_world (route_intent env now (ru_id u) body)) (\<lambda>issued.
     bindC (on_flash (flash_legs c now (pr_selections request))) (\<lambda>(flashed, isLive, ids).
     bindC (on_tables (atomically (bindT (getT (custom_boosts c now (ru_id u) flashed)) liftE))) (\<lambda>sels.
     if flash_hidden c (ru_id u) ids then throwC (bad ''zillaflash_offer_unavailable'')
     else on_tables (place (rt_bet env) now newId (request\<lparr>pr_selections := sels\<rparr>)
            (place_ctx (ru_id u) ip userAgent isLive issued))))))))"

end
