(* ===== verification/Boost_Properties.thy ===== *)
theory Boost_Properties
  imports Boosted_Odds Sample_Catalog
begin

text \<open>
  What a bettor gets from the boost rules: the bounds of an accepted price, the
  agreement of the price on a card with the price placement accepts, and where
  the readers of the rules disagree.
\<close>

section \<open>The window\<close>

lemma window_twins: "ruleWindowIsOpen now (rowToRule r) \<longleftrightarrow> boostWindowIsOpen now r"
  by (auto simp: ruleWindowIsOpen_def boostWindowIsOpen_def rowToRule_def split: option.splits)

lemma rowToRule_simps [simp]:
  "br_id (rowToRule r) = bo_id r" "br_scope (rowToRule r) = bo_scope r" "br_marketId (rowToRule r) = bo_marketId r"
  "br_matchId (rowToRule r) = bo_matchId r" "br_tournamentId (rowToRule r) = bo_tournamentId r"
  "br_sportId (rowToRule r) = bo_sportId r" "br_competitorId (rowToRule r) = bo_competitorId r"
  "br_outcomeId (rowToRule r) = bo_outcomeId r"
  by (simp_all add: rowToRule_def)

lemma toQuoteRule_id [simp]: "bq_ruleId (toQuoteRule r) = br_id r"
  by (simp add: toQuoteRule_def)

section \<open>Which rules a verdict depends on\<close>

lemma select_one_filter: "(\<And>x. P x \<Longrightarrow> Q x) \<Longrightarrow> select_one P (filter Q xs) = select_one P xs"
  by (induction xs) auto

text \<open>The verdict on a boosted leg depends on no rule but the one the leg claims and the selection rules of
  its market: a market, match, competitor, tournament or sport rule that takes precedence over the claimed one
  for every viewer changes nothing, so a leg can still be placed at the price of a rule that is overruled.\<close>

theorem overruled_boost_is_accepted:
  "validateCustomBoostForBet
     (c\<lparr>boosted_odds_config := filter (\<lambda>r. bo_scope r = bsc_outcome \<or> bo_id r = cl_ruleId a) (boosted_odds_config c)\<rparr>) now a
   = validateCustomBoostForBet c now a"
proof -
  let ?c = "c\<lparr>boosted_odds_config := filter (\<lambda>r. bo_scope r = bsc_outcome \<or> bo_id r = cl_ruleId a) (boosted_odds_config c)\<rparr>"
  have claimed: "select_one (\<lambda>r. bo_id r = cl_ruleId a) (boosted_odds_config ?c) = select_one (\<lambda>r. bo_id r = cl_ruleId a) (boosted_odds_config c)"
    by (simp add: select_one_filter)
  have "(\<lambda>r. (bo_scope r = bsc_outcome \<and> bo_marketId r = Some i \<and> boostWindowIsOpen now r) \<and> (bo_scope r = bsc_outcome \<or> bo_id r = cl_ruleId a))
      = (\<lambda>r. bo_scope r = bsc_outcome \<and> bo_marketId r = Some i \<and> boostWindowIsOpen now r)" for i
    by auto
  then have sel: "loadSelectionRules ?c now i rs = loadSelectionRules c now i rs" for i rs
    by (simp add: loadSelectionRules_def conj_commute)
  have rest: "boost_market ?c i = boost_market c i" "loadQuotableOutcomes ?c i = loadQuotableOutcomes c i" for i
    by (simp_all add: boost_market_def loadQuotableOutcomes_def)
  show ?thesis unfolding validateCustomBoostForBet_def claimed sel rest ..
qed

section \<open>The bounds of an accepted price\<close>

lemma js_Number_double: "js_Number t = Fin x \<Longrightarrow> rnd64 x = x"
  by (auto simp: js_Number_def js_fin_def Let_def dbl.rnd_idem dbl.rnd_0 split: option.splits if_splits)

text \<open>A NUMERIC(10, 4) column holds less than \<open>2\<^sup>2\<^sup>0\<close>.\<close>

definition column_sized :: "(string \<times> jsnum) list \<Rightarrow> bool" where
  "column_sized priced \<longleftrightarrow> list_all (\<lambda>(oid, odds). js_le odds (Fin (2 ^ 20))) priced"

lemma quotable_prices:
  assumes "column_sized (loadQuotableOutcomes c i)"
  shows "\<exists>outcomes. loadQuotableOutcomes c i = map (\<lambda>(oid, x). (oid, Fin x)) outcomes \<and> list_all (\<lambda>(oid, x). price x) outcomes"
proof -
  have each: "\<exists>x. odds = Fin x \<and> price x" if mem: "(oid, odds) \<in> set (loadQuotableOutcomes c i)" for oid odds
  proof -
    have "js_le odds (Fin (2 ^ 20))" using assms mem by (auto simp: column_sized_def list_all_iff)
    moreover obtain t where t: "js_Number t = odds" "isQuotableOutcomeOdds odds"
      using mem by (auto simp: loadQuotableOutcomes_def List.map_filter_def priced_outcome_def split: option.splits if_splits)
    moreover obtain x where "odds = Fin x" using t(2) by (cases odds) (auto simp: isQuotableOutcomeOdds_def)
    ultimately show ?thesis using js_Number_double [of t x] by (auto simp: isQuotableOutcomeOdds_def js_le_def price_def)
  qed
  have "\<exists>outcomes. xs = map (\<lambda>(oid, x). (oid, Fin x)) outcomes \<and> list_all (\<lambda>(oid, x). price x) outcomes"
    if "\<forall>(oid, odds) \<in> set xs. \<exists>x. odds = Fin x \<and> price x" for xs :: "(string \<times> jsnum) list"
    using that
  proof (induction xs)
    case (Cons p xs)
    then obtain outcomes where "xs = map (\<lambda>(oid, x). (oid, Fin x)) outcomes" "list_all (\<lambda>(oid, x). price x) outcomes" by auto
    moreover obtain oid x where "p = (oid, Fin x)" "price x" using Cons.prems by (cases p) auto
    ultimately show ?case by (intro exI [of _ "(oid, x) # outcomes"]) simp
  qed simp
  then show ?thesis using each by blast
qed

lemma price_claimD:
  assumes "price_claim rule priced selections team a = Inr (odds, rid)"
  obtains cells snap where
    "quoteMarketBoost priced (if br_scope rule = bsc_outcome \<or> isTeamOnlyRule rule then None else Some (toQuoteRule rule))
       (map (\<lambda>(oid, r). (oid, toQuoteRule r)) (if br_scope rule = bsc_outcome then selections
          else if isTeamOnlyRule rule then (case team of Some oid \<Rightarrow> [(oid, rule)] | None \<Rightarrow> []) else [])) = cells"
    "snap \<in> set cells" "qc_outcomeId snap = cl_outcomeId a" "odds = qc_boostedOdds snap" "rid = br_id rule" "qc_ruleId snap = br_id rule"
    "\<not> js_lt CUSTOM_BOOST_PLACEMENT_TOLERANCE (js_abs (js_sub (js_parseFloat (cl_quotedOdds a)) (js_parseFloat odds)))"
  using assms
  by (force simp: price_claim_def quoteBoostedMarket_def Let_def dest: select_one_SomeD split: option.splits if_splits)

lemma validateD:
  assumes "validateCustomBoostForBet c now a = Inr (odds, rid)"
  obtains row mk ctx where "row \<in> set (boosted_odds_config c)" "bo_id row = cl_ruleId a" "boostWindowIsOpen now row"
    "passesRiskGate (rowToRule row) (cl_riskScore a)" "boost_market c (cl_marketId a) = Some (mk, ctx)"
    "rule_covers (rowToRule row) (mk_id mk) ctx (cl_outcomeId a)"
    "price_claim (rowToRule row) (loadQuotableOutcomes c (cl_marketId a)) (loadSelectionRules c now (cl_marketId a) (cl_riskScore a))
       (teamOutcomeForRule (rowToRule row) (bx_homeCompetitorId ctx) (bx_awayCompetitorId ctx)) a = Inr (odds, rid)"
  using assms
  by (auto simp: validateCustomBoostForBet_def Let_def window_twins dest: select_one_SomeD split: option.splits if_splits)

lemma not_wide_needs_selections: "cell \<in> set (quoteMarketBoost outs None sels) \<Longrightarrow> sels \<noteq> []"
  by (auto simp: quoteMarketBoost_def)

abbreviation selection_scoped :: "boosted_odds_row \<Rightarrow> bool" where
  "selection_scoped row \<equiv> bo_scope row = bsc_outcome \<or> isTeamOnlyRule (rowToRule row)"

text \<open>C12: a boosted leg is accepted only at a price of the rule it claims, while that rule is open and deliverable
  to the bettor, within the tolerance of the quoted price; a selection rule at most doubles the published price (plus two in
  the last decimal), and a market-wide rule never gives less than it, whatever the client quoted.\<close>

theorem accepted_boost_bounded:
  assumes accepted: "validateCustomBoostForBet c now a = Inr (odds, rid)"
    and sized: "column_sized (loadQuotableOutcomes c (cl_marketId a))"
  shows "\<exists>row x. row \<in> set (boosted_odds_config c) \<and> bo_id row = cl_ruleId a \<and> rid = cl_ruleId a
    \<and> boostWindowIsOpen now row \<and> passesRiskGate (rowToRule row) (cl_riskScore a)
    \<and> (cl_outcomeId a, Fin x) \<in> set (loadQuotableOutcomes c (cl_marketId a))
    \<and> \<not> js_lt CUSTOM_BOOST_PLACEMENT_TOLERANCE (js_abs (js_sub (js_parseFloat (cl_quotedOdds a)) (js_parseFloat odds)))
    \<and> (if selection_scoped row then \<exists>m. odds = show_scaled 2 m \<and> m \<le> 2 * cents x + 2 \<and> cents x \<le> m + 1
       else \<exists>y. x \<le> y \<and> odds = formatBoostedOdds (Fin y))"
proof -
  let ?priced = "loadQuotableOutcomes c (cl_marketId a)"
  obtain row and ctx :: boost_context where row: "row \<in> set (boosted_odds_config c)" "bo_id row = cl_ruleId a" "boostWindowIsOpen now row"
    "passesRiskGate (rowToRule row) (cl_riskScore a)"
    and pc: "price_claim (rowToRule row) ?priced (loadSelectionRules c now (cl_marketId a) (cl_riskScore a))
       (teamOutcomeForRule (rowToRule row) (bx_homeCompetitorId ctx) (bx_awayCompetitorId ctx)) a = Inr (odds, rid)"
    by (rule validateD [OF accepted]) blast
  obtain cells sels snap where q: "quoteMarketBoost ?priced (if selection_scoped row then None else Some (toQuoteRule (rowToRule row))) sels = cells"
    "\<not> selection_scoped row \<Longrightarrow> sels = []" "snap \<in> set cells" "qc_outcomeId snap = cl_outcomeId a" "odds = qc_boostedOdds snap" "rid = bo_id row"
    "\<not> js_lt CUSTOM_BOOST_PLACEMENT_TOLERANCE (js_abs (js_sub (js_parseFloat (cl_quotedOdds a)) (js_parseFloat odds)))"
    using pc by (rule price_claimD) (auto split: if_splits)
  obtain outcomes where outs: "?priced = map (\<lambda>(oid, x). (oid, Fin x)) outcomes" "list_all (\<lambda>(oid, x). price x) outcomes"
    using quotable_prices [OF sized] by blast
  show ?thesis
  proof (cases "selection_scoped row")
    case True
    then have mem: "snap \<in> set (quoteMarketBoost (map (\<lambda>(oid, x). (oid, Fin x)) outcomes) None sels)" using q outs(1) by simp
    from selection_cell_bounds [OF outs(2) mem not_wide_needs_selections [OF mem]] obtain x m where
      "(cl_outcomeId a, x) \<in> set outcomes" "odds = show_scaled 2 m" "cents x \<le> m + 1" "m \<le> 2 * cents x + 2"
      using q(4,5) by auto
    then show ?thesis using True row q(6,7) unfolding outs(1) by (intro exI [of _ row] exI [of _ x]) force
  next
    case False
    then have "snap \<in> set (quoteMarketBoost (map (\<lambda>(oid, x). (oid, Fin x)) outcomes) (Some (toQuoteRule (rowToRule row))) [])"
      using q outs(1) by simp
    from market_cell_bounds [OF outs(2) this] obtain oid x y where
      "(oid, x) \<in> set outcomes" "snap = quote_cell (toQuoteRule (rowToRule row)) oid (Fin x) (Fin y)" "x \<le> y" by blast
    then show ?thesis using False row q(4-7) unfolding outs(1)
      by (intro exI [of _ row] exI [of _ x]) (force simp: quote_cell_def)
  qed
qed

section \<open>What the index of a batch holds\<close>

lemma put_opt_Some: "put_opt k r m i = Some x \<longleftrightarrow> (if k = Some i then x = r else m i = Some x)"
  by (auto simp: put_opt_def split: option.splits)

lemma index_sound:
  "(ix_byMarket (foldl index_rule empty_index L) i = Some r \<longrightarrow> r \<in> set L \<and> br_scope r = bsc_market \<and> br_marketId r = Some i)
   \<and> (ix_byMatch (foldl index_rule empty_index L) i = Some r \<longrightarrow> r \<in> set L \<and> br_scope r = bsc_match \<and> br_matchId r = Some i)
   \<and> (ix_byCompetitor (foldl index_rule empty_index L) i = Some r \<longrightarrow> r \<in> set L \<and> br_scope r = bsc_competitor \<and> br_competitorId r = Some i)
   \<and> (ix_byTournament (foldl index_rule empty_index L) i = Some r \<longrightarrow> r \<in> set L \<and> br_scope r = bsc_tournament \<and> br_tournamentId r = Some i)
   \<and> (ix_bySport (foldl index_rule empty_index L) i = Some r \<longrightarrow> r \<in> set L \<and> br_scope r = bsc_sport \<and> br_sportId r = Some i)"
proof (induction L rule: rev_induct)
  case (snoc q L)
  then show ?case by (cases "br_scope q") (auto simp: index_rule_def put_opt_Some split: if_splits option.splits)
qed (simp add: empty_index_def)

abbreviation add_selection :: "(string \<times> boost_rule) list \<Rightarrow> boost_rule \<Rightarrow> (string \<times> boost_rule) list" where
  "add_selection m r \<equiv> (case br_outcomeId r of None \<Rightarrow> m | Some oid \<Rightarrow> map_set oid r m)"

lemma index_selections:
  "(case ix_selections (foldl index_rule empty_index L) i of None \<Rightarrow> [] | Some m \<Rightarrow> m)
    = foldl add_selection [] (filter (\<lambda>r. br_scope r = bsc_outcome \<and> br_marketId r = Some i) L)"
proof (induction L rule: rev_induct)
  case (snoc q L)
  then show ?case by (cases "br_scope q") (auto simp: index_rule_def split: option.splits)
qed (simp add: empty_index_def)

definition batch_rules :: "catalog \<Rightarrow> millis \<Rightarrow> boost_context list \<Rightarrow> int list \<Rightarrow> jsnum \<Rightarrow> boost_rule list" where
  "batch_rules c now contexts marketIds rs = filter (\<lambda>r. passesRiskGate r rs)
     (map rowToRule (filter (\<lambda>r. boostWindowIsOpen now r \<and> row_in_batch contexts marketIds r) (boosted_odds_config c)))"

lemma batch_ruleD:
  "r \<in> set (batch_rules c now contexts marketIds rs) \<Longrightarrow>
   \<exists>row \<in> set (boosted_odds_config c). r = rowToRule row \<and> boostWindowIsOpen now row \<and> passesRiskGate r rs"
  by (auto simp: batch_rules_def)

lemma selections_agree:
  assumes "i \<in> set marketIds"
  shows "foldl add_selection [] (filter (\<lambda>r. br_scope r = bsc_outcome \<and> br_marketId r = Some i) (batch_rules c now contexts marketIds rs))
    = loadSelectionRules c now i rs"
proof -
  let ?g = "\<lambda>m row. let rule = rowToRule row in case br_outcomeId rule of None \<Rightarrow> m
    | Some oid \<Rightarrow> if passesRiskGate rule rs then map_set oid rule m else m"
  have rows: "filter (\<lambda>r. br_scope r = bsc_outcome \<and> br_marketId r = Some i) (batch_rules c now contexts marketIds rs)
      = filter (\<lambda>r. passesRiskGate r rs) (map rowToRule
          (filter (\<lambda>r. bo_scope r = bsc_outcome \<and> bo_marketId r = Some i \<and> boostWindowIsOpen now r) (boosted_odds_config c)))"
    using assms by (auto simp: batch_rules_def filter_map o_def row_in_batch_def in_opt_def intro!: arg_cong [of _ _ "map rowToRule"] filter_cong)
  have "foldl add_selection m (filter (\<lambda>r. passesRiskGate r rs) (map rowToRule xs)) = foldl ?g m xs" for m xs
    by (induction xs arbitrary: m) (auto simp: Let_def split: option.splits)
  then show ?thesis by (simp add: rows loadSelectionRules_def)
qed

lemma map_set_entries: "(k, v) \<in> set (map_set k' v' m) \<Longrightarrow> k = k' \<and> v = v' \<or> (k, v) \<in> set m"
  by (induction m) (auto split: if_splits)

lemma selection_entry:
  assumes "(oid, r) \<in> set (foldl add_selection [] L)"
  shows "r \<in> set L \<and> br_outcomeId r = Some oid"
  using assms by (induction L rule: rev_induct) (auto split: option.splits dest: map_set_entries)

section \<open>Cells\<close>

lemma in_map_filter: "y \<in> set (List.map_filter g xs) \<longleftrightarrow> (\<exists>x \<in> set xs. g x = Some y)"
  by (induction xs) (auto split: option.splits)

lemma distinct_map_filter:
  assumes "distinct (map h xs)" and "\<And>x y. g x = Some y \<Longrightarrow> f y = h x"
  shows "distinct (map f (List.map_filter g xs))"
proof -
  have "set (map f (List.map_filter g xs)) \<subseteq> h ` set xs" for xs using assms(2) by (induction xs) (auto split: option.splits)
  then show ?thesis using assms by (induction xs) (auto split: option.splits)
qed

lemma zip_fst_distinct: "distinct (map fst xs) \<Longrightarrow> distinct (map (fst \<circ> fst) (zip xs ys))"
proof -
  assume "distinct (map fst xs)"
  then have "distinct (take (length ys) (map fst xs))" by (rule distinct_take)
  moreover have "map fst (zip xs ys) = take (length ys) xs" by (simp add: map_fst_zip_take min_def)
  ultimately show ?thesis unfolding map_map [symmetric] by (simp add: take_map)
qed

lemma quote_distinct:
  assumes "distinct (map fst outs)"
  shows "distinct (map qc_outcomeId (quoteMarketBoost outs w sels))"
proof -
  have sel: "distinct (map qc_outcomeId (List.map_filter (\<lambda>((oid, published), (adjusted, delta)).
      case map_of sels oid of None \<Rightarrow> None
      | Some rule \<Rightarrow> if js_le delta (Fin 0) then None
          else let cell = quote_cell rule oid published adjusted in if moved cell then Some cell else None) (zip outs zs)))" for zs
    by (rule distinct_map_filter [OF zip_fst_distinct [OF assms]])
       (auto simp: quote_cell_def Let_def split: option.splits if_splits prod.splits)
  have wide: "map qc_outcomeId (map (\<lambda>((oid, published), adjusted). quote_cell rule oid published adjusted) (zip outs zs))
      = map (fst \<circ> fst) (zip outs zs)" for rule zs
    by (auto simp: quote_cell_def)
  show ?thesis using sel zip_fst_distinct [OF assms]
    by (auto simp: quoteMarketBoost_def Let_def wide simp del: map_map split: option.splits)
qed

lemma quote_ids_wide: "cell \<in> set (quoteMarketBoost outs w []) \<Longrightarrow> \<exists>rule. w = Some rule \<and> qc_ruleId cell = bq_ruleId rule"
  by (auto simp: quoteMarketBoost_def Let_def quote_cell_def split: option.splits if_splits)

lemma quoted_selection:
  "(case map_of sels oid of None \<Rightarrow> None
    | Some rule \<Rightarrow> if js_le delta (Fin 0) then None
        else let cell = quote_cell rule oid published adjusted in if moved cell then Some cell else None) = Some cell
   \<Longrightarrow> map_of sels (qc_outcomeId cell) \<noteq> None \<and> qc_ruleId cell = bq_ruleId (the (map_of sels (qc_outcomeId cell)))"
  by (auto simp: Let_def quote_cell_def split: option.splits if_splits)

lemma quote_ids_selection:
  assumes "cell \<in> set (quoteMarketBoost outs w sels)" and "sels \<noteq> []"
  shows "\<exists>rule. map_of sels (qc_outcomeId cell) = Some rule \<and> qc_ruleId cell = bq_ruleId rule"
proof -
  have "cell \<in> set (List.map_filter (\<lambda>((oid, published), (adjusted, delta)).
      case map_of sels oid of None \<Rightarrow> None
      | Some rule \<Rightarrow> if js_le delta (Fin 0) then None
          else let cell = quote_cell rule oid published adjusted in if moved cell then Some cell else None) (zip outs zs)) \<Longrightarrow>
      map_of sels (qc_outcomeId cell) \<noteq> None \<and> qc_ruleId cell = bq_ruleId (the (map_of sels (qc_outcomeId cell)))" for zs
    unfolding in_map_filter by (clarsimp simp del: not_None_eq) (rule quoted_selection)
  then show ?thesis using assms unfolding quoteMarketBoost_def Let_def if_P [OF assms(2)] by (force split: if_splits)
qed

lemma quote_wide_irrelevant: "sels \<noteq> [] \<Longrightarrow> quoteMarketBoost outs w sels = quoteMarketBoost outs w' sels"
  by (simp add: quoteMarketBoost_def)

lemma select_unique: "distinct (map f xs) \<Longrightarrow> x \<in> set xs \<Longrightarrow> select_one (\<lambda>y. f y = f x) xs = Some x"
  by (induction xs) (auto simp: image_iff)

lemma no_drift: "js_isFinite q \<Longrightarrow> \<not> js_lt CUSTOM_BOOST_PLACEMENT_TOLERANCE (js_abs (js_sub q q))"
proof (cases q)
  case (Fin x)
  have "js_sub (Fin x) (Fin x) = Fin 0" by (simp add: js_sub_def js_fin_53 dbl.rnd_0)
  moreover have "0 \<le> rnd64 (1 / 100)" by (rule dbl.rnd_nonneg) simp
  ultimately show ?thesis using Fin by (simp add: CUSTOM_BOOST_PLACEMENT_TOLERANCE_def js_fin_53)
qed simp_all

section \<open>What is shown is accepted\<close>

lemma accept_claim:
  assumes "quoteMarketBoost priced (if br_scope rule = bsc_outcome then None else Some (toQuoteRule rule))
      (map (\<lambda>(oid, r). (oid, toQuoteRule r)) (if br_scope rule = bsc_outcome then selections else [])) = cells"
    and "cell \<in> set cells" "distinct (map fst priced)" "qc_ruleId cell = br_id rule" "\<not> isTeamOnlyRule rule"
    and "js_isFinite (js_parseFloat (qc_boostedOdds cell))" "cl_outcomeId a = qc_outcomeId cell" "cl_quotedOdds a = qc_boostedOdds cell"
  shows "price_claim rule priced selections team a = Inr (qc_boostedOdds cell, br_id rule)"
proof -
  have "distinct (map qc_outcomeId cells)" using quote_distinct [OF assms(3)] assms(1) by blast
  then have "select_one (\<lambda>q. qc_outcomeId q = cl_outcomeId a) cells = Some cell" using select_unique [of qc_outcomeId cells cell] assms(2,7) by simp
  then show ?thesis using assms no_drift by (auto simp: price_claim_def quoteBoostedMarket_def Let_def)
qed

lemma accept_validated:
  assumes "row \<in> set (boosted_odds_config c)" "distinct (map bo_id (boosted_odds_config c))" "cl_ruleId a = bo_id row"
    and "boostWindowIsOpen now row" "passesRiskGate (rowToRule row) (cl_riskScore a)" "boost_market c (cl_marketId a) = Some (mk, ctx)"
    and "rule_covers (rowToRule row) (mk_id mk) ctx (cl_outcomeId a)" "\<not> isTeamOnlyRule (rowToRule row)"
    and "bo_scope row \<noteq> bsc_outcome \<Longrightarrow> loadSelectionRules c now (cl_marketId a) (cl_riskScore a) = []"
  shows "validateCustomBoostForBet c now a = price_claim (rowToRule row) (loadQuotableOutcomes c (cl_marketId a))
    (loadSelectionRules c now (cl_marketId a) (cl_riskScore a))
    (teamOutcomeForRule (rowToRule row) (bx_homeCompetitorId ctx) (bx_awayCompetitorId ctx)) a"
  using assms select_unique [OF assms(2,1)]
  by (cases "bo_scope row = bsc_outcome") (simp_all add: validateCustomBoostForBet_def Let_def window_twins)

definition no_team_only :: "catalog \<Rightarrow> bool" where
  "no_team_only c \<longleftrightarrow> list_all (\<lambda>r. bo_competitorMarkets r \<noteq> ''team_only'') (boosted_odds_config c)"

lemma no_team_onlyD: "no_team_only c \<Longrightarrow> row \<in> set (boosted_odds_config c) \<Longrightarrow> \<not> isTeamOnlyRule (rowToRule row)"
  by (auto simp: no_team_only_def list_all_iff isTeamOnlyRule_def rowToRule_def)

lemma resolve_plain:
  assumes "\<And>i r. ix_byCompetitor ix i = Some r \<Longrightarrow> \<not> isTeamOnlyRule r"
  shows "snd (resolve ix ctx marketId pm oids) = (case ix_selections ix marketId of None \<Rightarrow> [] | Some m \<Rightarrow> m)"
proof -
  have "team_only_step ix ctx ex t i = t" for ex t i
    using assms by (auto simp: team_only_step_def split: option.splits bind_splits)
  then show ?thesis by (simp add: resolve_def Let_def)
qed

lemma resolve_wide_covers:
  assumes "ix = foldl index_rule empty_index L" and "fst (resolve ix ctx marketId pm oids) = Some r"
  shows "r \<in> set L \<and> br_scope r \<noteq> bsc_outcome \<and> rule_covers r marketId ctx oid"
proof -
  note sound = index_sound [of L _ r, folded assms(1)]
  have best: "better b q = Some r \<Longrightarrow> r = q \<or> b = Some r" for b q
    by (auto simp: better_def split: option.splits if_splits)
  have comp: "competitor_step ix b i = Some r \<Longrightarrow> b = Some r \<or> (\<exists>k. i = Some k \<and> ix_byCompetitor ix k = Some r)" for b i
    by (auto simp: competitor_step_def split: option.splits if_splits dest!: best) (cases i, auto)+
  have "r \<in> set L \<and> br_scope r \<noteq> bsc_outcome \<and> rule_covers r marketId ctx oid"
    if "foldl (competitor_step ix) None [bx_homeCompetitorId ctx, bx_awayCompetitorId ctx] = Some r"
    using that sound by (auto simp: rule_covers_def dest!: comp)
  moreover have "ix_byMarket ix marketId = Some r \<or> ix_byMatch ix (bx_matchId ctx) = Some r
      \<or> foldl (competitor_step ix) None [bx_homeCompetitorId ctx, bx_awayCompetitorId ctx] = Some r
      \<or> ix_byTournament ix (bx_tournamentId ctx) = Some r \<or> ix_bySport ix (bx_sportId ctx) = Some r"
    using first_some_SomeD [OF assms(2) [unfolded resolve_def Let_def fst_conv]] by (simp only: set_simps insert_iff empty_iff) metis
  moreover have "ix_byMarket ix marketId = Some r \<Longrightarrow> ?thesis" using sound [of marketId] by (simp add: rule_covers_def)
  moreover have "ix_byMatch ix (bx_matchId ctx) = Some r \<Longrightarrow> ?thesis" using sound [of "bx_matchId ctx"] by (simp add: rule_covers_def)
  moreover have "ix_byTournament ix (bx_tournamentId ctx) = Some r \<Longrightarrow> ?thesis" using sound [of "bx_tournamentId ctx"] by (simp add: rule_covers_def)
  moreover have "ix_bySport ix (bx_sportId ctx) = Some r \<Longrightarrow> ?thesis" using sound [of "bx_sportId ctx"] by (simp add: rule_covers_def)
  ultimately show ?thesis by blast
qed

lemma map_of_quote_rules: "map_of (map (\<lambda>(oid, r). (oid, toQuoteRule r)) sels) oid = map_option toQuoteRule (map_of sels oid)"
  by (induction sels) auto

text \<open>C24: what a card shows, placement accepts: when no rule is limited to a team, the price a listing quotes for
  a cell, from the rules resolved for a batch of matches and for the risk score of the viewer, is accepted for
  the same outcome and rule at the same moment, and becomes the price of the leg.\<close>

theorem shown_boost_is_accepted:
  assumes ids: "distinct (map bo_id (boosted_odds_config c))" and key: "distinct (map fst (loadQuotableOutcomes c i))"
    and plain: "no_team_only c" and mk: "boost_market c i = Some (mk, ctx)" and "i \<in> set marketIds" and "contexts \<noteq> []"
    and res: "resolve (loadBoostRulesForMatches c now contexts marketIds rs) ctx i pm oids = (w, sels)"
    and quote: "quoteBoostedMarket w (loadQuotableOutcomes c i) sels = Some cells" and cell: "cell \<in> set cells"
    and fin: "js_isFinite (js_parseFloat (qc_boostedOdds cell))"
  shows "validateCustomBoostForBet c now \<lparr>cl_ruleId = qc_ruleId cell, cl_marketId = i, cl_outcomeId = qc_outcomeId cell,
      cl_quotedOdds = qc_boostedOdds cell, cl_riskScore = rs\<rparr> = Inr (qc_boostedOdds cell, qc_ruleId cell)"
    (is "validateCustomBoostForBet c now ?a = _")
proof -
  define L where "L = batch_rules c now contexts marketIds rs"
  define ix where "ix = foldl index_rule empty_index L"
  have load: "loadBoostRulesForMatches c now contexts marketIds rs = ix"
    using \<open>contexts \<noteq> []\<close> by (simp add: loadBoostRulesForMatches_def ix_def L_def batch_rules_def)
  have team: "\<not> isTeamOnlyRule r" if "r \<in> set L" for r
    using that plain batch_ruleD [of r] no_team_onlyD unfolding L_def by blast
  have "sels = (case ix_selections ix i of None \<Rightarrow> [] | Some m \<Rightarrow> m)"
    using resolve_plain [of ix ctx i pm oids] index_sound [of L] team res unfolding load ix_def by auto
  then have sels: "sels = loadSelectionRules c now i rs" "sels = foldl add_selection [] (filter (\<lambda>r. br_scope r = bsc_outcome \<and> br_marketId r = Some i) L)"
    using selections_agree [OF \<open>i \<in> set marketIds\<close>] by (simp_all add: ix_def index_selections L_def)
  have mkid: "mk_id mk = i" using mk by (auto simp: boost_market_def dest!: select_one_SomeD split: bind_splits)
  let ?qs = "map (\<lambda>(oid, r). (oid, toQuoteRule r)) sels" and ?priced = "loadQuotableOutcomes c i"
  have cells: "cells = quoteMarketBoost ?priced (map_option toQuoteRule w) ?qs"
    using quote by (auto simp: quoteBoostedMarket_def Let_def split: if_splits)
  show ?thesis
  proof (cases "sels = []")
    case True
    then obtain r where r: "w = Some r" "qc_ruleId cell = br_id r" using quote_ids_wide [of cell ?priced "map_option toQuoteRule w"] cell unfolding cells by auto
    have rl: "r \<in> set L" "br_scope r \<noteq> bsc_outcome" "rule_covers r i ctx (qc_outcomeId cell)"
      using resolve_wide_covers [OF ix_def, of ctx i pm oids r "qc_outcomeId cell"] res r by (simp_all add: load)
    then obtain row where row: "row \<in> set (boosted_odds_config c)" "r = rowToRule row" "boostWindowIsOpen now row" "passesRiskGate r rs"
      using batch_ruleD unfolding L_def by blast
    have "validateCustomBoostForBet c now ?a = price_claim r ?priced (loadSelectionRules c now i rs)
        (teamOutcomeForRule r (bx_homeCompetitorId ctx) (bx_awayCompetitorId ctx)) ?a"
      using accept_validated [of row c ?a now mk ctx] row r rl team ids mk mkid sels True by simp
    also have "\<dots> = Inr (qc_boostedOdds cell, br_id r)"
      using cells cell r rl team key fin True by (intro accept_claim [of _ _ _ cells]) simp_all
    finally show ?thesis using r by simp
  next
    case False
    then obtain r where r: "map_of sels (qc_outcomeId cell) = Some r" "qc_ruleId cell = br_id r"
      using quote_ids_selection [of cell ?priced "map_option toQuoteRule w" ?qs] cell unfolding cells by (auto simp: map_of_quote_rules)
    then have mem: "r \<in> set L" "br_scope r = bsc_outcome" "br_marketId r = Some i" "br_outcomeId r = Some (qc_outcomeId cell)"
      using selection_entry [OF map_of_SomeD [OF r(1) [unfolded sels(2)]]] by auto
    then obtain row where row: "row \<in> set (boosted_odds_config c)" "r = rowToRule row" "boostWindowIsOpen now row" "passesRiskGate r rs"
      using batch_ruleD unfolding L_def by blast
    have "validateCustomBoostForBet c now ?a = price_claim r ?priced (loadSelectionRules c now i rs)
        (teamOutcomeForRule r (bx_homeCompetitorId ctx) (bx_awayCompetitorId ctx)) ?a"
      using accept_validated [of row c ?a now mk ctx] row r mem team ids mk mkid by (simp add: rule_covers_def)
    also have "cells = quoteMarketBoost ?priced None ?qs"
      using cells quote_wide_irrelevant [of ?qs ?priced "map_option toQuoteRule w" None] False by simp
    then have "price_claim r ?priced (loadSelectionRules c now i rs)
        (teamOutcomeForRule r (bx_homeCompetitorId ctx) (bx_awayCompetitorId ctx)) ?a = Inr (qc_boostedOdds cell, br_id r)"
      using cell r mem team key fin sels(1) by (intro accept_claim [of _ _ _ cells]) simp_all
    finally show ?thesis using r by simp
  qed
qed

section \<open>Samples\<close>

definition sample_rule :: "uuid \<Rightarrow> boost_scope \<Rightarrow> string \<Rightarrow> boosted_odds_row" where
  "sample_rule i sc pct = \<lparr>bo_id = i, bo_scope = sc, bo_sportId = None, bo_tournamentId = None, bo_matchId = None,
     bo_competitorId = None, bo_marketId = None, bo_outcomeId = None, bo_boostPct = pct, bo_competitorMarkets = ''all'',
     bo_startsAt = None, bo_endsAt = None, bo_minRiskScore = None\<rparr>"

definition boost_catalog :: catalog where
  "boost_catalog = sample_catalog\<lparr>
     market_outcomes := [sample_outcome 11 ''1'' ''2'' ''0.4'', sample_outcome 11 ''2'' ''4'' ''0.2'', sample_outcome 11 ''3'' ''2'' ''0.4''],
     boosted_odds_config := [sample_rule ''r'' bsc_outcome ''50''\<lparr>bo_marketId := Some 11, bo_outcomeId := Some ''2''\<rparr>]\<rparr>"

definition boost_ctx :: boost_context where
  "boost_ctx = \<lparr>bx_matchId = 7, bx_tournamentId = 5, bx_sportId = 1, bx_homeCompetitorId = Some 21, bx_awayCompetitorId = Some 22\<rparr>"

definition boost_cell :: boost_quote_cell where
  "boost_cell = \<lparr>qc_outcomeId = ''2'', qc_ruleId = ''r'', qc_boostPct = Fin 50, qc_endsAt = None,
     qc_originalOdds = ''4.00'', qc_boostedOdds = ''8.00''\<rparr>"

definition sample_claim :: boost_claim where
  "sample_claim = \<lparr>cl_ruleId = ''r'', cl_marketId = 11, cl_outcomeId = ''2'', cl_quotedOdds = ''8.00'', cl_riskScore = Fin 1\<rparr>"

theorem accepted_boost_bounded_witness:
  "validateCustomBoostForBet boost_catalog 0 sample_claim = Inr (''8.00'', ''r'')
    \<and> column_sized (loadQuotableOutcomes boost_catalog 11)
    \<and> (\<exists>row x. row \<in> set (boosted_odds_config boost_catalog) \<and> bo_id row = ''r''
        \<and> (''2'', Fin x) \<in> set (loadQuotableOutcomes boost_catalog 11))"
proof -
  have ok: "validateCustomBoostForBet boost_catalog 0 sample_claim = Inr (''8.00'', ''r'')" by code_simp
  have claim: "cl_marketId sample_claim = 11" "cl_ruleId sample_claim = ''r''" "cl_outcomeId sample_claim = ''2''" by (simp_all add: sample_claim_def)
  have sized: "column_sized (loadQuotableOutcomes boost_catalog 11)" by code_simp
  show ?thesis using ok sized accepted_boost_bounded [OF ok] unfolding claim by blast
qed

theorem shown_boost_is_accepted_witness:
  "validateCustomBoostForBet boost_catalog 0 sample_claim = Inr (''8.00'', ''r'')"
proof -
  have ids: "distinct (map bo_id (boosted_odds_config boost_catalog))" by code_simp
  have key: "distinct (map fst (loadQuotableOutcomes boost_catalog 11))" by code_simp
  have plain: "no_team_only boost_catalog" by code_simp
  have mk: "boost_market boost_catalog 11 = Some (sample_market 11 7, boost_ctx)" by code_simp
  let ?r = "rowToRule (sample_rule ''r'' bsc_outcome ''50''\<lparr>bo_marketId := Some 11, bo_outcomeId := Some ''2''\<rparr>)"
  have res: "resolve (loadBoostRulesForMatches boost_catalog 0 [boost_ctx] [11] (Fin 1)) boost_ctx 11 11 [''1'', ''2''] = (None, [(''2'', ?r)])"
    by code_simp
  have q: "quoteBoostedMarket None (loadQuotableOutcomes boost_catalog 11) [(''2'', ?r)] = Some [boost_cell]" by code_simp
  have fin: "js_isFinite (js_parseFloat (qc_boostedOdds boost_cell))" by code_simp
  show ?thesis using shown_boost_is_accepted [OF ids key plain mk _ _ res q _ fin]
    by (simp add: sample_claim_def boost_cell_def)
qed

definition team_catalog :: catalog where
  "team_catalog = sample_catalog\<lparr>markets := [sample_market 1 7],
     market_outcomes := [sample_outcome 1 ''1'' ''2'' ''0.4'', sample_outcome 1 ''2'' ''2'' ''0.4'', sample_outcome 1 ''3'' ''4'' ''0.2''],
     boosted_odds_config := [sample_rule ''h'' bsc_competitor ''25''\<lparr>bo_competitorId := Some 21, bo_competitorMarkets := ''team_only''\<rparr>,
       sample_rule ''a'' bsc_competitor ''25''\<lparr>bo_competitorId := Some 22, bo_competitorMarkets := ''team_only''\<rparr>]\<rparr>"

definition team_claim :: "string \<Rightarrow> boost_claim" where
  "team_claim odds = \<lparr>cl_ruleId = ''a'', cl_marketId = 1, cl_outcomeId = ''2'', cl_quotedOdds = odds, cl_riskScore = Fin 1\<rparr>"

text \<open>With a boost limited to each team of a match, a listing prices the two cells together, sharing what the book
  can give, while placement prices the claimed cell alone: the price the listing shows is refused as drifted.\<close>

theorem team_boosts_drift:
  "map_option (map (\<lambda>q. (qc_outcomeId q, qc_boostedOdds q)))
     (case resolve (loadBoostRulesForMatches team_catalog 0 [boost_ctx] [1] (Fin 1)) boost_ctx 1 1 [''1'', ''2''] of
        (w, sels) \<Rightarrow> quoteBoostedMarket w (loadQuotableOutcomes team_catalog 1) sels)
     = Some [(''1'', ''2.66''), (''2'', ''2.66'')]
   \<and> validateCustomBoostForBet team_catalog 0 (team_claim ''2.66'') = Inl ''boosted_odds_drift''
   \<and> validateCustomBoostForBet team_catalog 0 (team_claim ''4.00'') = Inr (''4.00'', ''a'')"
proof (intro conjI)
  show "validateCustomBoostForBet team_catalog 0 (team_claim ''2.66'') = Inl ''boosted_odds_drift''" by code_simp
  show "validateCustomBoostForBet team_catalog 0 (team_claim ''4.00'') = Inr (''4.00'', ''a'')" by code_simp
qed code_simp

end
