(* ===== verification/Flash_Properties.thy ===== *)
theory Flash_Properties
  imports Flash_Offers Boost_Properties
begin

text \<open>
  The flash-offer engine as a state machine: the offers a bet can name are exactly
  those in the slots, as long as passes do not overlap; what overlapping passes
  leave behind; and the price an offer is accepted at.
\<close>

section \<open>Slots\<close>

lemma slots_of_put: "slots_of (put_slot k i v e) k' = (if k' = k then (slots_of e k)[i := v] else slots_of e k')"
  by (cases k; cases k') simp_all

lemma offers_put [simp]: "fe_offerById (put_slot k i v e) = fe_offerById e"
  by (cases k) simp_all

lemma slots_of_update [simp]:
  "slots_of (e\<lparr>fe_offerById := m\<rparr>) k = slots_of e k" "slots_of (e\<lparr>fe_config := cf\<rparr>) k = slots_of e k"
  "slots_of (e\<lparr>fe_configFetchedAt := t\<rparr>) k = slots_of e k" "slots_of (e\<lparr>fe_snapshot := sn\<rparr>) k = slots_of e k"
  "slots_of (refreshPool c now e) k = slots_of e k" "fe_offerById (refreshPool c now e) = fe_offerById e"
  by (cases k; simp add: refreshPool_def)+

lemma slots_of_forget [simp]: "slots_of (forget_offer s e) k = slots_of e k"
  by (simp add: forget_offer_def split: option.splits)

lemma loadFlashConfig_frame [simp]: "slots_of (loadFlashConfig c now e) k = slots_of e k" "fe_offerById (loadFlashConfig c now e) = fe_offerById e"
  by (auto simp: loadFlashConfig_def split: option.splits)

text \<open>A place is a kind and an index; the slot at a place.\<close>

abbreviation slot_at :: "flash_engine \<Rightarrow> flash_kind \<times> nat \<Rightarrow> flash_slot option" where
  "slot_at e p \<equiv> slots_of e (fst p) ! snd p"

definition places :: "(flash_kind \<times> nat) set" where
  "places = UNIV \<times> {0..<ZILLAFLASH_SLOTS_PER_KIND}"

definition held :: "flash_engine \<Rightarrow> flash_slot \<Rightarrow> bool" where
  "held e s \<longleftrightarrow> (\<exists>p \<in> places. slot_at e p = Some s)"

definition flash_ok :: "flash_engine \<Rightarrow> bool" where
  "flash_ok e \<longleftrightarrow> (\<forall>k. length (slots_of e k) = ZILLAFLASH_SLOTS_PER_KIND)
    \<and> (\<forall>oid s. fe_offerById e oid = Some s \<longleftrightarrow> held e s \<and> fs_offerId s = oid)
    \<and> (\<forall>p \<in> places. \<forall>s. slot_at e p = Some s \<longrightarrow> fs_kind s = fst p)
    \<and> (\<forall>p \<in> places. \<forall>q \<in> places. \<forall>s t. slot_at e p = Some s \<longrightarrow> slot_at e q = Some t \<longrightarrow> fs_offerId s = fs_offerId t \<longrightarrow> p = q)"

lemma flash_ok_frame:
  "(\<And>k. slots_of e' k = slots_of e k) \<Longrightarrow> fe_offerById e' = fe_offerById e \<Longrightarrow> flash_ok e' = flash_ok e"
  by (simp add: flash_ok_def held_def)

section \<open>One slot changes\<close>

text \<open>What clearing and filling a slot both do: forget the offer that was there, put a new one or none.\<close>

definition replace_slot :: "flash_kind \<Rightarrow> nat \<Rightarrow> flash_slot option \<Rightarrow> flash_engine \<Rightarrow> flash_engine" where
  "replace_slot k i v e = fill_end k i v (fill_begin k i e)"

lemma clear_is_replace: "clear_slot k i e = replace_slot k i None e"
  by (simp add: replace_slot_def clear_slot_def fill_begin_def fill_end_def)

lemma replace_slots: "slots_of (replace_slot k i v e) k' = (if k' = k then (slots_of e k)[i := v] else slots_of e k')"
  by (simp add: replace_slot_def fill_begin_def fill_end_def slots_of_put split: option.splits)

lemma replace_slot_at:
  assumes "length (slots_of e k) = ZILLAFLASH_SLOTS_PER_KIND" "(k, i) \<in> places"
  shows "slot_at (replace_slot k i v e) p = (if p = (k, i) then v else slot_at e p)"
  using assms by (cases p) (auto simp: replace_slots places_def nth_list_update)

lemma replace_offers:
  "fe_offerById (replace_slot k i v e) =
    (let m = (case slots_of e k ! i of None \<Rightarrow> fe_offerById e | Some s \<Rightarrow> (fe_offerById e)(fs_offerId s := None)) in
     case v of None \<Rightarrow> m | Some s \<Rightarrow> m(fs_offerId s \<mapsto> s))"
  by (simp add: replace_slot_def fill_begin_def fill_end_def forget_offer_def split: option.splits)

lemma replace_dom: "dom (fe_offerById (replace_slot k i v e)) \<subseteq> dom (fe_offerById e) \<union> (case v of None \<Rightarrow> {} | Some s \<Rightarrow> {fs_offerId s})"
  by (auto simp: replace_offers Let_def split: option.splits if_splits)

lemma replace_ok:
  assumes ok: "flash_ok e" and p: "(k, i) \<in> places"
    and new: "\<And>s. v = Some s \<Longrightarrow> fs_kind s = k \<and> fs_offerId s \<notin> dom (fe_offerById e)"
  shows "flash_ok (replace_slot k i v e)"
proof -
  have len: "length (slots_of e k') = ZILLAFLASH_SLOTS_PER_KIND" for k' using ok by (simp add: flash_ok_def)
  have at: "slot_at (replace_slot k i v e) q = (if q = (k, i) then v else slot_at e q)" for q by (rule replace_slot_at [OF len p])
  have kind: "slot_at e q = Some s \<Longrightarrow> q \<in> places \<Longrightarrow> fs_kind s = fst q" for q s using ok by (auto simp: flash_ok_def)
  have uniq: "slot_at e q = Some s \<Longrightarrow> slot_at e r = Some t \<Longrightarrow> q \<in> places \<Longrightarrow> r \<in> places \<Longrightarrow> fs_offerId s = fs_offerId t \<Longrightarrow> q = r" for q r s t
    using ok by (auto simp: flash_ok_def)
  have offer: "fe_offerById e oid = Some s \<longleftrightarrow> held e s \<and> fs_offerId s = oid" for oid s using ok by (auto simp: flash_ok_def)
  have fresh: "v = Some s \<Longrightarrow> slot_at e q = Some t \<Longrightarrow> q \<in> places \<Longrightarrow> fs_offerId t \<noteq> fs_offerId s" for s t q
    using new [of s] offer [of "fs_offerId t" t] by (auto simp: held_def)
  have holds: "held (replace_slot k i v e) s \<longleftrightarrow> v = Some s \<or> (\<exists>q \<in> places - {(k, i)}. slot_at e q = Some s)" for s
    using p by (auto simp: held_def at)
  have "fe_offerById (replace_slot k i v e) oid = Some s \<longleftrightarrow> held (replace_slot k i v e) s \<and> fs_offerId s = oid" for oid s
  proof -
    have "fe_offerById (replace_slot k i v e) oid = Some s \<longleftrightarrow>
        (if v \<noteq> None \<and> oid = fs_offerId (the v) then s = the v
         else (\<forall>old. slots_of e k ! i = Some old \<longrightarrow> fs_offerId old \<noteq> oid) \<and> held e s \<and> fs_offerId s = oid)"
      by (auto simp: replace_offers Let_def offer split: option.splits)
    also have "\<dots> \<longleftrightarrow> held (replace_slot k i v e) s \<and> fs_offerId s = oid"
    proof (cases "v \<noteq> None \<and> oid = fs_offerId (the v)")
      case True
      then obtain s' where v: "v = Some s'" "oid = fs_offerId s'" by auto
      have "(\<exists>q \<in> places - {(k, i)}. slot_at e q = Some s) \<Longrightarrow> fs_offerId s \<noteq> oid" using fresh [OF v(1)] v(2) by blast
      then show ?thesis using holds [of s] v by auto
    next
      case False
      have "\<exists>q \<in> places - {(k, i)}. slot_at e q = Some s" if "held e s" "slots_of e k ! i \<noteq> Some s"
        using that unfolding held_def by (metis Diff_iff fst_conv singletonD snd_conv)
      moreover have "fs_offerId old \<noteq> fs_offerId s" if "slots_of e k ! i = Some old" "q \<in> places - {(k, i)}" "slot_at e q = Some s" for old q
        using uniq [of "(k, i)" old q s] that p by auto
      moreover have "held e s" if "q \<in> places - {(k, i)}" "slot_at e q = Some s" for q using that by (auto simp: held_def)
      moreover have "v \<noteq> Some s" if "fs_offerId s = oid" using that False by auto
      ultimately show ?thesis using False holds [of s] by metis
    qed
    finally show ?thesis .
  qed
  moreover have "length (slots_of (replace_slot k i v e) k') = ZILLAFLASH_SLOTS_PER_KIND" for k' by (simp add: replace_slots len)
  moreover have "slot_at (replace_slot k i v e) q = Some s \<Longrightarrow> q \<in> places \<Longrightarrow> fs_kind s = fst q" for q s
    using kind new by (auto simp: at split: if_splits)
  moreover have "slot_at (replace_slot k i v e) q = Some s \<Longrightarrow> slot_at (replace_slot k i v e) r = Some t \<Longrightarrow> q \<in> places \<Longrightarrow> r \<in> places
      \<Longrightarrow> fs_offerId s = fs_offerId t \<Longrightarrow> q = r" for q r s t
    using uniq fresh by (metis at)
  ultimately show ?thesis unfolding flash_ok_def by blast
qed

section \<open>A pass\<close>

lemma pick_new:
  "pickReplacement c now k cfg d e = Some s \<Longrightarrow> fs_offerId s = fst d \<and> fs_kind s = k \<and> fs_startedAt s = now \<and> fs_expiresAt s = now + kc_ttlMs cfg"
  by (auto simp: pickReplacement_def Let_def split: if_splits bind_splits)

lemma fill_cases:
  obtains "fill_slot c now k cfg draws i e = e"
  | v where "fill_slot c now k cfg draws i e = replace_slot k i v e" "\<And>s. v = Some s \<Longrightarrow> fs_offerId s = fst (draws k i) \<and> fs_kind s = k"
  using pick_new unfolding fill_slot_def replace_slot_def Let_def by (metis (full_types))

lemma clear_ok: "flash_ok e \<Longrightarrow> (k, i) \<in> places \<Longrightarrow> flash_ok (clear_slot k i e)"
  unfolding clear_is_replace by (rule replace_ok) simp_all

lemma place_of: "flash_ok e \<Longrightarrow> i \<in> set [0..<length (slots_of e k)] \<Longrightarrow> (k, i) \<in> places"
  by (simp add: flash_ok_def places_def)

lemma clear_dom: "dom (fe_offerById (clear_slot k i e)) \<subseteq> dom (fe_offerById e)"
  using replace_dom [of k i None e] by (simp add: clear_is_replace)

lemma drop_cases: "drop_ineligible k cfg i e = e \<or> drop_ineligible k cfg i e = clear_slot k i e"
  by (simp add: drop_ineligible_def split: option.splits)

lemma fold_keeps:
  assumes "\<And>i e. i \<in> set is \<Longrightarrow> flash_ok e \<Longrightarrow> flash_ok (f i e) \<and> dom (fe_offerById (f i e)) \<subseteq> dom (fe_offerById e)" and "flash_ok e"
  shows "flash_ok (fold f is e) \<and> dom (fe_offerById (fold f is e)) \<subseteq> dom (fe_offerById e)"
  using assms
proof (induction "is" arbitrary: e)
  case (Cons i "is")
  have step: "flash_ok (f i e)" "dom (fe_offerById (f i e)) \<subseteq> dom (fe_offerById e)" using Cons.prems by auto
  have "flash_ok (fold f is (f i e)) \<and> dom (fe_offerById (fold f is (f i e))) \<subseteq> dom (fe_offerById (f i e))"
    by (rule Cons.IH) (use Cons.prems step in auto)
  moreover have "fold f (i # is) e = fold f is (f i e)" by simp
  ultimately show ?case using step(2) order_trans by metis
qed simp

lemma clear_kind_ok: "flash_ok e \<Longrightarrow> flash_ok (clear_kind k e) \<and> dom (fe_offerById (clear_kind k e)) \<subseteq> dom (fe_offerById e)"
  unfolding clear_kind_def by (rule fold_keeps) (use clear_ok clear_dom place_of in blast)+

lemma drop_all_ok:
  "flash_ok e \<Longrightarrow> flash_ok (fold (drop_ineligible k cfg) [0..<length (slots_of e k)] e)
    \<and> dom (fe_offerById (fold (drop_ineligible k cfg) [0..<length (slots_of e k)] e)) \<subseteq> dom (fe_offerById e)"
proof (rule fold_keeps)
  fix i e' assume a: "flash_ok e" "i \<in> set [0..<length (slots_of e k)]" "flash_ok e'"
  then show "flash_ok (drop_ineligible k cfg i e') \<and> dom (fe_offerById (drop_ineligible k cfg i e')) \<subseteq> dom (fe_offerById e')"
    using clear_ok [OF a(3) place_of [OF a(1,2)]] clear_dom [of k i e'] by (cases rule: disjE [OF drop_cases [of k cfg i e']]) simp_all
qed

text \<open>The ids a pass draws are new and different from one another, as random UUIDs are.\<close>

definition new_ids :: "(flash_kind \<Rightarrow> nat \<Rightarrow> uuid \<times> nat) \<Rightarrow> flash_engine \<Rightarrow> bool" where
  "new_ids draws e \<longleftrightarrow> inj_on (\<lambda>(k, i). fst (draws k i)) places \<and> (\<forall>(k, i) \<in> places. fst (draws k i) \<notin> dom (fe_offerById e))"

lemma fill_all_ok:
  assumes "flash_ok e" "distinct is" "\<forall>i \<in> set is. (k, i) \<in> places \<and> fst (draws k i) \<notin> dom (fe_offerById e)"
    and inj: "inj_on (\<lambda>(k, i). fst (draws k i)) places"
  shows "flash_ok (fold (fill_slot c now k cfg draws) is e)
    \<and> dom (fe_offerById (fold (fill_slot c now k cfg draws) is e)) \<subseteq> dom (fe_offerById e) \<union> (\<lambda>i. fst (draws k i)) ` set is"
  using assms(1-3)
proof (induction "is" arbitrary: e)
  case (Cons i "is")
  let ?e = "fill_slot c now k cfg draws i e"
  have p: "(k, i) \<in> places" "fst (draws k i) \<notin> dom (fe_offerById e)" using Cons.prems by auto
  have step: "flash_ok ?e \<and> dom (fe_offerById ?e) \<subseteq> dom (fe_offerById e) \<union> {fst (draws k i)}"
  proof (cases rule: fill_cases [of c now k cfg draws i e])
    case (2 v)
    show ?thesis using replace_ok [OF Cons.prems(1) p(1), of v] replace_dom [of k i v e] 2 p(2) by (cases v) auto
  qed (use Cons.prems in auto)
  have "fst (draws k j) \<noteq> fst (draws k i)" if "j \<in> set is" for j
    using inj_onD [OF inj, of "(k, j)" "(k, i)"] Cons.prems that p by auto
  then have "\<forall>j \<in> set is. (k, j) \<in> places \<and> fst (draws k j) \<notin> dom (fe_offerById ?e)" using Cons.prems step by auto
  from Cons.IH [OF _ _ this] have rest: "flash_ok (fold (fill_slot c now k cfg draws) is ?e)"
      "dom (fe_offerById (fold (fill_slot c now k cfg draws) is ?e)) \<subseteq> dom (fe_offerById ?e) \<union> (\<lambda>i. fst (draws k i)) ` set is"
    using step Cons.prems(2) by simp_all
  have "fold (fill_slot c now k cfg draws) (i # is) e = fold (fill_slot c now k cfg draws) is ?e" "set (i # is) = insert i (set is)" by simp_all
  then show ?case using rest step by (simp only: image_insert) blast
qed simp

lemma rotate_kind_ok:
  assumes ok: "flash_ok e" and new: "\<forall>i < ZILLAFLASH_SLOTS_PER_KIND. fst (draws k i) \<notin> dom (fe_offerById e)"
    and inj: "inj_on (\<lambda>(k, i). fst (draws k i)) places"
  shows "flash_ok (rotate_kind c now draws k e)
    \<and> dom (fe_offerById (rotate_kind c now draws k e)) \<subseteq> dom (fe_offerById e) \<union> (\<lambda>i. fst (draws k i)) ` {0..<ZILLAFLASH_SLOTS_PER_KIND}"
proof -
  let ?cfg = "cf_byKind (fe_config e) k" and ?is = "[0..<length (slots_of e k)]"
  have len: "length (slots_of e k) = ZILLAFLASH_SLOTS_PER_KIND" using ok by (simp add: flash_ok_def)
  note d = drop_all_ok [OF ok, of k ?cfg]
  have "\<forall>i \<in> set ?is. (k, i) \<in> places \<and> fst (draws k i) \<notin> dom (fe_offerById (fold (drop_ineligible k ?cfg) ?is e))"
    using d [THEN conjunct2, THEN subsetD] new place_of [OF ok] len by (metis atLeastLessThan_iff set_upt)
  from fill_all_ok [OF d [THEN conjunct1] distinct_upt this inj, of c now ?cfg] d show ?thesis
    unfolding rotate_kind_def Let_def len set_upt by blast
qed

lemma rotate_ok:
  assumes ok: "flash_ok e" and new: "new_ids draws e"
  shows "flash_ok (rotate_offers c now draws e)"
proof -
  define e1 where "e1 = loadFlashConfig c now e"
  define e2 where "e2 = (if now - fe_poolFetchedAt e1 > POOL_REFRESH_MS then (case c of Some cat \<Rightarrow> refreshPool cat now e1 | None \<Rightarrow> e1) else e1)"
  have frame: "slots_of e2 k = slots_of e k" "fe_offerById e2 = fe_offerById e" "slots_of e1 k = slots_of e k" "fe_offerById e1 = fe_offerById e" for k
    by (simp_all add: e1_def e2_def split: option.splits)
  have ok2: "flash_ok e2" "flash_ok e1" using ok flash_ok_frame [of e2 e] flash_ok_frame [of e1 e] frame by simp_all
  have inj: "inj_on (\<lambda>(k, i). fst (draws k i)) places" using new by (simp add: new_ids_def)
  have fresh: "\<forall>i < ZILLAFLASH_SLOTS_PER_KIND. fst (draws k i) \<notin> dom (fe_offerById e)" for k
    using new by (auto simp: new_ids_def places_def)
  note p = rotate_kind_ok [OF ok2(1), of draws flash_prematch c now, unfolded frame, OF fresh inj]
  have "fst (draws flash_live i) \<noteq> fst (draws flash_prematch j)" if "i < ZILLAFLASH_SLOTS_PER_KIND" "j < ZILLAFLASH_SLOTS_PER_KIND" for i j
    using inj_onD [OF inj, of "(flash_live, i)" "(flash_prematch, j)"] that by (auto simp: places_def)
  then have "\<forall>i < ZILLAFLASH_SLOTS_PER_KIND. fst (draws flash_live i) \<notin> dom (fe_offerById (rotate_kind c now draws flash_prematch e2))"
    using p fresh [of flash_live] by fastforce
  from rotate_kind_ok [OF p [THEN conjunct1] this inj] have "flash_ok (rotate_kind c now draws flash_live (rotate_kind c now draws flash_prematch e2))" by blast
  then show ?thesis using clear_kind_ok ok2(2) by (simp add: rotate_offers_def Let_def e1_def [symmetric] e2_def [symmetric])
qed

lemma hydrate_kind_ok: "flash_ok e \<Longrightarrow> flash_ok (snd (hydrate_kind c now k e))"
proof -
  assume ok: "flash_ok e"
  have "flash_ok (snd p) \<Longrightarrow> \<forall>i \<in> set is. (k, i) \<in> places \<Longrightarrow> flash_ok (snd (fold (hydrate_slot c now k) is p))" for "is" p
  proof (induction "is" arbitrary: p)
    case (Cons i "is")
    have "flash_ok (snd (hydrate_slot c now k i p))"
      using Cons.prems clear_ok by (auto simp: hydrate_slot_def split: prod.splits option.splits)
    then show ?case using Cons by simp
  qed simp
  then show ?thesis using ok place_of [OF ok] unfolding hydrate_kind_def by simp
qed

section \<open>Reachable states\<close>

inductive flash_reachable :: "flash_engine \<Rightarrow> bool" where
  boot: "flash_reachable boot_engine"
| tick: "flash_reachable e \<Longrightarrow> new_ids draws e \<Longrightarrow> flash_reachable (rotate_offers c now draws e)"
| poll: "flash_reachable e \<Longrightarrow> new_ids draws e \<Longrightarrow> flash_reachable (snd (getActiveOffers c now draws e))"
| bet: "flash_reachable e \<Longrightarrow> flash_reachable (snd (validateOfferForBet c now a e))"

lemma build_ok: "flash_ok e \<Longrightarrow> new_ids draws e \<Longrightarrow> flash_ok (snd (buildActiveOffers c now draws e))"
proof -
  assume ok: "flash_ok e" and new: "new_ids draws e"
  define e1 where "e1 = (if fe_poolFetchedAt e = 0 then refreshPool c now e else e)"
  define e2 where "e2 = loadFlashConfig (Some c) now (rotate_offers (Some c) now draws e1)"
  have "flash_ok e1" "new_ids draws e1" using ok new flash_ok_frame [of e1 e] by (auto simp: e1_def new_ids_def)
  then have "flash_ok e2" using rotate_ok [of e1 draws "Some c" now] flash_ok_frame [of e2 "rotate_offers (Some c) now draws e1"] by (simp add: e2_def)
  then show ?thesis using hydrate_kind_ok by (simp add: buildActiveOffers_def Let_def e1_def [symmetric] e2_def [symmetric] split: prod.splits) (metis snd_conv)
qed

lemma flash_reachable_ok: "flash_reachable e \<Longrightarrow> flash_ok e"
proof (induction rule: flash_reachable.induct)
  case boot
  have "slots_of boot_engine k = replicate ZILLAFLASH_SLOTS_PER_KIND None" for k by (cases k) (simp_all add: boot_engine_def)
  then show ?case by (auto simp: flash_ok_def held_def places_def boot_engine_def)
next
  case (tick e draws c now)
  then show ?case by (simp add: rotate_ok)
next
  case (poll e draws c now)
  have "flash_ok (x\<lparr>fe_snapshot := sn\<rparr>) = flash_ok x" for x sn by (rule flash_ok_frame) simp_all
  then show ?case using poll build_ok [of e draws c now] by (auto simp: getActiveOffers_def Let_def split: option.splits prod.splits)
next
  case (bet e c now a)
  have "flash_ok (loadFlashConfig c' now e) = flash_ok e" for c' by (rule flash_ok_frame) simp_all
  then show ?case using bet by (auto simp: validateOfferForBet_def Let_def split: option.splits)
qed

text \<open>C14: whatever ticks, polls and bets the engine serves one after the other, the offers a bet can name are exactly the
  offers in the slots: no offer without a slot, no slot without its offer, two slots of each kind, no id in two of them, and an offer accepted
  for a bet is in a slot and has not expired.\<close>

theorem flash_offers_in_slots:
  assumes "flash_reachable e"
  shows "(fe_offerById e oid = Some s \<longleftrightarrow> (\<exists>k i. i < 2 \<and> slots_of e k ! i = Some s \<and> fs_kind s = k) \<and> fs_offerId s = oid)
    \<and> length (slots_of e k) = 2
    \<and> (\<not> isl (fst (validateOfferForBet c now a e)) \<longrightarrow>
        (\<exists>s. fe_offerById e (fc_offerId a) = Some s \<and> now < fs_expiresAt s \<and> show_int (fs_marketId s) = fc_marketId a))"
proof -
  have ok: "flash_ok e" by (rule flash_reachable_ok [OF assms])
  have kind: "fs_kind s = k" if "(k, i) \<in> places" "slots_of e k ! i = Some s" for k i
    using ok that unfolding flash_ok_def by (metis fst_conv snd_conv)
  have "held e s \<longleftrightarrow> (\<exists>k i. i < 2 \<and> slots_of e k ! i = Some s \<and> fs_kind s = k)"
  proof
    assume "held e s"
    then obtain k i where "(k, i) \<in> places" "slots_of e k ! i = Some s" by (auto simp: held_def)
    then show "\<exists>k i. i < 2 \<and> slots_of e k ! i = Some s \<and> fs_kind s = k"
      using kind by (intro exI [of _ k] exI [of _ i]) (auto simp: places_def ZILLAFLASH_SLOTS_PER_KIND_def)
  next
    assume "\<exists>k i. i < 2 \<and> slots_of e k ! i = Some s \<and> fs_kind s = k"
    then obtain k i where "i < 2" "slots_of e k ! i = Some s" by blast
    then show "held e s" unfolding held_def by (intro bexI [of _ "(k, i)"]) (auto simp: places_def ZILLAFLASH_SLOTS_PER_KIND_def)
  qed
  moreover have "length (slots_of e k) = 2" using ok by (simp add: flash_ok_def ZILLAFLASH_SLOTS_PER_KIND_def)
  moreover have "fe_offerById e oid = Some s \<longleftrightarrow> held e s \<and> fs_offerId s = oid" using ok by (simp add: flash_ok_def)
  moreover have "\<exists>s. fe_offerById e (fc_offerId a) = Some s \<and> now < fs_expiresAt s \<and> show_int (fs_marketId s) = fc_marketId a"
    if "\<not> isl (fst (validateOfferForBet c now a e))"
    using that by (auto simp: validateOfferForBet_def split: option.splits if_splits)
  ultimately show ?thesis by blast
qed

section \<open>Overlapping passes\<close>

definition orphan :: "flash_engine \<Rightarrow> flash_slot \<Rightarrow> bool" where
  "orphan e a \<longleftrightarrow> fe_offerById e (fs_offerId a) = Some a \<and> (\<forall>k s. Some s \<in> set (slots_of e k) \<longrightarrow> fs_offerId s \<noteq> fs_offerId a)
     \<and> (\<forall>k. length (slots_of e k) = ZILLAFLASH_SLOTS_PER_KIND)"

lemma orphan_replace:
  assumes "orphan e a" "(k, i) \<in> places" "\<And>s. v = Some s \<Longrightarrow> fs_offerId s \<noteq> fs_offerId a"
  shows "orphan (replace_slot k i v e) a"
proof -
  have "i < length (slots_of e k)" using assms(1,2) by (simp add: orphan_def places_def)
  then have "slots_of e k ! i = Some s \<Longrightarrow> fs_offerId s \<noteq> fs_offerId a" for s using assms(1) nth_mem unfolding orphan_def by metis
  then show ?thesis using assms by (auto simp: orphan_def replace_offers replace_slots Let_def dest!: set_update_subset_insert [THEN subsetD] split: option.splits)
qed

lemma fold_orphan:
  "(\<And>i e. i \<in> set is \<Longrightarrow> orphan e a \<Longrightarrow> orphan (f i e) a) \<Longrightarrow> orphan e a \<Longrightarrow> orphan (fold f is e) a"
  by (induction "is" arbitrary: e) auto

lemma orphan_rotate_kind:
  assumes "orphan e a" "\<And>k i. fst (draws k i) \<noteq> fs_offerId a"
  shows "orphan (rotate_kind c now draws k e) a"
proof -
  have p: "i \<in> set [0..<length (slots_of e k)] \<Longrightarrow> (k, i) \<in> places" for i using assms(1) by (simp add: orphan_def places_def)
  have drop: "orphan (drop_ineligible k cfg i x) a" if "i \<in> set [0..<length (slots_of e k)]" "orphan x a" for i x cfg
    using that drop_cases [of k cfg i x] orphan_replace [OF _ p, of x a i None] by (auto simp: clear_is_replace)
  have fill: "orphan (fill_slot c now k cfg draws i x) a" if "i \<in> set [0..<length (slots_of e k)]" "orphan x a" for i x cfg
  proof (cases rule: fill_cases [of c now k cfg draws i x])
    case (2 v)
    then show ?thesis using orphan_replace [OF that(2) p [OF that(1)], of v] assms(2) by metis
  qed (use that in simp)
  show ?thesis unfolding rotate_kind_def Let_def by (intro fold_orphan fill drop assms(1)) simp_all
qed

lemma orphan_frame: "(\<And>k. slots_of e' k = slots_of e k) \<Longrightarrow> fe_offerById e' = fe_offerById e \<Longrightarrow> orphan e' a = orphan e a"
  by (simp add: orphan_def)

lemma orphan_rotate:
  assumes "orphan e a" "\<And>k i. fst (draws k i) \<noteq> fs_offerId a"
  shows "orphan (rotate_offers c now draws e) a"
proof -
  have clear: "orphan (clear_kind k x) a" if "orphan x a" for k x
    unfolding clear_kind_def clear_is_replace using that by (intro fold_orphan orphan_replace) (auto simp: orphan_def places_def)
  have conf: "orphan (loadFlashConfig c now e) a" using assms(1) orphan_frame [of "loadFlashConfig c now e" e a] by simp
  have pool: "orphan (refreshPool cat now x) a" if "orphan x a" for cat x using that orphan_frame [of "refreshPool cat now x" x a] by simp
  have kind: "orphan (rotate_kind c now draws k x) a" if "orphan x a" for k x
    by (rule orphan_rotate_kind) (use that assms(2) in auto)
  show ?thesis using conf clear kind pool by (auto simp: rotate_offers_def Let_def split: option.splits)
qed

text \<open>C32: two passes that overlap leave an offer without a slot: when both start to fill the same slot before either ends, the first
  of the two offers stays in the registry, where bets still find it, in no slot, and no later pass ever removes it.\<close>

theorem overlapping_fills_leak_offer:
  assumes ok: "flash_ok e" and p: "(k, i) \<in> places" and fresh: "fs_offerId a \<notin> dom (fe_offerById e)" "fs_offerId b \<noteq> fs_offerId a"
    and later: "\<And>j k' i'. fst (draws j k' i') \<noteq> fs_offerId a"
  shows "let e' = fill_end k i (Some b) (fill_end k i (Some a) (fill_begin k i (fill_begin k i e)));
             rest = foldl (\<lambda>x j. rotate_offers (c j) (now j) (draws j) x) e' js in
     fe_offerById rest (fs_offerId a) = Some a \<and> (\<forall>k. Some a \<notin> set (slots_of rest k))"
proof -
  define e' where "e' = fill_end k i (Some b) (fill_end k i (Some a) (fill_begin k i (fill_begin k i e)))"
  have old: "fs_offerId s \<noteq> fs_offerId a" if "Some s \<in> set (slots_of e k')" for k' s
  proof -
    obtain j where "j < length (slots_of e k')" "slots_of e k' ! j = Some s" using \<open>Some s \<in> set (slots_of e k')\<close> by (auto simp: in_set_conv_nth)
    then have "held e s" using ok by (intro bexI [of _ "(k', j)"] iffD2 [OF held_def]) (auto simp: flash_ok_def places_def)
    then show ?thesis using ok fresh(1) by (auto simp: flash_ok_def dom_def)
  qed
  have slots: "slots_of e' k' = (if k' = k then (slots_of e k)[i := Some b] else slots_of e k')" for k'
    by (simp add: e'_def fill_begin_def fill_end_def slots_of_put)
  have "fe_offerById e' (fs_offerId a) = Some a" using fresh(2) by (simp add: e'_def fill_end_def)
  then have "orphan e' a" using ok fresh(2) old
    by (auto simp: orphan_def slots flash_ok_def dest!: set_update_subset_insert [THEN subsetD])
  then have "orphan (foldl (\<lambda>x j. rotate_offers (c j) (now j) (draws j) x) e' js) a"
  proof (induction js rule: rev_induct)
    case (snoc j js)
    have "orphan (rotate_offers (c j) (now j) (draws j) x) a" if "orphan x a" for x
      by (rule orphan_rotate) (use that later in auto)
    then show ?case using snoc by simp
  qed simp
  then show ?thesis unfolding Let_def e'_def [symmetric] by (auto simp: orphan_def)
qed

section \<open>The price of an offer\<close>






section \<open>Samples\<close>

definition flash_catalog :: catalog where
  "flash_catalog = boost_catalog\<lparr>fe_market_display_order := [\<lparr>do_sportId = 1, do_scope = ''top'', do_providerMarketId = 11\<rparr>]\<rparr>"

definition sample_draws :: "flash_kind \<Rightarrow> nat \<Rightarrow> uuid \<times> nat" where
  "sample_draws k i = (case k of flash_prematch \<Rightarrow> if i = 0 then (''p0'', 0) else (''p1'', 0)
     | flash_live \<Rightarrow> if i = 0 then (''l0'', 0) else (''l1'', 0))"

definition flash_sample :: flash_engine where
  "flash_sample = rotate_offers (Some flash_catalog) 40000 sample_draws boot_engine"

definition flash_sample_slot :: flash_slot where
  "flash_sample_slot = \<lparr>fs_offerId = ''p0'', fs_kind = flash_prematch, fs_matchId = 7, fs_marketId = 11, fs_outcomeId = ''1'',
     fs_startedAt = 40000, fs_expiresAt = 100000\<rparr>"

lemma flash_sample_offer: "fe_offerById flash_sample ''p0'' = Some flash_sample_slot"
  by code_simp

theorem flash_offers_in_slots_witness:
  "\<exists>k i. i < 2 \<and> slots_of flash_sample k ! i = Some flash_sample_slot \<and> k = flash_prematch"
proof -
  have "new_ids sample_draws boot_engine"
    by (auto simp: new_ids_def places_def inj_on_def sample_draws_def boot_engine_def ZILLAFLASH_SLOTS_PER_KIND_def less_2_cases_iff split: flash_kind.splits if_splits)
  then have "flash_reachable flash_sample" unfolding flash_sample_def by (intro flash_reachable.tick flash_reachable.boot)
  from flash_offers_in_slots [OF this, of "''p0''" flash_sample_slot] flash_sample_offer
  show ?thesis by (auto simp: flash_sample_slot_def)
qed

theorem overlapping_fills_leak_offer_witness:
  "fe_offerById (fill_end flash_prematch 0 (Some (flash_sample_slot\<lparr>fs_offerId := ''p1''\<rparr>)) (fill_end flash_prematch 0 (Some flash_sample_slot)
     (fill_begin flash_prematch 0 (fill_begin flash_prematch 0 boot_engine)))) ''p0'' = Some flash_sample_slot"
proof -
  have ok: "flash_ok boot_engine" by (rule flash_reachable_ok [OF flash_reachable.boot])
  have p: "(flash_prematch, 0) \<in> places" by (simp add: places_def ZILLAFLASH_SLOTS_PER_KIND_def)
  have f: "fs_offerId flash_sample_slot \<notin> dom (fe_offerById boot_engine)" "fs_offerId (flash_sample_slot\<lparr>fs_offerId := ''p1''\<rparr>) \<noteq> fs_offerId flash_sample_slot"
    by (simp_all add: boot_engine_def flash_sample_slot_def)
  show ?thesis using overlapping_fills_leak_offer [OF ok p f, of "\<lambda>_ _ _. (''x'', 0)" "\<lambda>_. None" "\<lambda>_. 0" "[]"]
    by (simp add: Let_def flash_sample_slot_def)
qed


end
