(* ===== verification/Route_Properties.thy ===== *)
theory Route_Properties
  imports Bets_Route Intent_Properties Flash_Properties Sample_Bets
begin

text \<open>
  What POST /bets guarantees on top of the bet service: every promoted leg is
  placed at a price the server computed, no bet is placed without a valid and
  unspent intent while intents are required, and a refused request moves no
  money.
\<close>

section \<open>The flash engine during a request\<close>

lemma loadFlashConfig_idem: "loadFlashConfig c now (loadFlashConfig c now e) = loadFlashConfig c now e"
  by (auto simp: loadFlashConfig_def CONFIG_CACHE_MS_def split: option.splits)

definition steady :: "catalog \<Rightarrow> millis \<Rightarrow> flash_engine \<Rightarrow> flash_engine \<Rightarrow> bool" where
  "steady c now e e' \<longleftrightarrow> e' = e \<or> e' = loadFlashConfig (Some c) now e"

lemma validate_steady:
  assumes "steady c now e e'"
  shows "fst (validateOfferForBet c now a e') = fst (validateOfferForBet c now a e)"
    and "steady c now e (snd (validateOfferForBet c now a e'))"
  using assms by (auto simp: steady_def validateOfferForBet_def Let_def loadFlashConfig_idem split: option.splits)

text \<open>Whether a leg is a live flash offer.\<close>

definition live_leg :: "catalog \<Rightarrow> millis \<Rightarrow> flash_engine \<Rightarrow> bet_selection \<Rightarrow> bool" where
  "live_leg c now e s = (case bs_zillaFlashOfferId s of None \<Rightarrow> False
     | Some offerId \<Rightarrow> map_sum id snd (fst (validateOfferForBet c now (flash_claim_of s offerId) e)) = Inr flash_live)"

definition flash_markets :: "bet_selection list \<Rightarrow> int list" where
  "flash_markets ss = map (\<lambda>s. big_int (bs_marketId s)) (filter (\<lambda>s. bs_zillaFlashOfferId s \<noteq> None) ss)"

text \<open>What the engine does to one leg.\<close>

definition flash_priced :: "catalog \<Rightarrow> millis \<Rightarrow> flash_engine \<Rightarrow> bet_selection \<Rightarrow> bet_selection \<Rightarrow> bool" where
  "flash_priced c now e s s' = (case bs_zillaFlashOfferId s of None \<Rightarrow> s' = s
     | Some offerId \<Rightarrow> s' = s\<lparr>bs_odds := bs_odds s'\<rparr>
         \<and> map_sum id fst (fst (validateOfferForBet c now (flash_claim_of s offerId) e)) = Inr (bs_odds s'))"

lemma flash_legs_priced:
  assumes "flash_legs c now ss e' = (Inr (sels, lv, ids), e'')" and "steady c now e e'"
  shows "list_all2 (flash_priced c now e) ss sels \<and> lv = list_ex (live_leg c now e) ss \<and> ids = flash_markets ss"
  using assms
proof (induction ss arbitrary: sels lv ids e')
  case Nil
  then show ?case by (simp add: returnC_def flash_markets_def)
next
  case (Cons s ss)
  show ?case
  proof (cases "bs_zillaFlashOfferId s")
    case None
    then obtain sels' where "flash_legs c now ss e' = (Inr (sels', lv, ids), e'')" "sels = s # sels'"
      using Cons.prems(1) by (auto simp: step_simps split: prod.splits)
    then show ?thesis using Cons.IH [OF _ Cons.prems(2)] None by (auto simp: flash_priced_def live_leg_def flash_markets_def)
  next
    case (Some i)
    let ?a = "flash_claim_of s i"
    obtain odds k e1 where v: "validateOfferForBet c now ?a e' = (Inr (odds, k), e1)"
      using Cons.prems(1) Some by (auto simp: step_simps apfst_def map_prod_def map_sum_def split: prod.splits sum.splits)
    obtain sels' lv' ids' where rest: "flash_legs c now ss e1 = (Inr (sels', lv', ids'), e'')"
      and out: "(s\<lparr>bs_odds := odds\<rparr> # sels', k = flash_live \<or> lv', big_int (bs_marketId s) # ids') = (sels, lv, ids)"
      using Cons.prems(1) Some by (auto simp: step_simps v split: prod.splits)
    have e1: "steady c now e e1" using validate_steady(2) [OF Cons.prems(2), of ?a] v by simp
    have v': "fst (validateOfferForBet c now ?a e) = Inr (odds, k)" using validate_steady(1) [OF Cons.prems(2), of ?a] v by simp
    show ?thesis
      using Cons.IH [OF rest e1] v' out Some
      by (auto simp: flash_priced_def live_leg_def flash_markets_def)
  qed
qed

section \<open>Promoted legs\<close>

text \<open>A leg as it is placed: its offer's price, its rule's price, or the leg as it came.\<close>

definition leg_priced :: "catalog \<Rightarrow> millis \<Rightarrow> jsnum \<Rightarrow> flash_engine \<Rightarrow> bet_selection \<Rightarrow> bet_selection \<Rightarrow> bool" where
  "leg_priced c now riskScore e s s' \<longleftrightarrow>
    leg_ids s' = leg_ids s \<and> bs_zillaFlashOfferId s' = bs_zillaFlashOfferId s
    \<and> (case (bs_zillaFlashOfferId s, bs_boostedOddsRuleId s) of
         (Some offerId, _) \<Rightarrow> map_sum id fst (fst (validateOfferForBet c now (flash_claim_of s offerId) e)) = Inr (bs_odds s')
       | (None, Some ruleId) \<Rightarrow> bs_boostedOddsRuleId s' = Some ruleId
           \<and> map_sum id fst (validateCustomBoostForBet c now (boost_claim_of s ruleId riskScore)) = Inr (bs_odds s')
       | (None, None) \<Rightarrow> s' = s)"

lemma boost_leg_priced:
  "flash_priced c now e s m \<Longrightarrow> boost_leg c now rs m = Inr s' \<Longrightarrow> leg_priced c now rs e s s'"
  by (cases s; cases m; cases s')
     (auto simp: flash_priced_def boost_leg_def leg_priced_def leg_ids_def split: option.splits if_splits sum.splits)

lemma boost_legs_priced:
  "list_all2 (flash_priced c now e) ss ms \<Longrightarrow> boost_legs c now rs ms = Inr sels \<Longrightarrow> list_all2 (leg_priced c now rs e) ss sels"
proof (induction arbitrary: sels rule: list_all2_induct)
  case (Cons s ss m ms)
  then show ?case by (auto simp: map_sum_def boost_leg_priced split: sum.splits)
qed simp

lemma plain_legs_priced:
  assumes "list_all2 (flash_priced c now e) ss ms"
    and "\<not> list_ex (\<lambda>s. bs_boostedOddsRuleId s \<noteq> None \<and> bs_zillaFlashOfferId s = None) ms"
  shows "list_all2 (leg_priced c now rs e) ss ms"
  using assms
proof (induction rule: list_all2_induct)
  case (Cons s ss m ms)
  have "leg_priced c now rs e s m"
    using Cons.hyps(1) Cons.prems by (cases s; cases m) (auto simp: flash_priced_def leg_priced_def leg_ids_def split: option.splits)
  then show ?case using Cons by simp
qed simp

lemma custom_boosts_priced:
  "list_all2 (flash_priced c now e) ss ms \<Longrightarrow> custom_boosts c now u ms d = Inr sels \<Longrightarrow>
   list_all2 (leg_priced c now (loadViewerRiskScore d (Some u)) e) ss sels"
  by (auto simp: custom_boosts_def intro: boost_legs_priced plain_legs_priced split: if_splits)

text \<open>A leg that names both a flash offer and a boost rule keeps the rule id, unchecked, when no other leg is boosted by a rule
  alone; the same leg loses it when there is such a leg.\<close>

theorem offer_leg_keeps_unchecked_rule:
  "custom_boosts c now u [s\<lparr>bs_zillaFlashOfferId := Some oid, bs_boostedOddsRuleId := Some rid\<rparr>] d
     = Inr [s\<lparr>bs_zillaFlashOfferId := Some oid, bs_boostedOddsRuleId := Some rid\<rparr>]
   \<and> boost_leg c now rs (s\<lparr>bs_zillaFlashOfferId := Some oid, bs_boostedOddsRuleId := Some rid\<rparr>)
     = Inr (s\<lparr>bs_zillaFlashOfferId := Some oid, bs_boostedOddsRuleId := None\<rparr>)"
  by (simp add: custom_boosts_def boost_leg_def)

section \<open>The handler, step by step\<close>

lemma intent_gate_frame: "wo_db (snd (intent_gate env key up now u ctl token idem sels w)) = wo_db w"
  by (auto simp: intent_gate_def consumeIntentNonce_def bindC_def returnC_def throwC_def split: option.splits intent_check.splits sum.splits prod.splits)

definition controls_of :: "db \<Rightarrow> bot_controls_row" where
  "controls_of d = (case bot_controls d of Some r \<Rightarrow> r | None \<Rightarrow> DEFAULT_BOT_CONTROLS)"

lemma route_intent_eq:
  "route_intent env now u body w =
    intent_gate (rt_intent env) (deriveIntentKey (rt_intent env) (rt_jwtSecret env)) (rt_redisUp env) now u (controls_of (wo_db w))
      (pb_intentToken body) (pr_idempotencyKey (pb_request body)) (map leg_ids (pr_selections (pb_request body))) w"
  by (simp add: route_intent_def bindC_def on_db_def loadBotControls_def getT_def controls_of_def)

lemma zoom_frame [simp]:
  "si_flash (snd (on_world m st)) = si_flash st" "si_world (snd (on_flash n st)) = si_world st"
  by (simp_all add: zoom_def split: prod.splits)

lemma ask_tables: "on_tables (atomically (bindT (getT f) liftE)) st = (f (wo_db (si_world st)), st)"
  by (simp add: zoom_def atomically_def bindT_def getT_def liftE_def throwT_def returnT_def split: sum.splits)

text \<open>How a request ends: before the service with its tables as they were, or with the service's answer.\<close>

lemma post_bets_cases:
  obtains (refused) e where "fst (post_bets env now newId ru ip ua body st) = Inl e"
    "wo_db (si_world (snd (post_bets env now newId ru ip ua body st))) = wo_db (si_world st)"
  | (served) u issued w flashed lv ids e' sels where "ru = Some u" "parse_placeBody (rt_isUuid env) body = Inr ()"
    "route_intent env now (ru_id u) body (si_world st) = (Inr issued, w)"
    "flash_legs (be_catalog (rt_bet env)) now (pr_selections (pb_request body)) (si_flash st) = (Inr (flashed, lv, ids), e')"
    "custom_boosts (be_catalog (rt_bet env)) now (ru_id u) flashed (wo_db (si_world st)) = Inr sels"
    "\<not> flash_hidden (be_catalog (rt_bet env)) (ru_id u) ids"
    "post_bets env now newId ru ip ua body st = on_tables (place (rt_bet env) now newId ((pb_request body)\<lparr>pr_selections := sels\<rparr>)
       (place_ctx (ru_id u) ip ua lv issued)) \<lparr>si_world = w, si_flash = e'\<rparr>" "wo_db w = wo_db (si_world st)"
proof (cases "\<exists>u. ru = Some u \<and> parse_placeBody (rt_isUuid env) body = Inr ()")
  case False
  then have "\<exists>e. post_bets env now newId ru ip ua body st = (Inl e, st)"
    by (auto simp: post_bets_def Let_def bindC_def eitherC_def requireAuth_def split: option.splits sum.splits)
  then show thesis using refused by auto
next
  case True
  then obtain u where u: "ru = Some u" "parse_placeBody (rt_isUuid env) body = Inr ()" by blast
  obtain a w where gate: "route_intent env now (ru_id u) body (si_world st) = (a, w)" by fastforce
  have db: "wo_db w = wo_db (si_world st)" using gate intent_gate_frame unfolding route_intent_eq by (metis snd_conv)
  obtain b e' where legs: "flash_legs (be_catalog (rt_bet env)) now (pr_selections (pb_request body)) (si_flash st) = (b, e')" by fastforce
  note unfold = post_bets_def Let_def bindC_def eitherC_def requireAuth_def u zoom_def [of si_world] zoom_def [of si_flash] gate legs
  show thesis
  proof (cases a)
    case (Inl e)
    then show thesis using db by (intro refused) (simp_all add: unfold)
  next
    case issued: (Inr issued)
    show thesis
    proof (cases b)
      case (Inl e)
      then show thesis using db by (intro refused) (simp_all add: unfold issued)
    next
      case (Inr p)
      obtain flashed lv ids where p: "p = (flashed, lv, ids)" by (cases p)
      have st: "st\<lparr>si_world := w, si_flash := e'\<rparr> = \<lparr>si_world = w, si_flash = e'\<rparr>" by simp
      show thesis
      proof (cases "custom_boosts (be_catalog (rt_bet env)) now (ru_id u) flashed (wo_db (si_world st))")
        case (Inl e)
        then show thesis using db by (intro refused) (simp_all add: unfold issued Inr p ask_tables)
      next
        case sels: (Inr sels)
        show thesis
        proof (cases "flash_hidden (be_catalog (rt_bet env)) (ru_id u) ids")
          case True
          then show thesis using db sels by (intro refused) (simp_all add: unfold issued Inr p ask_tables throwC_def)
        next
          case False
          show thesis
            using db sels False by (intro served [OF u gate [unfolded issued] legs [unfolded Inr p]]) (simp_all add: unfold issued Inr p ask_tables st)
        qed
      qed
    qed
  qed
qed

section \<open>Prices\<close>

text \<open>C3: when POST /bets answers with a ticket, the bet service was run on the request with every promoted leg at the price the
  server computed for it: a leg with a flash offer at the engine's price for that very offer, market and outcome, a leg with a boost
  rule at the price the rule gives the bettor now, any other leg as it came; no offer is hidden from the bettor, and the shave of the
  live delay is granted exactly when one of the offers is a live one.\<close>

theorem promoted_legs_priced_by_server:
  assumes "post_bets env now newId ru ip ua body st = (Inr (t, created), st')"
  shows "\<exists>u issued sels. ru = Some u
    \<and> list_all2 (leg_priced (be_catalog (rt_bet env)) now (loadViewerRiskScore (wo_db (si_world st)) (Some (ru_id u))) (si_flash st))
        (pr_selections (pb_request body)) sels
    \<and> \<not> flash_hidden (be_catalog (rt_bet env)) (ru_id u) (flash_markets (pr_selections (pb_request body)))
    \<and> place (rt_bet env) now newId ((pb_request body)\<lparr>pr_selections := sels\<rparr>)
        (place_ctx (ru_id u) ip ua (list_ex (live_leg (be_catalog (rt_bet env)) now (si_flash st)) (pr_selections (pb_request body))) issued)
        (wo_db (si_world st)) = (Inr (t, created), wo_db (si_world st'))"
proof (cases rule: post_bets_cases [of env now newId ru ip ua body st])
  case refused
  then show ?thesis using assms by simp
next
  case (served u issued w flashed lv ids e' sels)
  note legs = flash_legs_priced [OF served(4), of "si_flash st", unfolded steady_def, simplified]
  have "list_all2 (leg_priced (be_catalog (rt_bet env)) now (loadViewerRiskScore (wo_db (si_world st)) (Some (ru_id u))) (si_flash st))
      (pr_selections (pb_request body)) sels"
    using custom_boosts_priced [OF _ served(5)] legs by blast
  moreover have "place (rt_bet env) now newId ((pb_request body)\<lparr>pr_selections := sels\<rparr>) (place_ctx (ru_id u) ip ua lv issued) (wo_db w)
      = (Inr (t, created), wo_db (si_world st'))"
    using assms served(7) by (auto simp: zoom_def split: prod.splits)
  ultimately show ?thesis using served(1,6,8) legs by (intro exI [of _ u] exI [of _ issued] exI [of _ sels]) simp
qed

section \<open>Intents\<close>

text \<open>C7: while intents are required, no ticket is answered without a token that is valid for this bettor, this slip and this moment,
  and when Redis is up the token's nonce is then held by this placement's idempotency key.\<close>

theorem placed_bet_has_intent:
  assumes "post_bets env now newId ru ip ua body st = (Inr (t, created), st')"
    and "bc_intentRequired (controls_of (wo_db (si_world st)))"
  shows "\<exists>u token claims. ru = Some u \<and> pb_intentToken body = Some token
    \<and> checkIntent (rt_intent env) token (deriveIntentKey (rt_intent env) (rt_jwtSecret env)) (ru_id u)
        (map leg_ids (pr_selections (pb_request body))) now (bc_intentTtlSeconds (controls_of (wo_db (si_world st))) * 1000)
        (bc_minHumanMs (controls_of (wo_db (si_world st)))) = intent_ok claims
    \<and> (rt_redisUp env \<longrightarrow> redis_get now (intentUsedKey (ic_n claims)) (wo_redis (si_world st')) = Some (RText (pr_idempotencyKey (pb_request body))))"
proof (cases rule: post_bets_cases [of env now newId ru ip ua body st])
  case refused
  then show ?thesis using assms by simp
next
  case (served u issued w flashed lv ids e' sels)
  let ?ctl = "controls_of (wo_db (si_world st))" and ?k = "pr_idempotencyKey (pb_request body)"
  note gate = served(3) [unfolded route_intent_eq]
  obtain token where token: "pb_intentToken body = Some token"
    using gate assms(2) by (cases "pb_intentToken body") (auto simp: intent_gate_def throwC_def)
  obtain claims where ok: "checkIntent (rt_intent env) token (deriveIntentKey (rt_intent env) (rt_jwtSecret env)) (ru_id u)
        (map leg_ids (pr_selections (pb_request body))) now (bc_intentTtlSeconds ?ctl * 1000) (bc_minHumanMs ?ctl) = intent_ok claims"
    and burn: "consumeIntentNonce (rt_redisUp env) now (ic_n claims) ?k (bc_intentTtlSeconds ?ctl) (si_world st) = (Inr (), w)"
    using gate_okD [OF _ assms(2), of "rt_intent env" "deriveIntentKey (rt_intent env) (rt_jwtSecret env)" "rt_redisUp env" now "ru_id u" token ?k
        "map leg_ids (pr_selections (pb_request body))" "si_world st" issued] gate unfolding token by (metis fst_conv prod.collapse snd_conv)
  have "wo_redis (si_world st') = wo_redis w" using assms(1) served(7) by (auto simp: zoom_def split: prod.splits)
  moreover have "bc_intentTtlSeconds ?ctl + 60 > 0" using checkIntent_okD [OF ok] by (simp add: MAX_FUTURE_SKEW_MS_def)
  then have "rt_redisUp env \<Longrightarrow> redis_get now (intentUsedKey (ic_n claims)) (wo_redis w) = Some (RText ?k)"
    using burn by (auto simp: consumeIntentNonce_def redis_setnx_def redis_set_def redis_get_def split: option.splits if_splits)
  ultimately show ?thesis using served(1) token ok by auto
qed

section \<open>Money\<close>

text \<open>C17: whatever POST /bets is sent, the books stay balanced; and when it does not answer with a new ticket, no table but the log
  of risk decisions has changed.\<close>

theorem post_bets_keeps_books:
  assumes "books_ok (wo_db (si_world st))" and "post_bets env now newId ru ip ua body st = (a, st')"
  shows "books_ok (wo_db (si_world st'))
    \<and> ((\<forall>t. a \<noteq> Inr (t, True)) \<longrightarrow> wo_db (si_world st') = wo_db (si_world st)
        \<or> (\<exists>ev. ev_ticketId ev = None
            \<and> wo_db (si_world st') = (wo_db (si_world st))\<lparr>riskzilla_event_log := riskzilla_event_log (wo_db (si_world st)) @ [ev]\<rparr>))"
proof (cases rule: post_bets_cases [of env now newId ru ip ua body st])
  case refused
  then have "wo_db (si_world st') = wo_db (si_world st)" using assms(2) by simp
  then show ?thesis using assms(1) by metis
next
  case (served u issued w flashed lv ids e' sels)
  have run: "place (rt_bet env) now newId ((pb_request body)\<lparr>pr_selections := sels\<rparr>) (place_ctx (ru_id u) ip ua lv issued) (wo_db (si_world st))
      = (a, wo_db (si_world st'))"
    using assms(2) served(7,8) by (auto simp: zoom_def split: prod.splits)
  show ?thesis
  proof (intro conjI impI)
    show "books_ok (wo_db (si_world st'))" by (rule keepsCD [OF books_place assms(1) run])
  next
    assume "\<forall>t. a \<noteq> Inr (t, True)"
    then show "wo_db (si_world st') = wo_db (si_world st) \<or> (\<exists>ev. ev_ticketId ev = None
        \<and> wo_db (si_world st') = (wo_db (si_world st))\<lparr>riskzilla_event_log := riskzilla_event_log (wo_db (si_world st)) @ [ev]\<rparr>)"
      using place_not_created [OF run] by metis
  qed
qed

section \<open>A sample request\<close>

definition route_claims :: intent_claims where
  "route_claims = sample_claims\<lparr>ic_u := ''ann''\<rparr>"

definition sample_route_env :: route_env where
  "sample_route_env = \<lparr>rt_bet = sample_bet_env\<lparr>be_catalog := boost_catalog\<rparr>,
     rt_intent = sample_intent_env\<lparr>ie_parse := \<lambda>_. Some (claims_json route_claims)\<rparr>, rt_jwtSecret = ''s'', rt_redisUp = True, rt_isUuid = (\<lambda>_. True)\<rparr>"

definition sample_token :: string where
  "sample_token = signIntent (rt_intent sample_route_env) route_claims (deriveIntentKey (rt_intent sample_route_env) ''s'')"

definition boosted_body :: place_body where
  "boosted_body = \<lparr>pb_request = sample_request ''USDC'' None [(sample_selection ''11'' ''8.00'')\<lparr>bs_outcomeId := ''2'', bs_boostedOddsRuleId := Some ''r''\<rparr>],
     pb_intentToken = Some sample_token\<rparr>"

definition sample_site :: site where
  "sample_site = \<lparr>si_world = \<lparr>wo_db = sample_db, wo_redis = Map.empty\<rparr>, si_flash = boot_engine\<rparr>"

definition ann :: authed_user where
  "ann = \<lparr>ru_id = ''ann'', ru_role = user_r\<rparr>"

lemma sample_route_run:
  obtains t st' where "post_bets sample_route_env 10000 ''t2'' (Some ann) None None boosted_body sample_site = (Inr (t, True), st')"
    "t_potentialPayoutMicro t = 160"
proof -
  have "map_sum id (\<lambda>(t, c). (t_currency t, t_betType t, t_potentialPayoutMicro t, t_status t, c))
      (fst (post_bets sample_route_env 10000 ''t2'' (Some ann) None None boosted_body sample_site)) = Inr (USDC, single, 160, accepted, True)"
    by code_simp
  then show thesis unfolding created_iff using that by (metis prod.collapse)
qed

theorem promoted_legs_priced_by_server_witness:
  "\<exists>t st'. post_bets sample_route_env 10000 ''t2'' (Some ann) None None boosted_body sample_site = (Inr (t, True), st')
    \<and> (\<exists>s'. leg_priced boost_catalog 10000 (loadViewerRiskScore sample_db (Some ''ann'')) boot_engine
        (hd (pr_selections (pb_request boosted_body))) s' \<and> bs_boostedOddsRuleId s' = Some ''r'')"
proof -
  obtain t st' where run: "post_bets sample_route_env 10000 ''t2'' (Some ann) None None boosted_body sample_site = (Inr (t, True), st')"
    by (rule sample_route_run)
  obtain sels where "list_all2 (leg_priced boost_catalog 10000 (loadViewerRiskScore sample_db (Some ''ann'')) boot_engine)
      (pr_selections (pb_request boosted_body)) sels"
    using promoted_legs_priced_by_server [OF run] by (auto simp: sample_route_env_def sample_site_def ann_def)
  then obtain s' where s': "leg_priced boost_catalog 10000 (loadViewerRiskScore sample_db (Some ''ann'')) boot_engine
        (hd (pr_selections (pb_request boosted_body))) s'"
    by (auto simp: boosted_body_def sample_request_def list_all2_Cons1)
  then have "bs_boostedOddsRuleId s' = Some ''r''" by (simp add: leg_priced_def boosted_body_def sample_request_def sample_selection_def)
  then show ?thesis using run s' by blast
qed

theorem placed_bet_has_intent_witness:
  "\<exists>t st' (claims :: intent_claims). post_bets sample_route_env 10000 ''t2'' (Some ann) None None boosted_body sample_site = (Inr (t, True), st')
    \<and> redis_get 10000 (intentUsedKey (ic_n claims)) (wo_redis (si_world st')) = Some (RText ''key-0001'')"
proof -
  obtain t st' where run: "post_bets sample_route_env 10000 ''t2'' (Some ann) None None boosted_body sample_site = (Inr (t, True), st')"
    by (rule sample_route_run)
  have "bc_intentRequired (controls_of (wo_db (si_world sample_site)))" by code_simp
  from placed_bet_has_intent [OF run this] run show ?thesis
    by (auto simp: sample_route_env_def boosted_body_def sample_request_def)
qed

theorem post_bets_keeps_books_witness:
  "\<exists>t st'. post_bets sample_route_env 10000 ''t2'' (Some ann) None None boosted_body sample_site = (Inr (t, True), st')
    \<and> books_ok (wo_db (si_world st'))"
proof -
  obtain t st' where run: "post_bets sample_route_env 10000 ''t2'' (Some ann) None None boosted_body sample_site = (Inr (t, True), st')"
    by (rule sample_route_run)
  have "books_ok (wo_db (si_world sample_site))" using sample_books_ok by (simp add: sample_site_def)
  from post_bets_keeps_books [OF this run] run show ?thesis by blast
qed

end
