(* ===== verification/Slot_Config.thy ===== *)
theory Slot_Config
  imports Slot_Books Sample
begin

text \<open>
  The operator's settings of the SlotZilla game, modules/admin/slotzilla.ts:
  the config row and the paytables.  Request bodies are the values the schema
  validation sees; numbers are integers, so the refusal of fractions is left
  out, and the entries of an object have distinct keys.
\<close>

section \<open>Wire shapes\<close>

definition configToResponse :: "slotzilla_config_row \<Rightarrow> (string \<times> json) list" where
  "configToResponse row = [(''enabled'', JBool (sc_enabled row)),
     (''currencies'', JArr (map JStr (sc_currencies row))),
     (''rtpTargetBp'', JNum (sc_rtpTargetBp row)),
     (''leadSeconds'', JNum (sc_leadSeconds row)),
     (''clockPastSeconds'', JNum (sc_clockPastSeconds row)),
     (''graceSeconds'', JNum (sc_graceSeconds row)),
     (''feedDarkVoidSeconds'', JNum (sc_feedDarkVoidSeconds row)),
     (''minStakeMicro'', JStr (show_int (sc_minStakeMicro row))),
     (''maxStakeMicro'', JStr (show_int (sc_maxStakeMicro row))),
     (''maxPayoutMicro'', JStr (show_int (sc_maxPayoutMicro row))),
     (''matchLiabilityCapMicro'', JStr (show_int (sc_matchLiabilityCapMicro row))),
     (''returnAlarmMarginBp'', JNum (sc_returnAlarmMarginBp row)),
     (''returnAlarmMinSpins'', JNum (sc_returnAlarmMinSpins row)),
     (''autoplayEnabled'', JBool (sc_autoplayEnabled row)),
     (''updatedAt'', JNum (sc_updatedAt row))]"

definition paytableToResponse :: "slotzilla_paytables_row \<Rightarrow> (string \<times> json) list" where
  "paytableToResponse row = [(''id'', JStr (show_int (pt_id row))), (''name'', JStr (pt_name row)),
     (''lines'', JObj (map (\<lambda>(k, m). (line_text k, JNum m)) (paytableLinesOf (pt_lines row)))),
     (''fittedRtpBp'', case pt_fittedRtpBp row of None \<Rightarrow> JNull | Some n \<Rightarrow> JNum n),
     (''corpusNote'', case pt_corpusNote row of None \<Rightarrow> JNull | Some n \<Rightarrow> JStr n),
     (''active'', JBool (pt_active row)),
     (''updatedAt'', JNum (pt_updatedAt row))]"

section \<open>Validation\<close>

definition zod :: "string \<Rightarrow> bool \<Rightarrow> failure option" where
  "zod field c = (if c then None else Some (ZodError field))"

lemma zod_None [simp]: "zod field c = None \<longleftrightarrow> c"
  by (simp add: zod_def)

definition zods :: "failure option list \<Rightarrow> failure + unit" where
  "zods checks = (case first_some checks of Some e \<Rightarrow> Inl e | None \<Rightarrow> Inr ())"

definition between :: "int \<Rightarrow> int \<Rightarrow> int \<Rightarrow> bool" where
  "between lo hi x \<longleftrightarrow> lo \<le> x \<and> x \<le> hi"

definition microString :: "string \<Rightarrow> bool" where
  "microString t \<longleftrightarrow> is_digits t \<and> length t \<le> 20"

record config_body =
  cb_enabled :: bool
  cb_currencies :: "string list"
  cb_rtpTargetBp :: int
  cb_leadSeconds :: int
  cb_clockPastSeconds :: int
  cb_graceSeconds :: int
  cb_feedDarkVoidSeconds :: int
  cb_minStakeMicro :: string
  cb_maxStakeMicro :: string
  cb_maxPayoutMicro :: string
  cb_matchLiabilityCapMicro :: string
  cb_returnAlarmMarginBp :: int
  cb_returnAlarmMinSpins :: int
  cb_autoplayEnabled :: bool

definition parse_configBody :: "config_body \<Rightarrow> failure + unit" where
  "parse_configBody b = zods
    [zod ''currencies'' (list_all (\<lambda>c. isCurrency c \<noteq> None) (cb_currencies b) \<and> length (cb_currencies b) \<le> 2),
     zod ''rtpTargetBp'' (between 5000 9900 (cb_rtpTargetBp b)),
     zod ''leadSeconds'' (between 5 60 (cb_leadSeconds b)),
     zod ''clockPastSeconds'' (between 0 60 (cb_clockPastSeconds b)),
     zod ''graceSeconds'' (between 0 120 (cb_graceSeconds b)),
     zod ''feedDarkVoidSeconds'' (between 30 3600 (cb_feedDarkVoidSeconds b)),
     zod ''minStakeMicro'' (microString (cb_minStakeMicro b)),
     zod ''maxStakeMicro'' (microString (cb_maxStakeMicro b)),
     zod ''maxPayoutMicro'' (microString (cb_maxPayoutMicro b)),
     zod ''matchLiabilityCapMicro'' (microString (cb_matchLiabilityCapMicro b)),
     zod ''returnAlarmMarginBp'' (between 0 10000 (cb_returnAlarmMarginBp b)),
     zod ''returnAlarmMinSpins'' (between 1 100000 (cb_returnAlarmMinSpins b))]"

definition linesBody_ok :: "(string \<times> int) list \<Rightarrow> bool" where
  "linesBody_ok raw \<longleftrightarrow> list_all (\<lambda>(k, v). between 0 10000000 v) raw"

fun parseLines :: "(string \<times> int) list \<Rightarrow> failure + (string \<times> json) list" where
  "parseLines [] = Inr []"
| "parseLines ((k, v) # raw) =
     (if isLineKey k = None then Inl (BadRequestError (''invalid_line_key: '' @ k) ''invalid_line_key'')
      else case parseLines raw of Inl e \<Rightarrow> Inl e | Inr out \<Rightarrow> Inr ((k, JNum v) # out))"

record paytable_body =
  pb_name :: "string option"
  pb_lines :: "(string \<times> int) list option"
  pb_fittedRtpBp :: "int option option"
  pb_corpusNote :: "string option option"

text \<open>The checks and the trimming the two bodies share; creation requires name and lines.\<close>

definition trimmed_body :: "paytable_body \<Rightarrow> paytable_body" where
  "trimmed_body b = b\<lparr>pb_name := map_option js_trim (pb_name b),
     pb_corpusNote := map_option (map_option js_trim) (pb_corpusNote b)\<rparr>"

definition parse_paytableBody :: "bool \<Rightarrow> paytable_body \<Rightarrow> failure + paytable_body" where
  "parse_paytableBody required body = (let b = trimmed_body body in
    map_sum id (\<lambda>_. b) (zods
      [zod ''name'' (case pb_name b of None \<Rightarrow> \<not> required | Some n \<Rightarrow> 1 \<le> length n \<and> length n \<le> 80),
       zod ''lines'' (case pb_lines b of None \<Rightarrow> \<not> required | Some raw \<Rightarrow> linesBody_ok raw),
       zod ''fittedRtpBp'' (case pb_fittedRtpBp b of Some (Some n) \<Rightarrow> between 0 20000 n | _ \<Rightarrow> True),
       zod ''corpusNote'' (case pb_corpusNote b of Some (Some n) \<Rightarrow> length n \<le> 500 | _ \<Rightarrow> True)]))"

section \<open>The config row\<close>

definition config_row :: "millis \<Rightarrow> uuid \<Rightarrow> config_body \<Rightarrow> slotzilla_config_row" where
  "config_row now adminId body = \<lparr>sc_enabled = cb_enabled body,
     sc_currencies = array_from_set (cb_currencies body), sc_rtpTargetBp = cb_rtpTargetBp body,
     sc_leadSeconds = cb_leadSeconds body, sc_clockPastSeconds = cb_clockPastSeconds body,
     sc_graceSeconds = cb_graceSeconds body, sc_feedDarkVoidSeconds = cb_feedDarkVoidSeconds body,
     sc_minStakeMicro = big_int (cb_minStakeMicro body), sc_maxStakeMicro = big_int (cb_maxStakeMicro body),
     sc_maxPayoutMicro = big_int (cb_maxPayoutMicro body),
     sc_matchLiabilityCapMicro = big_int (cb_matchLiabilityCapMicro body),
     sc_returnAlarmMarginBp = cb_returnAlarmMarginBp body,
     sc_returnAlarmMinSpins = cb_returnAlarmMinSpins body,
     sc_autoplayEnabled = cb_autoplayEnabled body, sc_updatedBy = Some adminId, sc_updatedAt = now\<rparr>"

definition put_config ::
  "millis \<Rightarrow> string option \<Rightarrow> authed_user option \<Rightarrow> config_body \<Rightarrow> slotzilla_config_row dbtx" where
  "put_config now ip ru body =
    bindT (liftE (requireRole admin_r ru)) (\<lambda>admin.
    thenT (liftE (parse_configBody body)) (
    let new_row = config_row now (ru_id admin) body in
    thenT (throwIf (sc_minStakeMicro new_row \<le> 0 \<or> sc_maxStakeMicro new_row < sc_minStakeMicro new_row)
      (bad ''stake_bounds_inverted'')) (
    thenT (throwIf (sc_maxPayoutMicro new_row \<le> 0 \<or> sc_matchLiabilityCapMicro new_row \<le> 0)
      (bad ''caps_must_be_positive'')) (
    bindT loadConfig (\<lambda>before.
    thenT (update_config (\<lambda>_. new_row)) (
    thenT (insert_audit (audit_entry (ru_id admin) ''slotzilla.config.update'' ''slotzilla_config'' ''default''
      (configToResponse before) (configToResponse new_row) ip)) (
    returnT new_row)))))))"

section \<open>The paytables\<close>

definition paytable_not_found :: failure where
  "paytable_not_found = NotFoundError ''paytable_not_found'' ''paytable_not_found''"

definition audit_created ::
  "uuid \<Rightarrow> string \<Rightarrow> string \<Rightarrow> string \<Rightarrow> (string \<times> json) list \<Rightarrow> string option \<Rightarrow> audit_row" where
  "audit_created actor action targetType targetId after ip =
     (audit_entry actor action targetType targetId [] after ip)\<lparr>au_beforeJson := JNull\<rparr>"

definition create_paytable ::
  "millis \<Rightarrow> string option \<Rightarrow> int \<Rightarrow> authed_user option \<Rightarrow> paytable_body \<Rightarrow> slotzilla_paytables_row dbtx" where
  "create_paytable now ip newId ru raw =
    bindT (liftE (requireRole admin_r ru)) (\<lambda>admin.
    bindT (liftE (parse_paytableBody True raw)) (\<lambda>body.
    bindT (liftE (parseLines (the (pb_lines body)))) (\<lambda>lines.
    let row = \<lparr>pt_id = newId, pt_name = the (pb_name body), pt_lines = lines,
        pt_fittedRtpBp = Option.bind (pb_fittedRtpBp body) id, pt_corpusNote = Option.bind (pb_corpusNote body) id,
        pt_active = False, pt_updatedBy = Some (ru_id admin), pt_updatedAt = now\<rparr> in
    thenT (insert_paytable row) (
    thenT (insert_audit (audit_created (ru_id admin) ''slotzilla.paytable.create'' ''slotzilla_paytable''
      (show_int newId) (paytableToResponse row) ip)) (
    returnT row)))))"

definition optional_lines :: "(string \<times> int) list option \<Rightarrow> failure + (string \<times> json) list option" where
  "optional_lines raw = (case raw of None \<Rightarrow> Inr None | Some ls \<Rightarrow> map_sum id Some (parseLines ls))"

definition paytable_set ::
  "millis \<Rightarrow> uuid \<Rightarrow> paytable_body \<Rightarrow> (string \<times> json) list option \<Rightarrow> slotzilla_paytables_row \<Rightarrow>
   slotzilla_paytables_row" where
  "paytable_set now adminId body lines r = r\<lparr>
     pt_name := (case pb_name body of None \<Rightarrow> pt_name r | Some n \<Rightarrow> n),
     pt_lines := (case lines of None \<Rightarrow> pt_lines r | Some ls \<Rightarrow> ls),
     pt_fittedRtpBp := (case pb_fittedRtpBp body of None \<Rightarrow> pt_fittedRtpBp r | Some v \<Rightarrow> v),
     pt_corpusNote := (case pb_corpusNote body of None \<Rightarrow> pt_corpusNote r | Some v \<Rightarrow> v),
     pt_updatedBy := Some adminId, pt_updatedAt := now\<rparr>"

definition update_paytable ::
  "millis \<Rightarrow> string option \<Rightarrow> authed_user option \<Rightarrow> int \<Rightarrow> paytable_body \<Rightarrow> slotzilla_paytables_row dbtx" where
  "update_paytable now ip ru i raw =
    bindT (liftE (requireRole admin_r ru)) (\<lambda>admin.
    bindT (liftE (parse_paytableBody False raw)) (\<lambda>body.
    bindT (loadPaytableById i) (\<lambda>hit.
    bindT (someOr paytable_not_found hit) (\<lambda>before.
    bindT (liftE (optional_lines (pb_lines body))) (\<lambda>lines.
    thenT (update_paytables (\<lambda>r. pt_id r = i) (paytable_set now (ru_id admin) body lines)) (
    bindT (loadPaytableById i) (\<lambda>hit'.
    bindT (someOr paytable_not_found hit') (\<lambda>updated.
    thenT (insert_audit (audit_entry (ru_id admin) ''slotzilla.paytable.update'' ''slotzilla_paytable''
      (show_int i) (paytableToResponse before) (paytableToResponse updated) ip)) (
    returnT updated)))))))))"

definition activate_paytable ::
  "millis \<Rightarrow> string option \<Rightarrow> authed_user option \<Rightarrow> int \<Rightarrow> slotzilla_paytables_row dbtx" where
  "activate_paytable now ip ru i =
    bindT (liftE (requireRole admin_r ru)) (\<lambda>admin.
    bindT (loadPaytableById i) (\<lambda>hit.
    bindT (someOr paytable_not_found hit) (\<lambda>target.
    if pt_active target then returnT target
    else
      bindT loadActivePaytable (\<lambda>previous.
      thenT (update_paytables pt_active (\<lambda>r. r\<lparr>pt_active := False, pt_updatedAt := now\<rparr>)) (
      thenT (update_paytables (\<lambda>r. pt_id r = i)
        (\<lambda>r. r\<lparr>pt_active := True, pt_updatedBy := Some (ru_id admin), pt_updatedAt := now\<rparr>)) (
      bindT (loadPaytableById i) (\<lambda>hit'.
      bindT (someOr paytable_not_found hit') (\<lambda>activated.
      thenT (insert_audit (audit_entry (ru_id admin) ''slotzilla.paytable.activate'' ''slotzilla_paytable''
        (show_int i)
        [(''activeId'', case previous of None \<Rightarrow> JNull | Some p \<Rightarrow> JStr (show_int (pt_id p)))]
        [(''activeId'', JStr (show_int (pt_id activated)))] ip)) (
      returnT activated)))))))))"

section \<open>The books are not touched\<close>

lemma books_settings_frame:
  assumes "keeps schema_ok m" and "\<And>s x t. m s = Inr (x, t) \<Longrightarrow>
    (\<exists>ps. t = s\<lparr>slotzilla_paytables := ps\<rparr>) \<or> (\<exists>c. t = s\<lparr>slotzilla_config := c\<rparr>)"
  shows "keeps books_ok m"
proof (rule keepsI)
  fix s x t
  assume ok: "books_ok s" and run: "m s = Inr (x, t)"
  have "schema_ok t" using keepsD [OF assms(1) books_okD(1) [OF ok] run] .
  then show "books_ok t" using assms(2) [OF run] by (auto intro: books_frame [OF ok])
qed

lemma books_settings [keeps_intros]:
  "keeps books_ok (update_paytables P f)" "keeps books_ok (insert_paytable r)" "keeps books_ok (update_config g)"
  by (rule books_settings_frame, rule keeps_intros, force simp: step_simps)+

lemma books_settings_calls [keeps_intros]:
  "keeps books_ok (put_config now ip ru cb)" "keeps books_ok (create_paytable now ip newId ru b)"
  "keeps books_ok (update_paytable now ip ru i b)" "keeps books_ok (activate_paytable now ip ru i)"
  unfolding put_config_def create_paytable_def update_paytable_def activate_paytable_def
    loadConfig_def loadPaytableById_def loadActivePaytable_def Let_def
  by (intro keeps_intros books_audit)+

section \<open>What the settings guarantee\<close>

lemma one_active:
  assumes "paytables_uniq rs = None" and "r \<in> set rs" and "pt_active r"
  shows "filter pt_active rs = [r]"
proof -
  have mf: "List.map_filter (\<lambda>r. if pt_active r then Some True else None) xs = map (\<lambda>_. True) (filter pt_active xs)" for xs
    by (induction xs) (simp_all add: map_filter_simps)
  have "length (filter pt_active rs) \<le> 1"
    using assms(1) by (cases "filter pt_active rs" rule: remdups_adj.cases) (auto simp: paytables_uniq_def mf)
  moreover have "r \<in> set (filter pt_active rs)" using assms by simp
  ultimately show ?thesis by (cases "filter pt_active rs") auto
qed

lemma select_one_single: "filter P rs = [r] \<Longrightarrow> select_one P rs = Some r"
  by (induction rs) (auto split: if_splits)

lemma schema_paytables: "schema_ok s \<Longrightarrow> paytables_uniq (slotzilla_paytables s) = None"
  by (simp add: schema_ok_def table_ok_def)

lemma paytable_ids: "schema_ok s \<Longrightarrow> distinct (map pt_id (slotzilla_paytables s))"
  by (simp add: schema_ok_def table_ok_def paytables_uniq_def)

lemma activate_paytable_effect [consumes 1, case_names already switched]:
  assumes "activate_paytable now ip ru i s = Inr (row, t)"
  obtains admin where "ru = Some admin" "ru_role admin = admin_r" "t = s" "pt_active row"
      "select_one (\<lambda>p. pt_id p = i) (slotzilla_paytables s) = Some row"
  | admin target a where "ru = Some admin" "ru_role admin = admin_r" "\<not> pt_active target"
      "select_one (\<lambda>p. pt_id p = i) (slotzilla_paytables s) = Some target"
      "t = s\<lparr>slotzilla_paytables := update_where (\<lambda>r. pt_id r = i)
          (\<lambda>r. r\<lparr>pt_active := True, pt_updatedBy := Some (ru_id admin), pt_updatedAt := now\<rparr>)
          (update_where pt_active (\<lambda>r. r\<lparr>pt_active := False, pt_updatedAt := now\<rparr>) (slotzilla_paytables s)),
        admin_audit_log := admin_audit_log s @ [a]\<rparr>"
      "select_one (\<lambda>p. pt_id p = i) (slotzilla_paytables t) = Some row"
  using assms
  by (auto simp: activate_paytable_def loadPaytableById_def loadActivePaytable_def step_simps split: if_splits)

text \<open>Making a paytable the active one leaves it as the only active table, whichever was
  active before, so it is the table the next spin of a game without a table of its own is
  priced from; no table changes its lines, no table appears or disappears, and no spin moves.\<close>

theorem activated_paytable_alone:
  assumes "books_ok s" and "activate_paytable now ip ru i s = Inr (row, t)"
  shows "filter pt_active (slotzilla_paytables t) = [row] \<and> pt_id row = i
    \<and> paytableForGame None t = Inr (Some row, t)
    \<and> map (\<lambda>p. (pt_id p, pt_name p, pt_lines p)) (slotzilla_paytables t) =
        map (\<lambda>p. (pt_id p, pt_name p, pt_lines p)) (slotzilla_paytables s)
    \<and> slotzilla_spins t = slotzilla_spins s"
proof -
  have uniq: "paytables_uniq (slotzilla_paytables t) = None"
    using keepsD [OF books_settings_calls(4) assms] by (blast intro: schema_paytables dest: books_okD)
  have row: "select_one (\<lambda>p. pt_id p = i) (slotzilla_paytables t) = Some row \<and> pt_active row"
    and rest: "map (\<lambda>p. (pt_id p, pt_name p, pt_lines p)) (slotzilla_paytables t) =
        map (\<lambda>p. (pt_id p, pt_name p, pt_lines p)) (slotzilla_paytables s) \<and> slotzilla_spins t = slotzilla_spins s"
    using assms(2) by (cases rule: activate_paytable_effect;
        auto simp: update_where_def dest!: select_one_SomeD)+
  note mem = select_one_SomeD [OF conjunct1 [OF row]]
  then have only: "filter pt_active (slotzilla_paytables t) = [row]" using one_active [OF uniq] row by blast
  then have "select_one pt_active (slotzilla_paytables t) = Some row"
    by (simp add: select_one_single)
  then show ?thesis using only mem rest
    by (simp add: paytableForGame_def loadActivePaytable_def getT_def)
qed

theorem activated_paytable_alone_witness:
  "\<exists>row t. activate_paytable 9 None (Some sample_op) 2 sample_db = Inr (row, t)
    \<and> filter pt_active (slotzilla_paytables t) = [row] \<and> pt_id row = 2
    \<and> paytableForGame None t = Inr (Some row, t)
    \<and> map (\<lambda>p. (pt_id p, pt_name p, pt_lines p)) (slotzilla_paytables t) =
        map (\<lambda>p. (pt_id p, pt_name p, pt_lines p)) (slotzilla_paytables sample_db)
    \<and> slotzilla_spins t = slotzilla_spins sample_db"
proof -
  have "\<not> isl (activate_paytable 9 None (Some sample_op) 2 sample_db)" by code_simp
  then obtain row t where "activate_paytable 9 None (Some sample_op) 2 sample_db = Inr (row, t)"
    by (cases "activate_paytable 9 None (Some sample_op) 2 sample_db") auto
  then show ?thesis using activated_paytable_alone [OF sample_books_ok] by blast
qed

section \<open>Editing a paytable\<close>

lemma zods_Inr [simp]: "zods cs = Inr u \<longleftrightarrow> (\<forall>c \<in> set cs. c = None)"
  using first_some_None [of cs]
  by (cases "first_some cs") (auto simp: zods_def simp del: first_some_None dest: first_some_SomeD)

lemma map_sum_Inr: "map_sum f g x = Inr y \<longleftrightarrow> (\<exists>a. x = Inr a \<and> y = g a)"
  by (cases x) auto

lemma parse_paytableBody_Inr:
  assumes "parse_paytableBody required body = Inr b"
  shows "b = trimmed_body body" and "pb_lines b = Some raw \<Longrightarrow> linesBody_ok raw"
  using assms by (auto simp: parse_paytableBody_def Let_def map_sum_Inr split: sum.splits)

lemma parseLines_lines:
  assumes "parseLines raw = Inr out" and "linesBody_ok raw"
  shows "paytableLinesOf out = map (\<lambda>(k, v). (the (isLineKey k), v)) raw"
  using assms
  by (induction raw arbitrary: out rule: parseLines.induct)
     (auto simp: linesBody_ok_def between_def paytableLinesOf_def paytable_line_def map_filter_simps
       split: if_splits sum.splits)

lemma update_paytable_effect:
  assumes "update_paytable now ip ru i raw s = Inr (row, t)"
  obtains admin before body lines a where "ru = Some admin" "ru_role admin = admin_r"
    "parse_paytableBody False raw = Inr body" "optional_lines (pb_lines body) = Inr lines"
    "select_one (\<lambda>p. pt_id p = i) (slotzilla_paytables s) = Some before"
    "row = paytable_set now (ru_id admin) body lines before"
    "t = s\<lparr>slotzilla_paytables := update_where (\<lambda>r. pt_id r = i)
        (paytable_set now (ru_id admin) body lines) (slotzilla_paytables s),
      admin_audit_log := admin_audit_log s @ [a]\<rparr>"
    "select_one (\<lambda>p. pt_id p = i) (slotzilla_paytables t) = Some row"
proof -
  have upd: "select_one (\<lambda>p. pt_id p = i) (update_where (\<lambda>r. pt_id r = i) (paytable_set now u b ls) rs) =
      map_option (paytable_set now u b ls) (select_one (\<lambda>p. pt_id p = i) rs)" for u b ls rs
    by (induction rs) (simp_all add: paytable_set_def)
  from assms show ?thesis
    by (auto simp: update_paytable_def loadPaytableById_def step_simps upd intro: that)
qed

text \<open>New lines for a paytable take effect for spins already open: the spin keeps its
  booked exposure and its paytable id, and the table it is settled from by that id is the
  edited one.\<close>

theorem edit_reprices_open_spins:
  assumes "update_paytable now ip ru i body s = Inr (row, t)" and "pb_lines body = Some raw"
    and "sp \<in> set (slotzilla_spins s)" and "sp_status sp = spin_open" and "sp_paytableId sp = i"
  shows "sp \<in> set (slotzilla_spins t) \<and> loadPaytableById (sp_paytableId sp) t = Inr (Some row, t)
    \<and> paytableLinesOf (pt_lines row) = map (\<lambda>(k, v). (the (isLineKey k), v)) raw"
  using assms(1)
proof (cases rule: update_paytable_effect)
  case (1 admin before b lines a)
  have raw: "pb_lines b = Some raw" using parse_paytableBody_Inr(1) [OF 1(3)] assms(2) by (simp add: trimmed_body_def)
  then obtain ls where ls: "parseLines raw = Inr ls" "lines = Some ls"
    using 1(4) by (auto simp: optional_lines_def map_sum_Inr)
  have "paytableLinesOf ls = map (\<lambda>(k, v). (the (isLineKey k), v)) raw"
    using parseLines_lines [OF ls(1) parse_paytableBody_Inr(2) [OF 1(3) raw]] .
  then show ?thesis using 1(6-8) assms(3,5) ls(2)
    by (simp add: paytable_set_def loadPaytableById_def getT_def)
qed

text \<open>On the sample, the edit lets a spin booked with an exposure of 80 pay 2500.\<close>

definition sample_edit :: paytable_body where
  "sample_edit = \<lparr>pb_name = None, pb_lines = Some [(''any2:P2'', 10000)], pb_fittedRtpBp = None, pb_corpusNote = None\<rparr>"

theorem edit_reprices_open_spins_witness:
  "\<exists>row t. update_paytable 9 None (Some sample_op) 1 sample_edit sample_db = Inr (row, t)
    \<and> sample_spin \<in> set (slotzilla_spins t) \<and> loadPaytableById (sp_paytableId sample_spin) t = Inr (Some row, t)
    \<and> paytableLinesOf (pt_lines row) = [(any2 P2, 10000)]
    \<and> payoutMicro (sp_stakeMicro sample_spin) 10000 = Inr 2500 \<and> sp_exposureMicro sample_spin = 80"
proof -
  have "\<not> isl (update_paytable 9 None (Some sample_op) 1 sample_edit sample_db)" by code_simp
  then obtain row t where run: "update_paytable 9 None (Some sample_op) 1 sample_edit sample_db = Inr (row, t)"
    by (cases "update_paytable 9 None (Some sample_op) 1 sample_edit sample_db") auto
  have "isLineKey ''any2:P2'' = Some (any2 P2)" by code_simp
  moreover have "payoutMicro 25 10000 = Inr 2500" by code_simp
  ultimately show ?thesis
    using run edit_reprices_open_spins [OF run, of "[(''any2:P2'', 10000)]" sample_spin]
    by (auto simp: sample_edit_def sample_spin_def sample_db_def)
qed

section \<open>Errors of the config editor\<close>

lemma zods_no_pg: "list_all (\<lambda>x. x \<noteq> Some (PgError st c)) cs \<Longrightarrow> zods cs \<noteq> Inl (PgError st c)"
  by (auto simp: zods_def list_all_iff simp del: first_some_None split: option.splits dest: first_some_SomeD)

lemma zod_no_pg [simp]: "zod field b \<noteq> Some (PgError st c)"
  by (simp add: zod_def)

lemma parse_configBody_no_pg: "parse_configBody b \<noteq> Inl (PgError st c)"
  unfolding parse_configBody_def by (rule zods_no_pg) simp

lemma requireRole_no_pg: "requireRole r ru \<noteq> Inl (PgError st c)"
  by (auto simp: requireRole_def api_error_defs split: option.splits)

lemma config_viol_of_valid:
  assumes "parse_configBody b = Inr ()" and "config_viol (config_row now u b) = Some e"
    and "0 < big_int (cb_minStakeMicro b)" "big_int (cb_minStakeMicro b) \<le> big_int (cb_maxStakeMicro b)"
    and "0 < big_int (cb_maxPayoutMicro b)" "0 < big_int (cb_matchLiabilityCapMicro b)"
  shows "\<exists>a \<in> {cb_minStakeMicro b, cb_maxStakeMicro b, cb_maxPayoutMicro b, cb_matchLiabilityCapMicro b}.
    bigint_col (big_int a) = Some e"
proof -
  have cur: "set (array_from_set (cb_currencies b)) \<subseteq> {''USDC'', ''OZ''}"
    using assms(1) by (auto simp: parse_configBody_def array_from_set_def list_all_iff isCurrency_def split: if_splits)
  show ?thesis
    using first_some_SomeD [OF assms(2) [unfolded config_viol_def]] assms(1,3-6) cur
    by (auto simp: config_row_def parse_configBody_def between_def check_def split: if_splits)
qed

text \<open>Whatever the operator sends, the config update never runs into a CHECK constraint:
  the only database error it can raise is an amount above the bigint range, which the
  validation lets through.\<close>

theorem config_database_errors:
  assumes "put_config now ip ru body s = Inl (PgError st c)"
  shows "st = ''22003'' \<and> (\<exists>a \<in> {cb_minStakeMicro body, cb_maxStakeMicro body, cb_maxPayoutMicro body,
    cb_matchLiabilityCapMicro body}. 2 ^ 63 \<le> big_int a)"
proof -
  obtain admin where ok: "requireRole admin_r ru = Inr admin" "parse_configBody body = Inr ()"
    using assms requireRole_no_pg [of admin_r ru st c] parse_configBody_no_pg [of body st c]
    by (cases "requireRole admin_r ru"; cases "parse_configBody body")
       (auto simp: put_config_def run_defs)
  let ?row = "config_row now (ru_id admin) body"
  have viol: "config_viol ?row = Some (PgError st c)"
    and guards: "0 < sc_minStakeMicro ?row" "sc_minStakeMicro ?row \<le> sc_maxStakeMicro ?row"
      "0 < sc_maxPayoutMicro ?row" "0 < sc_matchLiabilityCapMicro ?row"
    using assms ok
    by (auto simp: put_config_def run_defs Let_def loadConfig_def update_config_def insert_audit_def bad_def api_error_defs split: if_splits option.splits)
  from config_viol_of_valid [OF ok(2) viol] guards
  obtain a where a: "a \<in> {cb_minStakeMicro body, cb_maxStakeMicro body, cb_maxPayoutMicro body, cb_matchLiabilityCapMicro body}"
    "bigint_col (big_int a) = Some (PgError st c)"
    by (auto simp: config_row_def)
  moreover have "0 < big_int a" using a(1) guards by (auto simp: config_row_def)
  ultimately show ?thesis
    by (intro conjI bexI [of _ a]) (auto simp: bigint_col_def in_bigint_def split: if_splits)
qed

text \<open>A maximum stake of twenty digits, on the sample.\<close>

definition sample_config_body :: config_body where
  "sample_config_body = \<lparr>cb_enabled = True, cb_currencies = [''OZ'', ''OZ''], cb_rtpTargetBp = 9700,
     cb_leadSeconds = 10, cb_clockPastSeconds = 5, cb_graceSeconds = 10, cb_feedDarkVoidSeconds = 180,
     cb_minStakeMicro = ''100000'', cb_maxStakeMicro = ''99999999999999999999'', cb_maxPayoutMicro = ''500000000'',
     cb_matchLiabilityCapMicro = ''5000000000'', cb_returnAlarmMarginBp = 1000, cb_returnAlarmMinSpins = 200,
     cb_autoplayEnabled = True\<rparr>"

theorem config_database_errors_witness:
  "put_config 9 None (Some sample_op) sample_config_body sample_db = Inl (PgError ''22003'' ''bigint out of range'')
    \<and> (\<exists>a \<in> {cb_minStakeMicro sample_config_body, cb_maxStakeMicro sample_config_body,
      cb_maxPayoutMicro sample_config_body, cb_matchLiabilityCapMicro sample_config_body}. 2 ^ 63 \<le> big_int a)"
proof -
  have amounts: "big_int ''100000'' = 100000" "big_int ''99999999999999999999'' = 99999999999999999999"
    "big_int ''500000000'' = 500000000" "big_int ''5000000000'' = 5000000000"
    by (simp_all add: big_int_def parse_nat_def digit_val_def)
  have parsed: "parse_configBody sample_config_body = Inr ()" by code_simp
  let ?row = "config_row 9 ''op'' sample_config_body"
  have row: "sc_minStakeMicro ?row = 100000" "sc_maxStakeMicro ?row = 99999999999999999999"
    "sc_maxPayoutMicro ?row = 500000000" "sc_matchLiabilityCapMicro ?row = 5000000000"
    by (simp_all add: config_row_def sample_config_body_def amounts)
  have viol: "config_viol ?row = Some (PgError ''22003'' ''bigint out of range'')"
    by (simp add: config_viol_def row bigint_col_def in_bigint_def)
  have err: "put_config 9 None (Some sample_op) sample_config_body sample_db = Inl (PgError ''22003'' ''bigint out of range'')"
    by (simp add: put_config_def requireRole_def run_defs parsed Let_def row loadConfig_def update_config_def viol)
  then show ?thesis using config_database_errors [OF err] by blast
qed

end
