(* ===== verification/Platform.thy ===== *)
theory Platform
  imports Bank_Ledger Slot_Config Cashout_Books Bets_Books
begin

text \<open>
  The services as one program: every call of the modelled routes, what
  they all promise of the books, of the tickets and of the bank, and the states a sequence
  of calls can reach.  Calls are serialised, which is what the row locks the
  transactions take give them; the catalog, the clock and the answers of outside
  services may be different at every call.
\<close>

section \<open>The calls\<close>

datatype slot_call =
    PostSpin uuid int spin_request
  | PauseGame int "string option"
  | ResumeGame int
  | VoidGame int "string option"
  | PutConfig config_body
  | CreatePaytable int paytable_body
  | UpdatePaytable int paytable_body
  | ActivatePaytable int

datatype cashout_call =
    GetQuote uuid uuid uuid
  | AcceptBegin uuid uuid uuid micro
  | AcceptFinish uuid uuid uuid pending_accept

datatype bet_call = PlaceBet uuid place_request place_context

datatype account_call =
    CreateUser uuid create_body
  | SignupAccount uuid uuid string signup_body
  | PatchUser uuid patch_body
  | PutNotes uuid string
  | PatchMe "string option option" "string option option"
  | PutSportOrder "string list option"
  | PutHiddenSports "string list option"
  | DeleteUser uuid
  | AdjustBalance uuid uuid adjust_body
  | PutBankLimit bank_body

text \<open>A request: what it reads of the outside world, the time, the caller and the call.\<close>

record api_request =
  rq_pay :: pay_env
  rq_bet :: bet_env
  rq_account :: account_env
  rq_now :: millis
  rq_user :: "authed_user option"

definition serve_payment :: "api_request \<times> payment_call \<Rightarrow> (db, unit) call" where
  "serve_payment p = (case p of (rq, c) \<Rightarrow> atomically (run_payment (rq_pay rq) (rq_now rq) (rq_user rq) c))"

fun run_slot :: "api_request \<Rightarrow> slot_call \<Rightarrow> (db, unit) call" where
  "run_slot rq (PostSpin newId matchId body) = unitC (atomically (post_spin (rq_now rq) newId (rq_user rq) matchId body))"
| "run_slot rq (PauseGame matchId note) = atomically (pause_game (rq_now rq) (pe_ip (rq_pay rq)) (rq_user rq) matchId note)"
| "run_slot rq (ResumeGame matchId) = atomically (resume_game (rq_now rq) (pe_ip (rq_pay rq)) (rq_user rq) matchId)"
| "run_slot rq (VoidGame matchId note) =
     unitC (atomically (void_game (rq_now rq) (pe_ip (rq_pay rq)) (rq_user rq) matchId note))"
| "run_slot rq (PutConfig body) = unitC (atomically (put_config (rq_now rq) (pe_ip (rq_pay rq)) (rq_user rq) body))"
| "run_slot rq (CreatePaytable newId body) =
     unitC (atomically (create_paytable (rq_now rq) (pe_ip (rq_pay rq)) newId (rq_user rq) body))"
| "run_slot rq (UpdatePaytable i body) =
     unitC (atomically (update_paytable (rq_now rq) (pe_ip (rq_pay rq)) (rq_user rq) i body))"
| "run_slot rq (ActivatePaytable i) =
     unitC (atomically (activate_paytable (rq_now rq) (pe_ip (rq_pay rq)) (rq_user rq) i))"

definition serve_slot :: "api_request \<times> slot_call \<Rightarrow> (db, unit) call" where
  "serve_slot p = (case p of (rq, c) \<Rightarrow> run_slot rq c)"

fun run_cashout :: "api_request \<Rightarrow> cashout_call \<Rightarrow> (db, unit) call" where
  "run_cashout rq (GetQuote newId userId ticketId) =
     unitC (atomically (quote (be_catalog (rq_bet rq)) (rq_now rq) newId userId ticketId))"
| "run_cashout rq (AcceptBegin userId ticketId quoteId expected) =
     unitC (accept_begin (be_catalog (rq_bet rq)) (rq_now rq) userId ticketId quoteId expected)"
| "run_cashout rq (AcceptFinish userId ticketId quoteId p) =
     unitC (accept_finish (be_catalog (rq_bet rq)) (rq_now rq) userId ticketId quoteId p)"

definition serve_cashout :: "api_request \<times> cashout_call \<Rightarrow> (db, unit) call" where
  "serve_cashout p = (case p of (rq, c) \<Rightarrow> run_cashout rq c)"

definition serve_bet :: "api_request \<times> bet_call \<Rightarrow> (db, unit) call" where
  "serve_bet p = (case p of (rq, PlaceBet newId body ctx) \<Rightarrow>
     unitC (place (rq_bet rq) (rq_now rq) newId body ctx))"

fun run_account :: "api_request \<Rightarrow> account_call \<Rightarrow> (db, unit) call" where
  "run_account rq (CreateUser newId body) =
     unitC (atomically (create_user (rq_account rq) (rq_now rq) (pe_ip (rq_pay rq)) newId (rq_user rq) body))"
| "run_account rq (SignupAccount newId tokenId raw body) =
     unitC (atomically (signup_account (rq_account rq) (rq_now rq) newId tokenId raw body))"
| "run_account rq (PatchUser i body) =
     unitC (atomically (patch_user (rq_now rq) (pe_ip (rq_pay rq)) (rq_user rq) i body))"
| "run_account rq (PutNotes i notes) =
     unitC (atomically (put_notes (rq_now rq) (pe_ip (rq_pay rq)) (rq_user rq) i notes))"
| "run_account rq (PatchMe name country) = unitC (atomically (patch_me (rq_now rq) (rq_user rq) name country))"
| "run_account rq (PutSportOrder order) = unitC (atomically (put_sport_order (rq_now rq) (rq_user rq) order))"
| "run_account rq (PutHiddenSports hidden) = unitC (atomically (put_hidden_sports (rq_now rq) (rq_user rq) hidden))"
| "run_account rq (DeleteUser i) = atomically (delete_user (pe_ip (rq_pay rq)) (rq_user rq) i)"
| "run_account rq (AdjustBalance adjustmentId i body) =
     unitC (atomically (adjust_balance (rq_now rq) (pe_ip (rq_pay rq)) adjustmentId (rq_user rq) i body))"
| "run_account rq (PutBankLimit body) =
     unitC (atomically (put_bank_limit (rq_now rq) (pe_ip (rq_pay rq)) (rq_user rq) body))"

definition serve_account :: "api_request \<times> account_call \<Rightarrow> (db, unit) call" where
  "serve_account p = (case p of (rq, c) \<Rightarrow> run_account rq c)"

section \<open>What happens to a ticket\<close>

inductive ticket_step :: "ticket_status \<Rightarrow> ticket_status \<Rightarrow> bool" where
  void: "ticket_step accepted voided"
| cash_out: "ticket_step accepted cashed_out"

inductive_simps ticket_step_from [simp]:
  "ticket_step accepted x" "ticket_step pending_delay x" "ticket_step rejected x"
  "ticket_step settled x" "ticket_step voided x" "ticket_step cashed_out x"

definition ticket_moves :: "tickets_row \<Rightarrow> tickets_row \<Rightarrow> bool" where
  "ticket_moves r r' \<longleftrightarrow> r' = r \<or>
    t_id r' = t_id r \<and> t_userId r' = t_userId r \<and> t_currency r' = t_currency r \<and> t_betType r' = t_betType r
    \<and> t_stakeMicro r' = t_stakeMicro r \<and> t_potentialPayoutMicro r' = t_potentialPayoutMicro r
    \<and> ticket_step (t_status r) (t_status r')"

definition tickets_moved :: "db \<Rightarrow> db \<Rightarrow> bool" where
  "tickets_moved s t \<longleftrightarrow> (\<forall>r \<in> set (tickets s). \<exists>r' \<in> set (tickets t). ticket_moves r r')"

lemma ticket_moves_trans: "ticket_moves r q \<Longrightarrow> ticket_moves q p \<Longrightarrow> ticket_moves r p"
  unfolding ticket_moves_def by (cases "t_status r"; cases "t_status q") auto

lemma ticket_moves_id: "ticket_moves r q \<Longrightarrow> t_id q = t_id r"
  by (auto simp: ticket_moves_def)

lemma tickets_moved_trans: "tickets_moved s t \<Longrightarrow> tickets_moved t u \<Longrightarrow> tickets_moved s u"
  unfolding tickets_moved_def by (meson ticket_moves_trans)

lemma tickets_moved_same: "set (tickets s) \<subseteq> set (tickets t) \<Longrightarrow> tickets_moved s t"
  by (auto simp: tickets_moved_def ticket_moves_def)

text \<open>Most calls leave the table alone, and all of the bank but its open liability.\<close>

type_synonym frame = "tickets_row list \<times> micro \<times> bank_ledger_row list \<times> withdrawals_row list \<times> deposit_intents_row list"

abbreviation same_tickets :: "frame \<Rightarrow> db \<Rightarrow> bool" where
  "same_tickets T s \<equiv> (tickets s, bankLimitMicro (bank_state s), bank_ledger s, withdrawals s, deposit_intents s) = T"

lemma tickets_statements:
  "keeps (same_tickets T) (update_wallets Q1 f1)" "keeps (same_tickets T) (insert_wallet_once r1)"
  "keeps (same_tickets T) (update_cashouts Q5 f5)" "keeps (same_tickets T) (insert_cashout r5)"
  "keeps (same_tickets T) (update_games Q6 f6)" "keeps (same_tickets T) (update_spins Q7 f7)"
  "keeps (same_tickets T) (insert_spin r7)" "keeps (same_tickets T) (insert_ledger l)"
  "keeps (same_tickets T) (insert_ledger_once l)" "keeps (same_tickets T) (insert_audit a)"
  "keeps (same_tickets T) (update_paytables Q8 f8)" "keeps (same_tickets T) (insert_paytable r8)"
  "keeps (same_tickets T) (update_config f9)"
  by (auto simp: step_simps intro!: keepsI)

lemma tickets_account_statements:
  "keeps (same_tickets T) (update_users Q1 f1)" "keeps (same_tickets T) (insert_user r1)"
  "keeps (same_tickets T) (update_sessions Q2 f2)" "keeps (same_tickets T) (insert_verification_token r3)"
  "keeps (same_tickets T) (insert_outbox r4)"
  by (auto simp: step_simps intro!: keepsI)

lemma tickets_liability:
  "keeps (same_tickets T) (update_bank (\<lambda>b. b\<lparr>openLiabilityMicro := g b, bank_updatedAt := now\<rparr>))"
  by (auto simp: step_simps intro!: keepsI)

lemma tickets_slot_ops:
  "keeps (same_tickets T) (void_spin now matchId reason spin)"
  "keeps (same_tickets T) (update_game_returning P f e)"
  "keeps (same_tickets T) (loadGameOr404 matchId)"
  "keeps (same_tickets T) (spin_commit now r)"
  unfolding void_spin_def releaseOpenLiability_def update_game_returning_def loadGameOr404_def
    spin_commit_def Let_def
  by (intro keeps_intros tickets_statements tickets_liability)+

lemma tickets_settings:
  "keeps (same_tickets T) (put_config now ip ru cb)" "keeps (same_tickets T) (create_paytable now ip newId ru b)"
  "keeps (same_tickets T) (update_paytable now ip ru i b)" "keeps (same_tickets T) (activate_paytable now ip ru i)"
  unfolding put_config_def create_paytable_def update_paytable_def activate_paytable_def
    loadConfig_def loadPaytableById_def loadActivePaytable_def Let_def
  by (intro keeps_intros tickets_statements)+

lemma tickets_slot_calls: "keepsC (same_tickets T) (run_slot rq c)"
proof (cases c)
  case (PostSpin newId matchId body)
  have "keeps (same_tickets T) (placeSpin (rq_now rq) newId u matchId body)" for u
  proof (rule keepsI)
    fix s x t
    assume T: "same_tickets T s" and run: "placeSpin (rq_now rq) newId u matchId body s = Inr (x, t)"
    obtain view created where x: "x = (view, created)" by (cases x)
    from run [unfolded x] show "same_tickets T t"
    proof (cases rule: placeSpin_cases)
      case (placed row stake)
      from placed(5) show ?thesis
        by (cases rule: spin_transaction_cases) (use T keepsD [OF tickets_slot_ops(4)] in blast)+
    qed (use T in simp)
  qed
  then show ?thesis unfolding PostSpin run_slot.simps post_spin_def
    by (intro keeps_intros) (auto intro: keeps_intros split: prod.splits)
next
  case (VoidGame matchId why)
  show ?thesis unfolding VoidGame run_slot.simps void_game_def voidOpenSpinsForGame_def
    by (intro keeps_intros tickets_statements tickets_slot_ops)
next
  case (PauseGame matchId why)
  show ?thesis unfolding PauseGame run_slot.simps pause_game_def
    by (intro keeps_intros tickets_statements tickets_slot_ops)
next
  case (ResumeGame matchId)
  show ?thesis unfolding ResumeGame run_slot.simps resume_game_def
    by (intro keeps_intros tickets_statements tickets_slot_ops)
qed (simp_all add: keepsC_unitC keepsC_atomically tickets_settings)

lemma tickets_cashout_ops:
  "keeps (same_tickets T) (quote c now newId userId ticketId)"
  "keepsC (same_tickets T) (accept_begin c now userId ticketId quoteId expected)"
  unfolding quote_def accept_begin_def load_offer_def prevalidate_def loadTicket_def Let_def
  by (intro keeps_intros tickets_statements)+

lemma tickets_of_payment:
  assumes "run_payment env now ru c s = Inr (x, t)" and "\<And>i why. c \<noteq> VoidTicket i why"
  shows "tickets t = tickets s"
proof (cases c)
  case (LinkAddress i b)
  with assms show ?thesis by (auto simp: step_simps link_address_def Let_def)
qed (use assms in \<open>auto simp: step_simps unlink_address_def acknowledge_deposit_def acknowledge_unattributed_def Let_def
    elim!: request_withdrawal_effect cancel_withdrawal_effect approve_withdrawal_effect reject_withdrawal_effect
      mark_submitted_effect mark_confirmed_effect mark_failed_effect credit_manual_effect reject_deposit_effect\<close>)

lemma tickets_moved_update:
  assumes "tickets t = update_where P f (tickets s)"
    and "\<And>r. r \<in> set (tickets s) \<Longrightarrow> P r \<Longrightarrow> ticket_moves r (f r)"
  shows "tickets_moved s t"
  unfolding tickets_moved_def assms(1)
proof
  fix r
  assume "r \<in> set (tickets s)"
  then show "\<exists>r' \<in> set (update_where P f (tickets s)). ticket_moves r r'"
    using assms(2) in_update_where [of r "tickets s" P f]
    by (intro bexI [of _ "if P r then f r else r"]) (auto simp: ticket_moves_def)
qed

lemma keepsC_moved:
  assumes "\<And>T. keepsC (same_tickets T) m" and "m s = (a, t)"
  shows "tickets_moved s t" and "bank_ok s \<Longrightarrow> bank_ok t"
proof -
  have "same_tickets (tickets s, bankLimitMicro (bank_state s), bank_ledger s, withdrawals s, deposit_intents s) t"
    using keepsCD [OF assms(1) [of "(tickets s, bankLimitMicro (bank_state s), bank_ledger s, withdrawals s, deposit_intents s)"]
        _ assms(2)] by simp
  then show "tickets_moved s t" and "bank_ok s \<Longrightarrow> bank_ok t"
    by (auto simp: bank_idle_def intro: tickets_moved_same bank_idle_ok)
qed

lemma bank_ok_frame:
  assumes "bank_ok s" "bankLimitMicro (bank_state t) = bankLimitMicro (bank_state s)" "bank_ledger t = bank_ledger s"
    "withdrawals t = withdrawals s" "credited_ids t = credited_ids s"
  shows "bank_ok t"
  using assms(1) by (rule bank_idle_ok) (simp add: bank_idle_def assms(2-))

text \<open>The account calls that write only the account tables, and the four that also move money or drop rows.\<close>

lemma tickets_account_ops:
  "keeps (same_tickets T) (create_user aenv now ip newId ru cb)" "keeps (same_tickets T) (signup_account aenv now newId tokenId raw sb)"
  "keeps (same_tickets T) (patch_user now ip ru i pb)" "keeps (same_tickets T) (put_notes now ip ru i notes)"
  "keeps (same_tickets T) (update_me ru f)" "keeps (same_tickets T) (adjust_balance now ip adjustmentId ru i ab)"
  unfolding create_user_def signup_account_def enqueueVerifyEmail_def patch_user_def revoke_sessions_def put_notes_def
    update_me_def adjust_balance_def Let_def
  by (intro keeps_intros tickets_statements tickets_account_statements)+

lemma tickets_profile_ops:
  "keeps (same_tickets T) (patch_me now ru name country)" "keeps (same_tickets T) (put_sport_order now ru order)"
  "keeps (same_tickets T) (put_hidden_sports now ru hidden)"
  unfolding patch_me_def put_sport_order_def put_hidden_sports_def
  by (intro keeps_intros tickets_account_ops)+

lemma tickets_account_calls:
  assumes "\<And>i. c \<noteq> DeleteUser i" "\<And>b. c \<noteq> PutBankLimit b"
  shows "keepsC (same_tickets T) (run_account rq c)"
  using assms
  by (cases c) (auto simp: tickets_account_ops tickets_profile_ops intro!: keepsC_unitC keepsC_atomically)

section \<open>The contract of a service\<close>

text \<open>
  What every service owes the others: its calls keep the books balanced, move
  tickets only forward and keep the bank in step with its ledger.
\<close>

locale bookkeeper =
  fixes serve :: "'c \<Rightarrow> (db, 'a) call"
  assumes keeps_books: "keepsC books_ok (serve c)"
    and moves_tickets: "books_ok s \<Longrightarrow> serve c s = (a, t) \<Longrightarrow> tickets_moved s t"
    and keeps_bank: "books_ok s \<Longrightarrow> bank_ok s \<Longrightarrow> serve c s = (a, t) \<Longrightarrow> bank_ok t"
begin

definition serve_all :: "'c list \<Rightarrow> db \<Rightarrow> db" where
  "serve_all cs s = foldl (\<lambda>s c. snd (serve c s)) s cs"

lemma serve_all_books: "books_ok s \<Longrightarrow> books_ok (serve_all cs s)"
  unfolding serve_all_def
  by (induction cs arbitrary: s) (use keeps_books in \<open>auto simp: keepsC_def\<close>)

lemma serve_all_bank: "books_ok s \<Longrightarrow> bank_ok s \<Longrightarrow> bank_ok (serve_all cs s)"
  unfolding serve_all_def
proof (induction cs arbitrary: s)
  case (Cons c cs)
  have "books_ok (snd (serve c s))" using keeps_books Cons.prems by (simp add: keepsC_def)
  moreover have "bank_ok (snd (serve c s))" by (rule keeps_bank [OF Cons.prems, of c "fst (serve c s)"]) simp
  ultimately show ?case using Cons.IH by simp
qed simp

lemma serve_all_tickets: "books_ok s \<Longrightarrow> tickets_moved s (serve_all cs s)"
  unfolding serve_all_def
proof (induction cs arbitrary: s)
  case Nil
  show ?case by (simp add: tickets_moved_same)
next
  case (Cons c cs)
  let ?t = "snd (serve c s)"
  have "books_ok ?t" using keeps_books Cons.prems by (simp add: keepsC_def)
  moreover have "tickets_moved s ?t" by (rule moves_tickets [OF Cons.prems, of c "fst (serve c s)"]) simp
  ultimately show ?case using Cons.IH by (auto intro: tickets_moved_trans)
qed

end

interpretation payments: bookkeeper serve_payment
proof
  fix p :: "api_request \<times> payment_call" and s a t
  obtain rq c where p: "p = (rq, c)" by (cases p)
  show "keepsC books_ok (serve_payment p)" by (simp add: p serve_payment_def keeps_intros)
  assume ok: "books_ok s" and run: "serve_payment p s = (a, t)"
  show "bank_ok t" if "bank_ok s"
    using run that bank_payment [OF _ books_okD(1) [OF ok] that] by (cases a) (auto simp: p serve_payment_def step_simps)
  show "tickets_moved s t"
  proof (cases "\<exists>i why. c = VoidTicket i why")
    case True
    then obtain i why where c: "c = VoidTicket i why" by blast
    show ?thesis
    proof (cases a)
      case (Inl e)
      then show ?thesis using run by (simp add: p serve_payment_def step_simps tickets_moved_same)
    next
      case (Inr x)
      then obtain q where "void_ticket (rq_now rq) (pe_ip (rq_pay rq)) (rq_user rq) i why s = Inr (q, t)"
        using run by (auto simp: p c serve_payment_def step_simps)
      then show ?thesis
      proof (cases rule: void_ticket_effect)
        case (1 u row au)
        show ?thesis
          by (rule tickets_moved_update [of t "\<lambda>r. t_id r = i \<and> t_status r = accepted"
              "\<lambda>r. r\<lparr>t_status := voided, t_actualPayoutMicro := Some (t_stakeMicro row),
                t_settledAt := Some (rq_now rq), t_rejectReason := Some why\<rparr>"])
             (simp_all add: 1(6) ticket_moves_def)
      qed
    qed
  next
    case False
    then show ?thesis
      using run tickets_of_payment
      by (cases a) (auto simp: p serve_payment_def step_simps intro!: tickets_moved_same)
  qed
qed

interpretation slots: bookkeeper serve_slot
proof
  fix p :: "api_request \<times> slot_call" and s a t
  obtain rq c where p: "p = (rq, c)" by (cases p)
  show "keepsC books_ok (serve_slot p)" by (cases c) (simp_all add: p serve_slot_def keeps_intros)
  have "keepsC (same_tickets T) (serve_slot p)" for T by (simp add: p serve_slot_def tickets_slot_calls)
  moreover assume "serve_slot p s = (a, t)"
  ultimately show "tickets_moved s t" and "bank_ok s \<Longrightarrow> bank_ok t" by (rule keepsC_moved)+
qed

interpretation cashouts: bookkeeper serve_cashout
proof
  fix p :: "api_request \<times> cashout_call" and s a t
  obtain rq c where p: "p = (rq, c)" by (cases p)
  show "keepsC books_ok (serve_cashout p)" by (cases c) (simp_all add: p serve_cashout_def keeps_intros)
  assume ok: "books_ok s" and run: "serve_cashout p s = (a, t)"
  have "tickets_moved s t \<and> (bank_ok s \<longrightarrow> bank_ok t)"
  proof (cases "\<exists>userId ticketId quoteId q. c = AcceptFinish userId ticketId quoteId q")
    case False
    then have "keepsC (same_tickets T) (serve_cashout p)" for T
      by (cases c) (simp_all add: p serve_cashout_def keepsC_unitC keepsC_atomically tickets_cashout_ops)
    then show ?thesis using run keepsC_moved by blast
  next
    case True
    then obtain userId ticketId quoteId q b where
      fin: "accept_finish (be_catalog (rq_bet rq)) (rq_now rq) userId ticketId quoteId q s = (b, t)"
      using run unitC_eq by (force simp: p serve_cashout_def)
    then show ?thesis
    proof (cases rule: accept_finish_cases)
      case (committed x out)
      from committed(5) show ?thesis
      proof (cases rule: cashout_commit_effect)
        case (1 qrow ticket wallet)
        note row = select_ticket_by_id [OF books_okD(1) [OF ok] 1(3)]
        have "r = ticket" if "r \<in> set (tickets s)" "t_id r = ticketId" for r
          using select_one_unique [OF tickets_distinct [OF books_okD(1) [OF ok]] row(1) that] .
        then have "t_status r = accepted" if "r \<in> set (tickets s)" "t_id r = ticketId" for r using that 1(4) by blast
        then have "tickets_moved s t"
          by (intro tickets_moved_update [of t "\<lambda>r. t_id r = ticketId"
              "\<lambda>r. r\<lparr>t_status := cashed_out, t_actualPayoutMicro := Some x, t_settledAt := Some (rq_now rq)\<rparr>"])
             (simp_all add: 1(7) ticket_moves_def)
        moreover have "bank_ok s \<Longrightarrow> bank_ok t" by (erule bank_ok_frame) (simp_all add: 1(7))
        ultimately show ?thesis by blast
      qed
    qed (auto intro: tickets_moved_same bank_ok_frame)
  qed
  then show "tickets_moved s t" and "bank_ok s \<Longrightarrow> bank_ok t" by blast+
qed

interpretation bets: bookkeeper serve_bet
proof
  fix p :: "api_request \<times> bet_call" and s a t
  obtain rq newId body ctx where p: "p = (rq, PlaceBet newId body ctx)" by (metis bet_call.exhaust prod.exhaust)
  show "keepsC books_ok (serve_bet p)" by (simp add: p serve_bet_def keeps_intros books_place)
  assume "serve_bet p s = (a, t)"
  then obtain b where run: "place (rq_bet rq) (rq_now rq) newId body ctx s = (b, t)"
    using unitC_eq by (force simp: p serve_bet_def)
  have "set (tickets s) \<subseteq> set (tickets t) \<and> (bank_ok s \<longrightarrow> bank_ok t)"
  proof (cases "\<exists>r. b = Inr (r, True)")
    case True
    then show ?thesis using run by (auto elim!: place_created bank_ok_frame simp: booked_def exposed_bank_def)
  next
    case False
    then show ?thesis using place_not_created [OF run] by (auto elim!: bank_ok_frame)
  qed
  then show "tickets_moved s t" and "bank_ok s \<Longrightarrow> bank_ok t" by (auto intro: tickets_moved_same)
qed

interpretation accounts: bookkeeper serve_account
proof
  fix p :: "api_request \<times> account_call" and s a t
  obtain rq c where p: "p = (rq, c)" by (cases p)
  show "keepsC books_ok (serve_account p)" by (cases c) (simp_all add: p serve_account_def keeps_intros)
  assume run: "serve_account p s = (a, t)"
  have "tickets_moved s t \<and> (bank_ok s \<longrightarrow> bank_ok t)"
  proof (cases "(\<exists>i. c = DeleteUser i) \<or> (\<exists>b. c = PutBankLimit b)")
    case False
    then have "keepsC (same_tickets T) (serve_account p)" for T
      using tickets_account_calls by (simp add: p serve_account_def)
    then show ?thesis using run keepsC_moved by blast
  next
    case True
    then show ?thesis
    proof (elim disjE exE)
      fix i
      assume "c = DeleteUser i"
      with run show ?thesis
        by (cases a) (auto simp: p serve_account_def step_simps elim!: delete_user_effect bank_ok_frame intro: tickets_moved_same)
    next
      fix body
      assume c: "c = PutBankLimit body"
      then obtain b where "atomically (put_bank_limit (rq_now rq) (pe_ip (rq_pay rq)) (rq_user rq) body) s = (b, t)"
        using run unitC_eq by (force simp: p serve_account_def)
      then consider "t = s" | x where "put_bank_limit (rq_now rq) (pe_ip (rq_pay rq)) (rq_user rq) body s = Inr (x, t)"
        by (cases b) (auto simp: step_simps)
      then show ?thesis
      proof cases
        case 2
        then have "tickets t = tickets s" by (rule put_bank_limit_effect) simp
        then show ?thesis using bank_put_limit [OF 2] by (simp add: tickets_moved_same)
      qed (simp add: tickets_moved_same)
    qed
  qed
  then show "tickets_moved s t" and "bank_ok s \<Longrightarrow> bank_ok t" by blast+
qed

section \<open>The whole program\<close>

datatype api_call = Payment payment_call | Slot slot_call | Cashout cashout_call | Bet bet_call | Account account_call

definition serve_api :: "api_request \<times> api_call \<Rightarrow> (db, unit) call" where
  "serve_api p = (case p of (rq, c) \<Rightarrow> (case c of
     Payment d \<Rightarrow> serve_payment (rq, d) | Slot d \<Rightarrow> serve_slot (rq, d)
   | Cashout d \<Rightarrow> serve_cashout (rq, d) | Bet d \<Rightarrow> serve_bet (rq, d)
   | Account d \<Rightarrow> serve_account (rq, d)))"

interpretation api: bookkeeper serve_api
proof
  fix p :: "api_request \<times> api_call" and s a t
  obtain rq c where p: "p = (rq, c)" by (cases p)
  show "keepsC books_ok (serve_api p)"
    by (cases c) (simp_all add: p serve_api_def payments.keeps_books slots.keeps_books cashouts.keeps_books bets.keeps_books
        accounts.keeps_books)
  assume "books_ok s" and "serve_api p s = (a, t)"
  then show "tickets_moved s t" and "bank_ok s \<Longrightarrow> bank_ok t"
    by (cases c; auto simp: p serve_api_def intro: payments.moves_tickets slots.moves_tickets
        cashouts.moves_tickets bets.moves_tickets accounts.moves_tickets payments.keeps_bank slots.keeps_bank
        cashouts.keeps_bank bets.keeps_bank accounts.keeps_bank)+
qed

text \<open>The states the calls can reach from a start.\<close>

inductive reachable :: "db \<Rightarrow> db \<Rightarrow> bool" for s0 where
  start: "reachable s0 s0"
| call: "reachable s0 s \<Longrightarrow> serve_api p s = (a, t) \<Longrightarrow> reachable s0 t"

lemma reachable_ok:
  assumes "reachable s0 s" and "books_ok s0"
  shows "books_ok s" and "tickets_moved s0 s" and "bank_ok s0 \<Longrightarrow> bank_ok s"
proof -
  from assms(1) have "books_ok s \<and> tickets_moved s0 s \<and> (bank_ok s0 \<longrightarrow> bank_ok s)"
  proof induction
    case start
    then show ?case using assms(2) by (simp add: tickets_moved_same)
  next
    case (call s p a t)
    then have "books_ok t" using keepsCD [OF api.keeps_books] by blast
    then show ?case
      using call api.moves_tickets api.keeps_bank by (blast intro: tickets_moved_trans)
  qed
  then show "books_ok s" "tickets_moved s0 s" "bank_ok s0 \<Longrightarrow> bank_ok s" by simp_all
qed

end
