(* ===== verification/Spec2Isabelle.thy ===== *)
theory Spec2Isabelle
  imports Payment_Properties Odds Products Slot_Properties Slot_Safety Slot_Calibrator Cashout_Properties Bettor_Odds
    Bets_Properties Account_Properties Session_Properties Route_Properties Platform
begin

text \<open>
  \<^bold>\<open>The money and account core of the Oddzilla betting platform.\<close>

  The repository is a sports-betting platform: a TypeScript API (src/services/api) over a PostgreSQL
  schema (src/packages/db), pure rules shared with the front end (src/packages/types), Go services that
  fill the catalog and settle bets, and a web front end.  This development models the part of the API
  through which money moves, the accounts and sessions that guard it, and the arithmetic it prices with.

  \<^bold>\<open>Parts and how they interact.\<close>  A bettor places bets (modules/bets) and slot spins
  (lib/slotzilla), asks for and accepts cashouts (modules/cashout), and requests withdrawals and links
  addresses (modules/wallet).  Before a bet reaches the service its route checks a signed placement intent
  and re-prices every leg that carries a promotion, a flash offer of an engine in memory (modules/zillaflash)
  or an operator's boost rule (lib/boosted-odds.ts).  Operators move withdrawals and deposits along (modules/admin/withdrawals.ts,
  deposits.ts), void tickets (tickets.ts), run slot games (slotzilla.ts), edit accounts and move balances
  by hand (users.ts) and set the bank (riskzilla/bank.ts).  All of them write the same
  rows: a wallet with a balance and a locked part, a ledger, the tickets, spins, withdrawals and deposits,
  and the bank state whose open-liability counter bounds what the risk engine (lib/riskzilla) accepts.
  Who may call is decided by modules/auth (signup, login, refresh, logout, password and email tokens) and
  the guard of plugins/auth.ts, over the session rows and a Redis cache of their state.

  \<^bold>\<open>Theories.\<close>
  \<^item> Prelude, Transactions, Database, Tables: list-as-table lemmas; failures, transactions
    (\<open>state \<Rightarrow> failure + value \<times> state\<close>, a failure rolls back) and calls of several transactions (a
    failure keeps what was committed before); the rows of packages/db/src/schema as records and the
    database as the record of its tables; the SQL statements, which fail on a violated CHECK, unique
    index or bigint range.  The locale \<open>constrained_table\<close> is interpreted for every table.
  \<^item> Accounting: the sums the money columns stand for and the invariant \<open>books_ok\<close> (schema, locks,
    liability, ledger references).  The locale \<open>obligation\<close> is what an entity that locks part of a
    wallet owes the books; withdrawals, tickets and spins are its interpretations.
  \<^item> Js_Number, Js_Value, Money, Odds: binary64 with round-to-even on rationals, the JavaScript
    number operations the sources use, packages/types/src/money.ts and odds.ts.  Products:
    products.ts and combi-boost.ts.
  \<^item> Withdrawals, Deposits, Payments, Payment_Properties: modules/wallet/routes.ts,
    modules/admin/withdrawals.ts, deposits.ts and tickets.ts, one definition per handler with its
    guards in order, and all of them as one call type.
  \<^item> Slot_Rules, Slot_Properties: packages/types/src/slotzilla.ts.  Slot_Service, Slot_Books,
    Slot_Safety: lib/slotzilla/service.ts and the game operations of modules/admin/slotzilla.ts.
    Slot_Config: the config and paytable editors there.  Slot_Calibrator: lib/slotzilla/calibrator.ts
    and the route that fits a paytable to the play-by-play corpus.
  \<^item> Catalog, Bettor_Odds, Bot_Controls: the tables the services only read, their joins and scope
    cascades (lib/bettor-odds-adjustment.ts, lib/bettor-promo-visibility.ts), lib/riskzilla/bot-controls.ts.
  \<^item> Cashout_Algorithm, Cashout_Service, Cashout_Books, Cashout_Properties:
    modules/cashout/algorithm.ts and service.ts; acceptance is two steps, before and after its delay.
  \<^item> Riskzilla: lib/riskzilla/engine.ts.
  \<^item> Bets_Pricing, Bets_Service, Bets_Books, Bets_Legs, Bets_Properties: modules/bets/service.ts
    \<open>place\<close>, from the checks of the request over the price of the legs and of each product to the
    writes, and modules/betbuilder/selection-id.ts.
  \<^item> Boost_Pricing, Boost_Bounds: packages/types/src/netwinstable.ts, the price of a boosted market by
    bisection and of a boosted selection, and how far it can move.  Boosted_Odds, Boost_Properties:
    lib/boosted-odds.ts and modules/boosted-odds/routes.ts, which rule prices a market on a list card, on
    the match page and at placement.
  \<^item> Market_Naming, Flash_Offers, Flash_Properties: lib/market-naming.ts for English templates and
    modules/zillaflash/engine.ts, the rotating offers as a state machine over the engine's module variables.
  \<^item> Bet_Intent, Intent_Properties: modules/bets/intent.ts and the intent gate of the bet route.
    Bets_Route, Route_Properties: POST /bets of modules/bets/routes.ts, over the tables, Redis and the
    flash engine.
  \<^item> Accounts, Bank: modules/admin/users.ts, modules/users/routes.ts, the signup of modules/auth and
    the mail rows of modules/email; modules/admin/riskzilla/bank.ts.  Accounts_Books: these operations keep
    \<open>books_ok\<close>.  Bank_Ledger: payments keep the bank limit and the bank ledger in step (\<open>bank_ok\<close>).
    Account_Properties: what the operations do.
  \<^item> Redis: the keys and commands the session code uses, with expiry; the locale
    \<open>expiring_store\<close> is what its clients rely on.  Sessions: modules/auth/service.ts, the route
    guards around it and plugins/auth.ts, over a database and a Redis store; a refresh is two steps, around
    the pause in which it holds its lock, and so is the guard, around its cache fill.  Session_Families:
    the interleavings of these steps and the invariant of session families.  Session_Properties: replays,
    the grace window, revocation, tokens and the login throttle.
  \<^item> Platform: every modelled call that moves money or edits accounts as one step, the contract
    \<open>bookkeeper\<close> its five services and their union fulfil, and the reachable states.
  \<^item> Sample, Sample_Catalog, Sample_Bets: a database, a catalog and requests on which the
    theorems are instantiated.

  \<^bold>\<open>What is shown.\<close>  In every reachable state the locks and the bank's exposure are exactly what is
  open, tickets move only forward, and the bank limit is what its ledger adds up to (this theory).  A bet is accepted only within the bank limit and the
  limits of every leg, locks exactly its stake, is priced by the server alone, on open markets, and a
  placement without a ticket changes at most one log line (Bets_Properties).  The bet route hands the
  service every promoted leg at the server's own price, places nothing without a valid and unspent intent
  while intents are required, and keeps the books (Route_Properties); a minted intent is accepted exactly
  for its bettor, slip and window, and once (Intent_Properties).  An accepted boost is covered by a live
  rule and bounded, and a boost shown on a card is accepted (Boost_Properties); the offers that can be bet
  on are those in the slots of the flash engine, at bounded prices (Flash_Properties).  Withdrawals follow their
  lifecycle with two operators, deposits are credited once, and payments keep ledger and balance in step
  (Payment_Properties).  A cashout pays its quote, once, within bounds (Cashout_Properties).  A spin is
  covered by its exposure and its cap, voiding a game closes all of its spins (Slot_Safety), and the reels
  do not depend on the order of events (Slot_Properties).  Activating a paytable leaves exactly one active,
  the config editor never violates a CHECK (Slot_Config), and the calibrator measures exactly the rounds
  spins would have been settled on (Slot_Calibrator).  Balances moved by hand and the signup bonus are booked
  exactly, and deleting an account loses nothing (Account_Properties).  A family of sessions has at most one
  live session, a replayed refresh token ends its family, the grace window answers with the tokens already
  issued, a revoked session is refused, a reset link works once, a login needs the password and failures
  are throttled (Session_Properties).  The floating-point quote ladder and stake
  products equal their exact counterparts on every value the columns can hold (Odds, Money).  Where the
  code does not do what it means to, the theorem states what it does: a fee above the free balance ends in
  an internal error, a manual credit without a wallet and every cashout leave ledger and balance apart,
  new lines for a paytable reprice the spins that are already open on it, recomputing the bank forgets the
  open spins, a revocation can be overtaken by a refresh or a guard already under way, a leg may claim a
  boost rule that another one overrules, two boosted teams are priced jointly on a card and alone at
  placement, the text of a slip's hash is ambiguous, overlapping rotations leave a flash offer behind, and
  a leg with a flash offer can keep a boost rule nobody checked.

  \<^bold>\<open>Bounds and parameters.\<close>  Every definition is total; loops are recursions over lists or,
  for the window grid of the calibrator and the text functions, with a measure.  The two bracketing loops of
  the boost solver take a bound of thirty turns, which they never exhaust (\<open>widen_up_turns\<close>), and its
  bisection the eighty of the source.  BIGINT columns are integers whose range is checked on every write, JavaScript numbers
  are binary64 values.  Parameters are: the catalog and configuration (written by the feed services and
  the other operator editors), the slot corpus, the clock, generated ids, the functions of ethers, the answer of Oddin's
  session query, \<open>Math.pow\<close>, the quotient of two NUMERIC values, whose scale PostgreSQL chooses,
  the email and UUID checks, argon2, SHA-256, HMAC, base64url, JSON and JWT functions, the random draws of the
  flash engine, and whether Redis answers.  Nothing is assumed of any of them but what a theorem
  states: that a generated id is fresh, that Redis is up, that decoding undoes encoding, or that two digests do not collide.

  \<^bold>\<open>Serialisation.\<close>  A transaction is one step.  The code takes row locks on the user, the wallet
  and the entity and an advisory lock on the bank; the model takes from this that transactions on the
  same rows do not interleave, and lets whole calls interleave freely.  A risk rejection, which the code
  throws out of the transaction, is a value of a transaction that wrote nothing.  A refresh is taken to
  commit within the five seconds its Redis lock lives; session calls touch no table of the books and are
  steps of their own system.  Recomputing the bank is no step of \<open>reachable\<close>: it does not keep the
  open-liability counter, which is a theorem of its own.

  \<^bold>\<open>Not modelled.\<close>  The Go services (settlement, the bet-delay worker, feeds, the chain watcher),
  so a ticket stays pending or accepted here until it is voided or cashed out; the fetch of the slot corpus
  from Sportradar; community, catalog pages and notifications, through which no money moves, and the
  engagement nudge a placement ends with; market names in other languages than English and with profile
  maps; the timer of the flash engine and the sharing of one snapshot between concurrent polls; the
  editors of the configuration tables; the foreign keys of a ticket's legs; the per-user overrides of
  products and passes; Redis and pg_notify messages; cookies and the rate-limit plugin; the front ends.
\<close>

section \<open>A sample request\<close>

definition sample_api :: "authed_user option \<Rightarrow> api_request" where
  "sample_api u = \<lparr>rq_pay = sample_env, rq_bet = sample_bet_env,
     rq_account = sample_account_env, rq_now = 10000, rq_user = u\<rparr>"


section \<open>Properties that span the components\<close>

text \<open>C1: in every state that any sequence of modelled calls reaches from balanced books, the locked
  amount of each wallet is exactly what its owner's open withdrawals, tickets and spins hold and never
  exceeds the balance, and the bank's open-liability counter is exactly the payout of all open USDC
  tickets and spins.\<close>

theorem platform_books_balanced:
  assumes "books_ok s0" and "reachable s0 s"
  shows "(\<forall>k. locked_of k (wallets s) = open_withdrawals k (withdrawals s) + open_stakes k (tickets s)
        + open_spin_stakes k (slotzilla_spins s)
      \<and> locked_of k (wallets s) \<le> balance_of k (wallets s))
    \<and> openLiabilityMicro (bank_state s) = open_liability s \<and> 0 \<le> open_liability s"
proof -
  have ok: "books_ok s" using reachable_ok(1) [OF assms(2,1)] .
  note parts = books_okD [OF ok]
  have "locked_of k (wallets s) \<le> balance_of k (wallets s)" for k
    unfolding locked_of_def balance_of_def sum_where_def
    using wallet_bounds(2) [OF parts(1)] by (intro sum_list_mono) simp
  moreover have "0 \<le> open_liability s"
    unfolding open_liability_def
    by (intro add_nonneg_nonneg sum_where_nonneg) (auto dest: ticket_bounds [OF parts(1)] spin_bounds [OF parts(1)])
  ultimately show ?thesis
    using locks_okD [OF parts(2)] parts(3) by (simp add: obligations_def liability_ok_def)
qed

theorem platform_books_balanced_witness:
  "\<exists>r t. place sample_bet_env 10000 ''t2'' live_single sample_ctx sample_db = (Inr (r, True), t)
     \<and> openLiabilityMicro (bank_state t) = open_liability t"
proof -
  obtain r t where run: "place sample_bet_env 10000 ''t2'' live_single sample_ctx sample_db = (Inr (r, True), t)"
    using live_single_run .
  then have "serve_api (sample_api None, Bet (PlaceBet ''t2'' live_single sample_ctx)) sample_db = (Inr (), t)"
    by (simp add: serve_api_def serve_bet_def unitC_def sample_api_def)
  then have "reachable sample_db t" by (rule reachable.call [OF reachable.start])
  then show ?thesis using run platform_books_balanced [OF sample_books_ok] by blast
qed

text \<open>C8: across any sequence of modelled calls a ticket keeps its identity, owner, currency, product,
  stake and payout, and its status only ever moves from accepted to voided or cashed out; a ticket that
  is not accepted is never touched again.\<close>

theorem ticket_lifecycle:
  assumes "books_ok s0" and "reachable s0 s" and "r \<in> set (tickets s0)"
  shows "\<exists>!r'. r' \<in> set (tickets s) \<and> t_id r' = t_id r \<and> (r' = r \<or> t_status r = accepted
    \<and> t_status r' \<in> {voided, cashed_out} \<and> t_userId r' = t_userId r \<and> t_currency r' = t_currency r
    \<and> t_betType r' = t_betType r \<and> t_stakeMicro r' = t_stakeMicro r
    \<and> t_potentialPayoutMicro r' = t_potentialPayoutMicro r)"
proof -
  note ok = reachable_ok [OF assms(2,1)]
  obtain r' where r': "r' \<in> set (tickets s)" "ticket_moves r r'"
    using ok(2) assms(3) by (auto simp: tickets_moved_def)
  have "t_status r = accepted \<and> t_status r' \<in> {voided, cashed_out}" if "ticket_step (t_status r) (t_status r')"
    using that by (cases "t_status r") auto
  then show ?thesis
    using r' distinct_key_inj [OF tickets_distinct [OF books_okD(1) [OF ok(1)]]]
    by (intro ex1I [of _ r']) (auto simp: ticket_moves_def)
qed

theorem ticket_lifecycle_witness:
  "\<exists>t. reachable sample_db t \<and> map t_status (tickets t) = [voided]
     \<and> (\<exists>!r'. r' \<in> set (tickets t) \<and> t_id r' = ''t1'' \<and> t_stakeMicro r' = 50)"
proof -
  let ?call = "(sample_api (Some \<lparr>ru_id = ''op'', ru_role = admin_r\<rparr>), Payment (VoidTicket ''t1'' ''late goal''))"
  obtain a t where run: "serve_api ?call sample_db = (a, t)" by (cases "serve_api ?call sample_db")
  have "map t_status (tickets (snd (serve_api ?call sample_db))) = [voided]" by code_simp
  then have st: "map t_status (tickets t) = [voided]" by (simp add: run)
  have reach: "reachable sample_db t" using run by (rule reachable.call [OF reachable.start])
  have mem: "sample_ticket \<in> set (tickets sample_db)" by (simp add: sample_db_def)
  obtain q where q: "tickets t = [q]" "t_status q = voided" using st by auto
  have "t_id q = ''t1'' \<and> t_stakeMicro q = 50"
    using ticket_lifecycle [OF sample_books_ok reach mem] q by (auto simp: sample_ticket_def)
  then show ?thesis using reach st q by auto
qed



end
